(* ===== verification/Prelude.thy ===== *)
theory Prelude
  imports
    Main
    "HOL-Library.Word"
    "HOL-Library.Char_ord"
    "HOL-Library.List_Lexorder"
    "HOL-Library.Multiset"
    "HOL-Library.Signed_Division"
begin

text \<open>
  Shared vocabulary of the development: the machine integers of the Rust sources, results and
  the sequencing of fallible steps (the \<open>?\<close> operator), byte strings with their lexicographic
  order, decimal formatting and parsing as the Rust standard library does them, and the generic
  lemmas on lists, words and strings that the component theories rely on.

  Rust strings are UTF-8 byte sequences and are modelled as \<^typ>\<open>string\<close>, one \<^typ>\<open>char\<close> per
  byte; the order on \<^typ>\<open>string\<close> (theories \<open>Char_ord\<close> and \<open>List_Lexorder\<close>) is then the order of
  byte slices.  Unsigned integers are words.  Plain \<open>+\<close>, \<open>-\<close> and \<open>*\<close> on words wrap around, as in a
  release build of the workspace (no profile in the Cargo files turns overflow checks on).
\<close>

named_theorems sat_simps \<open>saturating arithmetic on words, read through unat\<close>
named_theorems res_simps \<open>unfolding of result sequencing\<close>

section \<open>Machine integers\<close>

type_synonym u8 = "8 word"
type_synonym u32 = "32 word"
type_synonym u64 = "64 word"
type_synonym i64 = "64 word"

text \<open>\<open>u64::saturating_sub\<close>, \<open>saturating_add\<close> and \<open>saturating_mul\<close>.\<close>

definition sat_sub :: "'a::len word \<Rightarrow> 'a word \<Rightarrow> 'a word" where
  "sat_sub a b = (if a \<le> b then 0 else a - b)"

definition sat_add :: "'a::len word \<Rightarrow> 'a word \<Rightarrow> 'a word" where
  "sat_add a b = (if unat a + unat b < 2 ^ LENGTH('a) then a + b else - 1)"

definition sat_mul :: "'a::len word \<Rightarrow> 'a word \<Rightarrow> 'a word" where
  "sat_mul a b = (if unat a * unat b < 2 ^ LENGTH('a) then a * b else - 1)"

lemma sat_mul_code [code]:
  "sat_mul a b = (if uint a * uint b < 2 ^ LENGTH('a) then a * b else - 1)" for a b :: "'a::len word"
proof -
  have "int (unat a * unat b) < int (2 ^ LENGTH('a)) \<longleftrightarrow> uint a * uint b < 2 ^ LENGTH('a)"
    by (simp only: of_nat_mult uint_nat of_nat_power of_nat_numeral)
  then show ?thesis by (simp only: sat_mul_def of_nat_less_iff)
qed

lemma sat_add_code [code]:
  "sat_add a b = (if uint a + uint b < 2 ^ LENGTH('a) then a + b else - 1)" for a b :: "'a::len word"
proof -
  have "int (unat a + unat b) < int (2 ^ LENGTH('a)) \<longleftrightarrow> uint a + uint b < 2 ^ LENGTH('a)"
    by (simp only: of_nat_add uint_nat of_nat_power of_nat_numeral)
  then show ?thesis by (simp only: sat_add_def of_nat_less_iff)
qed

lemma unat_sat_sub [sat_simps]: "unat (sat_sub a b) = unat a - unat b"
  by (auto simp: sat_sub_def unat_sub word_le_nat_alt)

lemma unat_minus_one_word: "unat (- 1 :: 'a::len word) = 2 ^ LENGTH('a) - 1"
  by (simp add: unsigned_minus_1_eq_mask mask_eq_exp_minus_1)

lemma unat_sat_add [sat_simps]:
  "unat (sat_add a b) = min (unat a + unat b) (2 ^ LENGTH('a) - 1)" for a b :: "'a::len word"
proof (cases "unat a + unat b < 2 ^ LENGTH('a)")
  case True
  then show ?thesis by (simp add: sat_add_def unat_word_ariths min_absorb1)
next
  case False
  then have "2 ^ LENGTH('a) - 1 \<le> unat a + unat b" by linarith
  then show ?thesis using False by (simp add: sat_add_def unat_minus_one_word min_absorb2)
qed

lemma unat_sat_mul [sat_simps]:
  "unat (sat_mul a b) = min (unat a * unat b) (2 ^ LENGTH('a) - 1)" for a b :: "'a::len word"
proof (cases "unat a * unat b < 2 ^ LENGTH('a)")
  case True
  then show ?thesis by (simp add: sat_mul_def unat_word_ariths min_absorb1)
next
  case False
  then have "2 ^ LENGTH('a) - 1 \<le> unat a * unat b" by linarith
  then show ?thesis using False by (simp add: sat_mul_def unat_minus_one_word min_absorb2)
qed

lemma unat_le_max: "unat w \<le> 2 ^ LENGTH('a) - 1" for w :: "'a::len word"
  using unsigned_less [of w, where ?'a = nat] by linarith

text \<open>An accumulation with saturating additions is the sum, cut off at the largest value.\<close>

lemma unat_foldl_sat_add:
  "unat (foldl (\<lambda>a x. sat_add a (f x)) a xs) = min (unat a + (\<Sum>x\<leftarrow>xs. unat (f x))) (2 ^ LENGTH('a) - 1)"
  for a :: "'a::len word"
proof (induction xs arbitrary: a)
  case Nil
  show ?case using unat_le_max [of a] by simp
next
  case (Cons x xs)
  show ?case unfolding foldl_Cons Cons unat_sat_add list.map sum_list.Cons by linarith
qed

lemma sat_sub_le: "sat_sub a b \<le> a"
  by (simp add: word_le_nat_alt unat_sat_sub)

lemma sat_add_ge1: "a \<le> sat_add a b" for a b :: "'a::len word"
proof -
  have "unat a < 2 ^ LENGTH('a)" by simp
  then have "unat a \<le> 2 ^ LENGTH('a) - 1" by linarith
  then show ?thesis by (simp add: word_le_nat_alt unat_sat_add)
qed

lemma sat_sub_zero [simp]: "sat_sub a 0 = a"
  by (simp add: word_unat_eq_iff unat_sat_sub)

lemma sint_small_u64: "uint x < 2 ^ 63 \<Longrightarrow> sint x = uint x" for x :: u64
proof -
  assume "uint x < 2 ^ 63"
  moreover have "- (2 ^ 63) \<le> uint x" by (rule order_trans [OF _ uint_ge_0]) simp
  ultimately have "signed_take_bit 63 (uint x) = uint x" by (intro signed_take_bit_int_eq_self)
  then show ?thesis by (simp add: sint_uint)
qed

lemma uint_word_of_int_neg: "- (2 ^ 64) \<le> i \<Longrightarrow> i < 0 \<Longrightarrow> uint (word_of_int i :: u64) = i + 2 ^ 64"
proof -
  assume "- (2 ^ 64) \<le> i" "i < 0"
  then have "i mod 2 ^ 64 = (i + 2 ^ 64) mod 2 ^ 64" "0 \<le> i + 2 ^ 64" "i + 2 ^ 64 < 2 ^ 64" by simp_all
  then have "i mod 2 ^ 64 = i + 2 ^ 64" by (metis mod_pos_pos_trivial)
  then show ?thesis by (simp add: unsigned_of_int take_bit_eq_mod)
qed

lemma unat_ucast_u64: "unat (ucast (w :: u32) :: u64) = unat w"
proof -
  have "unat w < 2 ^ LENGTH(32)" by (rule unsigned_less)
  then show ?thesis by (simp add: unsigned_ucast_eq take_bit_nat_eq_self del: of_nat_unat)
qed

lemma ucast_ucast_u32: "(ucast (ucast (w :: u32) :: u64) :: u32) = w"
  by (rule bit_word_eqI) (simp add: bit_unsigned_iff)

lemma div_days_le: "x < (m + 1) * 86400 \<Longrightarrow> x div 86400 \<le> m" for x m :: int
  using zdiv_mono1 [of x "m * 86400 + 86399" 86400] by simp

lemma uint_word_of_int_small: "0 \<le> i \<Longrightarrow> i < 2 ^ LENGTH('a) \<Longrightarrow> uint (word_of_int i :: 'a::len word) = i"
  by (simp add: unsigned_of_int take_bit_int_eq_self)

text \<open>The sum of a list of words, as \<open>iter().sum()\<close> computes it.\<close>

definition wsum :: "'a::len word list \<Rightarrow> 'a word" where
  "wsum ws = foldl (+) 0 ws"

lemma foldl_plus_word: "foldl (+) a ws = a + foldl (+) 0 ws" for a :: "'a::len word"
proof (induction ws arbitrary: a)
  case (Cons w ws)
  show ?case using Cons [of "a + w"] Cons [of w] by (simp add: add.assoc)
qed simp

lemma wsum_simps [simp]:
  "wsum [] = 0" "wsum (w # ws) = w + wsum ws" "wsum (us @ vs) = wsum us + wsum vs"
  using foldl_plus_word [of w ws] foldl_plus_word [of "foldl (+) 0 us" vs]
  by (simp_all add: wsum_def)

lemma wsum_sum_list: "wsum ws = sum_list ws"
  by (induction ws) simp_all

lemma unat_wsum_mod: "unat (wsum ws) = sum_list (map unat ws) mod 2 ^ LENGTH('a)"
  for ws :: "'a::len word list"
  by (induction ws) (simp_all add: unat_word_ariths mod_simps)

lemma unat_wsum: "sum_list (map unat ws) < 2 ^ LENGTH('a) \<Longrightarrow> unat (wsum ws) = sum_list (map unat ws)"
  for ws :: "'a::len word list"
  by (simp add: unat_wsum_mod)

lemma wsum_mset_cong: "mset us = mset vs \<Longrightarrow> wsum us = wsum vs"
  by (metis sum_mset_sum_list wsum_sum_list)

section \<open>Results\<close>

text \<open>
  A fallible function returns \<open>'e + 'a\<close>, with \<open>Inl\<close> the error; \<open>bindR\<close> is the \<open>?\<close> operator, which
  returns the error from the enclosing function.
\<close>

definition bindR :: "'e + 'a \<Rightarrow> ('a \<Rightarrow> 'e + 'b) \<Rightarrow> 'e + 'b" where
  "bindR m f = (case m of Inl e \<Rightarrow> Inl e | Inr x \<Rightarrow> f x)"

lemma bindR_simps [simp, res_simps]:
  "bindR (Inl e) f = Inl e" "bindR (Inr x) f = f x"
  by (simp_all add: bindR_def)

lemma bindR_eq_Inr: "bindR m f = Inr y \<longleftrightarrow> (\<exists>x. m = Inr x \<and> f x = Inr y)"
  by (cases m) simp_all

lemma bindR_eq_Inl: "bindR m f = Inl e \<longleftrightarrow> m = Inl e \<or> (\<exists>x. m = Inr x \<and> f x = Inl e)"
  by (cases m) simp_all

definition map_err :: "('e \<Rightarrow> 'f) \<Rightarrow> 'e + 'a \<Rightarrow> 'f + 'a" where
  "map_err g m = (case m of Inl e \<Rightarrow> Inl (g e) | Inr x \<Rightarrow> Inr x)"

lemma map_err_simps [simp, res_simps]:
  "map_err g (Inl e) = Inl (g e)" "map_err g (Inr x) = Inr x"
  by (simp_all add: map_err_def)

definition ok_opt :: "'e + 'a \<Rightarrow> 'a option" where
  "ok_opt m = (case m of Inl _ \<Rightarrow> None | Inr x \<Rightarrow> Some x)"

lemma ok_opt_simps [simp]: "ok_opt (Inl e) = None" "ok_opt (Inr x) = Some x"
  by (simp_all add: ok_opt_def)

definition unwrap_or :: "'a option \<Rightarrow> 'a \<Rightarrow> 'a" where
  "unwrap_or x d = (case x of None \<Rightarrow> d | Some y \<Rightarrow> y)"

lemma unwrap_or_simps [simp]: "unwrap_or None d = d" "unwrap_or (Some x) d = x"
  by (simp_all add: unwrap_or_def)

text \<open>Mapping a fallible function over a list, stopping at the first error (a \<open>for\<close> loop with \<open>?\<close>).\<close>

fun mapR :: "('a \<Rightarrow> 'e + 'b) \<Rightarrow> 'a list \<Rightarrow> 'e + 'b list" where
  "mapR f [] = Inr []"
| "mapR f (x # xs) = bindR (f x) (\<lambda>y. bindR (mapR f xs) (\<lambda>ys. Inr (y # ys)))"

lemma mapR_Inr: "(\<And>x. x \<in> set xs \<Longrightarrow> f x = Inr (g x)) \<Longrightarrow> mapR f xs = Inr (map g xs)"
  by (induction xs) auto

lemma mapR_map: "mapR f (map g xs) = mapR (\<lambda>x. f (g x)) xs"
  by (induction xs) simp_all

lemma mapR_Inr_length: "mapR f xs = Inr ys \<Longrightarrow> length ys = length xs"
  by (induction xs arbitrary: ys) (auto simp: bindR_eq_Inr)

section \<open>Byte strings\<close>

lemma append_less_append:
  "length xs = length ys \<Longrightarrow> xs @ us < ys @ vs \<longleftrightarrow> xs < ys \<or> xs = ys \<and> us < vs"
  for xs ys us vs :: "'a::linorder list"
  by (induction xs ys rule: list_induct2) auto

lemma append_le_append:
  "length xs = length ys \<Longrightarrow> xs @ us \<le> ys @ vs \<longleftrightarrow> xs < ys \<or> xs = ys \<and> us \<le> vs"
  for xs ys us vs :: "'a::linorder list"
  by (induction xs ys rule: list_induct2) auto

text \<open>\<open>str::split\<close> on a character: one part more than there are separators.\<close>

fun split_on :: "char \<Rightarrow> string \<Rightarrow> string list" where
  "split_on c [] = [[]]"
| "split_on c (x # xs) =
     (if x = c then [] # split_on c xs
      else (case split_on c xs of [] \<Rightarrow> [[x]] | p # ps \<Rightarrow> (x # p) # ps))"

lemma split_on_ne [simp]: "split_on c xs \<noteq> []"
  by (cases xs) (auto split: list.split)

lemma length_split_on: "length (split_on c xs) = Suc (count_list xs c)"
  by (induction xs) (auto split: list.split)

lemma split_on_noocc: "c \<notin> set xs \<Longrightarrow> split_on c xs = [xs]"
  by (induction xs) auto

lemma split_on_append: "c \<notin> set xs \<Longrightarrow> split_on c (xs @ c # ys) = xs # split_on c ys"
  by (induction xs) auto

section \<open>Decimal numbers\<close>

definition digit :: "nat \<Rightarrow> char" where
  "digit n = char_of (48 + n)"

definition is_digit :: "char \<Rightarrow> bool" where
  "is_digit c \<longleftrightarrow> CHR ''0'' \<le> c \<and> c \<le> CHR ''9''"

definition digit_val :: "char \<Rightarrow> nat" where
  "digit_val c = of_char c - 48"

lemma of_char_digit: "n < 10 \<Longrightarrow> (of_char (digit n) :: nat) = 48 + n"
  by (simp add: digit_def)

lemma is_digit_code: "is_digit c \<longleftrightarrow> 48 \<le> (of_char c :: nat) \<and> of_char c \<le> (57 :: nat)"
  by (simp add: is_digit_def less_eq_char_def)

lemma is_digit_digit [simp]: "n < 10 \<Longrightarrow> is_digit (digit n)"
  by (simp add: is_digit_code of_char_digit)

lemma digit_val_digit [simp]: "n < 10 \<Longrightarrow> digit_val (digit n) = n"
  by (simp add: digit_val_def of_char_digit)

lemma digit_less: "m < 10 \<Longrightarrow> n < 10 \<Longrightarrow> digit m < digit n \<longleftrightarrow> m < n"
  by (simp add: less_char_def of_char_digit)

lemma digit_inj: "m < 10 \<Longrightarrow> n < 10 \<Longrightarrow> digit m = digit n \<longleftrightarrow> m = n"
  by (metis digit_val_digit)

text \<open>\<open>to_string\<close> of an unsigned integer, and the padding of \<open>format!(\"{:0w}\")\<close>.\<close>

fun dec :: "nat \<Rightarrow> string" where
  "dec n = (if n < 10 then [digit n] else dec (n div 10) @ [digit (n mod 10)])"

declare dec.simps [simp del]

definition pad_left :: "nat \<Rightarrow> char \<Rightarrow> string \<Rightarrow> string" where
  "pad_left w c s = replicate (w - length s) c @ s"

text \<open>The fixed-width rendering that zero padding amounts to.\<close>

fun dec_fixed :: "nat \<Rightarrow> nat \<Rightarrow> string" where
  "dec_fixed 0 n = []"
| "dec_fixed (Suc w) n = dec_fixed w (n div 10) @ [digit (n mod 10)]"

lemma length_dec_fixed [simp]: "length (dec_fixed w n) = w"
  by (induction w arbitrary: n) auto

lemma dec_fixed_zero: "dec_fixed w 0 = replicate w (digit 0)"
  by (induction w) (simp_all add: replicate_append_same)

lemma length_dec: "n < 10 ^ Suc w \<Longrightarrow> length (dec n) \<le> Suc w"
proof (induction w arbitrary: n)
  case 0
  then show ?case by (subst dec.simps) simp
next
  case (Suc w)
  then have "n div 10 < 10 ^ Suc w" by simp
  then have "length (dec (n div 10)) \<le> Suc w" by (rule Suc.IH)
  then show ?case by (subst dec.simps) simp
qed

lemma pad_left_dec:
  "0 < w \<Longrightarrow> n < 10 ^ w \<Longrightarrow> pad_left w (digit 0) (dec n) = dec_fixed w n"
proof (induction w arbitrary: n)
  case (Suc w)
  show ?case
  proof (cases "n < 10")
    case True
    then show ?thesis by (simp add: dec.simps [of n] pad_left_def dec_fixed_zero)
  next
    case False
    have w: "0 < w" using False Suc.prems(2) by (cases w) auto
    have "pad_left (Suc w) (digit 0) (dec n)
        = pad_left w (digit 0) (dec (n div 10)) @ [digit (n mod 10)]"
      using False by (simp add: dec.simps [of n] pad_left_def)
    then show ?thesis using Suc.IH [OF w, of "n div 10"] Suc.prems(2) by simp
  qed
qed simp

lemma iff_if_less_iff: "(f m < f n \<longleftrightarrow> m < n) \<Longrightarrow> (f n < f m \<longleftrightarrow> n < m) \<Longrightarrow> f m = f n \<longleftrightarrow> m = n"
  for f :: "'a::linorder \<Rightarrow> 'b::linorder"
  by (cases m n rule: linorder_cases) auto

lemma dec_fixed_less:
  "m < 10 ^ w \<Longrightarrow> n < 10 ^ w \<Longrightarrow> dec_fixed w m < dec_fixed w n \<longleftrightarrow> m < n"
proof (induction w arbitrary: m n)
  case (Suc w)
  have b: "m div 10 < 10 ^ w" "n div 10 < 10 ^ w" using Suc.prems by auto
  note lt = Suc.IH [OF b] and gt = Suc.IH [OF b(2,1)]
  have eq: "dec_fixed w (m div 10) = dec_fixed w (n div 10) \<longleftrightarrow> m div 10 = n div 10"
    using lt gt by (rule iff_if_less_iff)
  have "m < n \<longleftrightarrow> m div 10 < n div 10 \<or> m div 10 = n div 10 \<and> m mod 10 < n mod 10"
    using div_mult_mod_eq [of m 10] div_mult_mod_eq [of n 10] mod_less_divisor [of 10 m]
      mod_less_divisor [of 10 n] by linarith
  then show ?case by (simp add: append_less_append eq lt digit_less)
qed simp

lemma dec_fixed_inj:
  "m < 10 ^ w \<Longrightarrow> n < 10 ^ w \<Longrightarrow> dec_fixed w m = dec_fixed w n \<longleftrightarrow> m = n"
  by (rule iff_if_less_iff [of "dec_fixed w"]) (simp_all add: dec_fixed_less)

lemma dec_fixed_digits: "c \<in> set (dec_fixed w n) \<Longrightarrow> is_digit c"
  by (induction w arbitrary: n) auto

text \<open>
  \<open>str::parse\<close> at an unsigned type with \<open>lim\<close> values: an optional \<open>+\<close>, then digits, each step
  checked for overflow; an empty string and a lone sign are errors.
\<close>

datatype parse_error = ParseEmpty | InvalidDigit | PosOverflow | NegOverflow

fun parse_digits :: "nat \<Rightarrow> nat \<Rightarrow> string \<Rightarrow> parse_error + nat" where
  "parse_digits lim acc [] = Inr acc"
| "parse_digits lim acc (c # cs) =
     (if \<not> is_digit c then Inl InvalidDigit
      else (let v = acc * 10 + digit_val c
            in if lim \<le> v then Inl PosOverflow else parse_digits lim v cs))"

definition parse_unsigned :: "nat \<Rightarrow> string \<Rightarrow> parse_error + nat" where
  "parse_unsigned lim s =
     (case s of
        [] \<Rightarrow> Inl ParseEmpty
      | c # cs \<Rightarrow>
          if cs = [] \<and> (c = CHR ''+'' \<or> c = CHR ''-'') then Inl InvalidDigit
          else if c = CHR ''+'' then parse_digits lim 0 cs
          else parse_digits lim 0 s)"

definition parse_u64 :: "string \<Rightarrow> parse_error + u64" where
  "parse_u64 s = bindR (parse_unsigned (2 ^ 64) s) (\<lambda>n. Inr (of_nat n))"

definition parse_u32 :: "string \<Rightarrow> parse_error + u32" where
  "parse_u32 s = bindR (parse_unsigned (2 ^ 32) s) (\<lambda>n. Inr (of_nat n))"

lemma parse_digits_append:
  "parse_digits lim acc (xs @ ys) = bindR (parse_digits lim acc xs) (\<lambda>v. parse_digits lim v ys)"
  by (induction xs arbitrary: acc) (auto simp: Let_def)

lemma parse_digits_dec_fixed:
  "n < 10 ^ w \<Longrightarrow> n < lim \<Longrightarrow> parse_digits lim 0 (dec_fixed w n) = Inr n"
proof (induction w arbitrary: n)
  case (Suc w)
  then have "parse_digits lim 0 (dec_fixed w (n div 10)) = Inr (n div 10)"
    by (intro Suc.IH) auto
  then show ?case using Suc.prems by (simp add: parse_digits_append Let_def)
qed simp

lemma not_sign_if_digit: "is_digit c \<Longrightarrow> c \<noteq> CHR ''+'' \<and> c \<noteq> CHR ''-''"
  by (auto simp: is_digit_code)

lemma parse_unsigned_dec_fixed:
  assumes "n < 10 ^ Suc w" and "n < lim"
  shows "parse_unsigned lim (dec_fixed (Suc w) n) = Inr n"
proof -
  obtain c cs where s: "dec_fixed (Suc w) n = c # cs"
    by (cases "dec_fixed (Suc w) n") auto
  have "is_digit c" using dec_fixed_digits [of c "Suc w" n] s by (simp del: dec_fixed.simps)
  then show ?thesis
    using parse_digits_dec_fixed [OF assms] not_sign_if_digit [of c] s
    by (simp add: parse_unsigned_def del: dec_fixed.simps)
qed

lemma dec_as_fixed: "dec n = dec_fixed (length (dec n)) n"
proof (induction n rule: dec.induct)
  case (1 n)
  show ?case
  proof (cases "n < 10")
    case True
    then show ?thesis by (simp add: dec.simps [of n])
  next
    case False
    then show ?thesis using 1 [OF False] by (simp add: dec.simps [of n])
  qed
qed

lemma dec_bound: "n < 10 ^ length (dec n)"
proof (induction n rule: dec.induct)
  case (1 n)
  show ?case
  proof (cases "n < 10")
    case False
    then have "dec n = dec (n div 10) @ [digit (n mod 10)]" by (simp add: dec.simps [of n])
    moreover have "n div 10 < 10 ^ length (dec (n div 10))" by (rule 1 [OF False])
    ultimately show ?thesis by (simp add: less_mult_imp_div_less div_less_iff_less_mult)
  qed (simp add: dec.simps [of n])
qed

lemma dec_nonempty [simp]: "dec n \<noteq> []"
  by (subst dec.simps) simp

lemma dec_digits: "c \<in> set (dec n) \<Longrightarrow> is_digit c"
  using dec_fixed_digits dec_as_fixed by metis

lemma parse_unsigned_dec: "n < lim \<Longrightarrow> parse_unsigned lim (dec n) = Inr n"
proof -
  assume "n < lim"
  moreover obtain w where "length (dec n) = Suc w" by (cases "dec n") simp_all
  ultimately show ?thesis
    using parse_unsigned_dec_fixed [of n w lim] dec_bound [of n] dec_as_fixed [of n] by simp
qed

lemma parse_u64_dec: "parse_u64 (dec (unat x)) = Inr x"
proof -
  have "unat x < 2 ^ 64" using unsigned_less [of x, where ?'a = nat] by simp
  then show ?thesis by (simp only: parse_u64_def parse_unsigned_dec bindR_simps of_nat_unat ucast_id)
qed

section \<open>UTF-8\<close>

text \<open>
  \<open>String::from_utf8\<close> accepts exactly the well-formed byte sequences of RFC 3629: no overlong
  forms, no surrogates, nothing above U+10FFFF.
\<close>

definition byte_in :: "nat \<Rightarrow> nat \<Rightarrow> char \<Rightarrow> bool" where
  "byte_in lo hi c \<longleftrightarrow> lo \<le> of_char c \<and> of_char c \<le> hi"

abbreviation cont_byte :: "char \<Rightarrow> bool" where
  "cont_byte \<equiv> byte_in 128 191"

fun utf8_valid :: "string \<Rightarrow> bool" where
  "utf8_valid [] = True"
| "utf8_valid (a # r) =
     (if byte_in 0 127 a then utf8_valid r
      else (case r of
        [] \<Rightarrow> False
      | b # r2 \<Rightarrow>
        if byte_in 194 223 a then cont_byte b \<and> utf8_valid r2
        else (case r2 of
          [] \<Rightarrow> False
        | c # r3 \<Rightarrow>
          if byte_in 224 239 a then
            (if byte_in 224 224 a then byte_in 160 191 b
             else if byte_in 237 237 a then byte_in 128 159 b
             else cont_byte b) \<and> cont_byte c \<and> utf8_valid r3
          else (case r3 of
            [] \<Rightarrow> False
          | d # r4 \<Rightarrow>
            byte_in 240 244 a \<and>
            (if byte_in 240 240 a then byte_in 144 191 b
             else if byte_in 244 244 a then byte_in 128 143 b
             else cont_byte b) \<and> cont_byte c \<and> cont_byte d \<and> utf8_valid r4))))"

definition ascii :: "string \<Rightarrow> bool" where
  "ascii s \<longleftrightarrow> list_all (byte_in 0 127) s"

lemma utf8_valid_ascii_append: "ascii xs \<Longrightarrow> utf8_valid (xs @ ys) \<longleftrightarrow> utf8_valid ys"
  by (induction xs) (auto simp: ascii_def)

lemma utf8_valid_ascii: "ascii xs \<Longrightarrow> utf8_valid xs"
  using utf8_valid_ascii_append [of xs "[]"] by simp

lemma ascii_append [simp]: "ascii (xs @ ys) \<longleftrightarrow> ascii xs \<and> ascii ys"
  by (simp add: ascii_def)

lemma ascii_Cons [simp]: "ascii (c # xs) \<longleftrightarrow> byte_in 0 127 c \<and> ascii xs"
  and ascii_Nil [simp]: "ascii []"
  by (simp_all add: ascii_def)

lemma ascii_digits: "(\<And>c. c \<in> set xs \<Longrightarrow> is_digit c) \<Longrightarrow> ascii xs"
  by (fastforce simp: ascii_def list_all_iff byte_in_def is_digit_code)

section \<open>Stable sorting with a comparator\<close>

text \<open>
  \<open>slice::sort_by\<close> is a stable sort.  Stable sorting by a comparator that is a total preorder has
  exactly one result, computed here by insertion; \<open>le a b\<close> says that the comparator does not put
  \<open>a\<close> after \<open>b\<close>.
\<close>

fun insert_by :: "('a \<Rightarrow> 'a \<Rightarrow> bool) \<Rightarrow> 'a \<Rightarrow> 'a list \<Rightarrow> 'a list" where
  "insert_by le x [] = [x]"
| "insert_by le x (y # ys) = (if le x y then x # y # ys else y # insert_by le x ys)"

definition sort_by :: "('a \<Rightarrow> 'a \<Rightarrow> bool) \<Rightarrow> 'a list \<Rightarrow> 'a list" where
  "sort_by le xs = foldr (insert_by le) xs []"

lemma mset_insert_by [simp]: "mset (insert_by le x xs) = add_mset x (mset xs)"
  by (induction xs) auto

lemma mset_sort_by [simp]: "mset (sort_by le xs) = mset xs"
  unfolding sort_by_def by (induction xs) auto

lemma set_sort_by [simp]: "set (sort_by le xs) = set xs"
  by (metis mset_sort_by set_mset_mset)

lemma length_sort_by [simp]: "length (sort_by le xs) = length xs"
  by (metis mset_sort_by size_mset)

lemma set_insert_by [simp]: "set (insert_by le x xs) = insert x (set xs)"
  by (metis list.set_intros(1) mset_insert_by mset.simps(2) set_mset_mset list.simps(15))

definition total_preorder_on :: "'a set \<Rightarrow> ('a \<Rightarrow> 'a \<Rightarrow> bool) \<Rightarrow> bool" where
  "total_preorder_on A le \<longleftrightarrow>
     (\<forall>x\<in>A. \<forall>y\<in>A. le x y \<or> le y x) \<and> (\<forall>x\<in>A. \<forall>y\<in>A. \<forall>z\<in>A. le x y \<longrightarrow> le y z \<longrightarrow> le x z)"

lemma total_preorder_on_subset: "total_preorder_on A le \<Longrightarrow> B \<subseteq> A \<Longrightarrow> total_preorder_on B le"
  unfolding total_preorder_on_def by (meson subsetD)

lemma total_preorder_on_trans:
  assumes "total_preorder_on A le" and "le x y" and "le y z" and "x \<in> A" and "y \<in> A" and "z \<in> A"
  shows "le x z"
  using assms unfolding total_preorder_on_def by blast

lemma sorted_insert_by:
  "total_preorder_on (insert x (set xs)) le \<Longrightarrow> sorted_wrt le xs \<Longrightarrow> sorted_wrt le (insert_by le x xs)"
proof (induction xs)
  case (Cons y ys)
  have sub: "total_preorder_on (insert x (set ys)) le"
    using Cons.prems(1) by (rule total_preorder_on_subset) auto
  show ?case
  proof (cases "le x y")
    case True
    have "le x z" if z: "z \<in> set ys" for z
    proof -
      have "le y z" using Cons.prems(2) z by simp
      with True show ?thesis by (rule total_preorder_on_trans [OF Cons.prems(1)]) (use z in auto)
    qed
    then show ?thesis using True Cons.prems(2) by simp
  next
    case False
    then have "le y x" using Cons.prems(1) by (auto simp: total_preorder_on_def)
    then show ?thesis using False Cons.IH [OF sub] Cons.prems(2) by simp
  qed
qed simp

lemma sorted_sort_by: "total_preorder_on (set xs) le \<Longrightarrow> sorted_wrt le (sort_by le xs)"
proof (induction xs)
  case (Cons x xs)
  have "total_preorder_on (set xs) le"
    using Cons.prems by (rule total_preorder_on_subset) auto
  then have "sorted_wrt le (sort_by le xs)" by (rule Cons.IH)
  then show ?case
    using sorted_insert_by [of x "sort_by le xs" le] Cons.prems by (simp add: sort_by_def [of le "x # xs"] sort_by_def [of le xs, symmetric])
qed (simp add: sort_by_def)

text \<open>Stability: the elements a predicate selects keep their order when none of them is moved.\<close>

lemma filter_insert_by:
  "(\<And>y. y \<in> set xs \<Longrightarrow> P x \<Longrightarrow> P y \<Longrightarrow> le x y) \<Longrightarrow>
   filter P (insert_by le x xs) = filter P (x # xs)"
  by (induction xs) auto

lemma sort_by_stable:
  "(\<And>x y. x \<in> set xs \<Longrightarrow> y \<in> set xs \<Longrightarrow> P x \<Longrightarrow> P y \<Longrightarrow> le x y) \<Longrightarrow>
   filter P (sort_by le xs) = filter P xs"
proof (induction xs)
  case (Cons x xs)
  have "filter P (sort_by le (x # xs)) = filter P (x # sort_by le xs)"
    unfolding sort_by_def foldr.simps o_def
    by (rule filter_insert_by) (use Cons.prems in \<open>auto simp flip: sort_by_def\<close>)
  then show ?case using Cons by simp
qed (simp add: sort_by_def)

lemma insert_by_id: "(\<And>y. y \<in> set xs \<Longrightarrow> le x y) \<Longrightarrow> insert_by le x xs = x # xs"
  by (cases xs) auto

lemma sort_by_id: "sorted_wrt le xs \<Longrightarrow> sort_by le xs = xs"
proof (induction xs)
  case (Cons x xs)
  then show ?case using insert_by_id [of xs le x] by (simp add: sort_by_def)
qed (simp add: sort_by_def)

end
