(* ===== verification/Floats.thy ===== *)
theory Floats
  imports Prelude Complex_Main "HOL-Library.Log_Nat"
begin

text \<open>
  The binary floating-point numbers of the Rust sources (\<open>f32\<close> and \<open>f64\<close>, IEEE 754 with
  round-to-nearest, ties to even).  A value is an exact rational, a signed zero, an infinity or
  a NaN; every arithmetic operation computes the exact rational result and rounds it once, as
  the standard prescribes.  The definitions compute, and the lemmas give what the component
  proofs need: rounding is monotone, exact on representable values, and therefore never crosses
  a representable bound.
\<close>

named_theorems fl_simps \<open>values of floating-point operations on finite arguments\<close>

section \<open>Formats and values\<close>

datatype ffmt = F32 | F64

text \<open>Precision in bits, exponent of the smallest subnormal, and exponent of the overflow bound.\<close>

primrec fprec :: "ffmt \<Rightarrow> nat" where
  "fprec F32 = 24"
| "fprec F64 = 53"

primrec fulp_min :: "ffmt \<Rightarrow> int" where
  "fulp_min F32 = - 149"
| "fulp_min F64 = - 1074"

primrec fexp_max :: "ffmt \<Rightarrow> int" where
  "fexp_max F32 = 128"
| "fexp_max F64 = 1024"

datatype fl = NaN | PInf | NInf | NZero | Num rat

abbreviation fzero :: fl where "fzero \<equiv> Num 0"

primrec fval :: "fl \<Rightarrow> rat" where
  "fval NaN = 0"
| "fval PInf = 0"
| "fval NInf = 0"
| "fval NZero = 0"
| "fval (Num q) = q"

primrec ffinite :: "fl \<Rightarrow> bool" where
  "ffinite NaN = False"
| "ffinite PInf = False"
| "ffinite NInf = False"
| "ffinite NZero = True"
| "ffinite (Num q) = True"

primrec fneg :: "fl \<Rightarrow> bool" where
  "fneg NaN = False"
| "fneg PInf = False"
| "fneg NInf = True"
| "fneg NZero = True"
| "fneg (Num q) = (q < 0)"

section \<open>Rounding\<close>

text \<open>The binary exponent of a positive rational, from the bit lengths of its fraction.\<close>

definition ilog2 :: "rat \<Rightarrow> int" where
  "ilog2 q =
     (let (a, b) = quotient_of q; e = bitlen a - bitlen b
      in if 2 powi e \<le> q then e else e - 1)"

definition round_even :: "rat \<Rightarrow> int" where
  "round_even x =
     (let f = \<lfloor>x\<rfloor>; r = x - of_int f
      in if r < 1 / 2 \<or> r = 1 / 2 \<and> even f then f else f + 1)"

definition ulp_exp :: "ffmt \<Rightarrow> rat \<Rightarrow> int" where
  "ulp_exp f q = max (ilog2 q - (int (fprec f) - 1)) (fulp_min f)"

definition rnd_mag :: "ffmt \<Rightarrow> rat \<Rightarrow> rat" where
  "rnd_mag f q =
     (if q = 0 then 0
      else (let k = ulp_exp f q in of_int (round_even (q / 2 powi k)) * 2 powi k))"

definition rnd :: "ffmt \<Rightarrow> bool \<Rightarrow> rat \<Rightarrow> fl" where
  "rnd f neg q =
     (let v = rnd_mag f \<bar>q\<bar>
      in if v = 0 then (if neg then NZero else fzero)
         else if 2 powi fexp_max f \<le> v then (if q < 0 then NInf else PInf)
         else Num (if q < 0 then - v else v))"

section \<open>Operations\<close>

fun fadd :: "ffmt \<Rightarrow> fl \<Rightarrow> fl \<Rightarrow> fl" where
  "fadd f NaN y = NaN"
| "fadd f x NaN = NaN"
| "fadd f PInf y = (if y = NInf then NaN else PInf)"
| "fadd f NInf y = (if y = PInf then NaN else NInf)"
| "fadd f x PInf = PInf"
| "fadd f x NInf = NInf"
| "fadd f x y = (if x = NZero \<and> y = NZero then NZero else rnd f False (fval x + fval y))"

definition finf :: "bool \<Rightarrow> fl" where
  "finf neg = (if neg then NInf else PInf)"

definition fsigned_zero :: "bool \<Rightarrow> fl" where
  "fsigned_zero neg = (if neg then NZero else fzero)"

definition is_inf :: "fl \<Rightarrow> bool" where
  "is_inf x \<longleftrightarrow> x = PInf \<or> x = NInf"

definition fmul :: "ffmt \<Rightarrow> fl \<Rightarrow> fl \<Rightarrow> fl" where
  "fmul f x y =
     (let neg = (fneg x \<noteq> fneg y) in
      if x = NaN \<or> y = NaN then NaN
      else if is_inf x then (if ffinite y \<and> fval y = 0 then NaN else finf neg)
      else if is_inf y then (if fval x = 0 then NaN else finf neg)
      else rnd f neg (fval x * fval y))"

definition fdiv :: "ffmt \<Rightarrow> fl \<Rightarrow> fl \<Rightarrow> fl" where
  "fdiv f x y =
     (let neg = (fneg x \<noteq> fneg y) in
      if x = NaN \<or> y = NaN then NaN
      else if is_inf x then (if is_inf y then NaN else finf neg)
      else if is_inf y then fsigned_zero neg
      else if fval y = 0 then (if fval x = 0 then NaN else finf neg)
      else rnd f neg (fval x / fval y))"

text \<open>Comparisons: NaN is unordered, both zeros are equal.\<close>

primrec frank :: "fl \<Rightarrow> int" where
  "frank NaN = 0"
| "frank PInf = 1"
| "frank NInf = - 1"
| "frank NZero = 0"
| "frank (Num q) = 0"

definition flt :: "fl \<Rightarrow> fl \<Rightarrow> bool" where
  "flt x y \<longleftrightarrow> x \<noteq> NaN \<and> y \<noteq> NaN \<and>
     (frank x < frank y \<or> frank x = frank y \<and> fval x < fval y)"

definition fle :: "fl \<Rightarrow> fl \<Rightarrow> bool" where
  "fle x y \<longleftrightarrow> x \<noteq> NaN \<and> y \<noteq> NaN \<and>
     (frank x < frank y \<or> frank x = frank y \<and> fval x \<le> fval y)"

text \<open>\<open>f32::max\<close> and \<open>f32::clamp\<close>.\<close>

definition fmax :: "fl \<Rightarrow> fl \<Rightarrow> fl" where
  "fmax x y = (if x = NaN then y else if y = NaN then x else if flt x y then y else x)"

definition fclamp :: "fl \<Rightarrow> fl \<Rightarrow> fl \<Rightarrow> fl" where
  "fclamp lo hi x = (if flt x lo then lo else if flt hi x then hi else x)"

text \<open>\<open>iter().sum()\<close> over floats starts from negative zero.\<close>

definition fsum :: "ffmt \<Rightarrow> fl list \<Rightarrow> fl" where
  "fsum f xs = foldl (fadd f) NZero xs"

text \<open>The \<open>as\<close> casts, and \<open>f64::round\<close> (ties away from zero).\<close>

definition of_word :: "ffmt \<Rightarrow> 'a::len word \<Rightarrow> fl" where
  "of_word f w = rnd f False (of_nat (unat w))"

definition of_len :: "ffmt \<Rightarrow> nat \<Rightarrow> fl" where
  "of_len f n = rnd f False (of_nat n)"

primrec fcast :: "ffmt \<Rightarrow> fl \<Rightarrow> fl" where
  "fcast f NaN = NaN"
| "fcast f PInf = PInf"
| "fcast f NInf = NInf"
| "fcast f NZero = NZero"
| "fcast f (Num q) = rnd f (q < 0) q"

primrec to_word :: "fl \<Rightarrow> 'a::len word" where
  "to_word NaN = 0"
| "to_word PInf = - 1"
| "to_word NInf = 0"
| "to_word NZero = 0"
| "to_word (Num q) =
     (if q \<le> 0 then 0 else if 2 ^ LENGTH('a) \<le> \<lfloor>q\<rfloor> then - 1 else of_int \<lfloor>q\<rfloor>)"

primrec fround :: "fl \<Rightarrow> fl" where
  "fround NaN = NaN"
| "fround PInf = PInf"
| "fround NInf = NInf"
| "fround NZero = NZero"
| "fround (Num q) =
     (let r = \<lfloor>\<bar>q\<bar> + 1 / 2\<rfloor>
      in if q < 0 then (if r = 0 then NZero else Num (- of_int r)) else Num (of_int r))"

text \<open>The value of a decimal literal of the source.\<close>

definition lit :: "ffmt \<Rightarrow> rat \<Rightarrow> fl" where
  "lit f q = rnd f (q < 0) q"

section \<open>Rounding to integers and exponents\<close>

lemma round_even_ge: "of_int n \<le> x \<Longrightarrow> n \<le> round_even x"
  by (auto simp: round_even_def Let_def le_floor_iff intro: order_trans [of n "\<lfloor>x\<rfloor>"])

lemma round_even_le: "x \<le> of_int n \<Longrightarrow> round_even x \<le> n"
proof -
  assume h: "x \<le> of_int n"
  show ?thesis
  proof (cases "x = of_int n")
    case True
    then show ?thesis by (simp add: round_even_def)
  next
    case False
    then have "\<lfloor>x\<rfloor> < n" using h by (simp add: floor_less_iff)
    then show ?thesis by (simp add: round_even_def Let_def)
  qed
qed

lemma round_even_of_int [simp]: "round_even (of_int n) = n"
  by (intro antisym round_even_le round_even_ge) auto

lemma round_even_mono: "x \<le> y \<Longrightarrow> round_even x \<le> round_even y"
proof (cases "\<lfloor>x\<rfloor> = \<lfloor>y\<rfloor>")
  case True
  moreover assume "x \<le> y"
  ultimately show ?thesis by (auto simp: round_even_def Let_def)
next
  case False
  assume h: "x \<le> y"
  then have "\<lfloor>x\<rfloor> + 1 \<le> \<lfloor>y\<rfloor>" using False floor_mono [OF h] by linarith
  moreover have "round_even x \<le> \<lfloor>x\<rfloor> + 1" by (simp add: round_even_def Let_def)
  moreover have "\<lfloor>y\<rfloor> \<le> round_even y" by (simp add: round_even_def Let_def)
  ultimately show ?thesis by linarith
qed

lemma bitlen_bounds_rat:
  assumes "0 < a"
  shows "2 powi (bitlen a - 1) \<le> (of_int a :: rat)" and "(of_int a :: rat) < 2 powi bitlen a"
proof -
  have b: "2 ^ nat (bitlen a - 1) \<le> a \<and> a < 2 ^ nat (bitlen a)"
    using bitlen_bounds [OF assms] .
  have p: "0 < bitlen a" using assms by (simp add: bitlen_nonneg bitlen_eq_zero_iff order_less_le)
  have "(of_int (2 ^ nat (bitlen a - 1)) :: rat) \<le> of_int a" using b by (simp only: of_int_le_iff)
  then show "2 powi (bitlen a - 1) \<le> (of_int a :: rat)" using p by (simp add: power_int_def)
  have "(of_int a :: rat) < of_int (2 ^ nat (bitlen a))" using b by (simp only: of_int_less_iff)
  then show "(of_int a :: rat) < 2 powi bitlen a" using p by (simp add: power_int_def)
qed

lemma ilog2_bounds:
  assumes q: "0 < q"
  shows "2 powi ilog2 q \<le> q" and "q < 2 powi (ilog2 q + 1)"
proof -
  obtain a b where ab: "quotient_of q = (a, b)" by fastforce
  have qv: "q = of_int a / of_int b" and b0: "0 < b"
    using quotient_of_div [OF ab] quotient_of_denom_pos [OF ab] by auto
  have a0: "0 < a" using q qv b0 by (simp add: zero_less_divide_iff)
  let ?e = "bitlen a - bitlen b"
  note A = bitlen_bounds_rat [OF a0] and B = bitlen_bounds_rat [OF b0]
  have bpos: "(0 :: rat) < of_int b" using b0 by simp
  have "q < 2 powi bitlen a / 2 powi (bitlen b - 1)"
    unfolding qv using A(2) B(1) bpos a0 by (intro frac_less) auto
  also have "\<dots> = 2 powi (?e + 1)"
    by (simp add: power_int_diff power_int_add)
  finally have up: "q < 2 powi (?e + 1)" .
  have "2 powi (bitlen a - 1) / 2 powi bitlen b \<le> q"
    unfolding qv using A(1) B(2) bpos a0 by (intro frac_le) auto
  also have "2 powi (bitlen a - 1) / 2 powi bitlen b = (2 powi (?e - 1) :: rat)"
    by (simp add: power_int_diff)
  finally have lo: "2 powi (?e - 1) \<le> q" .
  show "2 powi ilog2 q \<le> q" and "q < 2 powi (ilog2 q + 1)"
    using up lo by (auto simp: ilog2_def ab Let_def)
qed

lemma powi2_le_iff: "(2 powi a :: rat) \<le> 2 powi b \<longleftrightarrow> a \<le> b"
  using power_int_strict_increasing [of b a "2 :: rat"] power_int_increasing [of a b "2 :: rat"]
  by (cases "a \<le> b") auto

lemma ilog2_mono:
  assumes "0 < p" and "p \<le> q"
  shows "ilog2 p \<le> ilog2 q"
proof (rule ccontr)
  assume "\<not> ?thesis"
  then have "(2 powi (ilog2 q + 1) :: rat) \<le> 2 powi ilog2 p"
    by (intro power_int_increasing) auto
  then show False using ilog2_bounds [of p] ilog2_bounds [of q] assms by auto
qed

lemma ulp_exp_mono: "0 < p \<Longrightarrow> p \<le> q \<Longrightarrow> ulp_exp f p \<le> ulp_exp f q"
  unfolding ulp_exp_def using ilog2_mono [of p q] by linarith

section \<open>Representable values\<close>

definition frepr :: "ffmt \<Rightarrow> rat \<Rightarrow> bool" where
  "frepr f q \<longleftrightarrow> (\<exists>m e. q = of_int m * 2 powi e \<and> \<bar>m\<bar> < 2 ^ fprec f \<and> fulp_min f \<le> e)"

lemma powi2_split: "k \<le> j \<Longrightarrow> (2 powi j :: rat) = of_int (2 ^ nat (j - k)) * 2 powi k"
proof -
  assume "k \<le> j"
  then have "(2 powi j :: rat) = 2 powi (j - k) * 2 powi k"
    by (simp flip: power_int_add)
  then show ?thesis using \<open>k \<le> j\<close> by (simp add: power_int_def)
qed

lemma fprec_pos [simp]: "0 < fprec f"
  by (cases f) auto

lemma fulp_min_le [simp]: "fulp_min f \<le> 0"
  by (cases f) auto

lemma frepr_of_int: "\<bar>n\<bar> < 2 ^ fprec f \<Longrightarrow> frepr f (of_int n)"
  unfolding frepr_def by (rule exI [of _ n], rule exI [of _ 0]) simp

lemma frepr_of_nat: "n < 2 ^ fprec f \<Longrightarrow> frepr f (of_nat n)"
  using frepr_of_int [of "int n" f] by (simp add: of_nat_less_numeral_power_cancel_iff)

lemma frepr_zero [simp]: "frepr f 0"
  using frepr_of_int [of 0 f] by simp

lemma frepr_one [simp]: "frepr f 1"
  using frepr_of_int [of 1 f] by (cases f) simp_all

lemma rnd_mag_unfold:
  "0 < q \<Longrightarrow> rnd_mag f q = of_int (round_even (q / 2 powi ulp_exp f q)) * 2 powi ulp_exp f q"
  by (simp add: rnd_mag_def Let_def)

lemma rnd_mag_zero [simp]: "rnd_mag f 0 = 0"
  by (simp add: rnd_mag_def)

lemma rnd_mag_nonneg: "0 \<le> q \<Longrightarrow> 0 \<le> rnd_mag f q"
  using round_even_ge [of 0 "q / 2 powi ulp_exp f q"]
  by (cases "q = 0") (simp_all add: rnd_mag_unfold order_less_le)

text \<open>Rounding against a multiple of the unit in the last place.\<close>

lemma rnd_mag_le_multiple:
  "0 < q \<Longrightarrow> q \<le> of_int n * 2 powi ulp_exp f q \<Longrightarrow> rnd_mag f q \<le> of_int n * 2 powi ulp_exp f q"
  using round_even_le [of "q / 2 powi ulp_exp f q" n] by (simp add: rnd_mag_unfold field_simps)

lemma rnd_mag_ge_multiple:
  "0 < q \<Longrightarrow> of_int n * 2 powi ulp_exp f q \<le> q \<Longrightarrow> of_int n * 2 powi ulp_exp f q \<le> rnd_mag f q"
  using round_even_ge [of n "q / 2 powi ulp_exp f q"] by (simp add: rnd_mag_unfold field_simps)

lemma rnd_mag_mono:
  assumes p: "0 \<le> p" and pq: "p \<le> q"
  shows "rnd_mag f p \<le> rnd_mag f q"
proof (cases "p = 0")
  case True
  then show ?thesis using rnd_mag_nonneg [of q f] pq by simp
next
  case False
  then have p0: "0 < p" and q0: "0 < q" using p pq by auto
  let ?j = "ulp_exp f p" and ?k = "ulp_exp f q"
  show ?thesis
  proof (cases "?j = ?k")
    case True
    have "round_even (p / 2 powi ?k) \<le> round_even (q / 2 powi ?k)"
      using pq by (intro round_even_mono divide_right_mono) auto
    then show ?thesis by (simp add: rnd_mag_unfold p0 q0 True)
  next
    case False
    then have jk: "?j < ?k" using ulp_exp_mono [OF p0 pq, of f] by simp
    then have k: "?k = ilog2 q - (int (fprec f) - 1)" and lt: "ilog2 p + 1 \<le> ilog2 q"
      by (auto simp: ulp_exp_def max_def split: if_splits)
    have ek: "?k \<le> ilog2 q" using fprec_pos [of f] unfolding k by linarith
    then have mq: "(2 powi ilog2 q :: rat) = of_int (2 ^ nat (ilog2 q - ?k)) * 2 powi ?k"
      by (rule powi2_split)
    have mp: "(2 powi ilog2 q :: rat) = of_int (2 ^ nat (ilog2 q - ?j)) * 2 powi ?j"
      using jk ek by (intro powi2_split) linarith
    have "p \<le> 2 powi (ilog2 p + 1)" using ilog2_bounds(2) [OF p0] by simp
    also have "\<dots> \<le> 2 powi ilog2 q" using lt by (intro power_int_increasing) auto
    finally have "rnd_mag f p \<le> 2 powi ilog2 q"
      unfolding mp by (rule rnd_mag_le_multiple [OF p0])
    also have "\<dots> \<le> rnd_mag f q"
      using ilog2_bounds(1) [OF q0] unfolding mq by (rule rnd_mag_ge_multiple [OF q0])
    finally show ?thesis .
  qed
qed

lemma rnd_mag_exact:
  assumes q: "0 \<le> q" and r: "frepr f q"
  shows "rnd_mag f q = q"
proof (cases "q = 0")
  case False
  then have q0: "0 < q" using q by simp
  obtain m e where m: "q = of_int m * 2 powi e" "\<bar>m\<bar> < 2 ^ fprec f" "fulp_min f \<le> e"
    using r by (auto simp: frepr_def)
  have "(of_int m :: rat) < of_int (2 ^ fprec f)" using m(2) by (simp only: of_int_less_iff)
  then have "q < 2 powi (int (fprec f) + e)"
    unfolding m(1) by (simp add: power_int_add)
  then have "(2 powi ilog2 q :: rat) < 2 powi (int (fprec f) + e)"
    using ilog2_bounds(1) [OF q0] by (rule le_less_trans [rotated])
  then have "ilog2 q < int (fprec f) + e"
    using powi2_le_iff [of "int (fprec f) + e" "ilog2 q"] by linarith
  then have k: "ulp_exp f q \<le> e" using m(3) by (simp add: ulp_exp_def)
  have "q = of_int (m * 2 ^ nat (e - ulp_exp f q)) * 2 powi ulp_exp f q"
    using powi2_split [OF k] unfolding m(1) by simp
  then show ?thesis
    using rnd_mag_le_multiple [OF q0] rnd_mag_ge_multiple [OF q0] by (metis order_antisym order_refl)
qed simp

lemma rnd_mag_repr: "0 \<le> q \<Longrightarrow> frepr f (rnd_mag f q)"
proof (cases "q = 0")
  case False
  moreover assume "0 \<le> q"
  ultimately have q0: "0 < q" by simp
  let ?k = "ulp_exp f q" let ?m = "round_even (q / 2 powi ?k)"
  have "q < 2 powi (ilog2 q + 1)" by (rule ilog2_bounds(2) [OF q0])
  also have "\<dots> \<le> 2 powi (int (fprec f) + ?k)"
    by (intro power_int_increasing) (auto simp: ulp_exp_def)
  also have "\<dots> = of_int (2 ^ fprec f) * 2 powi ?k" by (simp add: power_int_add)
  finally have "q / 2 powi ?k \<le> of_int (2 ^ fprec f)" by (simp add: field_simps)
  then have up: "?m \<le> 2 ^ fprec f" by (rule round_even_le)
  have lo: "0 \<le> ?m" using q0 by (intro round_even_ge) simp
  have km: "fulp_min f \<le> ?k" by (simp add: ulp_exp_def)
  show ?thesis
  proof (cases "?m < 2 ^ fprec f")
    case True
    then have "\<bar>?m\<bar> < 2 ^ fprec f" using lo by simp
    then show ?thesis unfolding frepr_def rnd_mag_unfold [OF q0] using km by blast
  next
    case False
    then have "?m = 2 ^ fprec f" using up by simp
    then have "rnd_mag f q = of_int 1 * 2 powi (int (fprec f) + ?k)"
      by (simp add: rnd_mag_unfold [OF q0] power_int_add)
    moreover have "\<bar>1 :: int\<bar> < 2 ^ fprec f" "fulp_min f \<le> int (fprec f) + ?k"
      using km by (auto simp: one_less_power)
    ultimately show ?thesis unfolding frepr_def by blast
  qed
qed simp

lemma rnd_mag_le: "0 \<le> q \<Longrightarrow> q \<le> r \<Longrightarrow> frepr f r \<Longrightarrow> rnd_mag f q \<le> r"
  using rnd_mag_mono [of q r f] rnd_mag_exact [of r f] by simp

lemma rnd_mag_ge: "0 \<le> r \<Longrightarrow> r \<le> q \<Longrightarrow> frepr f r \<Longrightarrow> r \<le> rnd_mag f q"
  using rnd_mag_mono [of r q f] rnd_mag_exact [of r f] by simp

section \<open>Well-formed and non-negative floats\<close>

text \<open>A float of a format holds a value that the format can represent.\<close>

definition fwf :: "ffmt \<Rightarrow> fl \<Rightarrow> bool" where
  "fwf f x = (case x of Num q \<Rightarrow> frepr f \<bar>q\<bar> \<and> \<bar>q\<bar> < 2 powi fexp_max f | _ \<Rightarrow> True)"

lemma fwf_simps [simp]:
  "fwf f NaN" "fwf f PInf" "fwf f NInf" "fwf f NZero"
  "fwf f (Num q) \<longleftrightarrow> frepr f \<bar>q\<bar> \<and> \<bar>q\<bar> < 2 powi fexp_max f"
  by (simp_all add: fwf_def)

text \<open>Neither NaN nor negative; both zeros count.\<close>

definition fnn :: "fl \<Rightarrow> bool" where
  "fnn x \<longleftrightarrow> x = PInf \<or> ffinite x \<and> 0 \<le> fval x"

lemma fnn_simps [simp]: "\<not> fnn NaN" "fnn PInf" "\<not> fnn NInf" "fnn NZero" "fnn (Num q) \<longleftrightarrow> 0 \<le> q"
  by (simp_all add: fnn_def)

lemma ffinite_cases:
  assumes "ffinite x"
  obtains "x = NZero" | q where "x = Num q"
  using assms by (cases x) auto

lemma fnn_cases:
  assumes "fnn x"
  obtains "x = PInf" | "x = NZero" | q where "x = Num q" and "0 \<le> q"
  using assms by (cases x) auto

lemma rnd_fwf [simp]: "fwf f (rnd f neg q)"
  using rnd_mag_nonneg [of "\<bar>q\<bar>" f] rnd_mag_repr [of "\<bar>q\<bar>" f]
  by (auto simp: rnd_def Let_def)

lemma rnd_nonneg_eq:
  "0 \<le> q \<Longrightarrow> rnd f neg q =
     (if rnd_mag f q = 0 then (if neg then NZero else fzero)
      else if 2 powi fexp_max f \<le> rnd_mag f q then PInf else Num (rnd_mag f q))"
  by (simp add: rnd_def Let_def)

lemma rnd_fnn: "0 \<le> q \<Longrightarrow> fnn (rnd f neg q)"
  using rnd_mag_nonneg [of q f] by (simp add: rnd_nonneg_eq)

lemma rnd_fval: "0 \<le> q \<Longrightarrow> ffinite (rnd f neg q) \<Longrightarrow> fval (rnd f neg q) = rnd_mag f q"
  by (auto simp: rnd_nonneg_eq split: if_splits)

lemma rnd_finite_iff: "0 \<le> q \<Longrightarrow> ffinite (rnd f neg q) \<longleftrightarrow> rnd_mag f q < 2 powi fexp_max f"
  by (auto simp: rnd_nonneg_eq)

text \<open>A result never crosses a representable bound of the exact value.\<close>

lemma rnd_upper:
  assumes "0 \<le> q" and "q \<le> r" and "frepr f r" and "r < 2 powi fexp_max f"
  shows "ffinite (rnd f neg q)" and "fval (rnd f neg q) \<le> r" and "0 \<le> fval (rnd f neg q)"
proof -
  have le: "rnd_mag f q \<le> r" using assms by (intro rnd_mag_le)
  then show fin: "ffinite (rnd f neg q)" using assms by (simp add: rnd_finite_iff)
  show "fval (rnd f neg q) \<le> r" "0 \<le> fval (rnd f neg q)"
    using le rnd_fval [OF assms(1) fin] rnd_mag_nonneg [OF assms(1)] by simp_all
qed

lemma rnd_exact:
  assumes "fwf f (Num q)" and "0 < q"
  shows "rnd f neg q = Num q"
  using assms rnd_mag_exact [of q f] by (simp add: rnd_nonneg_eq)

lemma rnd_exact_zero [simp]: "rnd f neg 0 = (if neg then NZero else fzero)"
  by (simp add: rnd_def)

lemma rnd_exact_nonneg: "fwf f (Num q) \<Longrightarrow> 0 \<le> q \<Longrightarrow> rnd f False q = Num q"
  by (cases "q = 0") (auto intro: rnd_exact)

lemma rnd_exact_neg:
  assumes "fwf f (Num q)" and "q < 0"
  shows "rnd f neg q = Num q"
  using assms rnd_mag_exact [of "- q" f] by (simp add: rnd_def Let_def)

lemma fcast_id: "fwf f x \<Longrightarrow> fcast f x = x"
proof (cases x)
  case (Num q)
  moreover assume "fwf f x"
  ultimately show ?thesis
    using rnd_exact [of f q "q < 0"] rnd_exact_neg [of f q "q < 0"]
    by (cases "q = 0"; cases "q < 0") auto
qed simp_all

lemma fcast_fwf [simp]: "fwf f (fcast f x)"
  by (cases x) simp_all

lemma frepr_F32_F64: "frepr F32 q \<Longrightarrow> frepr F64 q"
proof -
  assume "frepr F32 q"
  then obtain m e where m: "q = of_int m * 2 powi e" "\<bar>m\<bar> < 2 ^ 24" "- 149 \<le> e"
    by (auto simp: frepr_def)
  have "\<bar>m\<bar> < 2 ^ 53" "- 1074 \<le> e" using m(2,3) by auto
  then show ?thesis unfolding frepr_def using m(1) by auto
qed

lemma fwf_F32_F64: "fwf F32 x \<Longrightarrow> fwf F64 x"
proof (cases x)
  case (Num q)
  assume "fwf F32 x"
  then have "frepr F32 \<bar>q\<bar>" "\<bar>q\<bar> < 2 powi 128" using Num by auto
  moreover have "(2 powi 128 :: rat) \<le> 2 powi 1024" by (simp only: powi2_le_iff)
  ultimately show ?thesis using Num frepr_F32_F64 by auto
qed simp_all

lemma fcast_F64_id: "fwf F32 x \<Longrightarrow> fcast F64 x = x"
  by (intro fcast_id fwf_F32_F64)

section \<open>Arithmetic on non-negative floats\<close>

lemma fadd_finite:
  "ffinite x \<Longrightarrow> ffinite y \<Longrightarrow>
   fadd f x y = (if x = NZero \<and> y = NZero then NZero else rnd f False (fval x + fval y))"
  by (cases x; cases y) simp_all

lemma fadd_fwf [simp]: "fwf f (fadd f x y)"
  by (cases "(f, x, y)" rule: fadd.cases) auto

lemma fadd_fnn: "fnn x \<Longrightarrow> fnn y \<Longrightarrow> fnn (fadd f x y)"
  by (elim fnn_cases) (auto intro: rnd_fnn)

lemma fadd_finiteD:
  assumes "fnn x" and "fnn y" and "ffinite (fadd f x y)"
  shows "ffinite x" and "ffinite y" and "fval (fadd f x y) = rnd_mag f (fval x + fval y)"
  using assms by (elim fnn_cases; auto simp: rnd_fval split: if_splits)+

text \<open>Adding a non-negative float never decreases the sum.\<close>

lemma fle_refl [simp]: "fle x x \<longleftrightarrow> x \<noteq> NaN"
  by (simp add: fle_def)

lemma fle_trans: "fle x y \<Longrightarrow> fle y z \<Longrightarrow> fle x z"
  unfolding fle_def by force

lemma fle_total: "x \<noteq> NaN \<Longrightarrow> y \<noteq> NaN \<Longrightarrow> fle x y \<or> fle y x"
  unfolding fle_def by force

lemma flt_iff_not_fle: "x \<noteq> NaN \<Longrightarrow> y \<noteq> NaN \<Longrightarrow> flt x y \<longleftrightarrow> \<not> fle y x"
  unfolding fle_def flt_def by force

lemma fle_PInf [simp]: "fle x PInf \<longleftrightarrow> x \<noteq> NaN"
  by (cases x) (auto simp: fle_def)

lemma fle_finite: "ffinite x \<Longrightarrow> ffinite y \<Longrightarrow> fle x y \<longleftrightarrow> fval x \<le> fval y"
  by (cases x; cases y) (auto simp: fle_def)

lemma flt_finite: "ffinite x \<Longrightarrow> ffinite y \<Longrightarrow> flt x y \<longleftrightarrow> fval x < fval y"
  by (cases x; cases y) (auto simp: flt_def)

lemma fle_fadd:
  assumes "fnn x" and "fnn y"
  shows "fwf f x \<Longrightarrow> fle x (fadd f x y)" and "fwf f y \<Longrightarrow> fle y (fadd f x y)"
proof -
  have *: "fle u (fadd f x y)" if u: "fwf f u" "fnn u" "u = x \<or> u = y" for u
  proof (cases "ffinite (fadd f x y)")
    case True
    note F = fadd_finiteD [OF assms True]
    have "fval u \<le> fval x + fval y" "0 \<le> fval u" "frepr f (fval u)" "ffinite u"
      using u F(1,2) assms by (auto elim!: fnn_cases)
    then have "fval u \<le> rnd_mag f (fval x + fval y)" by (intro rnd_mag_ge)
    then show ?thesis using True F \<open>ffinite u\<close> by (simp add: fle_finite)
  next
    case False
    then have "fadd f x y = PInf" using fadd_fnn [OF assms, of f] by (auto simp: fnn_def)
    then show ?thesis using u(2) by auto
  qed
  show "fwf f x \<Longrightarrow> fle x (fadd f x y)" and "fwf f y \<Longrightarrow> fle y (fadd f x y)"
    using * assms by auto
qed

lemma foldl_fadd_fnn: "fnn a \<Longrightarrow> (\<And>x. x \<in> set xs \<Longrightarrow> fnn x) \<Longrightarrow> fnn (foldl (fadd f) a xs)"
  by (induction xs arbitrary: a) (auto intro: fadd_fnn)

lemma foldl_fadd_fwf: "fwf f a \<Longrightarrow> fwf f (foldl (fadd f) a xs)"
  by (induction xs arbitrary: a) auto

lemma foldl_fadd_ge:
  "fwf f a \<Longrightarrow> fnn a \<Longrightarrow> (\<And>x. x \<in> set xs \<Longrightarrow> fnn x) \<Longrightarrow> fle a (foldl (fadd f) a xs)"
proof (induction xs arbitrary: a)
  case (Cons x xs)
  then have "fle a (fadd f a x)" by (intro fle_fadd) auto
  moreover have "fle (fadd f a x) (foldl (fadd f) (fadd f a x) xs)"
    using Cons.prems by (intro Cons.IH) (auto intro: fadd_fnn)
  ultimately show ?case by (auto intro: fle_trans)
qed auto

lemma foldl_fadd_ge_mem:
  "fwf f a \<Longrightarrow> fnn a \<Longrightarrow> (\<And>x. x \<in> set xs \<Longrightarrow> fnn x \<and> fwf f x) \<Longrightarrow> y \<in> set xs \<Longrightarrow>
   fle y (foldl (fadd f) a xs)"
proof (induction xs arbitrary: a)
  case (Cons x xs)
  have step: "fnn (fadd f a x)" using Cons.prems by (auto intro: fadd_fnn)
  show ?case
  proof (cases "y = x")
    case True
    have "fle x (fadd f a x)" using Cons.prems by (intro fle_fadd) auto
    moreover have "fle (fadd f a x) (foldl (fadd f) (fadd f a x) xs)"
      using Cons.prems step by (intro foldl_fadd_ge) auto
    ultimately show ?thesis using True by (auto intro: fle_trans)
  next
    case False
    then show ?thesis using Cons step by auto
  qed
qed simp

lemma fsum_fnn: "(\<And>x. x \<in> set xs \<Longrightarrow> fnn x) \<Longrightarrow> fnn (fsum f xs)"
  unfolding fsum_def by (rule foldl_fadd_fnn) auto

lemma fsum_fwf [simp]: "fwf f (fsum f xs)"
  unfolding fsum_def by (rule foldl_fadd_fwf) auto

lemma fsum_ge_mem: "(\<And>x. x \<in> set xs \<Longrightarrow> fnn x \<and> fwf f x) \<Longrightarrow> y \<in> set xs \<Longrightarrow> fle y (fsum f xs)"
  unfolding fsum_def by (rule foldl_fadd_ge_mem) auto

lemma fmul_finite: "ffinite x \<Longrightarrow> ffinite y \<Longrightarrow> fmul f x y = rnd f (fneg x \<noteq> fneg y) (fval x * fval y)"
  by (cases x; cases y) (simp_all add: fmul_def is_inf_def)

lemma fdiv_finite:
  "ffinite x \<Longrightarrow> ffinite y \<Longrightarrow> fval y \<noteq> 0 \<Longrightarrow> fdiv f x y = rnd f (fneg x \<noteq> fneg y) (fval x / fval y)"
  by (cases x; cases y) (simp_all add: fdiv_def is_inf_def)

lemma fmul_fwf [simp]: "fwf f (fmul f x y)"
  by (auto simp: fmul_def Let_def finf_def)

lemma fdiv_fwf [simp]: "fwf f (fdiv f x y)"
  by (auto simp: fdiv_def Let_def finf_def fsigned_zero_def)

lemma fmul_fnn: "fnn x \<Longrightarrow> ffinite x \<Longrightarrow> fnn y \<Longrightarrow> ffinite y \<Longrightarrow> fnn (fmul f x y)"
  by (auto simp: fmul_finite fnn_def intro!: rnd_fnn [unfolded fnn_def])

lemma fdiv_fnn: "fnn x \<Longrightarrow> fnn y \<Longrightarrow> ffinite x \<Longrightarrow> ffinite y \<Longrightarrow> 0 < fval y \<Longrightarrow> fnn (fdiv f x y)"
  by (auto simp: fdiv_finite fnn_def intro!: rnd_fnn [unfolded fnn_def])

text \<open>A share of a total lies between zero and one.\<close>

lemma one_lt_fexp_max [simp]: "(1 :: rat) < 2 powi fexp_max f"
  by (cases f) (simp_all add: one_less_power)

lemma fdiv_share:
  assumes "fnn x" and "ffinite y" and "fle x y" and "0 < fval y"
  shows "ffinite (fdiv f x y)" and "0 \<le> fval (fdiv f x y)" and "fval (fdiv f x y) \<le> 1"
proof -
  have fx: "ffinite x" "0 \<le> fval x"
    using assms by (auto simp: fnn_def fle_def) (cases y; auto)+
  then have "fval x / fval y \<le> 1" "0 \<le> fval x / fval y"
    using assms by (auto simp: fle_finite)
  then show "ffinite (fdiv f x y)" and "0 \<le> fval (fdiv f x y)" and "fval (fdiv f x y) \<le> 1"
    using fx assms rnd_upper [of "fval x / fval y" 1 f] by (auto simp: fdiv_finite)
qed

lemma fmul_percent:
  assumes "ffinite x" and "0 \<le> fval x" and "fval x \<le> 1"
  shows "ffinite (fmul f x (Num 100))" and "0 \<le> fval (fmul f x (Num 100))"
    and "fval (fmul f x (Num 100)) \<le> 100"
proof -
  have r: "frepr f 100" "(100 :: rat) < 2 powi fexp_max f"
    using frepr_of_int [of 100 f] by (cases f; simp)+
  show "ffinite (fmul f x (Num 100))" and "0 \<le> fval (fmul f x (Num 100))"
    and "fval (fmul f x (Num 100)) \<le> 100"
    using assms r rnd_upper [of "fval x * 100" 100 f] by (auto simp: fmul_finite)
qed

lemma of_word_fwf [simp]: "fwf f (of_word f w)"
  by (simp add: of_word_def)

lemma of_word_fnn [simp]: "fnn (of_word f w)"
  unfolding of_word_def by (rule rnd_fnn) (rule of_nat_0_le_iff)

lemma of_len_fnn [simp]: "fnn (of_len f n)" and of_len_fwf [simp]: "fwf f (of_len f n)"
  by (simp_all add: of_len_def rnd_fnn)

section \<open>Exact conversions of small integers\<close>

lemma fprec_lt_fexp_max: "int (fprec f) < fexp_max f"
  by (cases f) simp_all

lemma fwf_of_nat: "n < 2 ^ fprec f \<Longrightarrow> fwf f (Num (of_nat n))"
proof -
  assume n: "n < 2 ^ fprec f"
  then have "(of_nat n :: rat) < 2 ^ fprec f"
    by (metis of_nat_less_iff of_nat_numeral of_nat_power)
  also have "(2 :: rat) ^ fprec f = 2 powi int (fprec f)" by simp
  also have "\<dots> \<le> 2 powi fexp_max f"
    using fprec_lt_fexp_max [of f] by (simp only: powi2_le_iff)
  finally show ?thesis using frepr_of_nat [OF n] by simp
qed

lemma of_len_exact: "n < 2 ^ fprec f \<Longrightarrow> of_len f n = Num (of_nat n)"
  unfolding of_len_def using fwf_of_nat by (intro rnd_exact_nonneg) simp_all

lemma of_word_code [code]: "of_word f w = rnd f False (of_int (uint w))"
  by (simp only: of_word_def uint_nat of_int_of_nat_eq)

lemma of_word_of_len: "of_word f w = of_len f (unat w)"
  unfolding of_word_def of_len_def by (rule refl)

lemma of_word_exact: "unat w < 2 ^ fprec f \<Longrightarrow> of_word f w = Num (of_nat (unat w))"
  unfolding of_word_of_len by (rule of_len_exact)

lemma of_len_one [simp]: "of_len f (Suc 0) = Num 1"
  using of_len_exact [of 1 f] by (cases f) simp_all

lemma to_word_of_nat: "n < 2 ^ LENGTH('a) \<Longrightarrow> to_word (Num (of_nat n)) = (of_nat n :: 'a::len word)"
proof -
  assume "n < 2 ^ LENGTH('a)"
  then have "int n < 2 ^ LENGTH('a)"
    by (metis of_nat_less_iff of_nat_numeral of_nat_power)
  then show ?thesis by auto
qed

lemma fround_of_nat [simp]: "fround (Num (of_nat n)) = Num (of_nat n)"
proof -
  have "\<lfloor>(of_nat n :: rat) + 1 / 2\<rfloor> = int n"
    by (intro floor_eq3 floor_unique) simp_all
  then show ?thesis by (simp add: Let_def)
qed

lemma fdiv_one: "fwf f x \<Longrightarrow> fdiv f x (Num 1) = x"
proof (cases x)
  case (Num q)
  assume "fwf f x"
  then show ?thesis
    using Num rnd_exact [of f q False] rnd_exact_neg [of f q True]
    by (cases q "0 :: rat" rule: linorder_cases) (auto simp: fdiv_finite)
qed (simp_all add: fdiv_def is_inf_def finf_def)

lemma fadd_NZero: "fwf f x \<Longrightarrow> fadd f NZero x = x"
  by (cases x; cases "0 \<le> fval x") (auto simp: rnd_exact_nonneg rnd_exact_neg)

lemma fadd_zero: "fwf f x \<Longrightarrow> x \<noteq> NZero \<Longrightarrow> fadd f fzero x = x"
  by (cases x; cases "0 \<le> fval x") (auto simp: rnd_exact_nonneg rnd_exact_neg)

text \<open>A quotient of integers, rounded and truncated again, stays between integer bounds.\<close>

lemma to_word_quotient:
  fixes s :: "'b::len word" and a b :: "'a::len word"
  assumes n: "0 < n" "n < 2 ^ fprec f" and s: "unat s < 2 ^ fprec f"
    and lo: "n * unat a \<le> unat s" and hi: "unat s \<le> n * unat b"
  shows "a \<le> to_word (fdiv f (of_word f s) (of_len f n))"
    and "to_word (fdiv f (of_word f s) (of_len f n)) \<le> b"
proof -
  define q where "q = (of_nat (unat s) / of_nat n :: rat)"
  have le: "unat a \<le> unat s" "unat s \<le> n * unat s"
    using lo n(1) by (cases n; simp)+
  have q: "of_nat (unat a) \<le> q" "q \<le> of_nat (unat b)" "0 \<le> q" "q \<le> of_nat (unat s)"
    using n(1) of_nat_mono [OF lo, where ?'a = rat] of_nat_mono [OF hi, where ?'a = rat]
      of_nat_mono [OF le(2), where ?'a = rat]
    unfolding q_def by (simp_all add: field_simps del: of_nat_unat)
  have "fdiv f (of_word f s) (of_len f n) = rnd f False q"
    using n s by (simp add: of_word_exact of_len_exact fdiv_finite q_def del: of_nat_unat)
  moreover have "rnd_mag f q \<le> of_nat (unat s)"
    using q s by (intro rnd_mag_le frepr_of_nat)
  moreover have "(of_nat (unat s) :: rat) < 2 powi fexp_max f"
    using fwf_of_nat [OF s] by (simp del: of_nat_unat)
  ultimately have eq: "fdiv f (of_word f s) (of_len f n) = Num (rnd_mag f q)"
    using q rnd_mag_nonneg [of q f] by (simp add: rnd_nonneg_eq del: of_nat_unat)
  define m where "m = min (unat b) (unat s)"
  have "q \<le> of_nat m" "m < 2 ^ fprec f" using q s by (auto simp: m_def min_def simp del: of_nat_unat)
  then have up: "rnd_mag f q \<le> of_nat m"
    using q(3) by (intro rnd_mag_le frepr_of_nat)
  have down: "of_nat (unat a) \<le> rnd_mag f q"
    using q s le by (intro rnd_mag_ge frepr_of_nat) (auto simp del: of_nat_unat)
  define z where "z = \<lfloor>rnd_mag f q\<rfloor>"
  have z: "int (unat a) \<le> z" "z \<le> int (unat b)"
    using up down of_nat_mono [of m "unat b", where ?'a = rat] unfolding z_def
    by (auto simp: le_floor_iff floor_le_iff m_def simp del: of_nat_unat)
  have "int (unat b) < 2 ^ LENGTH('a)"
    using unsigned_less [of b, where ?'a = int] by simp
  with z have small: "\<not> 2 ^ LENGTH('a) \<le> z" by linarith
  then have "(to_word (Num (rnd_mag f q)) :: 'a word) = word_of_int z"
    using rnd_mag_nonneg [OF q(3), of f] unfolding z_def
    by (cases "rnd_mag f q = 0") auto
  moreover have "uint (word_of_int z :: 'a word) = z"
  proof (rule uint_word_of_int_small)
    show "0 \<le> z" using z(1) of_nat_0_le_iff [of "unat a", where ?'a = int] by linarith
    show "z < 2 ^ LENGTH('a)" using small by simp
  qed
  ultimately show "a \<le> to_word (fdiv f (of_word f s) (of_len f n))"
    and "to_word (fdiv f (of_word f s) (of_len f n)) \<le> b"
    using z by (simp_all add: eq word_le_def)
qed

end
