(* ===== verification/Metrics.thy ===== *)
theory Metrics
  imports Floats
begin

text \<open>
  The shared data types of \<open>heimwatch-core\<close> (\<open>metrics.rs\<close> and \<open>lib.rs\<close>): metric types with their
  key prefixes, one record per payload struct, the tagged union of payloads, metric records and
  the aggregated statistics the storage layer returns.  Field names are those of the source;
  where two structs share a field name, the later one carries a short prefix, since record
  selectors are global names.
\<close>

section \<open>Metric types\<close>

datatype MetricType = Net | Pwr | Foc | Cpu | Mem | Dsk | Gpu | GpuProc

definition ALL_METRIC_TYPES :: "MetricType list" where
  "ALL_METRIC_TYPES = [Net, Pwr, Foc, Cpu, Mem, Dsk, Gpu, GpuProc]"

primrec prefix_of :: "MetricType \<Rightarrow> string" where
  "prefix_of Net = ''net''"
| "prefix_of Pwr = ''pwr''"
| "prefix_of Foc = ''foc''"
| "prefix_of Cpu = ''cpu''"
| "prefix_of Mem = ''mem''"
| "prefix_of Dsk = ''dsk''"
| "prefix_of Gpu = ''gpu''"
| "prefix_of GpuProc = ''gpc''"

lemma set_ALL_METRIC_TYPES [simp]: "set ALL_METRIC_TYPES = UNIV"
  by (auto simp: ALL_METRIC_TYPES_def intro: MetricType.exhaust)

lemma distinct_ALL_METRIC_TYPES [simp]: "distinct ALL_METRIC_TYPES"
  by (simp add: ALL_METRIC_TYPES_def)

lemma length_prefix_of [simp]: "length (prefix_of mt) = 3"
  by (cases mt) simp_all

lemma prefix_of_inj [simp]: "prefix_of a = prefix_of b \<longleftrightarrow> a = b"
  by (cases a; cases b) simp_all

lemma colon_notin_prefix [simp]: "CHR '':'' \<notin> set (prefix_of mt)"
  by (cases mt) simp_all

lemma ascii_prefix [simp]: "ascii (prefix_of mt)"
  by (cases mt) (simp_all add: ascii_def byte_in_def)

section \<open>Payloads\<close>

record NetworkData =
  tx_bytes :: u64
  rx_bytes :: u64
  connections :: u32

record PowerData =
  watt_usage :: fl
  battery_percent :: "fl option"
  charging :: bool
  rapl_package_watts :: "fl option"
  rapl_core_watts :: "fl option"
  battery_current_ua :: "i64 option"
  battery_voltage_uv :: "u64 option"
  avg_cpu_freq_ratio :: "fl option"
  display_brightness :: "fl option"
  is_wifi :: "bool option"

record FocusData =
  app_id :: string
  duration_ms :: u64

record CpuData =
  cpu_time_ns :: u64
  cpu_usage_percent :: fl
  thread_count :: u32

record MemoryData =
  rss_bytes :: u64
  vms_bytes :: u64
  swap_bytes :: u64
  process_count :: u32

record DiskData =
  read_bytes :: u64
  write_bytes :: u64
  mount_point :: string

datatype GpuVendor = Nvidia | Amd | Intel | Unknown

record GpuData =
  gpu_index :: u32
  vendor :: GpuVendor
  gpu_name :: string
  usage_percent :: "fl option"
  vram_used_bytes :: "u64 option"
  vram_total_bytes :: "u64 option"
  temperature_celsius :: "fl option"
  power_draw_watts :: "fl option"
  core_clock_mhz :: "u32 option"
  memory_clock_mhz :: "u32 option"

record GpuProcessData =
  gp_gpu_index :: u32
  gp_usage_percent :: "fl option"
  gp_vram_used_bytes :: "u64 option"

datatype MetricPayload =
    NetP NetworkData
  | PwrP PowerData
  | FocP FocusData
  | CpuP CpuData
  | MemP MemoryData
  | DskP DiskData
  | GpuP GpuData
  | GpuProcP GpuProcessData

primrec metric_type :: "MetricPayload \<Rightarrow> MetricType" where
  "metric_type (NetP d) = Net"
| "metric_type (PwrP d) = Pwr"
| "metric_type (FocP d) = Foc"
| "metric_type (CpuP d) = Cpu"
| "metric_type (MemP d) = Mem"
| "metric_type (DskP d) = Dsk"
| "metric_type (GpuP d) = Gpu"
| "metric_type (GpuProcP d) = GpuProc"

record MetricRecord =
  app_name :: string
  timestamp :: u64
  payload :: MetricPayload

abbreviation rec_type :: "MetricRecord \<Rightarrow> MetricType" where
  "rec_type r \<equiv> metric_type (payload r)"

section \<open>Events and statistics\<close>

record CollectorEvent =
  ev_app_name :: string
  ev_payload :: MetricPayload
  ev_timestamp :: u64

record AppNetworkStats =
  ans_app_name :: string
  ans_tx_bytes :: u64
  ans_rx_bytes :: u64

record AppFocusStats =
  afs_app_name :: string
  total_duration_ms :: u64

record AppPowerStats =
  aps_app_name :: string
  power_pct :: fl
  power_score :: fl
  on_battery :: bool
  cpu_contribution :: fl
  gpu_contribution :: fl
  display_contribution :: fl
  disk_contribution :: fl
  net_contribution :: fl
  mem_contribution :: fl

lemma metric_type_eqs:
  "metric_type p = Net \<longleftrightarrow> (\<exists>d. p = NetP d)" "metric_type p = Pwr \<longleftrightarrow> (\<exists>d. p = PwrP d)"
  "metric_type p = Foc \<longleftrightarrow> (\<exists>d. p = FocP d)" "metric_type p = Cpu \<longleftrightarrow> (\<exists>d. p = CpuP d)"
  "metric_type p = Mem \<longleftrightarrow> (\<exists>d. p = MemP d)" "metric_type p = Dsk \<longleftrightarrow> (\<exists>d. p = DskP d)"
  "metric_type p = Gpu \<longleftrightarrow> (\<exists>d. p = GpuP d)" "metric_type p = GpuProc \<longleftrightarrow> (\<exists>d. p = GpuProcP d)"
  by (cases p; simp)+

end
