(* ===== verification/Keys.thy ===== *)
theory Keys
  imports Metrics
begin

text \<open>
  Key encoding of the storage layer (\<open>heimwatch-storage/src/keys.rs\<close>) and its error type
  (\<open>error.rs\<close>).  A key is \<open>{prefix}:{timestamp:020}:{app_name}\<close>.  The lemmas show that the encoding
  is injective and order preserving, decodes back, and that the two range bounds select exactly
  the keys of one metric type in a time interval.
\<close>

text \<open>
  The message of an \<open>InvalidKey\<close> error is kept as the data it is formatted from; a database or
  JSON error is whatever those libraries report.
\<close>

datatype key_error =
    InvalidUtf8
  | ExpectedThreeParts nat
  | UnknownPrefix string
  | InvalidTimestamp parse_error

datatype StorageError =
    Database string
  | Serialization string
  | DatabaseClosed
  | NotFound
  | InvalidKey key_error
  | SystemTimeError

section \<open>Encoding and decoding\<close>

definition encode_key :: "MetricType \<Rightarrow> u64 \<Rightarrow> string \<Rightarrow> string" where
  "encode_key mt ts app =
     prefix_of mt @ '':'' @ pad_left 20 CHR ''0'' (dec (unat ts)) @ '':'' @ app"

fun type_of_prefix :: "string \<Rightarrow> StorageError + MetricType" where
  "type_of_prefix p =
     (if p = ''net'' then Inr Net
      else if p = ''pwr'' then Inr Pwr
      else if p = ''foc'' then Inr Foc
      else if p = ''cpu'' then Inr Cpu
      else if p = ''mem'' then Inr Mem
      else if p = ''dsk'' then Inr Dsk
      else if p = ''gpu'' then Inr Gpu
      else Inl (InvalidKey (UnknownPrefix p)))"

definition decode_key :: "string \<Rightarrow> StorageError + (MetricType \<times> u64 \<times> string)" where
  "decode_key raw =
     (if \<not> utf8_valid raw then Inl (InvalidKey InvalidUtf8)
      else (let parts = split_on CHR '':'' raw in
        if length parts \<noteq> 3 then Inl (InvalidKey (ExpectedThreeParts (length parts)))
        else bindR (type_of_prefix (parts ! 0)) (\<lambda>mt.
             bindR (map_err (InvalidKey \<circ> InvalidTimestamp) (parse_u64 (parts ! 1))) (\<lambda>ts.
             Inr (mt, ts, parts ! 2)))))"

definition range_start :: "MetricType \<Rightarrow> u64 \<Rightarrow> string" where
  "range_start mt ts = prefix_of mt @ '':'' @ pad_left 20 CHR ''0'' (dec (unat ts)) @ '':''"

definition range_end :: "MetricType \<Rightarrow> u64 \<Rightarrow> string" where
  "range_end mt ts = prefix_of mt @ '':'' @ pad_left 20 CHR ''0'' (dec (unat ts)) @ '':~''"

section \<open>The shape of a key\<close>

lemma digit_0: "digit 0 = CHR ''0''"
  by (simp add: digit_def char_of_def bit_iff_odd)

lemma unat_u64_digits: "unat (ts :: u64) < 10 ^ 20"
proof -
  have "unat ts < 2 ^ LENGTH(64)" by (rule unsigned_less)
  then show ?thesis by simp
qed

lemma ts_field: "pad_left 20 CHR ''0'' (dec (unat (ts :: u64))) = dec_fixed 20 (unat ts)"
  using pad_left_dec [OF _ unat_u64_digits, of ts] by (simp add: digit_0)

lemma encode_key_eq:
  "encode_key mt ts app = (prefix_of mt @ '':'' @ dec_fixed 20 (unat ts) @ '':'') @ app"
  by (simp add: encode_key_def ts_field)

lemma range_start_eq: "range_start mt ts = encode_key mt ts ''''"
  by (simp add: range_start_def encode_key_def)

lemma range_end_eq: "range_end mt ts = encode_key mt ts ''~''"
  by (simp add: range_end_def encode_key_def)

lemma ts_field_less: "dec_fixed 20 (unat (a :: u64)) < dec_fixed 20 (unat b) \<longleftrightarrow> a < b"
  unfolding word_less_nat_alt by (rule dec_fixed_less [OF unat_u64_digits unat_u64_digits])

lemma ts_field_eq: "dec_fixed 20 (unat (a :: u64)) = dec_fixed 20 (unat b) \<longleftrightarrow> a = b"
  unfolding word_unat_eq_iff by (rule dec_fixed_inj [OF unat_u64_digits unat_u64_digits])

lemma encode_key_less:
  "encode_key mt s a < encode_key mt' t b \<longleftrightarrow>
     prefix_of mt < prefix_of mt' \<or> mt = mt' \<and> (s < t \<or> s = t \<and> a < b)"
  by (simp add: encode_key_eq append_less_append ts_field_less ts_field_eq)

lemma encode_key_le:
  "encode_key mt s a \<le> encode_key mt' t b \<longleftrightarrow>
     prefix_of mt < prefix_of mt' \<or> mt = mt' \<and> (s < t \<or> s = t \<and> a \<le> b)"
  by (simp add: encode_key_eq append_le_append ts_field_less ts_field_eq)

lemma encode_key_inj: "encode_key mt s a = encode_key mt' t b \<longleftrightarrow> mt = mt' \<and> s = t \<and> a = b"
  by (simp add: encode_key_eq append_eq_append_conv ts_field_eq)

text \<open>The keys a range scan visits: one type, from the start time to the end time, where at the end
  time itself only names up to the byte \<open>~\<close> are reached.\<close>

lemma encode_key_in_range:
  "range_start mt s \<le> encode_key mt' t a \<and> encode_key mt' t a \<le> range_end mt e \<longleftrightarrow>
     mt' = mt \<and> s \<le> t \<and> (t < e \<or> t = e \<and> a \<le> ''~'')"
  by (auto simp: range_start_eq range_end_eq encode_key_le)

section \<open>Properties\<close>

lemma colon_notin_ts_field: "CHR '':'' \<notin> set (dec_fixed w n)"
  using dec_fixed_digits [of "CHR '':''" w n] by (auto simp: is_digit_code)

lemma split_key:
  "split_on CHR '':'' (encode_key mt ts app) =
     prefix_of mt # dec_fixed 20 (unat ts) # split_on CHR '':'' app"
  using split_on_append [OF colon_notin_prefix, of mt "dec_fixed 20 (unat ts) @ CHR '':'' # app"]
    split_on_append [OF colon_notin_ts_field, of 20 "unat ts" app]
  by (simp add: encode_key_eq)

lemma utf8_valid_key: "utf8_valid (encode_key mt ts app) \<longleftrightarrow> utf8_valid app"
proof -
  have "ascii (prefix_of mt @ '':'' @ dec_fixed 20 (unat ts) @ '':'')"
    by (simp add: ascii_digits [OF dec_fixed_digits] byte_in_def)
  from utf8_valid_ascii_append [OF this] show ?thesis
    by (simp add: encode_key_eq)
qed

lemma parse_ts_field: "parse_u64 (dec_fixed 20 (unat ts)) = Inr (ts :: u64)"
proof -
  have "unat ts < 2 ^ LENGTH(64)" by (rule unsigned_less)
  then have "parse_unsigned (2 ^ 64) (dec_fixed (Suc 19) (unat ts)) = Inr (unat ts)"
    by (intro parse_unsigned_dec_fixed) simp_all
  moreover have "Suc 19 = (20 :: nat)" by simp
  ultimately have "parse_unsigned (2 ^ 64) (dec_fixed 20 (unat ts)) = Inr (unat ts)"
    by (simp only:)
  then show ?thesis by (simp add: parse_u64_def)
qed

lemma type_of_prefix_of:
  "type_of_prefix (prefix_of mt) =
     (if mt = GpuProc then Inl (InvalidKey (UnknownPrefix ''gpc'')) else Inr mt)"
  by (cases mt) simp_all

text \<open>C28: Decoding an encoded key, on every branch.  Type, timestamp and application name come back
  unless the name itself contains a colon (then the number of parts is wrong) or the type is
  \<open>GpuProc\<close>, whose prefix the decoder does not know.\<close>

theorem decode_encode_key:
  assumes "utf8_valid app"
  shows "decode_key (encode_key mt ts app) =
    (if CHR '':'' \<in> set app then Inl (InvalidKey (ExpectedThreeParts (3 + count_list app CHR '':'')))
     else if mt = GpuProc then Inl (InvalidKey (UnknownPrefix ''gpc''))
     else Inr (mt, ts, app))"
proof (cases "CHR '':'' \<in> set app")
  case True
  then have "count_list app CHR '':'' > 0"
    by (metis count_list_0_iff neq0_conv)
  then show ?thesis
    using assms True by (simp add: decode_key_def utf8_valid_key split_key length_split_on)
next
  case False
  then show ?thesis
    using assms
    by (simp add: decode_key_def utf8_valid_key split_key split_on_noocc type_of_prefix_of
        parse_ts_field del: type_of_prefix.simps)
qed

theorem decode_encode_key_witness:
  "decode_key (encode_key Cpu 1711890000 ''firefox'') = Inr (Cpu, 1711890000, ''firefox'')"
proof -
  have "utf8_valid ''firefox''" by (simp add: byte_in_def)
  from decode_encode_key [OF this, of Cpu 1711890000] show ?thesis by simp
qed

text \<open>C27: The order of the stored bytes is the order of time: two keys of one type compare first by
  timestamp, then by application name; keys are equal only for equal components.\<close>

theorem encode_key_order:
  "(encode_key mt s a < encode_key mt t b \<longleftrightarrow> s < t \<or> s = t \<and> a < b) \<and>
   (encode_key mt s a = encode_key mt' t b \<longleftrightarrow> mt = mt' \<and> s = t \<and> a = b)"
  by (simp add: encode_key_less encode_key_inj)

text \<open>C26: A range scan from \<open>range_start\<close> to \<open>range_end\<close> meets a record key exactly when the type is the
  same and the timestamp is in the closed interval, except that at the end timestamp the name has
  to sort at or below the single byte \<open>~\<close>; every name that begins with a smaller byte does.\<close>

theorem key_range_exact:
  "(range_start mt s \<le> encode_key mt' t a \<and> encode_key mt' t a \<le> range_end mt e \<longleftrightarrow>
      mt' = mt \<and> s \<le> t \<and> (t < e \<or> t = e \<and> a \<le> ''~'')) \<and>
   (c < CHR ''~'' \<longrightarrow> c # cs \<le> ''~'')"
  by (simp add: encode_key_in_range)

theorem key_range_exact_witness:
  "range_start Pwr 1000 \<le> encode_key Pwr 1000 ''myapp'' \<and>
   encode_key Pwr 1000 ''myapp'' \<le> range_end Pwr 1000"
proof -
  have "CHR ''m'' < CHR ''~''" by (simp add: less_char_def)
  with key_range_exact [of Pwr 1000 Pwr 1000 "''myapp''" 1000 "CHR ''m''" "''yapp''"] show ?thesis
    by simp
qed

end
