(* ===== verification/Sled.thy ===== *)
theory Sled
  imports Keys
begin

text \<open>
  The libraries the storage layer stands on, as parameters: the embedded database \<open>sled\<close>, the JSON
  codec \<open>serde_json\<close> and the file operations of the standard library.  Their operations are the
  fields of a record over an abstract world; the storage code threads the world through them in
  a small state and error monad.  What is relied on is the locale \<open>store\<close>: a healthy world holds
  named ordered trees and files, and every operation acts on them as documented.
\<close>

section \<open>State, errors and sequencing\<close>

text \<open>The errors that the storage functions return through \<open>anyhow\<close>: those of the libraries, with
  their message, a clock before the epoch, and the storage layer's own.\<close>

datatype any_error =
    SledError string
  | JsonError string
  | IoError string
  | TimeError
  | StorageErr StorageError

type_synonym ('w, 'a) io = "'w \<Rightarrow> (any_error + 'a) \<times> 'w"

definition retS :: "'a \<Rightarrow> ('w, 'a) io" where
  "retS x = (\<lambda>w. (Inr x, w))"

definition failS :: "any_error \<Rightarrow> ('w, 'a) io" where
  "failS e = (\<lambda>w. (Inl e, w))"

definition bindS :: "('w, 'a) io \<Rightarrow> ('a \<Rightarrow> ('w, 'b) io) \<Rightarrow> ('w, 'b) io" where
  "bindS m f = (\<lambda>w. case m w of (Inl e, w') \<Rightarrow> (Inl e, w') | (Inr x, w') \<Rightarrow> f x w')"

definition liftS :: "any_error + 'a \<Rightarrow> ('w, 'a) io" where
  "liftS r = (\<lambda>w. (r, w))"

definition readS :: "('w \<Rightarrow> 'a) \<Rightarrow> ('w, 'a) io" where
  "readS f = (\<lambda>w. (Inr (f w), w))"

text \<open>A \<open>for\<close> loop that updates an accumulator and leaves at the first error.\<close>

fun foldS :: "('b \<Rightarrow> 'a \<Rightarrow> ('w, 'b) io) \<Rightarrow> 'b \<Rightarrow> 'a list \<Rightarrow> ('w, 'b) io" where
  "foldS f b [] = retS b"
| "foldS f b (x # xs) = bindS (f b x) (\<lambda>b'. foldS f b' xs)"

lemma bindS_error: "m w = (Inl e, w') \<Longrightarrow> bindS m f w = (Inl e, w')"
  by (simp add: bindS_def)

lemma bindS_ok: "m w = (Inr x, w') \<Longrightarrow> bindS m f w = f x w'"
  by (simp add: bindS_def)

section \<open>The library operations\<close>

datatype batch_op = BInsert string string | BRemove string

record 'w ext =
  sled_open :: "string \<Rightarrow> nat \<Rightarrow> nat option \<Rightarrow> ('w, unit) io"
  open_tree :: "string \<Rightarrow> ('w, unit) io"
  tree_get :: "string \<Rightarrow> string \<Rightarrow> ('w, string option) io"
  tree_insert :: "string \<Rightarrow> string \<Rightarrow> string \<Rightarrow> ('w, unit) io"
  tree_range :: "string \<Rightarrow> string \<Rightarrow> string \<Rightarrow> 'w \<Rightarrow> (any_error + string \<times> string) list"
  apply_batch :: "string \<Rightarrow> batch_op list \<Rightarrow> ('w, unit) io"
  size_on_disk :: "('w, u64) io"
  db_flush :: "('w, unit) io"
  rec_to_vec :: "MetricRecord \<Rightarrow> any_error + string"
  rec_from_slice :: "string \<Rightarrow> any_error + MetricRecord"
  u32_to_vec :: "u32 \<Rightarrow> any_error + string"
  u32_from_slice :: "string \<Rightarrow> any_error + u32"
  u64_to_vec :: "u64 \<Rightarrow> any_error + string"
  opt_u64_from_slice :: "string \<Rightarrow> any_error + u64 option"
  create_dir_all :: "string \<Rightarrow> ('w, unit) io"
  file_create :: "string \<Rightarrow> ('w, unit) io"
  file_writeln :: "string \<Rightarrow> string \<Rightarrow> ('w, unit) io"

section \<open>Ordered trees\<close>

type_synonym tree = "(string \<times> string) list"

fun upd :: "'k::linorder \<Rightarrow> 'v \<Rightarrow> ('k \<times> 'v) list \<Rightarrow> ('k \<times> 'v) list" where
  "upd k v [] = [(k, v)]"
| "upd k v ((k', v') # xs) =
     (if k < k' then (k, v) # (k', v') # xs
      else if k = k' then (k, v) # xs
      else (k', v') # upd k v xs)"

fun app_op :: "tree \<Rightarrow> batch_op \<Rightarrow> tree" where
  "app_op t (BInsert k v) = upd k v t"
| "app_op t (BRemove k) = filter (\<lambda>p. fst p \<noteq> k) t"

lemma upd_keys: "set (map fst (upd k v xs)) = insert k (set (map fst xs))"
  by (induction k v xs rule: upd.induct) auto

lemma upd_sorted: "sorted_wrt (<) (map fst xs) \<Longrightarrow> sorted_wrt (<) (map fst (upd k v xs))"
proof (induction k v xs rule: upd.induct)
  case (2 k v k' v' xs)
  have "set (map fst (upd k v xs)) = insert k (set (map fst xs))" by (rule upd_keys)
  with 2 show ?case by auto
qed simp

lemma map_of_upd: "sorted_wrt (<) (map fst xs) \<Longrightarrow> map_of (upd k v xs) = (map_of xs)(k \<mapsto> v)"
  by (induction k v xs rule: upd.induct) (auto simp: fun_upd_twist)

lemma filter_fst_sorted: "sorted_wrt R (map fst xs) \<Longrightarrow> sorted_wrt R (map fst (filter P xs))"
  by (induction xs) (auto simp: image_iff)

lemma foldl_remove:
  "foldl app_op t (map BRemove ks) = filter (\<lambda>p. fst p \<notin> set ks) t"
  by (induction ks arbitrary: t) (auto simp: conj_commute)

lemma foldl_app_op_sorted:
  "sorted_wrt (<) (map fst t) \<Longrightarrow> sorted_wrt (<) (map fst (foldl app_op t ops))"
proof (induction ops arbitrary: t)
  case (Cons op ops)
  then show ?case by (cases op) (auto simp: upd_sorted filter_fst_sorted)
qed simp

section \<open>The contract of the libraries\<close>

record aworld =
  trees :: "string \<Rightarrow> tree"
  files :: "string \<Rightarrow> string list option"

definition set_tree :: "string \<Rightarrow> tree \<Rightarrow> aworld \<Rightarrow> aworld" where
  "set_tree t x a = a\<lparr>trees := (trees a)(t := x)\<rparr>"

definition set_file :: "string \<Rightarrow> string list \<Rightarrow> aworld \<Rightarrow> aworld" where
  "set_file p ls a = a\<lparr>files := (files a)(p \<mapsto> ls)\<rparr>"

lemma set_tree_simps [simp]:
  "trees (set_tree t x a) = (trees a)(t := x)" "files (set_tree t x a) = files a"
  "trees (set_file p ls a) = trees a" "files (set_file p ls a) = (files a)(p \<mapsto> ls)"
  by (simp_all add: set_tree_def set_file_def)

lemma set_again [simp]:
  "set_tree t x (set_tree t y a) = set_tree t x a" "set_file p ls (set_file p ls' a) = set_file p ls a"
  by (simp_all add: set_tree_def set_file_def)

lemma set_file_idle: "files a p = Some ls \<Longrightarrow> set_file p ls a = a"
  by (simp add: set_file_def fun_upd_idem)

lemma set_tree_idle [simp]: "set_tree t (trees a t) a = a"
  by (simp add: set_tree_def)

text \<open>From every healthy world with abstract state \<open>a\<close> a computation succeeds with result \<open>x\<close> in a
  healthy world with abstract state \<open>b\<close>.\<close>

definition runs :: "('w \<Rightarrow> bool) \<Rightarrow> ('w \<Rightarrow> aworld) \<Rightarrow> ('w, 'a) io \<Rightarrow> aworld \<Rightarrow> 'a \<Rightarrow> aworld \<Rightarrow> bool" where
  "runs healthy absw m a x b \<longleftrightarrow>
     (\<forall>w. healthy w \<longrightarrow> absw w = a \<longrightarrow> (\<exists>w'. m w = (Inr x, w') \<and> healthy w' \<and> absw w' = b))"

lemma runsD: "runs healthy absw m (absw w) x b \<Longrightarrow> healthy w \<Longrightarrow> \<exists>w'. m w = (Inr x, w') \<and> healthy w' \<and> absw w' = b"
  by (simp add: runs_def)

lemma runsE:
  assumes "runs healthy absw m a x b" and "healthy w" and "absw w = a"
  obtains w' where "m w = (Inr x, w')" and "healthy w'" and "absw w' = b"
  using assms by (auto simp: runs_def)

locale store =
  fixes X :: "'w ext" and healthy :: "'w \<Rightarrow> bool" and absw :: "'w \<Rightarrow> aworld"
  assumes trees_sorted: "healthy w \<Longrightarrow> sorted_wrt (<) (map fst (trees (absw w) t))"
    and do_open_tree: "runs healthy absw (open_tree X t) a () a"
    and do_get: "runs healthy absw (tree_get X t k) a (map_of (trees a t) k) a"
    and do_insert: "runs healthy absw (tree_insert X t k v) a () (set_tree t (upd k v (trees a t)) a)"
    and do_range: "runs healthy absw (readS (tree_range X t lo hi)) a
      (map Inr (filter (\<lambda>p. lo \<le> fst p \<and> fst p \<le> hi) (trees a t))) a"
    and do_batch: "runs healthy absw (apply_batch X t ops) a () (set_tree t (foldl app_op (trees a t) ops) a)"
    and do_flush: "runs healthy absw (db_flush X) a () a"
    and do_size: "healthy w \<Longrightarrow> \<exists>n w'. size_on_disk X w = (Inr n, w') \<and> healthy w' \<and> absw w' = absw w"
    and do_mkdir: "runs healthy absw (create_dir_all X d) a () a"
    and do_create: "runs healthy absw (file_create X p) a () (set_file p [] a)"
    and do_writeln: "files a p = Some ls \<Longrightarrow>
      runs healthy absw (file_writeln X p l) a () (set_file p (ls @ [l]) a)"
begin

abbreviation run :: "('w, 'a) io \<Rightarrow> aworld \<Rightarrow> 'a \<Rightarrow> aworld \<Rightarrow> bool" where
  "run \<equiv> runs healthy absw"

lemma run_ret: "run (retS x) a x a"
  by (simp add: runs_def retS_def)

lemma run_lift: "r = Inr x \<Longrightarrow> run (liftS r) a x a"
  by (simp add: runs_def liftS_def)

lemma run_bind: "run m a x b \<Longrightarrow> run (f x) b y c \<Longrightarrow> run (bindS m f) a y c"
  unfolding runs_def by (fastforce simp: bindS_def)

lemma run_eq: "run m a x b \<Longrightarrow> x = x' \<Longrightarrow> b = b' \<Longrightarrow> run m a x' b'"
  by simp

text \<open>A loop refines a fold over abstract accumulators and states, under an invariant of the state.\<close>

lemma run_foldS_inv:
  assumes "\<And>b a x. x \<in> set xs \<Longrightarrow> P b a \<Longrightarrow>
      run (f b x) a (fst (g (b, a) x)) (snd (g (b, a) x)) \<and> P (fst (g (b, a) x)) (snd (g (b, a) x))"
    and "P b a"
  shows "run (foldS f b xs) a (fst (foldl g (b, a) xs)) (snd (foldl g (b, a) xs)) \<and>
         P (fst (foldl g (b, a) xs)) (snd (foldl g (b, a) xs))"
  using assms
proof (induction xs arbitrary: b a)
  case Nil
  then show ?case by (simp add: run_ret)
next
  case (Cons x xs)
  note step = Cons.prems(1) [OF list.set_intros(1) Cons.prems(2)]
  have "run (foldS f (fst (g (b, a) x)) xs) (snd (g (b, a) x)) (fst (foldl g (g (b, a) x) xs))
      (snd (foldl g (g (b, a) x) xs)) \<and> P (fst (foldl g (g (b, a) x) xs)) (snd (foldl g (g (b, a) x) xs))"
    using Cons.IH [of "fst (g (b, a) x)" "snd (g (b, a) x)"] Cons.prems(1) step by simp
  then show ?case using step by (auto intro: run_bind)
qed

lemma run_foldS:
  assumes "\<And>b a x. x \<in> set xs \<Longrightarrow> run (f b x) a (fst (g (b, a) x)) (snd (g (b, a) x))"
  shows "run (foldS f b xs) a (fst (foldl g (b, a) xs)) (snd (foldl g (b, a) xs))"
  using run_foldS_inv [of xs "\<lambda>_ _. True" f g b a] assms by simp

end

end
