(* ===== verification/Buckets.thy ===== *)
theory Buckets
  imports Metrics "HOL-Library.Product_Lexorder"
begin

text \<open>
  Time buckets of the tiered storage (\<open>heimwatch-storage/src/aggregation.rs\<close>, first part): flooring
  a Unix timestamp to its day, month or year and stepping back a number of months.  The date
  arithmetic is the crate \<open>chrono\<close>, which the functions take as a record of operations; what they
  rely on is the locale \<open>calendar\<close>, which the theory \<open>Gregorian\<close> interprets on a concrete
  calendar.  The locale \<open>bucketing\<close> is the contract the tier aggregation relies on.
\<close>

section \<open>The date operations that are called\<close>

text \<open>
  \<open>from_timestamp\<close> is \<open>DateTime::from_timestamp(secs, 0)\<close> followed by \<open>date_naive\<close>; \<open>midnight\<close> is
  \<open>and_hms_opt(0, 0, 0)\<close> followed by \<open>and_utc().timestamp()\<close>.  Years are \<open>i32\<close>, months \<open>u32\<close>; both
  stay far inside their ranges and are kept as \<open>int\<close> and \<open>nat\<close>.
\<close>

record 'd chrono =
  from_timestamp :: "i64 \<Rightarrow> 'd option"
  year :: "'d \<Rightarrow> int"
  month :: "'d \<Rightarrow> nat"
  from_ymd_opt :: "int \<Rightarrow> nat \<Rightarrow> nat \<Rightarrow> 'd option"
  midnight :: "'d \<Rightarrow> i64 option"
  checked_sub_months :: "'d \<Rightarrow> u32 \<Rightarrow> 'd option"

section \<open>The bucket functions\<close>

text \<open>Both words have 64 bits, so \<open>ts as i64\<close> and \<open>t as u64\<close> keep the bits.  \<open>None\<close> of the inner
  expressions is falling through to the integer arithmetic.\<close>

definition day_bucket :: "'d chrono \<Rightarrow> u64 \<Rightarrow> u64" where
  "day_bucket C ts =
     (case Option.bind (from_timestamp C ts) (midnight C) of
        Some t \<Rightarrow> t
      | None \<Rightarrow> (ts div 86400) * 86400)"

definition month_bucket :: "'d chrono \<Rightarrow> u64 \<Rightarrow> u64" where
  "month_bucket C ts =
     (case Option.bind (from_timestamp C ts) (\<lambda>date.
           Option.bind (from_ymd_opt C (year C date) (month C date) 1) (midnight C)) of
        Some t \<Rightarrow> t
      | None \<Rightarrow> ((ts div 86400) div 30) * 30 * 86400)"

definition year_bucket :: "'d chrono \<Rightarrow> u64 \<Rightarrow> u64" where
  "year_bucket C ts =
     (case Option.bind (from_timestamp C ts) (\<lambda>date.
           Option.bind (from_ymd_opt C (year C date) 1 1) (midnight C)) of
        Some t \<Rightarrow> t
      | None \<Rightarrow> ((ts div 86400) div 365) * 365 * 86400)"

definition subtract_months :: "'d chrono \<Rightarrow> u64 \<Rightarrow> u32 \<Rightarrow> u64" where
  "subtract_months C ts months =
     (case Option.bind (from_timestamp C ts) (\<lambda>date.
           Option.bind (checked_sub_months C date months) (midnight C)) of
        Some t \<Rightarrow> t
      | None \<Rightarrow> sat_sub ts (ucast months * 30 * 86400))"

text \<open>The three bucket functions are one scheme: convert, go to a distinguished day, take its
  midnight, or else fall back.\<close>

definition floor_by :: "'d chrono \<Rightarrow> ('d \<Rightarrow> 'd option) \<Rightarrow> (u64 \<Rightarrow> u64) \<Rightarrow> u64 \<Rightarrow> u64" where
  "floor_by C first fallback ts =
     (case Option.bind (from_timestamp C ts) (\<lambda>d. Option.bind (first d) (midnight C)) of
        Some t \<Rightarrow> t
      | None \<Rightarrow> fallback ts)"

lemma day_bucket_floor_by:
  "day_bucket C = floor_by C Some (\<lambda>ts. (ts div 86400) * 86400)"
  by (rule ext) (simp add: day_bucket_def floor_by_def)

lemma month_bucket_floor_by:
  "month_bucket C = floor_by C (\<lambda>d. from_ymd_opt C (year C d) (month C d) 1)
     (\<lambda>ts. ((ts div 86400) div 30) * 30 * 86400)"
  unfolding month_bucket_def floor_by_def by (rule refl ext)+

lemma year_bucket_floor_by:
  "year_bucket C = floor_by C (\<lambda>d. from_ymd_opt C (year C d) 1 1)
     (\<lambda>ts. ((ts div 86400) div 365) * 365 * 86400)"
  unfolding year_bucket_def floor_by_def by (rule refl ext)+

section \<open>What the code relies on\<close>

text \<open>
  A date has a day number, counted from 1970-01-01.  A timestamp at or after the epoch converts
  exactly when its day is at most the last supported day; every date has a midnight; years and
  months grow with the day number; the first day of a date's month or year exists and is not
  after it; stepping back months changes the month count by exactly that number, exists as long
  as the target month lies in the common era, and does not go forward.
\<close>

abbreviation month_count :: "'d chrono \<Rightarrow> 'd \<Rightarrow> int" where
  "month_count C d \<equiv> 12 * year C d + int (month C d)"

locale calendar =
  fixes C :: "'d chrono" and day_no :: "'d \<Rightarrow> int" and max_day :: int
  assumes conv_Some: "0 \<le> sint t \<Longrightarrow> sint t div 86400 \<le> max_day \<Longrightarrow>
        \<exists>d. from_timestamp C t = Some d \<and> day_no d = sint t div 86400"
    and conv_None: "max_day < sint t div 86400 \<Longrightarrow> from_timestamp C t = None"
    and max_day: "0 \<le> max_day" "max_day < 2 ^ 63 div 86400 - 1"
    and midnight_Some: "midnight C d = Some (of_int (day_no d * 86400))"
    and month_range: "1 \<le> month C d \<and> month C d \<le> 12"
    and first_of_month: "0 \<le> day_no d \<Longrightarrow> day_no d \<le> max_day \<Longrightarrow>
        \<exists>f. from_ymd_opt C (year C d) (month C d) 1 = Some f \<and> year C f = year C d \<and>
            month C f = month C d \<and> day_no f \<le> day_no d"
    and first_of_year: "0 \<le> day_no d \<Longrightarrow> day_no d \<le> max_day \<Longrightarrow>
        \<exists>f. from_ymd_opt C (year C d) 1 1 = Some f \<and> year C f = year C d \<and> day_no f \<le> day_no d"
    and ym_mono: "day_no d \<le> day_no e \<Longrightarrow> month_count C d \<le> month_count C e"
    and epoch: "\<exists>e. from_ymd_opt C 1970 1 1 = Some e \<and> day_no e = 0 \<and> year C e = 1970 \<and> month C e = 1"
    and epoch_first: "day_no d < 0 \<Longrightarrow> year C d < 1970"
    and sub_months: "0 \<le> day_no d \<Longrightarrow> day_no d \<le> max_day \<Longrightarrow> checked_sub_months C d n = Some e \<Longrightarrow>
        month_count C e = month_count C d - int (unat n) \<and> day_no e \<le> day_no d \<and>
        - (2 ^ 62 div 86400) \<le> day_no e"
    and sub_months_Some: "0 \<le> day_no d \<Longrightarrow> day_no d \<le> max_day \<Longrightarrow>
        12 < month_count C d - int (unat n) \<Longrightarrow> \<exists>e. checked_sub_months C d n = Some e"
begin

text \<open>The timestamps that convert.\<close>

lemma conv_u64:
  assumes "uint ts < (max_day + 1) * 86400"
  obtains d where "from_timestamp C ts = Some d" and "day_no d = uint ts div 86400"
    and "0 \<le> day_no d" and "day_no d \<le> max_day"
proof -
  have "(max_day + 1) * 86400 \<le> 2 ^ 63" using max_day by simp
  with assms have "uint ts < 2 ^ 63" by linarith
  then have "sint ts = uint ts" by (rule sint_small_u64)
  moreover have "uint ts div 86400 \<le> max_day"
    using assms by (rule div_days_le)
  ultimately show thesis
    using conv_Some [of ts] that by (auto simp: pos_imp_zdiv_nonneg_iff)
qed

lemma month_count_eq: "day_no d = day_no e \<Longrightarrow> month_count C d = month_count C e"
  using ym_mono [of d e] ym_mono [of e d] by simp

lemma year_month_eq: "month_count C d = month_count C e \<longleftrightarrow> year C d = year C e \<and> month C d = month C e"
  using month_range [of d] month_range [of e] by presburger

lemma year_mono: "day_no d \<le> day_no e \<Longrightarrow> year C d \<le> year C e"
  using ym_mono [of d e] month_range [of d] month_range [of e] by presburger

end

text \<open>A period of the calendar (a month, a year) as a key that grows with the day, and the first day
  of each period.\<close>

locale period = calendar C day_no max_day
  for C :: "'d chrono" and day_no :: "'d \<Rightarrow> int" and max_day :: int +
  fixes key :: "'d \<Rightarrow> int" and first :: "'d \<Rightarrow> 'd option"
  assumes key_mono: "day_no d \<le> day_no e \<Longrightarrow> key d \<le> key e"
    and first_key: "key d = key e \<Longrightarrow> first d = first e"
    and first_Some: "0 \<le> day_no d \<Longrightarrow> day_no d \<le> max_day \<Longrightarrow>
        \<exists>f. first d = Some f \<and> key f = key d \<and> day_no f \<le> day_no d"
    and first_epoch: "\<exists>e. day_no e = 0 \<and> first e = Some e"
begin

lemma first_nonneg:
  assumes "0 \<le> day_no d" and "day_no d \<le> max_day"
  obtains f where "first d = Some f" "key f = key d" "0 \<le> day_no f" "day_no f \<le> day_no d"
proof -
  obtain f where f: "first d = Some f" "key f = key d" "day_no f \<le> day_no d"
    using first_Some assms by blast
  obtain e where e: "day_no e = 0" "first e = Some e" using first_epoch by blast
  have "0 \<le> day_no f"
  proof (rule ccontr)
    assume neg: "\<not> 0 \<le> day_no f"
    then have "key f \<le> key e" "key e \<le> key d"
      using key_mono e assms by simp_all
    then have "first d = first e" using f(2) by (intro first_key) simp
    then show False using e f neg by simp
  qed
  with f that show thesis by blast
qed

lemma floor_by_first:
  assumes "uint ts < (max_day + 1) * 86400"
  obtains d f where "from_timestamp C ts = Some d" "day_no d = uint ts div 86400"
    "first d = Some f" "key f = key d" "0 \<le> day_no f" "day_no f \<le> day_no d"
    "uint (floor_by C first fb ts) = day_no f * 86400"
proof -
  obtain d where d: "from_timestamp C ts = Some d" "day_no d = uint ts div 86400"
    "0 \<le> day_no d" "day_no d \<le> max_day"
    using conv_u64 [OF assms] by blast
  obtain f where f: "first d = Some f" "key f = key d" "0 \<le> day_no f" "day_no f \<le> day_no d"
    using first_nonneg [OF d(3,4)] by blast
  have "day_no f * 86400 < 2 ^ 64" "0 \<le> day_no f * 86400"
    using f d max_day by simp_all
  then have "uint (floor_by C first fb ts) = day_no f * 86400"
    by (simp add: floor_by_def d f midnight_Some uint_word_of_int_small del: of_int_mult)
  with d f that show thesis by blast
qed

lemma floor_by_le: "uint ts < (max_day + 1) * 86400 \<Longrightarrow> floor_by C first fb ts \<le> ts"
  by (rule floor_by_first [of ts fb], assumption, unfold word_le_def, linarith)

lemma floor_by_mono:
  assumes t: "uint t < (max_day + 1) * 86400" and le: "s \<le> t"
  shows "floor_by C first fb s \<le> floor_by C first fb t"
proof -
  have s: "uint s < (max_day + 1) * 86400" using t le by (simp add: word_le_def)
  obtain d f where d: "day_no d = uint s div 86400" "first d = Some f" "key f = key d"
      "uint (floor_by C first fb s) = day_no f * 86400"
    using floor_by_first [OF s, of fb] by metis
  obtain e g where e: "day_no e = uint t div 86400" "first e = Some g" "key g = key e"
      "uint (floor_by C first fb t) = day_no g * 86400"
    using floor_by_first [OF t, of fb] by metis
  have key: "key d \<le> key e"
    using le d(1) e(1) by (intro key_mono) (simp add: word_le_def zdiv_mono1)
  have "day_no f \<le> day_no g"
  proof (rule ccontr)
    assume "\<not> day_no f \<le> day_no g"
    then have "key g \<le> key f" and ne: "f \<noteq> g" using key_mono [of g f] by auto
    then have "first d = first e" using key d(3) e(3) by (intro first_key) simp
    then show False using d e ne by simp
  qed
  then show ?thesis using d(4) e(4) by (simp add: word_le_def)
qed

lemma floor_by_idem:
  assumes ts: "uint ts < (max_day + 1) * 86400"
  shows "floor_by C first fb (floor_by C first fb ts) = floor_by C first fb ts"
proof -
  obtain d f where d: "first d = Some f" "key f = key d"
      "uint (floor_by C first fb ts) = day_no f * 86400"
    using floor_by_first [OF ts, of fb] by metis
  have "uint (floor_by C first fb ts) < (max_day + 1) * 86400"
    using floor_by_le [OF ts, of fb] ts by (simp add: word_le_def)
  then obtain e g where e: "day_no e = uint (floor_by C first fb ts) div 86400" "first e = Some g"
      "uint (floor_by C first fb (floor_by C first fb ts)) = day_no g * 86400"
    using floor_by_first [of "floor_by C first fb ts" fb] by metis
  have "key e = key f"
    using e(1) d(3) key_mono [of e f] key_mono [of f e] by simp
  then have "first e = first d" using d(2) by (intro first_key) simp
  then show ?thesis using d e by (simp add: word_uint_eq_iff)
qed

lemma floor_by_eq_iff:
  assumes "uint s < (max_day + 1) * 86400" and "uint t < (max_day + 1) * 86400"
    and "from_timestamp C s = Some d" and "from_timestamp C t = Some e"
  shows "floor_by C first fb s = floor_by C first fb t \<longleftrightarrow> key d = key e"
proof -
  obtain f where f: "first d = Some f" "key f = key d"
      "uint (floor_by C first fb s) = day_no f * 86400"
    using floor_by_first [OF assms(1), of fb] assms(3) by (metis option.inject)
  obtain g where g: "first e = Some g" "key g = key e"
      "uint (floor_by C first fb t) = day_no g * 86400"
    using floor_by_first [OF assms(2), of fb] assms(4) by (metis option.inject)
  have "floor_by C first fb s = floor_by C first fb t \<longleftrightarrow> day_no f = day_no g"
    using f g by (simp add: word_uint_eq_iff)
  also have "\<dots> \<longleftrightarrow> key d = key e"
    using f g key_mono [of f g] key_mono [of g f] first_key [of d e] by auto
  finally show ?thesis .
qed

end

text \<open>The contract of a bucket function on the timestamps below some bound: it rounds down, does
  not move what is already rounded, and keeps the order.\<close>

locale bucketing =
  fixes bucket :: "u64 \<Rightarrow> u64" and bound :: int
  assumes bucket_le: "uint ts < bound \<Longrightarrow> bucket ts \<le> ts"
    and bucket_idem: "uint ts < bound \<Longrightarrow> bucket (bucket ts) = bucket ts"
    and bucket_mono: "uint t < bound \<Longrightarrow> s \<le> t \<Longrightarrow> bucket s \<le> bucket t"
begin

text \<open>Two timestamps share a bucket exactly when nothing separates them: the bucket of one lies at
  or below the other and conversely.\<close>

lemma same_bucket:
  assumes "uint t < bound" and "s \<le> t"
  shows "bucket s = bucket t \<longleftrightarrow> bucket t \<le> s"
proof
  assume "bucket s = bucket t"
  then show "bucket t \<le> s"
    using bucket_le [of s] assms by (simp add: word_le_def)
next
  assume "bucket t \<le> s"
  then have "bucket (bucket t) \<le> bucket s"
    using bucket_mono assms by (simp add: word_le_def)
  then show "bucket s = bucket t"
    using bucket_mono [OF assms] bucket_idem [OF assms(1)] by simp
qed

text \<open>What falls before a bucket start stays before it.\<close>

lemma bucket_separates: "uint t < bound \<Longrightarrow> s < bucket t \<Longrightarrow> bucket s < bucket t"
  using bucket_le [of s] bucket_le [of t] by (simp add: word_less_def word_le_def)

end

section \<open>Interpretations\<close>

sublocale calendar \<subseteq> month: period C day_no max_day "month_count C"
  "\<lambda>d. from_ymd_opt C (year C d) (month C d) 1"
proof
  show "\<exists>e. day_no e = 0 \<and> from_ymd_opt C (year C e) (month C e) 1 = Some e"
    using epoch by force
qed (use ym_mono first_of_month in \<open>auto simp: year_month_eq\<close>)

sublocale calendar \<subseteq> year: period C day_no max_day "year C" "\<lambda>d. from_ymd_opt C (year C d) 1 1"
proof
  show "\<exists>e. day_no e = 0 \<and> from_ymd_opt C (year C e) 1 1 = Some e"
    using epoch by force
qed (use year_mono first_of_year in auto)

sublocale calendar \<subseteq> month_b: bucketing "month_bucket C" "(max_day + 1) * 86400"
  by (unfold_locales; unfold month_bucket_floor_by)
    (rule month.floor_by_le month.floor_by_idem month.floor_by_mono; assumption)+

sublocale calendar \<subseteq> year_b: bucketing "year_bucket C" "(max_day + 1) * 86400"
  by (unfold_locales; unfold year_bucket_floor_by)
    (rule year.floor_by_le year.floor_by_idem year.floor_by_mono; assumption)+

context calendar
begin

lemma day_bucket_eq:
  assumes "uint ts < 2 ^ 63"
  shows "day_bucket C ts = (ts div 86400) * 86400"
proof (cases "uint ts div 86400 \<le> max_day")
  case True
  moreover have "sint ts = uint ts" using assms by (rule sint_small_u64)
  ultimately obtain d where d: "from_timestamp C ts = Some d" "day_no d = uint ts div 86400"
    using conv_Some [of ts] by (auto simp: pos_imp_zdiv_nonneg_iff)
  have "day_bucket C ts = word_of_int (uint ts div 86400 * 86400)"
    by (simp add: day_bucket_def d midnight_Some)
  also have "\<dots> = word_of_int (uint (ts div 86400)) * 86400"
    by (simp add: uint_div)
  finally show ?thesis by simp
next
  case False
  moreover have "sint ts = uint ts" using assms by (rule sint_small_u64)
  ultimately show ?thesis using conv_None [of ts] by (simp add: day_bucket_def)
qed

lemma day_bucket_le: "uint ts < 2 ^ 63 \<Longrightarrow> day_bucket C ts \<le> ts"
  by (simp add: day_bucket_eq word_le_nat_alt unat_div unat_word_ariths)

lemma month_bucket_groups:
  assumes "uint s < (max_day + 1) * 86400" and "uint t < (max_day + 1) * 86400"
    and "from_timestamp C s = Some d" and "from_timestamp C t = Some e"
  shows "month_bucket C s = month_bucket C t \<longleftrightarrow> year C d = year C e \<and> month C d = month C e"
  unfolding month_bucket_floor_by month.floor_by_eq_iff [OF assms] by (rule year_month_eq)

lemma year_bucket_groups:
  assumes "uint s < (max_day + 1) * 86400" and "uint t < (max_day + 1) * 86400"
    and "from_timestamp C s = Some d" and "from_timestamp C t = Some e"
  shows "year_bucket C s = year_bucket C t \<longleftrightarrow> year C d = year C e"
  unfolding year_bucket_floor_by by (rule year.floor_by_eq_iff [OF assms])

lemmas month_rounds = conjI [OF month_b.bucket_le conjI [OF month_b.bucket_idem month_b.bucket_mono]]
lemmas year_rounds = conjI [OF year_b.bucket_le conjI [OF year_b.bucket_idem year_b.bucket_mono]]

lemma subtract_months_date:
  assumes ts: "uint ts < (max_day + 1) * 86400"
    and d: "from_timestamp C ts = Some d" "checked_sub_months C d n = Some e"
  shows "subtract_months C ts n = word_of_int (day_no e * 86400)"
    and "month_count C e = month_count C d - int (unat n)"
    and "day_no e * 86400 \<le> uint ts" and "- (2 ^ 62) \<le> day_no e * 86400"
proof -
  obtain d' where "from_timestamp C ts = Some d'" "day_no d' = uint ts div 86400"
    "0 \<le> day_no d'" "day_no d' \<le> max_day"
    using conv_u64 [OF ts] by blast
  with d have e: "day_no d = uint ts div 86400" "0 \<le> day_no d" "day_no d \<le> max_day" by simp_all
  from sub_months [OF e(2,3) d(2)] show "month_count C e = month_count C d - int (unat n)"
    and "day_no e * 86400 \<le> uint ts" and "- (2 ^ 62) \<le> day_no e * 86400"
    using e(1) by auto
  show "subtract_months C ts n = word_of_int (day_no e * 86400)"
    by (simp add: subtract_months_def d midnight_Some)
qed

lemma subtract_months_cases:
  assumes ts: "uint ts < (max_day + 1) * 86400"
    and d: "from_timestamp C ts = Some d" "checked_sub_months C d n = Some e"
  shows "if 12 * 1970 + 1 \<le> month_count C d - int (unat n)
     then uint (subtract_months C ts n) = day_no e * 86400 \<and> subtract_months C ts n \<le> ts
     else 2 ^ 63 \<le> uint (subtract_months C ts n)"
proof -
  note r = subtract_months_date [OF assms]
  obtain o' where o': "day_no o' = 0" "month_count C o' = 12 * 1970 + 1" "from_ymd_opt C 1970 1 1 = Some o'"
    using epoch by auto
  have early: "day_no e < 0" if "month_count C e < 12 * 1970 + 1"
    using that ym_mono [of o' e] o' by force
  have late: "0 \<le> day_no e" if "12 * 1970 + 1 \<le> month_count C e"
  proof (rule ccontr)
    assume neg: "\<not> 0 \<le> day_no e"
    then have "month_count C e = month_count C o'"
      using that ym_mono [of e o'] o' by simp
    then have "year C e = 1970 \<and> month C e = 1"
      using o' year_month_eq [of e o'] epoch by auto
    with neg show False using epoch_first [of e] by simp
  qed
  show ?thesis
  proof (cases "12 * 1970 + 1 \<le> month_count C e")
    case True
    have "day_no e * 86400 < 2 ^ LENGTH(64)" "0 \<le> day_no e * 86400"
      using late [OF True] r(3) uint_lt2p [of ts] by simp_all
    then have "uint (subtract_months C ts n) = day_no e * 86400"
      unfolding r(1) by (intro uint_word_of_int_small)
    then show ?thesis using True r by (simp add: word_le_def)
  next
    case False
    have neg: "day_no e * 86400 < 0" using early False by simp
    have "uint (subtract_months C ts n) = day_no e * 86400 + 2 ^ 64"
      unfolding r(1) using neg r(4) by (intro uint_word_of_int_neg) simp_all
    then show ?thesis using False r by simp
  qed
qed

end

end
