(* ===== verification/Storage.thy ===== *)
theory Storage
  imports Sled Buckets
begin

text \<open>
  The storage layer's inserts and queries (\<open>heimwatch-storage/src/db.rs\<close>, first part).  Functions take
  the library operations \<open>X\<close>, where dates are needed the calendar \<open>C\<close>, and the results of the clock
  reads they make.  A tree handle is the tree's name.  The lemmas relate the byte-level trees to
  lists of records ordered by key: inserting a record, and what a query returns.
\<close>

section \<open>Clock and trees\<close>

text \<open>\<open>duration_since\<close> fails on a clock before the epoch.\<close>

definition current_unix_timestamp :: "unit + u64 \<Rightarrow> any_error + u64" where
  "current_unix_timestamp since_epoch = map_err (\<lambda>_. TimeError) since_epoch"

definition storage_open :: "'w ext \<Rightarrow> string \<Rightarrow> ('w, unit) io" where
  "storage_open X path = sled_open X path (256 * 1024 * 1024) (Some 1000)"

definition metrics_tree :: "'w ext \<Rightarrow> ('w, string) io" where
  "metrics_tree X = bindS (open_tree X ''metrics'') (\<lambda>_. retS ''metrics'')"

definition meta_tree :: "'w ext \<Rightarrow> ('w, string) io" where
  "meta_tree X = bindS (open_tree X ''meta'') (\<lambda>_. retS ''meta'')"

definition metrics_1d_tree :: "'w ext \<Rightarrow> ('w, string) io" where
  "metrics_1d_tree X = bindS (open_tree X ''metrics_1d'') (\<lambda>_. retS ''metrics_1d'')"

definition metrics_1m_tree :: "'w ext \<Rightarrow> ('w, string) io" where
  "metrics_1m_tree X = bindS (open_tree X ''metrics_1m'') (\<lambda>_. retS ''metrics_1m'')"

definition metrics_1y_tree :: "'w ext \<Rightarrow> ('w, string) io" where
  "metrics_1y_tree X = bindS (open_tree X ''metrics_1y'') (\<lambda>_. retS ''metrics_1y'')"

definition retention_cutoff :: "u32 \<Rightarrow> u64 \<Rightarrow> u64" where
  "retention_cutoff retention_days now = sat_sub now (ucast retention_days * 86400)"

section \<open>Inserting\<close>

abbreviation rkey :: "MetricRecord \<Rightarrow> string" where
  "rkey r \<equiv> encode_key (rec_type r) (timestamp r) (app_name r)"

definition insert_metric :: "'w ext \<Rightarrow> MetricRecord \<Rightarrow> ('w, unit) io" where
  "insert_metric X r =
     bindS (metrics_tree X) (\<lambda>tree.
     bindS (liftS (rec_to_vec X r)) (\<lambda>v.
     tree_insert X tree (rkey r) v))"

definition insert_metrics_batch :: "'w ext \<Rightarrow> MetricRecord list \<Rightarrow> ('w, unit) io" where
  "insert_metrics_batch X rs =
     bindS (metrics_tree X) (\<lambda>tree.
     bindS (liftS (mapR (\<lambda>r. bindR (rec_to_vec X r) (\<lambda>v. Inr (BInsert (rkey r) v))) rs)) (\<lambda>batch.
     apply_batch X tree batch))"

definition insert_focus_event :: "'w ext \<Rightarrow> string \<Rightarrow> u64 \<Rightarrow> u64 \<Rightarrow> ('w, unit) io" where
  "insert_focus_event X app duration ts =
     insert_metric X \<lparr> app_name = app, timestamp = ts,
       payload = FocP \<lparr> app_id = app, duration_ms = duration \<rparr> \<rparr>"

section \<open>Queries\<close>

text \<open>The loop \<open>for item in tree.range(..)\<close> that decodes each value.\<close>

definition scan_records :: "'w ext \<Rightarrow> string \<Rightarrow> string \<Rightarrow> string \<Rightarrow> ('w, MetricRecord list) io" where
  "scan_records X tree lo hi =
     bindS (readS (tree_range X tree lo hi)) (\<lambda>items.
     liftS (mapR (\<lambda>item. bindR item (\<lambda>(_, v). rec_from_slice X v)) items))"

definition query_raw :: "'w ext \<Rightarrow> MetricType \<Rightarrow> u64 \<Rightarrow> u64 \<Rightarrow> ('w, MetricRecord list) io" where
  "query_raw X mt start end_t =
     bindS (metrics_tree X) (\<lambda>tree. scan_records X tree (range_start mt start) (range_end mt end_t))"

text \<open>The three fallbacks to the aggregate trees; each one runs only while nothing was found.\<close>

definition query_tiers ::
  "'w ext \<Rightarrow> 'd chrono \<Rightarrow> u64 \<Rightarrow> MetricType \<Rightarrow> u64 \<Rightarrow> u64 \<Rightarrow> ('w, MetricRecord list) io" where
  "query_tiers X C now mt start end_t =
     (let raw_boundary = sat_sub now (24 * 3600);
          daily_boundary = month_bucket C now;
          monthly_boundary = subtract_months C now 12
      in bindS
          (if start < raw_boundary
           then bindS (metrics_1d_tree X) (\<lambda>tree. scan_records X tree
                  (range_start mt (max start daily_boundary))
                  (range_end mt (min end_t (sat_sub raw_boundary 1))))
           else retS []) (\<lambda>daily.
         bindS
          (if start < daily_boundary \<and> daily = []
           then bindS (metrics_1m_tree X) (\<lambda>tree. scan_records X tree
                  (range_start mt (max start monthly_boundary))
                  (range_end mt (min end_t (sat_sub daily_boundary 1))))
           else retS daily) (\<lambda>monthly.
         if start < monthly_boundary \<and> monthly = []
         then bindS (metrics_1y_tree X) (\<lambda>tree. scan_records X tree
                (range_start mt start)
                (range_end mt (min end_t (sat_sub monthly_boundary 1))))
         else retS monthly)))"

definition get_metrics_by_type ::
  "'w ext \<Rightarrow> 'd chrono \<Rightarrow> any_error + u64 \<Rightarrow> MetricType \<Rightarrow> u64 \<Rightarrow> u64 \<Rightarrow> ('w, MetricRecord list) io" where
  "get_metrics_by_type X C clock mt start end_t =
     (let now = unwrap_or (ok_opt clock) (- 1) in
      bindS (query_raw X mt start end_t) (\<lambda>raw.
      bindS (if raw = [] then query_tiers X C now mt start end_t else retS raw) (\<lambda>results.
      retS (sort_by (\<lambda>a b. timestamp a \<le> timestamp b) results))))"

text \<open>\<open>clock i\<close> is the result of the \<open>i\<close>-th clock read of a function that makes several.\<close>

definition get_metrics_by_app ::
  "'w ext \<Rightarrow> 'd chrono \<Rightarrow> (nat \<Rightarrow> any_error + u64) \<Rightarrow> string \<Rightarrow> u64 \<Rightarrow> u64 \<Rightarrow> ('w, MetricRecord list) io" where
  "get_metrics_by_app X C clock app start end_t =
     foldS (\<lambda>results (i, mt).
        bindS (get_metrics_by_type X C (clock i) mt start end_t) (\<lambda>records.
        retS (results @ filter (\<lambda>r. app_name r = app) records)))
       [] (List.enumerate 0 ALL_METRIC_TYPES)"

fun cpu_time_of :: "MetricPayload \<Rightarrow> u64 option" where
  "cpu_time_of (CpuP d) = Some (cpu_time_ns d)"
| "cpu_time_of _ = None"

definition get_aggregated_cpu ::
  "'w ext \<Rightarrow> 'd chrono \<Rightarrow> (nat \<Rightarrow> any_error + u64) \<Rightarrow> string \<Rightarrow> u64 \<Rightarrow> u64 \<Rightarrow> ('w, fl) io" where
  "get_aggregated_cpu X C clock app start end_t =
     bindS (get_metrics_by_app X C clock app start end_t) (\<lambda>records.
     let cpu_records = List.map_filter (cpu_time_of \<circ> payload) records in
     if cpu_records = [] then failS (StorageErr NotFound)
     else retS (fdiv F32 (of_word F32 (wsum cpu_records)) (of_len F32 (length cpu_records))))"

text \<open>A \<open>HashMap\<close> is an association list in insertion order; \<open>into_iter\<close> visits it in an unspecified
  order, the parameter \<open>iter\<close>.\<close>

fun entry_mod :: "'k \<Rightarrow> 'v \<Rightarrow> ('v \<Rightarrow> 'v) \<Rightarrow> ('k \<times> 'v) list \<Rightarrow> ('k \<times> 'v) list" where
  "entry_mod k d f [] = [(k, f d)]"
| "entry_mod k d f ((k', v) # m) = (if k = k' then (k, f v) # m else (k', v) # entry_mod k d f m)"

type_synonym ('k, 'v) hash_iter = "('k \<times> 'v) list \<Rightarrow> ('k \<times> 'v) list"

definition net_totals_step :: "(string \<times> u64 \<times> u64) list \<Rightarrow> MetricRecord \<Rightarrow> (string \<times> u64 \<times> u64) list" where
  "net_totals_step m r =
     (case payload r of
        NetP d \<Rightarrow> entry_mod (app_name r) (0, 0) (\<lambda>(tx, rx). (tx + tx_bytes d, rx + rx_bytes d)) m
      | _ \<Rightarrow> m)"

definition net_total :: "AppNetworkStats \<Rightarrow> u64" where
  "net_total s = ans_tx_bytes s + ans_rx_bytes s"

definition get_top_apps_by_network ::
  "'w ext \<Rightarrow> 'd chrono \<Rightarrow> (string, u64 \<times> u64) hash_iter \<Rightarrow> any_error + u64 \<Rightarrow> u64 \<Rightarrow> u64 \<Rightarrow> nat \<Rightarrow>
   ('w, AppNetworkStats list) io" where
  "get_top_apps_by_network X C iter clock start end_t limit =
     bindS (get_metrics_by_type X C clock Net start end_t) (\<lambda>records.
     let app_totals = foldl net_totals_step [] records;
         stats = map (\<lambda>(app, tx, rx). \<lparr> ans_app_name = app, ans_tx_bytes = tx, ans_rx_bytes = rx \<rparr>)
                   (iter app_totals)
     in retS (take limit (sort_by (\<lambda>a b. net_total b \<le> net_total a) stats)))"

definition focus_totals_step :: "(string \<times> u64) list \<Rightarrow> MetricRecord \<Rightarrow> (string \<times> u64) list" where
  "focus_totals_step m r =
     (case payload r of
        FocP d \<Rightarrow> entry_mod (app_name r) 0 (\<lambda>t. t + duration_ms d) m
      | _ \<Rightarrow> m)"

definition get_top_apps_by_focus ::
  "'w ext \<Rightarrow> 'd chrono \<Rightarrow> (string, u64) hash_iter \<Rightarrow> any_error + u64 \<Rightarrow> u64 \<Rightarrow> u64 \<Rightarrow> nat \<Rightarrow>
   ('w, AppFocusStats list) io" where
  "get_top_apps_by_focus X C iter clock start end_t limit =
     bindS (get_metrics_by_type X C clock Foc start end_t) (\<lambda>records.
     let app_totals = foldl focus_totals_step [] records;
         stats = map (\<lambda>(app, t). \<lparr> afs_app_name = app, total_duration_ms = t \<rparr>) (iter app_totals)
     in retS (take limit (sort_by (\<lambda>a b. total_duration_ms b \<le> total_duration_ms a) stats)))"

fun first_power :: "'w ext \<Rightarrow> (any_error + string \<times> string) list \<Rightarrow> any_error + PowerData option" where
  "first_power X [] = Inr None"
| "first_power X (item # items) =
     bindR item (\<lambda>(_, v). bindR (rec_from_slice X v) (\<lambda>r.
       case payload r of PwrP d \<Rightarrow> Inr (Some d) | _ \<Rightarrow> first_power X items))"

definition get_power_state_at :: "'w ext \<Rightarrow> u64 \<Rightarrow> ('w, PowerData option) io" where
  "get_power_state_at X ts =
     bindS (metrics_tree X) (\<lambda>tree.
     bindS (readS (tree_range X tree (range_start Pwr 0) (range_end Pwr ts))) (\<lambda>items.
     liftS (first_power X (rev items))))"

definition get_system_power_history ::
  "'w ext \<Rightarrow> 'd chrono \<Rightarrow> any_error + u64 \<Rightarrow> u64 \<Rightarrow> u64 \<Rightarrow> ('w, MetricRecord list) io" where
  "get_system_power_history X C clock start end_t = get_metrics_by_type X C clock Pwr start end_t"

definition flush_db :: "'w ext \<Rightarrow> ('w, unit) io" where
  "flush_db X = db_flush X"

end
