(* ===== verification/Records.thy ===== *)
theory Records
  imports Storage
begin

text \<open>
  The abstract view of the metric trees: a tree holds a list of records in strictly increasing key
  order, each under its own key with an encoding that decodes to it.  Inserting, scanning and
  querying are refined to operations on such lists.
\<close>

section \<open>Trees of records\<close>

definition roundtrips :: "'w ext \<Rightarrow> MetricRecord \<Rightarrow> bool" where
  "roundtrips X r \<longleftrightarrow> (\<exists>v. rec_to_vec X r = Inr v \<and> rec_from_slice X v = Inr r)"

definition bytes :: "'w ext \<Rightarrow> MetricRecord \<Rightarrow> string" where
  "bytes X r = (case rec_to_vec X r of Inr v \<Rightarrow> v | Inl _ \<Rightarrow> [])"

abbreviation entry :: "'w ext \<Rightarrow> MetricRecord \<Rightarrow> string \<times> string" where
  "entry X r \<equiv> (rkey r, bytes X r)"

abbreviation key_sorted :: "MetricRecord list \<Rightarrow> bool" where
  "key_sorted rs \<equiv> sorted_wrt (<) (map rkey rs)"

definition holds :: "'w ext \<Rightarrow> aworld \<Rightarrow> string \<Rightarrow> MetricRecord list \<Rightarrow> bool" where
  "holds X a t rs \<longleftrightarrow>
     trees a t = map (entry X) rs \<and> key_sorted rs \<and> (\<forall>r\<in>set rs. roundtrips X r)"

lemma roundtrips_bytes:
  "roundtrips X r \<Longrightarrow> rec_to_vec X r = Inr (bytes X r) \<and> rec_from_slice X (bytes X r) = Inr r"
  by (auto simp: roundtrips_def bytes_def)

lemma rkey_inj: "rkey a = rkey b \<longleftrightarrow> rec_type a = rec_type b \<and> timestamp a = timestamp b \<and> app_name a = app_name b"
  by (simp add: encode_key_inj)

fun ins_rec :: "MetricRecord \<Rightarrow> MetricRecord list \<Rightarrow> MetricRecord list" where
  "ins_rec r [] = [r]"
| "ins_rec r (x # xs) =
     (if rkey r < rkey x then r # x # xs
      else if rkey r = rkey x then r # xs
      else x # ins_rec r xs)"

lemma upd_entry: "upd (rkey r) (bytes X r) (map (entry X) rs) = map (entry X) (ins_rec r rs)"
  by (induction rs) auto

lemma ins_rec_sorted: "key_sorted rs \<Longrightarrow> key_sorted (ins_rec r rs)"
proof -
  have eq: "map fst (map (\<lambda>r. (rkey r, ())) xs) = map rkey xs" for xs by simp
  have ins: "map (\<lambda>r. (rkey r, ())) (ins_rec r rs) = upd (rkey r) () (map (\<lambda>r. (rkey r, ())) rs)"
    by (induction rs) auto
  assume "key_sorted rs"
  then show ?thesis
    using upd_sorted [of "map (\<lambda>r. (rkey r, ())) rs" "rkey r" "()"] by (simp only: eq flip: ins)
qed

lemma set_ins_rec: "key_sorted rs \<Longrightarrow> set (ins_rec r rs) = insert r {x \<in> set rs. rkey x \<noteq> rkey r}"
  by (induction rs) auto

lemma holds_other: "t \<noteq> u \<Longrightarrow> holds X (set_tree t x a) u rs \<longleftrightarrow> holds X a u rs"
  by (simp add: holds_def)

lemma holds_set_tree: "holds X a t rs \<Longrightarrow> set_tree t (map (entry X) rs) a = a"
  using set_tree_idle [of t a] by (simp add: holds_def)

lemma holds_file [simp]: "holds X (set_file p ls a) t rs \<longleftrightarrow> holds X a t rs"
  by (simp add: holds_def)

lemma holds_ins_rec:
  assumes "holds X a t rs" and "roundtrips X r"
  shows "holds X (set_tree t (map (entry X) (ins_rec r rs)) a) t (ins_rec r rs)"
  using assms by (auto simp: holds_def ins_rec_sorted set_ins_rec)

lemma holds_filter:
  assumes "holds X a t rs"
  shows "holds X (set_tree t (map (entry X) (filter P rs)) a) t (filter P rs)"
  using assms by (auto simp: holds_def sorted_wrt_map intro: sorted_wrt_filter)

section \<open>Range scans\<close>

definition in_range :: "MetricType \<Rightarrow> u64 \<Rightarrow> u64 \<Rightarrow> MetricRecord \<Rightarrow> bool" where
  "in_range mt s e r \<longleftrightarrow>
     rec_type r = mt \<and> s \<le> timestamp r \<and> (timestamp r < e \<or> timestamp r = e \<and> app_name r \<le> ''~'')"

lemma filter_range:
  "filter (\<lambda>p. range_start mt s \<le> fst p \<and> fst p \<le> range_end mt e) (map (entry X) rs) =
   map (entry X) (filter (in_range mt s e) rs)"
  by (simp add: filter_map comp_def encode_key_in_range in_range_def [abs_def])

lemma in_range_sorted:
  assumes "key_sorted rs"
  shows "sorted_wrt (\<lambda>a b. timestamp a \<le> timestamp b) (filter (in_range mt s e) rs)"
proof -
  have "sorted_wrt (\<lambda>a b. rkey a < rkey b) (filter (in_range mt s e) rs)"
    using assms by (simp add: sorted_wrt_map sorted_wrt_filter)
  then show ?thesis
  proof (rule sorted_wrt_mono_rel [rotated])
    fix a b
    assume "a \<in> set (filter (in_range mt s e) rs)" "b \<in> set (filter (in_range mt s e) rs)"
    then have "rec_type a = mt" "rec_type b = mt" by (simp_all add: in_range_def)
    moreover assume "rkey a < rkey b"
    ultimately show "timestamp a \<le> timestamp b" by (auto simp: encode_key_less)
  qed
qed

text \<open>What a query returns, on the lists that the four trees hold.\<close>

definition query_spec ::
  "'d chrono \<Rightarrow> u64 \<Rightarrow> MetricType \<Rightarrow> u64 \<Rightarrow> u64 \<Rightarrow> (string \<Rightarrow> MetricRecord list) \<Rightarrow> MetricRecord list" where
  "query_spec C now mt s e D =
     (let rb = sat_sub now (24 * 3600); db = month_bucket C now; mb = subtract_months C now 12;
          raw = filter (in_range mt s e) (D ''metrics'');
          daily = (if s < rb then filter (in_range mt (max s db) (min e (sat_sub rb 1))) (D ''metrics_1d'') else []);
          monthly = (if s < db then filter (in_range mt (max s mb) (min e (sat_sub db 1))) (D ''metrics_1m'') else []);
          yearly = (if s < mb then filter (in_range mt s (min e (sat_sub mb 1))) (D ''metrics_1y'') else [])
      in if raw \<noteq> [] then raw else if daily \<noteq> [] then daily else if monthly \<noteq> [] then monthly else yearly)"

definition tier_names :: "string list" where
  "tier_names = [''metrics'', ''metrics_1d'', ''metrics_1m'', ''metrics_1y'']"

lemma tier_names_mem [simp]:
  "''metrics'' \<in> set tier_names" "''metrics_1d'' \<in> set tier_names"
  "''metrics_1m'' \<in> set tier_names" "''metrics_1y'' \<in> set tier_names"
  by (simp_all add: tier_names_def)

definition holds_all :: "'w ext \<Rightarrow> aworld \<Rightarrow> (string \<Rightarrow> MetricRecord list) \<Rightarrow> bool" where
  "holds_all X a D \<longleftrightarrow> (\<forall>t\<in>set tier_names. holds X a t (D t))"

lemma holds_allD: "holds_all X a D \<Longrightarrow> t \<in> set tier_names \<Longrightarrow> holds X a t (D t)"
  by (simp add: holds_all_def)

lemma holds_all_update:
  assumes "holds_all X a D" and "holds X (set_tree t x a) t rs"
  shows "holds_all X (set_tree t x a) (D(t := rs))"
  using assms unfolding holds_all_def by (metis fun_upd_apply holds_other)

lemma holds_all_other: "t \<notin> set tier_names \<Longrightarrow> holds_all X (set_tree t x a) D \<longleftrightarrow> holds_all X a D"
proof -
  assume "t \<notin> set tier_names"
  then have "u \<in> set tier_names \<Longrightarrow> holds X (set_tree t x a) u (D u) \<longleftrightarrow> holds X a u (D u)" for u
    by (intro holds_other) auto
  then show ?thesis by (simp add: holds_all_def)
qed

lemma query_spec_raw:
  "filter (in_range mt s e) (D ''metrics'') \<noteq> [] \<Longrightarrow>
   query_spec C now mt s e D = filter (in_range mt s e) (D ''metrics'')"
  by (simp add: query_spec_def Let_def)

lemma query_spec_sorted:
  assumes "\<And>t. t \<in> set tier_names \<Longrightarrow> key_sorted (D t)"
  shows "sorted_wrt (\<lambda>a b. timestamp a \<le> timestamp b) (query_spec C now mt s e D)"
  unfolding query_spec_def Let_def by (simp add: in_range_sorted assms)

context store
begin

lemma run_tree:
  "run (metrics_tree X) a ''metrics'' a" "run (meta_tree X) a ''meta'' a"
  "run (metrics_1d_tree X) a ''metrics_1d'' a" "run (metrics_1m_tree X) a ''metrics_1m'' a"
  "run (metrics_1y_tree X) a ''metrics_1y'' a"
  unfolding metrics_tree_def meta_tree_def metrics_1d_tree_def metrics_1m_tree_def metrics_1y_tree_def
  by (rule run_bind [OF do_open_tree run_ret])+

lemma run_items:
  "holds X a t rs \<Longrightarrow> run (readS (tree_range X t (range_start mt s) (range_end mt e))) a
    (map (\<lambda>r. Inr (entry X r)) (filter (in_range mt s e) rs)) a"
  by (rule run_eq [OF do_range]) (simp_all add: holds_def filter_range)

lemma decode_items:
  assumes "holds X a t rs"
  shows "mapR (\<lambda>item. bindR item (\<lambda>(_, v). rec_from_slice X v))
      (map (\<lambda>r. Inr (entry X r)) (filter P rs)) = Inr (filter P rs)"
proof -
  have "rec_from_slice X (bytes X r) = Inr r" if "r \<in> set (filter P rs)" for r
    using assms that roundtrips_bytes [of X r] by (simp add: holds_def)
  then have "mapR (\<lambda>r. bindR (Inr (entry X r)) (\<lambda>(_, v). rec_from_slice X v)) (filter P rs) = Inr (map id (filter P rs))"
    by (intro mapR_Inr) simp
  then show ?thesis by (simp add: mapR_map)
qed

lemma run_scan:
  "holds X a t rs \<Longrightarrow>
   run (scan_records X t (range_start mt s) (range_end mt e)) a (filter (in_range mt s e) rs) a"
  unfolding scan_records_def by (rule run_bind [OF run_items], assumption, rule run_lift, rule decode_items)

lemma run_query_raw:
  "holds X a ''metrics'' rs \<Longrightarrow> run (query_raw X mt s e) a (filter (in_range mt s e) rs) a"
  unfolding query_raw_def by (rule run_bind [OF run_tree(1) run_scan])

text \<open>One fallback step: scan a tree when a condition holds, else keep what was found.\<close>

lemma run_tier:
  assumes "holds_all X a D" and "run T a t a" and "t \<in> set tier_names"
  shows "run (if c then bindS T (\<lambda>tree. scan_records X tree (range_start mt s) (range_end mt e)) else retS prev)
    a (if c then filter (in_range mt s e) (D t) else prev) a"
proof (cases c)
  case True
  have "run (bindS T (\<lambda>tree. scan_records X tree (range_start mt s) (range_end mt e))) a
      (filter (in_range mt s e) (D t)) a"
    by (rule run_bind, rule assms(2), rule run_scan, rule holds_allD [OF assms(1,3)])
  with True show ?thesis by simp
qed (simp add: run_ret)

lemma run_query_tiers:
  assumes "holds_all X a D" and "filter (in_range mt s e) (D ''metrics'') = []"
  shows "run (query_tiers X C now mt s e) a (query_spec C now mt s e D) a"
  unfolding query_tiers_def Let_def
  by (rule run_eq, rule run_bind, rule run_tier [OF assms(1) run_tree(3) tier_names_mem(2)],
      rule run_bind, rule run_tier [OF assms(1) run_tree(4) tier_names_mem(3)],
      rule run_tier [OF assms(1) run_tree(5) tier_names_mem(4)])
    (simp_all add: query_spec_def Let_def assms(2))

lemma run_get_metrics_by_type:
  assumes "holds_all X a D"
  shows "run (get_metrics_by_type X C clock mt s e) a
    (query_spec C (unwrap_or (ok_opt clock) (- 1)) mt s e D) a"
proof -
  define now where "now = unwrap_or (ok_opt clock) (- 1 :: u64)"
  let ?raw = "filter (in_range mt s e) (D ''metrics'')" and ?q = "query_spec C now mt s e D"
  have "sorted_wrt (\<lambda>a b. timestamp a \<le> timestamp b) ?q"
    using holds_allD [OF assms] by (intro query_spec_sorted) (auto simp: holds_def)
  note sorted = sort_by_id [OF this]
  have "?q = ?raw" if "?raw \<noteq> []" using that by (rule query_spec_raw)
  then have tiers: "run (if ?raw = [] then query_tiers X C now mt s e else retS ?raw) a ?q a"
    using assms by (simp add: run_query_tiers run_ret)
  show ?thesis
    unfolding get_metrics_by_type_def Let_def now_def [symmetric]
    by (rule run_eq, rule run_bind, rule run_query_raw [OF holds_allD [OF assms tier_names_mem(1)]],
        rule run_bind, rule tiers, rule run_ret) (simp_all add: sorted)
qed

lemma run_insert_metric:
  assumes "holds X a ''metrics'' rs" and "roundtrips X r"
  shows "run (insert_metric X r) a () (set_tree ''metrics'' (map (entry X) (ins_rec r rs)) a)"
proof -
  have enc: "rec_to_vec X r = Inr (bytes X r)" using roundtrips_bytes [OF assms(2)] by blast
  show ?thesis
    unfolding insert_metric_def
    by (rule run_eq, rule run_bind, rule run_tree(1), rule run_bind, rule run_lift, rule enc, rule do_insert)
      (use assms in \<open>simp_all add: holds_def upd_entry\<close>)
qed

end

end
