(* ===== verification/Ranking.thy ===== *)
theory Ranking
  imports Storage
begin

text \<open>
  Facts shared by the "top applications" queries: accumulating per application in a hash map, and
  keeping the first entries of a list sorted by a score.  The order in which a hash map is
  visited is unspecified; the locale \<open>hash_order\<close> is all the queries rely on.
\<close>

section \<open>Accumulating by key\<close>

lemma entry_mod_keys: "set (map fst (entry_mod k d f m)) = insert k (set (map fst m))"
proof (induction m)
  case (Cons p m)
  then show ?case by (cases p) (simp add: insert_commute)
qed simp

lemma entry_mod_distinct: "distinct (map fst m) \<Longrightarrow> distinct (map fst (entry_mod k d f m))"
proof (induction m)
  case (Cons p m)
  then show ?case using entry_mod_keys [of k d f m] by (cases p) auto
qed simp

lemma map_of_entry_mod:
  "map_of (entry_mod k d f m) = (map_of m)(k \<mapsto> f (case map_of m k of None \<Rightarrow> d | Some v \<Rightarrow> v))"
  by (induction m) (auto simp: fun_upd_twist)

lemma fold_entry_mod:
  assumes "distinct (map fst m)"
  shows "distinct (map fst (foldl (\<lambda>m r. entry_mod (k r) d (f r) m) m rs))"
    and "map_of (foldl (\<lambda>m r. entry_mod (k r) d (f r) m) m rs) a =
      (if \<exists>r\<in>set rs. k r = a
       then Some (foldl (\<lambda>v r. f r v) (case map_of m a of None \<Rightarrow> d | Some v \<Rightarrow> v) (filter (\<lambda>r. k r = a) rs))
       else map_of m a)"
proof -
  show "distinct (map fst (foldl (\<lambda>m r. entry_mod (k r) d (f r) m) m rs))"
    using assms by (induction rs arbitrary: m) (auto simp: entry_mod_distinct)
  show "map_of (foldl (\<lambda>m r. entry_mod (k r) d (f r) m) m rs) a =
      (if \<exists>r\<in>set rs. k r = a
       then Some (foldl (\<lambda>v r. f r v) (case map_of m a of None \<Rightarrow> d | Some v \<Rightarrow> v) (filter (\<lambda>r. k r = a) rs))
       else map_of m a)"
    by (induction rs arbitrary: m) (auto simp: map_of_entry_mod)
qed

section \<open>The first entries by score\<close>

definition ranked :: "('a \<Rightarrow> 'b::linorder) \<Rightarrow> nat \<Rightarrow> 'a multiset \<Rightarrow> 'a list \<Rightarrow> bool" where
  "ranked score n M ys \<longleftrightarrow>
     sorted_wrt (\<lambda>a b. score b \<le> score a) ys \<and> length ys = min n (size M) \<and> mset ys \<subseteq># M \<and>
     (\<forall>x\<in>#M - mset ys. \<forall>y\<in>set ys. score x \<le> score y)"

lemma ranked_take_sort:
  "ranked score n (mset xs) (take n (sort_by (\<lambda>a b. score b \<le> score a) xs))"
proof -
  let ?s = "sort_by (\<lambda>a b. score b \<le> score a) xs"
  have "total_preorder_on (set xs) (\<lambda>a b. score b \<le> score a)"
    unfolding total_preorder_on_def by (meson linear order_trans)
  then have sorted: "sorted_wrt (\<lambda>a b. score b \<le> score a) (take n ?s @ drop n ?s)"
    using sorted_sort_by [of xs "\<lambda>a b. score b \<le> score a"] by (simp only: append_take_drop_id)
  have split: "mset xs = mset (take n ?s) + mset (drop n ?s)"
    by (metis append_take_drop_id mset_append mset_sort_by)
  have rest: "mset xs - mset (take n ?s) = mset (drop n ?s)" unfolding split by (rule add_diff_cancel_left')
  have "mset (take n ?s) \<subseteq># mset xs" unfolding split by (rule mset_subset_eq_add_left)
  moreover have "sorted_wrt (\<lambda>a b. score b \<le> score a) (take n ?s)"
    "\<forall>y\<in>set (take n ?s). \<forall>x\<in>set (drop n ?s). score x \<le> score y"
    using sorted unfolding sorted_wrt_append by blast+
  moreover have "length (take n ?s) = min n (size (mset xs))"
    by (simp add: min_def)
  ultimately show ?thesis
    unfolding ranked_def rest set_mset_mset by blast
qed

section \<open>Visiting a hash map\<close>

locale hash_order =
  fixes iter :: "('k, 'v) hash_iter"
  assumes iter_perm: "mset (iter m) = mset m"
begin

lemma iter_set: "set (iter m) = set m"
  using iter_perm [of m] by (metis set_mset_mset)

lemma iter_distinct: "distinct (map fst (iter m)) \<longleftrightarrow> distinct (map fst m)"
  using iter_perm [of m] by (metis mset_eq_imp_distinct_iff mset_map)

text \<open>The entries of a ranking taken from a visited map are entries of the map.\<close>

lemma ranked_entries:
  assumes "ranked score n (mset (map g (iter m))) ys" and "distinct (map fst m)" and "y \<in> set ys"
  obtains k v where "map_of m k = Some v" and "y = g (k, v)"
proof -
  have "y \<in> g ` set m"
    using assms(1,3) iter_set mset_subset_eqD [of "mset ys" "mset (map g (iter m))" y]
    by (auto simp: ranked_def)
  then obtain k v where "(k, v) \<in> set m" "y = g (k, v)" by auto
  then show thesis using assms(2) that by (metis map_of_is_SomeI)
qed

end

text \<open>Insertion order and its reverse are two possible orders.\<close>

interpretation hash_id: hash_order id
  by unfold_locales simp

interpretation hash_rev: hash_order rev
  by unfold_locales simp

end
