(* ===== verification/Ref_Store.thy ===== *)
theory Ref_Store
  imports Sled
begin

text \<open>
  A concrete instance of the interface \<open>store\<close>: the world is its own abstraction, trees are ordered
  association lists, files are lists of lines, and a record is encoded by its position in a
  table.  It shows that the contract can hold and evaluates the witnesses; the storage code
  itself is stated over any instance.
\<close>

fun position :: "'a \<Rightarrow> 'a list \<Rightarrow> nat option" where
  "position x [] = None"
| "position x (y # ys) = (if x = y then Some 0 else map_option Suc (position x ys))"

lemma position_nth: "position x xs = Some i \<Longrightarrow> i < length xs \<and> xs ! i = x"
  by (induction xs arbitrary: i) (auto split: if_splits)

lemma position_mem: "x \<in> set xs \<Longrightarrow> \<exists>i. position x xs = Some i"
  by (induction xs) auto

definition ref_ext :: "MetricRecord list \<Rightarrow> aworld ext" where
  "ref_ext tbl = \<lparr>
     sled_open = (\<lambda>_ _ _ w. (Inr (), w)),
     open_tree = (\<lambda>_ w. (Inr (), w)),
     tree_get = (\<lambda>t k w. (Inr (map_of (trees w t) k), w)),
     tree_insert = (\<lambda>t k v w. (Inr (), set_tree t (upd k v (trees w t)) w)),
     tree_range = (\<lambda>t lo hi w. map Inr (filter (\<lambda>p. lo \<le> fst p \<and> fst p \<le> hi) (trees w t))),
     apply_batch = (\<lambda>t ops w. (Inr (), set_tree t (foldl app_op (trees w t) ops) w)),
     size_on_disk = (\<lambda>w. (Inr 4096, w)),
     db_flush = (\<lambda>w. (Inr (), w)),
     rec_to_vec = (\<lambda>r. case position r tbl of
        Some i \<Rightarrow> Inr (replicate i CHR ''.'') | None \<Rightarrow> Inl (JsonError ''not in the table'')),
     rec_from_slice = (\<lambda>v. if length v < length tbl then Inr (tbl ! length v)
        else Inl (JsonError ''no such record'')),
     u32_to_vec = (\<lambda>n. Inr (dec_fixed 20 (unat n))),
     u32_from_slice = (\<lambda>v. map_err (\<lambda>_. JsonError ''number'') (bindR (parse_u64 v) (\<lambda>n. Inr (ucast n)))),
     u64_to_vec = (\<lambda>n. Inr (dec_fixed 20 (unat n))),
     opt_u64_from_slice = (\<lambda>v. map_err (\<lambda>_. JsonError ''number'') (bindR (parse_u64 v) (\<lambda>n. Inr (Some n)))),
     create_dir_all = (\<lambda>_ w. (Inr (), w)),
     file_create = (\<lambda>p w. (Inr (), set_file p [] w)),
     file_writeln = (\<lambda>p l w. case files w p of
        Some ls \<Rightarrow> (Inr (), set_file p (ls @ [l]) w) | None \<Rightarrow> (Inl (IoError ''not open''), w)) \<rparr>"

definition ref_healthy :: "aworld \<Rightarrow> bool" where
  "ref_healthy a \<longleftrightarrow> (\<forall>t. sorted_wrt (<) (map fst (trees a t)))"

definition ref_empty :: aworld where
  "ref_empty = \<lparr> trees = (\<lambda>_. []), files = (\<lambda>_. None) \<rparr>"

lemma ref_healthy_empty: "ref_healthy ref_empty"
  by (simp add: ref_healthy_def ref_empty_def)

interpretation ref: store "ref_ext tbl" ref_healthy id for tbl
  by unfold_locales
    (auto simp: runs_def readS_def ref_ext_def ref_healthy_def upd_sorted foldl_app_op_sorted)

text \<open>The encodings round trip: records of the table, and every number.\<close>

lemma ref_rec_roundtrip:
  "r \<in> set tbl \<Longrightarrow> \<exists>v. rec_to_vec (ref_ext tbl) r = Inr v \<and> rec_from_slice (ref_ext tbl) v = Inr r"
  using position_mem [of r tbl] position_nth [of r tbl] by (force simp: ref_ext_def)

lemma ref_u64_roundtrip:
  "\<exists>v. u64_to_vec (ref_ext tbl) n = Inr v \<and> opt_u64_from_slice (ref_ext tbl) v = Inr (Some n)"
  by (simp add: ref_ext_def parse_ts_field)

lemma ref_u32_roundtrip:
  "\<exists>v. u32_to_vec (ref_ext tbl) n = Inr v \<and> u32_from_slice (ref_ext tbl) v = Inr n"
  using parse_ts_field [of "ucast n"] by (simp add: ref_ext_def unat_ucast_u64 ucast_ucast_u32)

end
