(* ===== verification/Gregorian.thy ===== *)
theory Gregorian
  imports Buckets
begin

text \<open>
  The proleptic Gregorian calendar as a concrete instance of the interface \<open>calendar\<close>.  A date is
  its day number from 1970-01-01.  Months are numbered by \<open>12 * year + month\<close>; the month of a day is
  found by stepping from an estimate, and the step terminates because month starts increase.
  The crate the code calls is a parameter everywhere else; this instance shows that what is
  assumed of it can hold and evaluates the witnesses.
\<close>

section \<open>Month starts\<close>

definition leap :: "int \<Rightarrow> bool" where
  "leap y \<longleftrightarrow> (y mod 4 = 0 \<and> y mod 100 \<noteq> 0) \<or> y mod 400 = 0"

definition year_start :: "int \<Rightarrow> int" where
  "year_start y = 365 * (y - 1) + (y - 1) div 4 - (y - 1) div 100 + (y - 1) div 400 - 719162"

definition days_before :: "bool \<Rightarrow> int \<Rightarrow> int" where
  "days_before l m =
     (if m \<le> 0 then 0 else if m = 1 then 31
      else [59, 90, 120, 151, 181, 212, 243, 273, 304, 334] ! nat (m - 2) + (if l then 1 else 0))"

definition month_start :: "int \<Rightarrow> int" where
  "month_start c =
     (let y = (c - 1) div 12 in year_start y + days_before (leap y) ((c - 1) mod 12))"

lemma div_pred: "y div k - (y - 1) div k = (if y mod k = 0 then 1 else 0)" if "0 < k" for y k :: int
proof (cases "y mod k = 0")
  case True
  then have "k * (y div k) = y" using mult_div_mod_eq [of k y] by simp
  then have "y - 1 = k * (y div k - 1) + (k - 1)" by (simp add: right_diff_distrib)
  then have "(y - 1) div k = y div k - 1"
    by (rule int_div_pos_eq) (use that in simp_all)
  then show ?thesis using True by simp
next
  case False
  have "y - 1 = k * (y div k) + (y mod k - 1)"
    using mult_div_mod_eq [of k y] by simp
  moreover have "0 \<le> y mod k - 1" "y mod k - 1 < k"
    using False that pos_mod_sign [of k y] pos_mod_bound [of k y] by linarith+
  ultimately have "(y - 1) div k = y div k" by (rule int_div_pos_eq)
  then show ?thesis using False by simp
qed

lemma year_start_Suc: "year_start (y + 1) - year_start y = (if leap y then 366 else 365)"
proof -
  define p where "p k \<longleftrightarrow> y mod k = 0" for k
  have "p 400 \<Longrightarrow> p 100" "p 100 \<Longrightarrow> p 4"
    using dvd_trans [of 100 400 y] dvd_trans [of 4 100 y] by (simp_all add: p_def dvd_eq_mod_eq_0)
  moreover have "year_start (y + 1) - year_start y =
      365 + (y div 4 - (y - 1) div 4) - (y div 100 - (y - 1) div 100) + (y div 400 - (y - 1) div 400)"
    by (simp add: year_start_def)
  moreover have "leap y \<longleftrightarrow> p 4 \<and> \<not> p 100 \<or> p 400"
    by (simp add: leap_def p_def)
  ultimately show ?thesis
    by (simp add: div_pred flip: p_def)
qed

lemma month_cases:
  assumes "0 \<le> m" "m \<le> (11 :: int)"
  shows "m = 0 \<or> m = 1 \<or> m = 2 \<or> m = 3 \<or> m = 4 \<or> m = 5 \<or> m = 6 \<or> m = 7 \<or> m = 8 \<or> m = 9 \<or> m = 10 \<or> m = 11"
  using assms by presburger

lemma month_start_Suc: "month_start c < month_start (c + 1)"
proof -
  define y m where "y = (c - 1) div 12" and "m = (c - 1) mod 12"
  have c: "c = 12 * y + m + 1" "0 \<le> m" "m \<le> 11"
    by (simp_all add: y_def m_def flip: zless_add1_eq)
  have "month_start c = year_start y + days_before (leap y) m"
    by (simp add: month_start_def Let_def y_def m_def)
  moreover have "month_start (c + 1) =
      (if m = 11 then year_start (y + 1) else year_start y + days_before (leap y) (m + 1))"
  proof (cases "m = 11")
    case True
    then have "c = 12 * (y + 1)" using c by simp
    then show ?thesis using True by (simp add: month_start_def Let_def days_before_def add.commute)
  next
    case False
    then have "c div 12 = y" "c mod 12 = m + 1"
      using c by (auto intro: int_div_pos_eq int_mod_pos_eq [of _ 12 y])
    then show ?thesis using False by (simp add: month_start_def Let_def)
  qed
  ultimately show ?thesis
    using month_cases [OF c(2,3)] year_start_Suc [of y]
    by (elim disjE) (simp_all add: days_before_def split: if_splits)
qed

lemma month_start_less: "c < d \<Longrightarrow> month_start c < month_start d"
proof (induction d rule: int_gr_induct)
  case base
  then show ?case by (rule month_start_Suc)
next
  case (step d)
  then show ?case using month_start_Suc [of d] by simp
qed

lemma month_start_less_iff: "month_start c < month_start d \<longleftrightarrow> c < d"
  by (metis month_start_less less_asym linorder_neqE)

lemma month_start_le_iff: "month_start c \<le> month_start d \<longleftrightarrow> c \<le> d"
  by (metis month_start_less_iff not_less)

section \<open>The month of a day\<close>

function seek :: "int \<Rightarrow> int \<Rightarrow> int" where
  "seek c n =
     (if n < month_start c then seek (c - 1) n
      else if month_start (c + 1) \<le> n then seek (c + 1) n
      else c)"
  by auto

text \<open>The distance to the wanted day shrinks with every step and is zero inside the month.\<close>

definition seek_measure :: "int \<Rightarrow> int \<Rightarrow> nat" where
  "seek_measure c n =
     (if n < month_start c then nat (month_start c - n)
      else if month_start (c + 1) \<le> n then nat (n - month_start c)
      else 0)"

termination seek
proof (relation "measure (\<lambda>(c, n). seek_measure c n)", goal_cases)
  case 1
  then show ?case by simp
next
  case (2 c n)
  then show ?case using month_start_Suc [of "c - 1"] by (simp add: seek_measure_def)
next
  case (3 c n)
  then show ?case
    using month_start_Suc [of c] month_start_Suc [of "c + 1"] by (simp add: seek_measure_def)
qed

declare seek.simps [simp del]

lemma seek_bounds: "month_start (seek c n) \<le> n \<and> n < month_start (seek c n + 1)"
  by (induction c n rule: seek.induct) (subst (1 2) seek.simps, simp)

definition month_no :: "int \<Rightarrow> int" where
  "month_no n = seek (4800 * n div 146097 + 23641) n"

lemma month_no_eq_iff: "month_no n = c \<longleftrightarrow> month_start c \<le> n \<and> n < month_start (c + 1)"
proof
  show "month_no n = c \<Longrightarrow> month_start c \<le> n \<and> n < month_start (c + 1)"
    using seek_bounds by (auto simp: month_no_def)
next
  assume *: "month_start c \<le> n \<and> n < month_start (c + 1)"
  have "month_start (month_no n) \<le> n" "n < month_start (month_no n + 1)"
    using seek_bounds by (simp_all add: month_no_def)
  with * have "month_start (month_no n) < month_start (c + 1)" "month_start c < month_start (month_no n + 1)"
    by linarith+
  then show "month_no n = c" by (simp add: month_start_less_iff)
qed

lemma month_start_month_no: "month_start (month_no n) \<le> n" "n < month_start (month_no n + 1)"
  using month_no_eq_iff [of n "month_no n"] by simp_all

lemma month_no_month_start: "month_no (month_start c) = c"
  by (simp add: month_no_eq_iff month_start_Suc)

lemma month_no_mono: "m \<le> n \<Longrightarrow> month_no m \<le> month_no n"
proof -
  assume "m \<le> n"
  then have "month_start (month_no m) < month_start (month_no n + 1)"
    using month_start_month_no [of m] month_start_month_no [of n] by linarith
  then show ?thesis by (simp add: month_start_less_iff)
qed

section \<open>The calendar\<close>

text \<open>The supported years are those of the crate, from -262143 to 262142.\<close>

definition greg_day :: "int \<Rightarrow> int" where
  "greg_day d = d"

definition greg_max :: int where
  "greg_max = 95026236"

definition greg :: "int chrono" where
  "greg = \<lparr>
     from_timestamp = (\<lambda>t. let d = sint t div 86400 in
        if - 96465292 \<le> d \<and> d \<le> greg_max then Some d else None),
     year = (\<lambda>d. (month_no d - 1) div 12),
     month = (\<lambda>d. nat ((month_no d - 1) mod 12) + 1),
     from_ymd_opt = (\<lambda>y m d. let c = 12 * y + int m in
        if - 262143 \<le> y \<and> y \<le> 262142 \<and> 1 \<le> m \<and> m \<le> 12 \<and> 1 \<le> d \<and>
           month_start c + int d \<le> month_start (c + 1)
        then Some (month_start c + int d - 1) else None),
     midnight = (\<lambda>d. Some (word_of_int (d * 86400))),
     checked_sub_months = (\<lambda>d n. let c = month_no d; c' = c - int (unat n) in
        if c' \<le> 12 * - 262143 then None
        else Some (month_start c' +
               min (d - month_start c) (month_start (c' + 1) - month_start c' - 1))) \<rparr>"

lemmas greg_simps = greg_def greg_day_def greg_max_def Let_def

lemma greg_month_count: "month_count greg d = month_no d"
  by (simp add: greg_simps)

lemma greg_ymd:
  "- 262143 \<le> y \<Longrightarrow> y \<le> 262142 \<Longrightarrow> 1 \<le> m \<Longrightarrow> m \<le> 12 \<Longrightarrow>
   from_ymd_opt greg y m 1 = Some (month_start (12 * y + int m))"
  using month_start_Suc [of "12 * y + int m"] by (simp add: greg_simps)

lemma month_start_values: "month_start 23641 = 0" "month_start 3145717 = 95026237"
    "month_start (- 3145715) = - 96465292"
  by (simp_all add: month_start_def Let_def year_start_def days_before_def)

lemma month_no_bounds: "0 \<le> d \<Longrightarrow> d \<le> greg_max \<Longrightarrow> 23641 \<le> month_no d \<and> month_no d < 3145717"
proof -
  assume d: "0 \<le> d" "d \<le> greg_max"
  then have "month_start 23641 < month_start (month_no d + 1)"
    "month_start (month_no d) < month_start 3145717"
    using month_start_month_no [of d] by (simp_all add: month_start_values greg_max_def)
  then show ?thesis by (simp add: month_start_less_iff)
qed

lemma month_no_sub:
  assumes "checked_sub_months greg d n = Some e"
  shows "month_no e = month_no d - int (unat n)" and "e \<le> d" and "- 96465292 \<le> e"
proof -
  define c c' where "c = month_no d" and "c' = c - int (unat n)"
  define e' where "e' = month_start c' + min (d - month_start c) (month_start (c' + 1) - month_start c' - 1)"
  have e: "e = e'" and ge: "12 * - 262143 < c'"
    using assms by (auto simp: greg_simps e'_def c'_def c_def split: if_splits)
  have d: "month_start c \<le> d" "d < month_start (c + 1)"
    using month_start_month_no [of d] by (simp_all add: c_def)
  have in_month: "month_start c' \<le> e" "e < month_start (c' + 1)"
    using d month_start_Suc [of c'] unfolding e e'_def by linarith+
  then have "month_no e = c'" by (simp add: month_no_eq_iff)
  then show "month_no e = month_no d - int (unat n)" by (simp only: c'_def c_def)
  show "e \<le> d"
  proof (cases "c' = c")
    case True
    then show ?thesis unfolding e e'_def by simp
  next
    case False
    then have "c' + 1 \<le> c" unfolding c'_def by presburger
    then have "month_start (c' + 1) \<le> month_start c" by (simp add: month_start_le_iff)
    then show ?thesis using in_month d by linarith
  qed
  have "month_start (- 3145715) \<le> month_start c'" using ge by (simp add: month_start_le_iff)
  then show "- 96465292 \<le> e" using in_month by (simp add: month_start_values)
qed

lemma year_months: "12 * ((c - 1) div 12) + 1 \<le> (c :: int)" "c \<le> 12 * ((c - 1) div 12) + 12"
  using div_mult_mod_eq [of "c - 1" 12] pos_mod_sign [of 12 "c - 1"] pos_mod_bound [of 12 "c - 1"]
  by linarith+

lemma month_no_first: "month_no d = c \<Longrightarrow> month_start c \<le> d"
  using month_no_eq_iff by blast

lemma greg_year_range: "0 \<le> d \<Longrightarrow> d \<le> greg_max \<Longrightarrow> - 262143 \<le> year greg d \<and> year greg d \<le> 262142"
  using month_no_bounds [of d] zdiv_mono1 [of 0 "month_no d - 1" 12]
    zdiv_mono1 [of "month_no d - 1" 3145715 12]
  by (simp add: greg_def)

interpretation greg: calendar greg greg_day greg_max
proof
  fix d e :: int and n :: u32
  assume "0 \<le> greg_day d" and "greg_day d \<le> greg_max"
  then have d: "0 \<le> d" "d \<le> greg_max" by (simp_all add: greg_day_def)
  note y = greg_year_range [OF d]
  let ?c = "month_no d"
  have c: "12 * year greg d + int (month greg d) = ?c" by (rule greg_month_count)
  have m: "1 \<le> month greg d" "month greg d \<le> 12"
    using pos_mod_bound [of 12 "?c - 1"] by (auto simp: greg_def nat_le_iff)
  have first: "from_ymd_opt greg (year greg d) (month greg d) 1 = Some (month_start ?c)"
    using greg_ymd [of "year greg d" "month greg d"] y m c by simp
  have "month_no (month_start ?c) = month_no d" by (rule month_no_month_start)
  then show "\<exists>f. from_ymd_opt greg (year greg d) (month greg d) 1 = Some f \<and> year greg f = year greg d \<and>
            month greg f = month greg d \<and> greg_day f \<le> greg_day d"
    using first month_no_first [of d] by (simp add: greg_def greg_day_def)
  let ?c1 = "12 * year greg d + 1"
  have "month_no (month_start ?c1) = ?c1" by (rule month_no_month_start)
  then have "year greg (month_start ?c1) = year greg d" by (simp add: greg_def)
  moreover have "month_start ?c1 \<le> month_start ?c"
    using year_months(1) [of ?c] by (simp add: month_start_le_iff greg_def)
  ultimately show "\<exists>f. from_ymd_opt greg (year greg d) 1 1 = Some f \<and> year greg f = year greg d \<and>
      greg_day f \<le> greg_day d"
    using greg_ymd [of "year greg d" 1] y month_no_first [of d] by (simp add: greg_day_def)
  show "checked_sub_months greg d n = Some e \<Longrightarrow>
       month_count greg e = month_count greg d - int (unat n) \<and> greg_day e \<le> greg_day d \<and>
       - (2 ^ 62 div 86400) \<le> greg_day e"
    using month_no_sub [of d n e] by (simp only: greg_month_count greg_day_def) simp
  show "12 < month_count greg d - int (unat n) \<Longrightarrow> \<exists>e. checked_sub_months greg d n = Some e"
    unfolding greg_month_count by (simp add: greg_def Let_def)
next
  fix d :: int
  assume "greg_day d < 0"
  then have "month_start (month_no d) < month_start 23641"
    using month_start_month_no [of d] by (simp add: greg_day_def month_start_values)
  then have "(month_no d - 1) div 12 \<le> 23639 div 12"
    by (intro zdiv_mono1) (simp_all add: month_start_less_iff)
  then show "year greg d < 1970" by (simp add: greg_def)
next
  fix d e :: int
  show "greg_day d \<le> greg_day e \<Longrightarrow> month_count greg d \<le> month_count greg e"
    unfolding greg_month_count by (simp add: greg_day_def month_no_mono)
  show "1 \<le> month greg d \<and> month greg d \<le> 12"
    using pos_mod_bound [of 12 "month_no d - 1"] by (auto simp: greg_def nat_le_iff)
  show "\<exists>e. from_ymd_opt greg 1970 1 1 = Some e \<and> greg_day e = 0 \<and> year greg e = 1970 \<and> month greg e = 1"
    using greg_ymd [of 1970 1] month_no_month_start [of 23641] by (simp add: month_start_values) (simp add: greg_def greg_day_def)
qed (auto simp: greg_simps)

section \<open>Properties of the bucket functions\<close>

text \<open>\<open>day_bucket\<close> is the floor to a multiple of 86400 for every timestamp below $2^{63}$, whether
  the date conversion succeeds or the integer fallback is taken.\<close>

theorem day_bucket_floor:
  assumes "calendar C day_no max_day" and "uint ts < 2 ^ 63"
  shows "day_bucket C ts = (ts div 86400) * 86400 \<and> day_bucket C ts \<le> ts \<and> ts - day_bucket C ts < 86400"
proof -
  have "day_bucket C ts = (ts div 86400) * 86400"
    using calendar.day_bucket_eq assms by blast
  moreover have "ts - (ts div 86400) * 86400 = ts mod 86400"
    by (rule minus_div_mult_eq_mod)
  moreover have "ts mod 86400 < 86400"
    by (simp add: word_less_nat_alt unat_mod)
  ultimately show ?thesis using calendar.day_bucket_le assms by metis
qed

theorem day_bucket_floor_witness:
  "day_bucket greg 1711890000 = 1711843200 \<and> day_bucket greg 1711890000 \<le> 1711890000"
  using day_bucket_floor [OF greg.calendar_axioms, of 1711890000] by simp

text \<open>C34: \<open>month_bucket\<close> and \<open>year_bucket\<close> group timestamps by calendar month and year: on convertible
  timestamps two buckets agree exactly when the dates have the same year and month (the same
  year), a bucket is not after its timestamp, is its own bucket, and buckets keep the order.\<close>

theorem month_year_bucket_groups:
  assumes "calendar C day_no max_day" and "uint t < (max_day + 1) * 86400" and "s \<le> t"
    and "from_timestamp C s = Some d" and "from_timestamp C t = Some e"
  shows "(month_bucket C s = month_bucket C t \<longleftrightarrow> year C d = year C e \<and> month C d = month C e) \<and>
         (year_bucket C s = year_bucket C t \<longleftrightarrow> year C d = year C e) \<and>
         month_bucket C t \<le> t \<and> year_bucket C t \<le> t \<and>
         month_bucket C (month_bucket C t) = month_bucket C t \<and>
         year_bucket C (year_bucket C t) = year_bucket C t \<and>
         month_bucket C s \<le> month_bucket C t \<and> year_bucket C s \<le> year_bucket C t"
proof -
  have s: "uint s < (max_day + 1) * 86400" using assms(2,3) by (simp add: word_le_def)
  note cal = assms(1)
  note m = calendar.month_bucket_groups [OF cal s assms(2,4,5)]
  note y = calendar.year_bucket_groups [OF cal s assms(2,4,5)]
  show ?thesis
    using m y calendar.month_rounds [OF cal assms(2,2,2,3)]
      calendar.year_rounds [OF cal assms(2,2,2,3)]
    by blast
qed

theorem month_year_bucket_groups_witness:
  "month_bucket greg 1711890000 = 1709251200 \<and> year_bucket greg 1711890000 = 1704067200 \<and>
   month_bucket greg 1709251200 = month_bucket greg 1711890000"
proof -
  have "from_timestamp greg 1709251200 = Some 19783" "from_timestamp greg 1711890000 = Some 19813"
    and v: "month_bucket greg 1711890000 = 1709251200" "year_bucket greg 1711890000 = 1704067200"
    by code_simp+
  moreover have "year greg 19783 = 2024 \<and> month greg 19783 = 3"
    "year greg 19813 = 2024 \<and> month greg 19813 = 3" by code_simp+
  ultimately show ?thesis
    using month_year_bucket_groups [OF greg.calendar_axioms, of 1711890000 1709251200 19783 19813]
    by (simp add: greg_max_def)
qed



end
