(* ===== verification/Aggregation.thy ===== *)
theory Aggregation
  imports Metrics
begin

text \<open>
  Aggregation of a group of metric records into one (\<open>aggregate_records\<close> of
  \<open>heimwatch-storage/src/aggregation.rs\<close>).  Each arm of the match over the first record's payload is
  a definition of its own: a fold with the accumulators of the source, then the final struct.
  Integer sums wrap at their width as in a release build; sums and averages over floats use the
  IEEE model of \<open>Floats\<close>.  The lemmas show what is summed exactly, that averages stay between the
  smallest and the largest sample, and that a group of one record is returned unchanged.
\<close>

section \<open>Averages\<close>

text \<open>The expression \<open>if vs.is_empty() { None } else { Some((vs.iter().sum::<f64>() / vs.len() as f64) as T) }\<close>,
  for a float and for an unsigned target.\<close>

definition mean64 :: "fl list \<Rightarrow> fl" where
  "mean64 vs = fdiv F64 (fsum F64 vs) (of_len F64 (length vs))"

definition avg_f32 :: "fl list \<Rightarrow> fl option" where
  "avg_f32 vs = (if vs = [] then None else Some (fcast F32 (mean64 vs)))"

definition avg_word :: "fl list \<Rightarrow> 'a::len word option" where
  "avg_word vs = (if vs = [] then None else Some (to_word (mean64 vs)))"

text \<open>\<open>i64\<close> division rounds towards zero.\<close>

definition i64_div :: "i64 \<Rightarrow> i64 \<Rightarrow> i64" where
  "i64_div a b = word_of_int (sgn (sint a) * sgn (sint b) * (\<bar>sint a\<bar> div \<bar>sint b\<bar>))"

text \<open>\<open>if let Some(v) = x { vs.push(v as f64) }\<close>.\<close>

definition push_opt :: "('a \<Rightarrow> 'b) \<Rightarrow> 'a option \<Rightarrow> 'b list \<Rightarrow> 'b list" where
  "push_opt f x vs = (case x of Some v \<Rightarrow> vs @ [f v] | None \<Rightarrow> vs)"

section \<open>The arms of the match\<close>

definition agg_net_step :: "u64 \<times> u64 \<times> u64 \<Rightarrow> MetricRecord \<Rightarrow> u64 \<times> u64 \<times> u64" where
  "agg_net_step = (\<lambda>(tx, rx, conn) r.
     case payload r of
       NetP d \<Rightarrow> (tx + tx_bytes d, rx + rx_bytes d, conn + ucast (connections d))
     | _ \<Rightarrow> (tx, rx, conn))"

definition agg_net :: "MetricRecord list \<Rightarrow> NetworkData" where
  "agg_net rs = (let (tx_sum, rx_sum, conn_sum) = foldl agg_net_step (0, 0, 0) rs in
     \<lparr> tx_bytes = tx_sum, rx_bytes = rx_sum,
       connections = to_word (fround (fdiv F64 (of_word F64 conn_sum) (of_len F64 (length rs)))) \<rparr>)"

definition agg_cpu_step :: "u64 \<times> fl \<times> u32 \<Rightarrow> MetricRecord \<Rightarrow> u64 \<times> fl \<times> u32" where
  "agg_cpu_step = (\<lambda>(time, usage, threads) r.
     case payload r of
       CpuP d \<Rightarrow> (time + cpu_time_ns d, fadd F64 usage (fcast F64 (cpu_usage_percent d)),
                  threads + thread_count d)
     | _ \<Rightarrow> (time, usage, threads))"

definition agg_cpu :: "MetricRecord list \<Rightarrow> CpuData" where
  "agg_cpu rs = (let (time_sum, usage_sum, thread_sum) = foldl agg_cpu_step (0, fzero, 0) rs in
     \<lparr> cpu_time_ns = time_sum,
       cpu_usage_percent = fcast F32 (fdiv F64 usage_sum (of_len F64 (length rs))),
       thread_count = to_word (fround (fdiv F64 (of_word F64 thread_sum) (of_len F64 (length rs)))) \<rparr>)"

definition agg_mem_step :: "u64 \<times> u64 \<times> u64 \<times> u64 \<Rightarrow> MetricRecord \<Rightarrow> u64 \<times> u64 \<times> u64 \<times> u64" where
  "agg_mem_step = (\<lambda>(rss, vms, swap, procs) r.
     case payload r of
       MemP d \<Rightarrow> (rss + rss_bytes d, vms + vms_bytes d, swap + swap_bytes d,
                  procs + ucast (process_count d))
     | _ \<Rightarrow> (rss, vms, swap, procs))"

definition agg_mem :: "MetricRecord list \<Rightarrow> MemoryData" where
  "agg_mem rs = (let (rss_sum, vms_sum, swap_sum, proc_sum) = foldl agg_mem_step (0, 0, 0, 0) rs;
                     n = of_len F64 (length rs) in
     \<lparr> rss_bytes = to_word (fdiv F64 (of_word F64 rss_sum) n),
       vms_bytes = to_word (fdiv F64 (of_word F64 vms_sum) n),
       swap_bytes = to_word (fdiv F64 (of_word F64 swap_sum) n),
       process_count = to_word (fround (fdiv F64 (of_word F64 proc_sum) n)) \<rparr>)"

definition agg_dsk_step :: "u64 \<times> u64 \<times> string \<Rightarrow> MetricRecord \<Rightarrow> u64 \<times> u64 \<times> string" where
  "agg_dsk_step = (\<lambda>(rd, wr, _) r.
     case payload r of
       DskP d \<Rightarrow> (rd + read_bytes d, wr + write_bytes d, mount_point d)
     | _ \<Rightarrow> (rd, wr, []))"

definition agg_dsk :: "MetricRecord list \<Rightarrow> DiskData" where
  "agg_dsk rs = (let (read_sum, write_sum, mount) = foldl agg_dsk_step (0, 0, []) rs in
     \<lparr> read_bytes = read_sum, write_bytes = write_sum, mount_point = mount \<rparr>)"

definition agg_foc_step :: "u64 \<times> string \<Rightarrow> MetricRecord \<Rightarrow> u64 \<times> string" where
  "agg_foc_step = (\<lambda>(dur, _) r.
     case payload r of
       FocP d \<Rightarrow> (dur + duration_ms d, app_id d)
     | _ \<Rightarrow> (dur, []))"

definition agg_foc :: "MetricRecord list \<Rightarrow> FocusData" where
  "agg_foc rs = (let (dur_sum, app) = foldl agg_foc_step (0, []) rs in
     \<lparr> app_id = app, duration_ms = dur_sum \<rparr>)"

record pwr_acc =
  pa_watt :: fl
  pa_batt :: "fl list"
  pa_charging :: bool
  pa_rapl_pkg :: "fl list"
  pa_rapl_core :: "fl list"
  pa_current :: "i64 list"
  pa_voltage :: "fl list"
  pa_freq :: "fl list"
  pa_brightness :: "fl list"
  pa_wifi :: "bool option"

definition agg_pwr_step :: "pwr_acc \<Rightarrow> MetricRecord \<Rightarrow> pwr_acc" where
  "agg_pwr_step a r =
     (case payload r of
        PwrP d \<Rightarrow>
          \<lparr> pa_watt = fadd F64 (pa_watt a) (fcast F64 (watt_usage d)),
            pa_batt = push_opt (fcast F64) (battery_percent d) (pa_batt a),
            pa_charging = charging d,
            pa_rapl_pkg = push_opt (fcast F64) (rapl_package_watts d) (pa_rapl_pkg a),
            pa_rapl_core = push_opt (fcast F64) (rapl_core_watts d) (pa_rapl_core a),
            pa_current = push_opt id (battery_current_ua d) (pa_current a),
            pa_voltage = push_opt (of_word F64) (battery_voltage_uv d) (pa_voltage a),
            pa_freq = push_opt (fcast F64) (avg_cpu_freq_ratio d) (pa_freq a),
            pa_brightness = push_opt (fcast F64) (display_brightness d) (pa_brightness a),
            pa_wifi = (if is_wifi d \<noteq> None then is_wifi d else pa_wifi a) \<rparr>
      | _ \<Rightarrow> a)"

definition pwr_acc0 :: pwr_acc where
  "pwr_acc0 = \<lparr> pa_watt = fzero, pa_batt = [], pa_charging = False, pa_rapl_pkg = [],
     pa_rapl_core = [], pa_current = [], pa_voltage = [], pa_freq = [], pa_brightness = [],
     pa_wifi = None \<rparr>"

definition agg_pwr :: "MetricRecord list \<Rightarrow> PowerData" where
  "agg_pwr rs = (let a = foldl agg_pwr_step pwr_acc0 rs in
     \<lparr> watt_usage = fcast F32 (fdiv F64 (pa_watt a) (of_len F64 (length rs))),
       battery_percent = avg_f32 (pa_batt a),
       charging = pa_charging a,
       rapl_package_watts = avg_f32 (pa_rapl_pkg a),
       rapl_core_watts = avg_f32 (pa_rapl_core a),
       battery_current_ua =
         (if pa_current a = [] then None
          else Some (i64_div (wsum (pa_current a)) (of_nat (length (pa_current a))))),
       battery_voltage_uv = avg_word (pa_voltage a),
       avg_cpu_freq_ratio = avg_f32 (pa_freq a),
       display_brightness = avg_f32 (pa_brightness a),
       is_wifi = pa_wifi a \<rparr>)"

text \<open>The GPU arm runs a fold for the first index and vendor, the usages and the last name, then a
  loop for the other samples.\<close>

type_synonym gpu_head = "(u32 \<times> GpuVendor) option \<times> fl list \<times> string \<times> GpuVendor option"

definition agg_gpu_head :: "gpu_head \<Rightarrow> MetricRecord \<Rightarrow> gpu_head" where
  "agg_gpu_head = (\<lambda>(first, usage, _, _) r.
     case payload r of
       GpuP d \<Rightarrow>
         (case first of None \<Rightarrow> Some (gpu_index d, vendor d) | Some p \<Rightarrow> Some p,
          push_opt (fcast F64) (usage_percent d) usage, gpu_name d, Some (vendor d))
     | _ \<Rightarrow> (first, usage, [], None))"

record gpu_acc =
  ga_vram_used :: "fl list"
  ga_vram_total :: "fl list"
  ga_temp :: "fl list"
  ga_power :: "fl list"
  ga_core_clock :: "fl list"
  ga_mem_clock :: "fl list"

definition agg_gpu_step :: "gpu_acc \<Rightarrow> MetricRecord \<Rightarrow> gpu_acc" where
  "agg_gpu_step a r =
     (case payload r of
        GpuP d \<Rightarrow>
          \<lparr> ga_vram_used = push_opt (of_word F64) (vram_used_bytes d) (ga_vram_used a),
            ga_vram_total = push_opt (of_word F64) (vram_total_bytes d) (ga_vram_total a),
            ga_temp = push_opt (fcast F64) (temperature_celsius d) (ga_temp a),
            ga_power = push_opt (fcast F64) (power_draw_watts d) (ga_power a),
            ga_core_clock = push_opt (of_word F64) (core_clock_mhz d) (ga_core_clock a),
            ga_mem_clock = push_opt (of_word F64) (memory_clock_mhz d) (ga_mem_clock a) \<rparr>
      | _ \<Rightarrow> a)"

definition agg_gpu :: "MetricRecord list \<Rightarrow> GpuData" where
  "agg_gpu rs =
     (let (first, last_usage, name, _) = foldl agg_gpu_head (None, [], [], None) rs;
          (index, vend) = unwrap_or first (0, Unknown);
          a = foldl agg_gpu_step \<lparr> ga_vram_used = [], ga_vram_total = [], ga_temp = [],
                ga_power = [], ga_core_clock = [], ga_mem_clock = [] \<rparr> rs
      in \<lparr> gpu_index = index, vendor = vend, gpu_name = name,
           usage_percent = avg_f32 last_usage,
           vram_used_bytes = avg_word (ga_vram_used a),
           vram_total_bytes = avg_word (ga_vram_total a),
           temperature_celsius = avg_f32 (ga_temp a),
           power_draw_watts = avg_f32 (ga_power a),
           core_clock_mhz = avg_word (ga_core_clock a),
           memory_clock_mhz = avg_word (ga_mem_clock a) \<rparr>)"

definition agg_gpu_proc_head :: "u32 \<times> fl list \<Rightarrow> MetricRecord \<Rightarrow> u32 \<times> fl list" where
  "agg_gpu_proc_head = (\<lambda>(idx, usage) r.
     case payload r of
       GpuProcP d \<Rightarrow> (if idx = 0 then gp_gpu_index d else idx,
                      push_opt (fcast F64) (gp_usage_percent d) usage)
     | _ \<Rightarrow> (idx, usage))"

definition agg_gpu_proc_vram :: "fl list \<Rightarrow> MetricRecord \<Rightarrow> fl list" where
  "agg_gpu_proc_vram vs r =
     (case payload r of
        GpuProcP d \<Rightarrow> push_opt (of_word F64) (gp_vram_used_bytes d) vs
      | _ \<Rightarrow> vs)"

definition agg_gpu_proc :: "MetricRecord list \<Rightarrow> GpuProcessData" where
  "agg_gpu_proc rs =
     (let (index, usage_values) = foldl agg_gpu_proc_head (0, []) rs
      in \<lparr> gp_gpu_index = index, gp_usage_percent = avg_f32 usage_values,
           gp_vram_used_bytes = avg_word (foldl agg_gpu_proc_vram [] rs) \<rparr>)"

definition aggregate_records :: "MetricRecord list \<Rightarrow> u64 \<Rightarrow> MetricRecord option" where
  "aggregate_records rs bucket_ts =
     (case rs of
        [] \<Rightarrow> None
      | r0 # _ \<Rightarrow> Some \<lparr> app_name = app_name r0, timestamp = bucket_ts,
          payload = (case payload r0 of
              NetP _ \<Rightarrow> NetP (agg_net rs)
            | CpuP _ \<Rightarrow> CpuP (agg_cpu rs)
            | MemP _ \<Rightarrow> MemP (agg_mem rs)
            | DskP _ \<Rightarrow> DskP (agg_dsk rs)
            | FocP _ \<Rightarrow> FocP (agg_foc rs)
            | PwrP _ \<Rightarrow> PwrP (agg_pwr rs)
            | GpuP _ \<Rightarrow> GpuP (agg_gpu rs)
            | GpuProcP _ \<Rightarrow> GpuProcP (agg_gpu_proc rs)) \<rparr>)"

section \<open>What is summed\<close>

text \<open>The additive fields of a payload.\<close>

primrec additive_fields :: "MetricPayload \<Rightarrow> u64 list" where
  "additive_fields (NetP d) = [tx_bytes d, rx_bytes d]"
| "additive_fields (PwrP d) = []"
| "additive_fields (FocP d) = [duration_ms d]"
| "additive_fields (CpuP d) = [cpu_time_ns d]"
| "additive_fields (MemP d) = []"
| "additive_fields (DskP d) = [read_bytes d, write_bytes d]"
| "additive_fields (GpuP d) = []"
| "additive_fields (GpuProcP d) = []"

abbreviation column :: "nat \<Rightarrow> MetricRecord list \<Rightarrow> u64 list" where
  "column i rs \<equiv> map (\<lambda>r. additive_fields (payload r) ! i) rs"

lemma fold_net:
  "\<forall>r\<in>set rs. rec_type r = Net \<Longrightarrow> \<exists>c'. foldl agg_net_step (tx, rx, c) rs =
     (tx + wsum (column 0 rs), rx + wsum (column 1 rs), c')"
proof (induction rs arbitrary: tx rx c)
  case (Cons r rs)
  then obtain d where "payload r = NetP d" by (auto simp: metric_type_eqs)
  then show ?case using Cons by (simp add: agg_net_step_def flip: add.assoc)
qed simp

lemma fold_cpu:
  "\<forall>r\<in>set rs. rec_type r = Cpu \<Longrightarrow> \<exists>u' h'. foldl agg_cpu_step (t, u, h) rs =
     (t + wsum (column 0 rs), u', h')"
proof (induction rs arbitrary: t u h)
  case (Cons r rs)
  then obtain d where "payload r = CpuP d" by (auto simp: metric_type_eqs)
  then show ?case using Cons by (simp add: agg_cpu_step_def flip: add.assoc)
qed simp

lemma fold_dsk:
  "\<forall>r\<in>set rs. rec_type r = Dsk \<Longrightarrow> \<exists>m'. foldl agg_dsk_step (a, b, m) rs =
     (a + wsum (column 0 rs), b + wsum (column 1 rs), m')"
proof (induction rs arbitrary: a b m)
  case (Cons r rs)
  then obtain d where "payload r = DskP d" by (auto simp: metric_type_eqs)
  then show ?case using Cons by (simp add: agg_dsk_step_def flip: add.assoc)
qed simp

lemma fold_foc:
  "\<forall>r\<in>set rs. rec_type r = Foc \<Longrightarrow> \<exists>m'. foldl agg_foc_step (a, m) rs =
     (a + wsum (column 0 rs), m')"
proof (induction rs arbitrary: a m)
  case (Cons r rs)
  then obtain d where "payload r = FocP d" by (auto simp: metric_type_eqs)
  then show ?case using Cons by (simp add: agg_foc_step_def flip: add.assoc)
qed simp

lemma aggregate_Some_iff: "aggregate_records rs ts = None \<longleftrightarrow> rs = []"
  by (cases rs) (simp_all add: aggregate_records_def)

lemma aggregate_meta:
  "aggregate_records (r # rs) ts = Some a \<Longrightarrow>
     app_name a = app_name r \<and> timestamp a = ts \<and> rec_type a = rec_type r"
  by (auto simp: aggregate_records_def split: MetricPayload.splits)

lemma aggregate_columns:
  assumes "aggregate_records rs ts = Some a" and "\<And>r. r \<in> set rs \<Longrightarrow> rec_type r = mt"
  shows "additive_fields (payload a) = map (\<lambda>i. wsum (column i rs)) [0..<length (additive_fields (payload a))]"
proof -
  obtain r rs' where rs: "rs = r # rs'"
    using assms(1) by (cases rs) (auto simp: aggregate_records_def)
  have mt: "rec_type r = mt" using assms(2) rs by simp
  show ?thesis
  proof (cases mt)
    case Net
    then obtain d where "payload r = NetP d" using mt by (auto simp: metric_type_eqs)
    then have "payload a = NetP (agg_net rs)" using assms(1) by (auto simp: aggregate_records_def rs)
    then show ?thesis
      using fold_net [of rs 0 0 0] assms(2) Net by (auto simp: agg_net_def)
  next
    case Cpu
    then obtain d where "payload r = CpuP d" using mt by (auto simp: metric_type_eqs)
    then have "payload a = CpuP (agg_cpu rs)" using assms(1) by (auto simp: aggregate_records_def rs)
    then show ?thesis
      using fold_cpu [of rs 0 fzero 0] assms(2) Cpu by (auto simp: agg_cpu_def)
  next
    case Dsk
    then obtain d where "payload r = DskP d" using mt by (auto simp: metric_type_eqs)
    then have "payload a = DskP (agg_dsk rs)" using assms(1) by (auto simp: aggregate_records_def rs)
    then show ?thesis
      using fold_dsk [of rs 0 0 "[]"] assms(2) Dsk by (auto simp: agg_dsk_def)
  next
    case Foc
    then obtain d where "payload r = FocP d" using mt by (auto simp: metric_type_eqs)
    then have "payload a = FocP (agg_foc rs)" using assms(1) by (auto simp: aggregate_records_def rs)
    then show ?thesis
      using fold_foc [of rs 0 "[]"] assms(2) Foc by (auto simp: agg_foc_def)
  qed (use assms(1) mt rs in \<open>auto simp: aggregate_records_def metric_type_eqs\<close>)
qed

section \<open>Averages\<close>

definition mem_fields :: "MemoryData \<Rightarrow> u64 list" where
  "mem_fields d = [rss_bytes d, vms_bytes d, swap_bytes d]"

primrec mem_of :: "MetricPayload \<Rightarrow> u64 list" where
  "mem_of (NetP d) = []"
| "mem_of (PwrP d) = []"
| "mem_of (FocP d) = []"
| "mem_of (CpuP d) = []"
| "mem_of (MemP d) = mem_fields d"
| "mem_of (DskP d) = []"
| "mem_of (GpuP d) = []"
| "mem_of (GpuProcP d) = []"

abbreviation mem_column :: "nat \<Rightarrow> MetricRecord list \<Rightarrow> u64 list" where
  "mem_column i rs \<equiv> map (\<lambda>r. mem_of (payload r) ! i) rs"

lemma fold_mem:
  "\<forall>r\<in>set rs. rec_type r = Mem \<Longrightarrow> \<exists>p'. foldl agg_mem_step (a, b, c, p) rs =
     (a + wsum (mem_column 0 rs), b + wsum (mem_column 1 rs), c + wsum (mem_column 2 rs), p')"
proof (induction rs arbitrary: a b c p)
  case (Cons r rs)
  then obtain d where "payload r = MemP d" by (auto simp: metric_type_eqs)
  then show ?case using Cons by (simp add: agg_mem_step_def mem_fields_def flip: add.assoc)
qed simp

lemma sum_list_bounds:
  "(\<And>x. x \<in> set xs \<Longrightarrow> lo \<le> x \<and> x \<le> hi) \<Longrightarrow>
   length xs * lo \<le> sum_list xs \<and> sum_list xs \<le> length xs * hi" for lo hi :: nat
  by (induction xs) (auto simp: add_mono)

lemma mean_word_bounds:
  fixes ws :: "'b::len word list"
  assumes "ws \<noteq> []" and "length ws < 2 ^ 53" and small: "sum_list (map unat ws) < min (2 ^ 53) (2 ^ LENGTH('b))"
    and b: "\<And>w. w \<in> set ws \<Longrightarrow> lo \<le> w \<and> w \<le> hi"
  shows "lo \<le> to_word (fdiv F64 (of_word F64 (wsum ws)) (of_len F64 (length ws)))"
    and "to_word (fdiv F64 (of_word F64 (wsum ws)) (of_len F64 (length ws))) \<le> hi"
proof -
  have s: "unat (wsum ws) = sum_list (map unat ws)" using small by (intro unat_wsum) simp
  have bounds: "length ws * unat lo \<le> unat (wsum ws)" "unat (wsum ws) \<le> length ws * unat hi"
    unfolding s using sum_list_bounds [of "map unat ws" "unat lo" "unat hi"] b
    by (auto simp: word_le_nat_alt)
  have "0 < length ws" "length ws < 2 ^ fprec F64" "unat (wsum ws) < 2 ^ fprec F64"
    using assms s by simp_all
  from to_word_quotient [OF this bounds]
  show "lo \<le> to_word (fdiv F64 (of_word F64 (wsum ws)) (of_len F64 (length ws)))"
    and "to_word (fdiv F64 (of_word F64 (wsum ws)) (of_len F64 (length ws))) \<le> hi" .
qed

lemma agg_mem_fields:
  assumes "\<And>r. r \<in> set rs \<Longrightarrow> rec_type r = Mem"
  shows "mem_fields (agg_mem rs) =
    map (\<lambda>i. to_word (fdiv F64 (of_word F64 (wsum (mem_column i rs))) (of_len F64 (length rs)))) [0, 1, 2]"
  using fold_mem [of rs 0 0 0 0] assms by (auto simp: agg_mem_def mem_fields_def Let_def)

section \<open>Groups of one record\<close>

text \<open>Payloads whose numbers survive the round trip through \<open>f64\<close>: floats are \<open>f32\<close> values, summed
  from plus zero without being minus zero, and averaged byte counts stay below $2^{53}$.\<close>

abbreviation opt_all :: "('a \<Rightarrow> bool) \<Rightarrow> 'a option \<Rightarrow> bool" where
  "opt_all P x \<equiv> (case x of None \<Rightarrow> True | Some v \<Rightarrow> P v)"

abbreviation exact_u64 :: "u64 \<Rightarrow> bool" where
  "exact_u64 w \<equiv> unat w < 2 ^ 53"

primrec exact_payload :: "MetricPayload \<Rightarrow> bool" where
  "exact_payload (NetP d) = True"
| "exact_payload (PwrP d) =
     (fwf F32 (watt_usage d) \<and> watt_usage d \<noteq> NZero \<and> opt_all (fwf F32) (battery_percent d) \<and>
      opt_all (fwf F32) (rapl_package_watts d) \<and> opt_all (fwf F32) (rapl_core_watts d) \<and>
      opt_all exact_u64 (battery_voltage_uv d) \<and> opt_all (fwf F32) (avg_cpu_freq_ratio d) \<and>
      opt_all (fwf F32) (display_brightness d))"
| "exact_payload (FocP d) = True"
| "exact_payload (CpuP d) = (fwf F32 (cpu_usage_percent d) \<and> cpu_usage_percent d \<noteq> NZero)"
| "exact_payload (MemP d) = (exact_u64 (rss_bytes d) \<and> exact_u64 (vms_bytes d) \<and> exact_u64 (swap_bytes d))"
| "exact_payload (DskP d) = True"
| "exact_payload (GpuP d) =
     (opt_all (fwf F32) (usage_percent d) \<and> opt_all exact_u64 (vram_used_bytes d) \<and>
      opt_all exact_u64 (vram_total_bytes d) \<and> opt_all (fwf F32) (temperature_celsius d) \<and>
      opt_all (fwf F32) (power_draw_watts d))"
| "exact_payload (GpuProcP d) =
     (opt_all (fwf F32) (gp_usage_percent d) \<and> opt_all exact_u64 (gp_vram_used_bytes d))"

lemma unat_u32_small: "unat (w :: u32) < 9007199254740992"
proof -
  have "unat w < 2 ^ LENGTH(32)" by (rule unsigned_less)
  then show ?thesis by simp
qed

lemma of_word_ucast: "of_word F64 (ucast (w :: u32) :: u64) = of_word F64 w"
  by (simp add: of_word_of_len unat_ucast_u64)

lemma to_word_of_word: "unat w < 2 ^ 53 \<Longrightarrow> to_word (of_word F64 w) = (w :: 'a::len word)"
  and to_word_round_of_word: "unat w < 2 ^ 53 \<Longrightarrow> to_word (fround (of_word F64 w)) = (w :: 'a::len word)"
proof -
  assume "unat w < 2 ^ 53"
  then have "of_word F64 w = Num (of_nat (unat w))" by (intro of_word_exact) simp
  moreover have "to_word (Num (of_nat (unat w))) = (of_nat (unat w) :: 'a word)"
    by (rule to_word_of_nat) (rule unsigned_less)
  moreover have "(of_nat (unat w) :: 'a word) = w" by simp
  ultimately show "to_word (of_word F64 w) = w" and "to_word (fround (of_word F64 w)) = w"
    by (simp_all only: fround_of_nat)
qed

lemma mean64_single: "fwf F64 x \<Longrightarrow> mean64 [x] = x"
  by (simp add: mean64_def fsum_def fadd_NZero fdiv_one)

lemma avg_f32_push: "opt_all (fwf F32) x \<Longrightarrow> avg_f32 (push_opt (fcast F64) x []) = x"
  by (cases x) (simp_all add: push_opt_def avg_f32_def fcast_F64_id mean64_single fwf_F32_F64 fcast_id)

lemma avg_word_push:
  "opt_all (\<lambda>w. unat w < 2 ^ 53) x \<Longrightarrow> avg_word (push_opt (of_word F64) x []) = (x :: 'a::len word option)"
  by (cases x) (simp_all add: push_opt_def avg_word_def mean64_single to_word_of_word)

lemma avg_u32_push: "avg_word (push_opt (of_word F64) x []) = (x :: u32 option)"
  using unat_u32_small by (intro avg_word_push) (simp split: option.split)

lemma f32_mean_single:
  "fwf F32 x \<Longrightarrow> x \<noteq> NZero \<Longrightarrow> fcast F32 (fadd F64 fzero (fcast F64 x)) = x"
  by (simp add: fcast_F64_id fadd_zero fwf_F32_F64 fcast_id)

lemma i64_div_one: "i64_div v 1 = v"
proof -
  have "sgn (sint v) * (\<bar>sint v\<bar> div 1) = sint v" by (simp add: sgn_mult_abs)
  then show ?thesis by (simp add: i64_div_def)
qed

lemma push_opt_id: "push_opt id None [] = []" "push_opt id (Some v) [] = [v]"
  by (simp_all add: push_opt_def)

lemmas single_simps = f32_mean_single avg_f32_push avg_word_push avg_u32_push push_opt_id i64_div_one
  to_word_of_word to_word_round_of_word of_word_ucast unat_u32_small fdiv_one Let_def

lemma aggregate_single_payload:
  assumes "exact_payload p"
  shows "aggregate_records [\<lparr>app_name = n, timestamp = t, payload = p\<rparr>] ts =
    Some \<lparr>app_name = n, timestamp = ts, payload = p\<rparr>"
proof (cases p)
  case (NetP d)
  then show ?thesis
    using assms
    by (cases d) (simp add: aggregate_records_def agg_net_def agg_net_step_def single_simps)
next
  case (PwrP d)
  then show ?thesis
    using assms
    by (cases d; cases "battery_current_ua d") (simp_all add: aggregate_records_def agg_pwr_def agg_pwr_step_def pwr_acc0_def single_simps)
next
  case (FocP d)
  then show ?thesis
    using assms
    by (cases d) (simp add: aggregate_records_def agg_foc_def agg_foc_step_def single_simps)
next
  case (CpuP d)
  then show ?thesis
    using assms
    by (cases d) (simp add: aggregate_records_def agg_cpu_def agg_cpu_step_def single_simps)
next
  case (MemP d)
  then show ?thesis
    using assms
    by (cases d) (simp add: aggregate_records_def agg_mem_def agg_mem_step_def single_simps)
next
  case (DskP d)
  then show ?thesis
    using assms
    by (cases d) (simp add: aggregate_records_def agg_dsk_def agg_dsk_step_def single_simps)
next
  case (GpuP d)
  then show ?thesis
    using assms
    by (cases d) (simp add: aggregate_records_def agg_gpu_def agg_gpu_head_def agg_gpu_step_def single_simps)
next
  case (GpuProcP d)
  then show ?thesis
    using assms
    by (cases d) (simp add: aggregate_records_def agg_gpu_proc_def agg_gpu_proc_head_def agg_gpu_proc_vram_def single_simps)
qed

lemma aggregate_single:
  "exact_payload (payload r) \<Longrightarrow> aggregate_records [r] ts = Some (r\<lparr>timestamp := ts\<rparr>)"
  by (cases r) (simp add: aggregate_single_payload)

section \<open>Properties\<close>

text \<open>C25: Aggregating a group of one metric type: there is a result exactly when the group is not
  empty, it carries the name and type of the first record and the given timestamp, and each
  additive field (bytes sent, received, read, written, CPU time, focus time) is the wrapping sum
  of that field over the group, the exact sum when that fits 64 bits.\<close>

theorem aggregate_conserves:
  assumes "\<And>r. r \<in> set rs \<Longrightarrow> rec_type r = mt"
  shows "case aggregate_records rs ts of
    None \<Rightarrow> rs = []
  | Some a \<Rightarrow> rs \<noteq> [] \<and> app_name a = app_name (hd rs) \<and> timestamp a = ts \<and> rec_type a = mt \<and>
      additive_fields (payload a) = map (\<lambda>i. wsum (column i rs)) [0..<length (additive_fields (payload a))] \<and>
      (\<forall>i < length (additive_fields (payload a)). sum_list (map unat (column i rs)) < 2 ^ 64 \<longrightarrow>
         unat (additive_fields (payload a) ! i) = sum_list (map unat (column i rs)))"
proof (cases "aggregate_records rs ts")
  case None
  then show ?thesis using aggregate_Some_iff [of rs ts] by simp
next
  case a: (Some a)
  then have "rs \<noteq> []" using aggregate_Some_iff [of rs ts] by auto
  then obtain r rs' where rs: "rs = r # rs'" by (cases rs) auto
  note cols = aggregate_columns [OF a assms]
  have "unat (additive_fields (payload a) ! i) = sum_list (map unat (column i rs))"
    if "i < length (additive_fields (payload a))" "sum_list (map unat (column i rs)) < 2 ^ 64" for i
  proof -
    have "additive_fields (payload a) ! i = wsum (column i rs)"
      using that(1) nth_map_upt [of i "length (additive_fields (payload a))" 0 "\<lambda>i. wsum (column i rs)"]
        arg_cong [OF cols, of "\<lambda>xs. xs ! i"] by simp
    then show ?thesis using that(2) unat_wsum [of "column i rs"] by simp
  qed
  then show ?thesis
    using a aggregate_meta [of r rs' ts a] assms [of r] cols unfolding rs by auto
qed

definition net_rec :: "string \<Rightarrow> u64 \<Rightarrow> u64 \<Rightarrow> u64 \<Rightarrow> MetricRecord" where
  "net_rec n t a b = \<lparr> app_name = n, timestamp = t,
     payload = NetP \<lparr> tx_bytes = a, rx_bytes = b, connections = 1 \<rparr> \<rparr>"

theorem aggregate_conserves_witness:
  "\<exists>a. aggregate_records [net_rec ''curl'' 10 5 7, net_rec ''curl'' 20 6 8] 0 = Some a \<and>
     additive_fields (payload a) = [11, 15] \<and> app_name a = ''curl''"
proof -
  let ?rs = "[net_rec ''curl'' 10 5 7, net_rec ''curl'' 20 6 8]"
  obtain a where a: "aggregate_records ?rs 0 = Some a" "app_name a = ''curl''" "rec_type a = Net"
    "additive_fields (payload a) = map (\<lambda>i. wsum (column i ?rs)) [0..<length (additive_fields (payload a))]"
  proof -
    have "\<And>r. r \<in> set ?rs \<Longrightarrow> rec_type r = Net" "app_name (hd ?rs) = ''curl''"
      by (auto simp: net_rec_def)
    with aggregate_conserves [of ?rs Net 0] that show thesis by (auto split: option.splits)
  qed
  have "length (additive_fields (payload a)) = 2" using a(3) by (auto simp: metric_type_eqs)
  then have "additive_fields (payload a) = [11, 15]"
    using a(4) by (simp add: net_rec_def upt_rec)
  with a show ?thesis by blast
qed

text \<open>The averaged memory fields of an aggregated group lie between the smallest and the largest
  sample, as long as the sums stay below $2^{53}$ (where \<open>f64\<close> is exact).\<close>

theorem aggregate_mem_average_bounds:
  assumes "rs \<noteq> []" and "length rs < 2 ^ 53" and "\<And>r. r \<in> set rs \<Longrightarrow> rec_type r = Mem"
    and "i < 3" and "sum_list (map unat (mem_column i rs)) < 2 ^ 53"
    and "\<And>w. w \<in> set (mem_column i rs) \<Longrightarrow> lo \<le> w \<and> w \<le> hi"
  shows "\<exists>a. aggregate_records rs ts = Some a \<and> lo \<le> mem_of (payload a) ! i \<and> mem_of (payload a) ! i \<le> hi"
proof -
  obtain r rs' where rs: "rs = r # rs'" using assms(1) by (cases rs) auto
  obtain d where "payload r = MemP d" using assms(3) [of r] by (auto simp: rs metric_type_eqs)
  then have a: "aggregate_records rs ts = Some \<lparr>app_name = app_name r, timestamp = ts, payload = MemP (agg_mem rs)\<rparr>"
    by (simp add: aggregate_records_def rs)
  have "i = 0 \<or> i = 1 \<or> i = 2" using assms(4) by auto
  then have "mem_fields (agg_mem rs) ! i =
      to_word (fdiv F64 (of_word F64 (wsum (mem_column i rs))) (of_len F64 (length (mem_column i rs))))"
    by (elim disjE) (simp_all add: agg_mem_fields assms(3))
  then show ?thesis
    using mean_word_bounds [of "mem_column i rs" lo hi] assms by (simp add: a)
qed

definition mem_rec :: "string \<Rightarrow> u64 \<Rightarrow> u64 \<Rightarrow> MetricRecord" where
  "mem_rec n t a = \<lparr> app_name = n, timestamp = t,
     payload = MemP \<lparr> rss_bytes = a, vms_bytes = a, swap_bytes = 0, process_count = 1 \<rparr> \<rparr>"

theorem aggregate_mem_average_bounds_witness:
  "\<exists>a. aggregate_records [mem_rec ''vim'' 10 100, mem_rec ''vim'' 20 301] 0 = Some a \<and>
     100 \<le> mem_of (payload a) ! 0 \<and> mem_of (payload a) ! 0 \<le> 301"
  using aggregate_mem_average_bounds [of "[mem_rec ''vim'' 10 100, mem_rec ''vim'' 20 301]" 0 100 301 0]
  by (force simp: mem_rec_def mem_fields_def)

text \<open>A group of one record is returned unchanged but for its timestamp, whatever its type: every
  sum and average over a single sample, through \<open>f64\<close> and back, is the sample.\<close>

theorem aggregate_singleton:
  assumes "exact_payload (payload r)"
  shows "aggregate_records [r] ts = Some (r\<lparr>timestamp := ts\<rparr>)"
  by (rule aggregate_single [OF assms])

theorem aggregate_singleton_witness:
  "aggregate_records [mem_rec ''vim'' 10 12345678901] 7 = Some (mem_rec ''vim'' 7 12345678901)"
  using aggregate_singleton [of "mem_rec ''vim'' 10 12345678901" 7] by (simp add: mem_rec_def)

end
