(* ===== verification/Storage_Props.thy ===== *)
theory Storage_Props
  imports Records Ranking Ref_Store Gregorian Aggregation
begin

text \<open>
  Properties of the storage layer's inserts and queries, for every instance of the libraries that
  satisfies \<open>store\<close>, with witnesses on the reference store.
\<close>

section \<open>Batches\<close>

abbreviation ins_all :: "MetricRecord list \<Rightarrow> MetricRecord list \<Rightarrow> MetricRecord list" where
  "ins_all rs D \<equiv> foldl (\<lambda>D r. ins_rec r D) D rs"

lemma foldl_batch_insert:
  "foldl app_op (map (entry X) D) (map (\<lambda>r. BInsert (rkey r) (bytes X r)) rs) = map (entry X) (ins_all rs D)"
  by (induction rs arbitrary: D) (simp_all add: upd_entry)

context store
begin

lemma encode_batch:
  assumes "\<And>r. r \<in> set rs \<Longrightarrow> roundtrips X r"
  shows "mapR (\<lambda>r. bindR (rec_to_vec X r) (\<lambda>v. Inr (BInsert (rkey r) v))) rs =
    Inr (map (\<lambda>r. BInsert (rkey r) (bytes X r)) rs)"
  by (rule mapR_Inr) (use assms roundtrips_bytes [of X] in auto)

lemma run_insert_batch:
  assumes "holds X a ''metrics'' D" and "\<And>r. r \<in> set rs \<Longrightarrow> roundtrips X r"
  shows "run (insert_metrics_batch X rs) a () (set_tree ''metrics'' (map (entry X) (ins_all rs D)) a)"
  unfolding insert_metrics_batch_def
  by (rule run_eq, rule run_bind, rule run_tree(1), rule run_bind, rule run_lift,
      rule encode_batch [OF assms(2)], assumption, rule do_batch)
    (use assms(1) in \<open>simp_all add: holds_def foldl_batch_insert\<close>)

lemma run_power_state:
  assumes "holds X a ''metrics'' rs"
    and "first_power X (rev (map (\<lambda>r. Inr (entry X r)) (filter (in_range Pwr 0 ts) rs))) = Inr res"
  shows "run (get_power_state_at X ts) a res a"
  unfolding get_power_state_at_def
  by (rule run_bind, rule run_tree(1), rule run_bind, rule run_items [OF assms(1)], rule run_lift, rule assms(2))

lemma holds_ins_all:
  assumes "holds X a t D" and "\<And>r. r \<in> set rs \<Longrightarrow> roundtrips X r"
  shows "holds X (set_tree t (map (entry X) (ins_all rs D)) a) t (ins_all rs D)"
  using assms
proof (induction rs arbitrary: D a)
  case (Cons r rs)
  have "holds X (set_tree t (map (entry X) (ins_rec r D)) a) t (ins_rec r D)"
    using Cons.prems by (intro holds_ins_rec) simp_all
  from Cons.IH [OF this] Cons.prems(2) show ?case by simp
qed (simp add: holds_def)

lemma run_insert_each:
  assumes "holds X a ''metrics'' D" and "\<And>r. r \<in> set rs \<Longrightarrow> roundtrips X r"
  shows "run (foldS (\<lambda>_ r. insert_metric X r) () rs) a ()
    (set_tree ''metrics'' (map (entry X) (ins_all rs D)) a)"
  using assms
proof (induction rs arbitrary: D a)
  case Nil
  then show ?case using run_ret [of "()" a] by (simp add: holds_set_tree)
next
  case (Cons r rs)
  let ?a = "set_tree ''metrics'' (map (entry X) (ins_rec r D)) a"
  have "holds X ?a ''metrics'' (ins_rec r D)"
    using Cons.prems by (intro holds_ins_rec) simp_all
  from Cons.IH [OF this] Cons.prems(2)
  have "run (foldS (\<lambda>_ r. insert_metric X r) () rs) ?a ()
      (set_tree ''metrics'' (map (entry X) (ins_all rs (ins_rec r D))) a)"
    by simp
  moreover have "run (insert_metric X r) a () ?a"
    using Cons.prems by (intro run_insert_metric) simp_all
  ultimately show ?case by (simp add: run_bind)
qed

end

section \<open>Properties\<close>

text \<open>C5: What \<open>get_metrics_by_type\<close> returns, on any healthy store whose trees hold record lists: the
  raw records of the type in the interval; when there are none, those of the daily tree, then of
  the monthly, then of the yearly tree, each clipped to its tier; always in order of time.  The
  store is unchanged.\<close>

theorem query_refines_spec:
  assumes "store X healthy absw" and "healthy w" and "holds_all X (absw w) D"
  shows "\<exists>w'. get_metrics_by_type X C clock mt s e w =
      (Inr (query_spec C (unwrap_or (ok_opt clock) (- 1)) mt s e D), w') \<and> healthy w' \<and> absw w' = absw w \<and>
    sorted_wrt (\<lambda>a b. timestamp a \<le> timestamp b) (query_spec C (unwrap_or (ok_opt clock) (- 1)) mt s e D)"
  using runsD [OF store.run_get_metrics_by_type [OF assms(1,3)] assms(2)]
    query_spec_sorted [of D] holds_allD [OF assms(3)] unfolding holds_def by blast

definition w_recs :: "MetricRecord list" where
  "w_recs = [net_rec ''curl'' 100 5 7, net_rec ''ssh'' 100 1 2, net_rec ''curl'' 200 6 8]"

definition w_db :: "string \<Rightarrow> MetricRecord list" where
  "w_db t = (if t = ''metrics'' then w_recs else [])"

definition w_world :: aworld where
  "w_world = \<lparr> trees = (\<lambda>t. map (entry (ref_ext w_recs)) (w_db t)), files = (\<lambda>_. None) \<rparr>"

lemma w_recs_sorted: "key_sorted w_recs"
  by code_simp

lemma w_db_sorted: "key_sorted (w_db t)"
  using w_recs_sorted by (simp add: w_db_def)

lemma w_world_healthy: "ref_healthy w_world"
  using w_db_sorted by (simp add: ref_healthy_def w_world_def comp_def)

lemma w_world_holds: "holds (ref_ext w_recs) w_world t (w_db t)"
  using w_db_sorted ref_rec_roundtrip [of _ w_recs]
  by (auto simp: holds_def w_world_def roundtrips_def w_db_def)

lemma w_world_holds_all: "holds_all (ref_ext w_recs) (id w_world) w_db"
  by (simp add: holds_all_def w_world_holds)

theorem query_refines_spec_witness:
  "\<exists>w'. get_metrics_by_type (ref_ext w_recs) greg (Inr 1000) Net 50 150 w_world =
     (Inr [net_rec ''curl'' 100 5 7, net_rec ''ssh'' 100 1 2], w')"
proof -
  have "query_spec greg 1000 Net 50 150 w_db = [net_rec ''curl'' 100 5 7, net_rec ''ssh'' 100 1 2]"
    by code_simp
  then show ?thesis
    using query_refines_spec [OF ref.store_axioms w_world_healthy w_world_holds_all, of greg "Inr 1000" Net 50 150]
    by auto
qed

text \<open>C9: Insert and query.  After inserting a record whose encoding decodes back, a query of its type
  whose interval covers it returns exactly the stored raw records of the interval with this one
  added; a record with the same type, time and application is replaced.\<close>

theorem insert_then_query:
  assumes "store X healthy absw" and "healthy w" and "holds_all X (absw w) D" and "roundtrips X r"
    and "in_range (rec_type r) s e r"
  shows "\<exists>w1 w2. insert_metric X r w = (Inr (), w1) \<and>
    get_metrics_by_type X C clock (rec_type r) s e w1 =
      (Inr (filter (in_range (rec_type r) s e) (ins_rec r (D ''metrics''))), w2) \<and>
    set (filter (in_range (rec_type r) s e) (ins_rec r (D ''metrics''))) =
      insert r {x \<in> set (D ''metrics''). in_range (rec_type r) s e x \<and>
        \<not> (timestamp x = timestamp r \<and> app_name x = app_name r)}"
proof -
  let ?mt = "rec_type r" and ?D = "D(''metrics'' := ins_rec r (D ''metrics''))"
  let ?a = "set_tree ''metrics'' (map (entry X) (ins_rec r (D ''metrics''))) (absw w)"
  note h = holds_allD [OF assms(3) tier_names_mem(1)]
  obtain w1 where w1: "insert_metric X r w = (Inr (), w1)" "healthy w1" "absw w1 = ?a"
    using runsD [OF store.run_insert_metric [OF assms(1) h assms(4)] assms(2)] by blast
  have "holds_all X ?a ?D"
    by (rule holds_all_update [OF assms(3) holds_ins_rec [OF h assms(4)]])
  then obtain w2 where w2: "get_metrics_by_type X C clock ?mt s e w1 =
      (Inr (query_spec C (unwrap_or (ok_opt clock) (- 1)) ?mt s e ?D), w2)"
    using runsE [OF store.run_get_metrics_by_type [OF assms(1), of ?a ?D C clock ?mt s e] w1(2,3)] by blast
  have set: "set (ins_rec r (D ''metrics'')) = insert r {x \<in> set (D ''metrics''). rkey x \<noteq> rkey r}"
    using h by (intro set_ins_rec) (simp add: holds_def)
  then have "filter (in_range ?mt s e) (?D ''metrics'') \<noteq> []"
    using assms(5) by (auto simp: filter_empty_conv)
  then have raw: "query_spec C now ?mt s e ?D = filter (in_range ?mt s e) (ins_rec r (D ''metrics''))" for now
    using query_spec_raw [of ?mt s e ?D C now] by simp
  have "set (filter (in_range ?mt s e) (ins_rec r (D ''metrics''))) =
      insert r {x \<in> set (D ''metrics''). in_range ?mt s e x \<and>
        \<not> (timestamp x = timestamp r \<and> app_name x = app_name r)}"
    using assms(5) by (auto simp: set rkey_inj in_range_def)
  with w1(1) w2 raw show ?thesis by simp
qed

theorem insert_then_query_witness:
  "\<exists>w1 w2. insert_metric (ref_ext w_recs) (net_rec ''curl'' 200 6 8) w_world = (Inr (), w1) \<and>
     get_metrics_by_type (ref_ext w_recs) greg (Inr 1000) Net 150 250 w1 = (Inr [net_rec ''curl'' 200 6 8], w2)"
proof -
  let ?r = "net_rec ''curl'' 200 6 8"
  have t: "rec_type ?r = Net" by (simp add: net_rec_def)
  have rt: "roundtrips (ref_ext w_recs) ?r"
    using ref_rec_roundtrip [of ?r w_recs] by (simp add: roundtrips_def w_recs_def)
  have "in_range Net 150 250 ?r" and v: "filter (in_range Net 150 250) (ins_rec ?r (w_db ''metrics'')) = [?r]"
    by code_simp+
  then have "in_range (rec_type ?r) 150 250 ?r" by (simp only: t)
  from insert_then_query [OF ref.store_axioms w_world_healthy w_world_holds_all rt this, of greg "Inr 1000"]
  show ?thesis unfolding t v by blast
qed

text \<open>A batch is the sequence of its inserts: writing the records in one atomic batch leaves the
  same trees as inserting them one after the other, later records winning, and the result is
  again a tree of records.\<close>

theorem batch_is_sequence:
  assumes "store X healthy absw" and "healthy w" and "holds X (absw w) ''metrics'' D"
    and "\<And>r. r \<in> set rs \<Longrightarrow> roundtrips X r"
  shows "\<exists>w1 w2. insert_metrics_batch X rs w = (Inr (), w1) \<and>
    foldS (\<lambda>_ r. insert_metric X r) () rs w = (Inr (), w2) \<and> absw w1 = absw w2 \<and>
    holds X (absw w1) ''metrics'' (ins_all rs D)"
proof -
  obtain w1 where w1: "insert_metrics_batch X rs w = (Inr (), w1)"
      "absw w1 = set_tree ''metrics'' (map (entry X) (ins_all rs D)) (absw w)"
    using runsD [OF store.run_insert_batch [OF assms(1,3,4)] assms(2)] by blast
  obtain w2 where w2: "foldS (\<lambda>_ r. insert_metric X r) () rs w = (Inr (), w2)"
      "absw w2 = set_tree ''metrics'' (map (entry X) (ins_all rs D)) (absw w)"
    using runsD [OF store.run_insert_each [OF assms(1,3,4)] assms(2)] by blast
  show ?thesis
    using w1 w2 store.holds_ins_all [OF assms(1,3,4)] by simp
qed

theorem batch_is_sequence_witness:
  "\<exists>w1. insert_metrics_batch (ref_ext w_recs) w_recs w_world = (Inr (), w1) \<and>
     holds (ref_ext w_recs) w1 ''metrics'' w_recs"
proof -
  have rt: "roundtrips (ref_ext w_recs) r" if "r \<in> set w_recs" for r
    using ref_rec_roundtrip [OF that] by (simp add: roundtrips_def)
  have h: "holds (ref_ext w_recs) (id w_world) ''metrics'' w_recs"
    using w_world_holds [of "''metrics''"] by (simp add: w_db_def)
  have "ins_all w_recs w_recs = w_recs" by code_simp
  with batch_is_sequence [OF ref.store_axioms w_world_healthy h rt] show ?thesis by (metis id_apply)
qed

section \<open>Rankings\<close>

lemma query_spec_type: "r \<in> set (query_spec C now mt s e D) \<Longrightarrow> rec_type r = mt"
  by (auto simp: query_spec_def Let_def in_range_def split: if_splits)

text \<open>The records of one application.\<close>

abbreviation of_app :: "string \<Rightarrow> MetricRecord list \<Rightarrow> MetricRecord list" where
  "of_app n rs \<equiv> filter (\<lambda>r. app_name r = n) rs"

definition net_upd :: "MetricRecord \<Rightarrow> u64 \<times> u64 \<Rightarrow> u64 \<times> u64" where
  "net_upd r = (\<lambda>(tx, rx). (tx + additive_fields (payload r) ! 0, rx + additive_fields (payload r) ! 1))"

lemma net_totals_fold:
  "\<forall>r\<in>set rs. rec_type r = Net \<Longrightarrow>
   foldl net_totals_step m rs = foldl (\<lambda>m r. entry_mod (app_name r) (0, 0) (net_upd r) m) m rs"
proof (induction rs arbitrary: m)
  case (Cons r rs)
  then obtain d where "payload r = NetP d" by (auto simp: metric_type_eqs)
  then have "net_totals_step m r = entry_mod (app_name r) (0, 0) (net_upd r) m"
    by (simp add: net_totals_step_def net_upd_def)
  with Cons show ?case by simp
qed simp

lemma foldl_net_upd: "foldl (\<lambda>v r. net_upd r v) (a, b) rs = (a + wsum (column 0 rs), b + wsum (column 1 rs))"
  by (induction rs arbitrary: a b) (simp_all add: net_upd_def add.assoc)

lemma focus_totals_fold:
  "\<forall>r\<in>set rs. rec_type r = Foc \<Longrightarrow> foldl focus_totals_step m rs =
     foldl (\<lambda>m r. entry_mod (app_name r) 0 (\<lambda>t. t + additive_fields (payload r) ! 0) m) m rs"
proof (induction rs arbitrary: m)
  case (Cons r rs)
  then obtain d where "payload r = FocP d" by (auto simp: metric_type_eqs)
  then have "focus_totals_step m r = entry_mod (app_name r) 0 (\<lambda>t. t + additive_fields (payload r) ! 0) m"
    by (simp add: focus_totals_step_def)
  with Cons show ?case by simp
qed simp

lemma foldl_focus_upd: "foldl (\<lambda>v r. v + additive_fields (payload r) ! 0) a rs = a + wsum (column 0 rs)"
  by (induction rs arbitrary: a) (simp_all add: add.assoc)

lemma net_totals:
  assumes "\<forall>r\<in>set rs. rec_type r = Net"
  shows "distinct (map fst (foldl net_totals_step [] rs))"
    and "map_of (foldl net_totals_step [] rs) n =
      (if n \<in> app_name ` set rs then Some (wsum (column 0 (of_app n rs)), wsum (column 1 (of_app n rs))) else None)"
  unfolding net_totals_fold [OF assms]
  by (simp_all add: fold_entry_mod foldl_net_upd image_iff eq_commute)

lemma focus_totals:
  assumes "\<forall>r\<in>set rs. rec_type r = Foc"
  shows "distinct (map fst (foldl focus_totals_step [] rs))"
    and "map_of (foldl focus_totals_step [] rs) n =
      (if n \<in> app_name ` set rs then Some (wsum (column 0 (of_app n rs))) else None)"
  unfolding focus_totals_fold [OF assms]
  by (simp_all add: fold_entry_mod foldl_focus_upd image_iff eq_commute)

text \<open>What a list of per-application statistics has to be: one entry for each application of the
  records, with the given totals.\<close>

definition stats_of :: "('a \<Rightarrow> string) \<Rightarrow> ('a \<Rightarrow> 'b) \<Rightarrow> (string \<Rightarrow> 'b) \<Rightarrow> MetricRecord list \<Rightarrow> 'a list \<Rightarrow> bool" where
  "stats_of name val tot rs xs \<longleftrightarrow>
     distinct (map name xs) \<and> set (map name xs) = app_name ` set rs \<and>
     (\<forall>x\<in>set xs. val x = tot (name x))"

lemma stats_of_map:
  assumes "hash_order iter" and "distinct (map fst m)"
    and "\<And>n. map_of m n = (if n \<in> app_name ` set rs then Some (tot n) else None)"
    and "\<And>n v. name (f (n, v)) = n \<and> val (f (n, v)) = v"
  shows "stats_of name val tot rs (map f (iter m))"
proof -
  have names: "map name (map f (iter m)) = map fst (iter m)"
    using assms(4) by (simp add: comp_def case_prod_unfold) (metis prod.collapse)
  have set: "set (iter m) = set m" by (rule hash_order.iter_set [OF assms(1)])
  have dom: "fst ` set m = app_name ` set rs"
    using dom_map_of_conv_image_fst [of m] assms(3) by (auto simp: dom_def split: if_splits)
  have "v = tot n" if "(n, v) \<in> set m" for n v
    using map_of_is_SomeI [OF assms(2) that] assms(3) [of n] by (simp split: if_splits)
  then have "\<forall>x\<in>set (map f (iter m)). val x = tot (name x)" using assms(4) set by auto
  moreover have "distinct (map name (map f (iter m)))"
    unfolding names using assms(2) hash_order.iter_distinct [OF assms(1)] by blast
  moreover have "set (map name (map f (iter m))) = app_name ` set rs"
    unfolding names using dom set by simp
  ultimately show ?thesis unfolding stats_of_def by blast
qed

lemma top_network:
  assumes "store X healthy absw" and "hash_order iter" and "healthy w" and "holds_all X (absw w) D"
    and rs_def: "rs = query_spec C (unwrap_or (ok_opt clock) (- 1)) Net s e D"
  shows "\<exists>w' apps stats. get_top_apps_by_network X C iter clock s e limit w = (Inr stats, w') \<and>
    ranked net_total limit (mset apps) stats \<and>
    stats_of ans_app_name (\<lambda>x. (ans_tx_bytes x, ans_rx_bytes x))
      (\<lambda>n. (wsum (column 0 (of_app n rs)), wsum (column 1 (of_app n rs)))) rs apps"
proof -
  let ?m = "foldl net_totals_step [] rs"
  let ?f = "\<lambda>(app, tx, rx). \<lparr> ans_app_name = app, ans_tx_bytes = tx, ans_rx_bytes = rx \<rparr>"
  obtain w' where w': "get_metrics_by_type X C clock Net s e w = (Inr rs, w')"
    using runsD [OF store.run_get_metrics_by_type [OF assms(1,4)] assms(3)] unfolding rs_def by blast
  have net: "\<forall>r\<in>set rs. rec_type r = Net" by (auto simp: rs_def query_spec_type)
  have "stats_of ans_app_name (\<lambda>x. (ans_tx_bytes x, ans_rx_bytes x))
      (\<lambda>n. (wsum (column 0 (of_app n rs)), wsum (column 1 (of_app n rs)))) rs (map ?f (iter ?m))"
    by (rule stats_of_map [OF assms(2) net_totals [OF net]]) auto
  moreover have "get_top_apps_by_network X C iter clock s e limit w =
      (Inr (take limit (sort_by (\<lambda>a b. net_total b \<le> net_total a) (map ?f (iter ?m)))), w')"
    by (simp add: get_top_apps_by_network_def bindS_def retS_def Let_def w')
  ultimately show ?thesis using ranked_take_sort by blast
qed

text \<open>C24: The busiest applications on the network.  For any visiting order of the hash map the result
  is a ranking, by received plus sent bytes, of one entry per application with records in the answer of
  the network query for the interval (the raw records there, or the aggregates of the tiers below when there are none), at most \<open>limit\<close> long, no omitted application above a listed one, and each
  entry's byte counts are the (wrapping) sums over that application's records in that answer.\<close>

theorem top_network_exact:
  assumes "store X healthy absw" and "hash_order iter" and "healthy w" and "holds_all X (absw w) D"
    and "rs = query_spec C (unwrap_or (ok_opt clock) (- 1)) Net s e D"
  shows "\<exists>w' apps stats. get_top_apps_by_network X C iter clock s e limit w = (Inr stats, w') \<and>
    ranked net_total limit (mset apps) stats \<and>
    stats_of ans_app_name (\<lambda>x. (ans_tx_bytes x, ans_rx_bytes x))
      (\<lambda>n. (wsum (column 0 (of_app n rs)), wsum (column 1 (of_app n rs)))) rs apps"
  using assms by (rule top_network)

theorem top_network_exact_witness:
  "\<exists>w' apps stats. get_top_apps_by_network (ref_ext w_recs) greg rev (Inr 1000) 0 500 1 w_world = (Inr stats, w') \<and>
     ranked net_total 1 (mset apps) stats"
  using top_network_exact [OF ref.store_axioms hash_rev.hash_order_axioms w_world_healthy w_world_holds_all refl,
      of greg "Inr 1000" 0 500 1] by blast

text \<open>The applications in focus longest: the same ranking for total focus time.\<close>

theorem top_focus_exact:
  assumes "store X healthy absw" and "hash_order iter" and "healthy w" and "holds_all X (absw w) D"
    and rs_def: "rs = query_spec C (unwrap_or (ok_opt clock) (- 1)) Foc s e D"
  shows "\<exists>w' apps stats. get_top_apps_by_focus X C iter clock s e limit w = (Inr stats, w') \<and>
    ranked total_duration_ms limit (mset apps) stats \<and>
    stats_of afs_app_name total_duration_ms (\<lambda>n. wsum (column 0 (of_app n rs))) rs apps"
proof -
  let ?m = "foldl focus_totals_step [] rs"
  let ?f = "\<lambda>(app, t). \<lparr> afs_app_name = app, total_duration_ms = t \<rparr>"
  obtain w' where w': "get_metrics_by_type X C clock Foc s e w = (Inr rs, w')"
    using runsD [OF store.run_get_metrics_by_type [OF assms(1,4)] assms(3)] unfolding rs_def by blast
  have foc: "\<forall>r\<in>set rs. rec_type r = Foc" by (auto simp: rs_def query_spec_type)
  have "stats_of afs_app_name total_duration_ms (\<lambda>n. wsum (column 0 (of_app n rs))) rs (map ?f (iter ?m))"
    by (rule stats_of_map [OF assms(2) focus_totals [OF foc]]) auto
  moreover have "get_top_apps_by_focus X C iter clock s e limit w =
      (Inr (take limit (sort_by (\<lambda>a b. total_duration_ms b \<le> total_duration_ms a) (map ?f (iter ?m)))), w')"
    by (simp add: get_top_apps_by_focus_def bindS_def retS_def Let_def w')
  ultimately show ?thesis using ranked_take_sort by blast
qed

theorem top_focus_exact_witness:
  "\<exists>w' apps stats. get_top_apps_by_focus (ref_ext w_recs) greg rev (Inr 1000) 0 500 1 w_world = (Inr stats, w') \<and>
     ranked total_duration_ms 1 (mset apps) stats"
  using top_focus_exact [OF ref.store_axioms hash_rev.hash_order_axioms w_world_healthy w_world_holds_all refl,
      of greg "Inr 1000" 0 500 1] by blast

section \<open>The power state at a time\<close>

lemma first_power_rev:
  assumes "\<And>r. r \<in> set rs \<Longrightarrow> rec_type r = Pwr \<and> rec_from_slice X (bytes X r) = Inr r"
  shows "first_power X (rev (map (\<lambda>r. Inr (entry X r)) rs)) =
    Inr (case rev rs of [] \<Rightarrow> None | r # _ \<Rightarrow> (case payload r of PwrP d \<Rightarrow> Some d | _ \<Rightarrow> None))"
proof (cases rs rule: rev_cases)
  case (snoc ys r)
  then obtain d where "payload r = PwrP d" using assms [of r] by (auto simp: metric_type_eqs)
  then show ?thesis using assms [of r] snoc by simp
qed simp

text \<open>C39: The power state at a time.  \<open>get_power_state_at\<close> changes nothing and answers from the raw power records up to
  the given time (at that time itself, those with a name up to \<open>''~''\<close>, where the scanned key range ends): \<open>None\<close> exactly
  when there is none, otherwise the payload of one of them whose time is not below that of any other.\<close>

theorem power_state_newest:
  assumes "store X healthy absw" and "healthy w" and "holds X (absw w) ''metrics'' rs"
  shows "\<exists>w' res. get_power_state_at X ts w = (Inr res, w') \<and> absw w' = absw w \<and>
    (res = None \<longleftrightarrow> (\<forall>r\<in>set rs. \<not> in_range Pwr 0 ts r)) \<and>
    (\<forall>d. res = Some d \<longrightarrow> (\<exists>r\<in>set rs. payload r = PwrP d \<and> in_range Pwr 0 ts r \<and>
        (\<forall>q\<in>set rs. in_range Pwr 0 ts q \<longrightarrow> timestamp q \<le> timestamp r)))"
proof -
  let ?fs = "filter (in_range Pwr 0 ts) rs"
  let ?res = "case rev ?fs of [] \<Rightarrow> None | r # _ \<Rightarrow> (case payload r of PwrP d \<Rightarrow> Some d | _ \<Rightarrow> None)"
  have dec: "rec_type r = Pwr \<and> rec_from_slice X (bytes X r) = Inr r" if "r \<in> set ?fs" for r
    using that assms(3) roundtrips_bytes [of X r] by (auto simp: holds_def in_range_def)
  obtain w' where w': "get_power_state_at X ts w = (Inr ?res, w')" "absw w' = absw w"
    using runsD [OF store.run_power_state [OF assms(1,3) first_power_rev [OF dec]] assms(2)] by blast
  have sorted: "sorted_wrt (\<lambda>a b. timestamp a \<le> timestamp b) ?fs"
    using assms(3) by (intro in_range_sorted) (simp add: holds_def)
  show ?thesis
  proof (cases ?fs rule: rev_cases)
    case Nil
    then show ?thesis using w' by (auto simp: filter_empty_conv)
  next
    case (snoc ys r)
    then obtain d where d: "payload r = PwrP d" using dec [of r] by (auto simp: metric_type_eqs)
    have mem: "q \<in> set rs \<and> in_range Pwr 0 ts q \<longleftrightarrow> q \<in> set (ys @ [r])" for q
      unfolding snoc [symmetric] by simp
    have r: "r \<in> set rs" "in_range Pwr 0 ts r" using mem [of r] by simp_all
    have "timestamp q \<le> timestamp r" if "q \<in> set rs" "in_range Pwr 0 ts q" for q
    proof -
      have "q \<in> set (ys @ [r])" using that mem by blast
      then show ?thesis using sorted unfolding snoc sorted_wrt_append by auto
    qed
    with w' d r snoc show ?thesis by auto
  qed
qed

definition pwr_rec :: "u64 \<Rightarrow> bool \<Rightarrow> MetricRecord" where
  "pwr_rec t c = \<lparr> app_name = ''system'', timestamp = t,
     payload = PwrP \<lparr> watt_usage = Num 5, battery_percent = None, charging = c,
       rapl_package_watts = None, rapl_core_watts = None, battery_current_ua = None,
       battery_voltage_uv = None, avg_cpu_freq_ratio = None, display_brightness = None, is_wifi = None \<rparr> \<rparr>"

definition p_recs :: "MetricRecord list" where
  "p_recs = [pwr_rec 100 True, pwr_rec 200 False, pwr_rec 300 True]"

definition p_world :: aworld where
  "p_world = \<lparr> trees = (\<lambda>t. if t = ''metrics'' then map (entry (ref_ext p_recs)) p_recs else []), files = (\<lambda>_. None) \<rparr>"

lemma p_world_facts: "ref_healthy p_world" "holds (ref_ext p_recs) (id p_world) ''metrics'' p_recs"
proof -
  have s: "key_sorted p_recs" by code_simp
  then show "ref_healthy p_world" by (simp add: ref_healthy_def p_world_def comp_def)
  show "holds (ref_ext p_recs) (id p_world) ''metrics'' p_recs"
    using s ref_rec_roundtrip [of _ p_recs] by (auto simp: holds_def p_world_def roundtrips_def)
qed

theorem power_state_newest_witness:
  "\<exists>w' d. get_power_state_at (ref_ext p_recs) 250 p_world = (Inr (Some d), w') \<and>
     (\<exists>r\<in>set p_recs. payload r = PwrP d \<and> in_range Pwr 0 250 r)"
proof -
  have "\<not> (\<forall>r\<in>set p_recs. \<not> in_range Pwr 0 250 r)" by code_simp
  with power_state_newest [OF ref.store_axioms p_world_facts, of 250] show ?thesis by fastforce
qed

end
