(* ===== verification/Power_Calc.thy ===== *)
theory Power_Calc
  imports Metrics
begin

text \<open>
  \<open>crates/heimwatch-storage/src/power_calc.rs\<close>: power scores per application from weighted,
  normalised resource use.  All arithmetic is IEEE \<open>f32\<close>; the result of \<open>f32::log2\<close> is not fixed by
  the language, so it is the parameter \<open>log2\<close> with the law \<open>log2_law\<close>.  The lemmas show that for
  non-negative inputs every percentage and contribution lies in its range and the result is sorted.
\<close>

section \<open>Constants and data\<close>

definition CPU_WEIGHT :: fl where "CPU_WEIGHT = lit F32 0.40"
definition GPU_WEIGHT :: fl where "GPU_WEIGHT = lit F32 0.20"
definition DISPLAY_WEIGHT :: fl where "DISPLAY_WEIGHT = lit F32 0.15"
definition DISK_WEIGHT :: fl where "DISK_WEIGHT = lit F32 0.10"
definition NET_WIFI_WEIGHT :: fl where "NET_WIFI_WEIGHT = lit F32 0.15"
definition NET_ETH_WEIGHT :: fl where "NET_ETH_WEIGHT = lit F32 0.05"
definition NET_DEF_WEIGHT :: fl where "NET_DEF_WEIGHT = lit F32 0.10"
definition MEM_WEIGHT :: fl where "MEM_WEIGHT = lit F32 0.05"

record AppMetrics =
  cpu_pcts :: "fl list"
  gpu_pcts :: "fl list"
  focus_ms :: u64
  disk_bytes :: u64
  net_bytes :: u64
  mem_rss :: "u64 list"

definition AppMetrics_default :: AppMetrics where
  "AppMetrics_default = \<lparr> cpu_pcts = [], gpu_pcts = [], focus_ms = 0, disk_bytes = 0,
     net_bytes = 0, mem_rss = [] \<rparr>"

record ScoreComponents =
  sc_cpu :: fl
  sc_gpu :: fl
  sc_display :: fl
  sc_disk :: fl
  sc_net :: fl
  sc_mem :: fl

section \<open>The calculation\<close>

text \<open>\<open>if v.is_empty() { 0.0 } else { v.iter().sum::<f32>() / v.len() as f32 }\<close>.\<close>

definition cpu_avg :: "AppMetrics \<Rightarrow> fl" where
  "cpu_avg m = (if cpu_pcts m = [] then fzero
     else fdiv F32 (fsum F32 (cpu_pcts m)) (of_len F32 (length (cpu_pcts m))))"

text \<open>The values shared by all applications.  \<open>ms\<close> lists the metrics in the order in which the hash
  map is visited.\<close>

record totals =
  max_disk_bytes :: u64
  max_net_bytes :: u64
  total_mem_rss :: u64
  total_cpu_pct :: fl

definition max_or_one :: "u64 list \<Rightarrow> u64" where
  "max_or_one vs = (if vs = [] then 1 else Max (set vs))"

definition totals_of :: "AppMetrics list \<Rightarrow> totals" where
  "totals_of ms =
     \<lparr> max_disk_bytes = max_or_one (map disk_bytes ms),
       max_net_bytes = max_or_one (map net_bytes ms),
       total_mem_rss = wsum (concat (map mem_rss ms)),
       total_cpu_pct = fsum F32 (map cpu_avg ms) \<rparr>"

definition log_share :: "(fl \<Rightarrow> fl) \<Rightarrow> u64 \<Rightarrow> u64 \<Rightarrow> fl" where
  "log_share log2 v mx =
     (if 0 < mx
      then fmul F32 (fdiv F32 (log2 (fadd F32 (of_word F32 v) (Num 1)))
                              (log2 (fadd F32 (of_word F32 mx) (Num 1)))) (Num 100)
      else fzero)"

definition focus_share :: "u64 \<Rightarrow> u64 \<Rightarrow> fl" where
  "focus_share focus window_ms =
     fclamp fzero (Num 100) (fmul F32 (fdiv F32 (of_word F32 focus) (of_word F32 window_ms)) (Num 100))"

definition mem_share :: "u64 list \<Rightarrow> u64 \<Rightarrow> fl" where
  "mem_share rss tot =
     (if 0 < tot
      then (let avg = (if rss = [] then 0 else wsum rss div of_nat (length rss)) in
            fmul F32 (fdiv F32 (of_word F32 avg) (of_word F32 tot)) (Num 100))
      else fzero)"

definition cpu_score :: "fl option \<Rightarrow> fl option \<Rightarrow> fl \<Rightarrow> fl \<Rightarrow> fl" where
  "cpu_score rapl freq tot avg =
     (case (rapl, freq) of
        (Some watts, _) \<Rightarrow>
          if flt fzero tot then fmul F32 watts (fdiv F32 avg tot) else fmul F32 CPU_WEIGHT avg
      | (None, Some ratio) \<Rightarrow> fmul F32 (fmul F32 (fmul F32 CPU_WEIGHT avg) ratio) ratio
      | (None, None) \<Rightarrow> fmul F32 CPU_WEIGHT avg)"

definition net_weight :: "bool option \<Rightarrow> fl" where
  "net_weight wifi = (case wifi of
     Some True \<Rightarrow> NET_WIFI_WEIGHT | Some False \<Rightarrow> NET_ETH_WEIGHT | None \<Rightarrow> NET_DEF_WEIGHT)"

text \<open>The inputs that describe the whole window.\<close>

record power_env =
  pe_log2 :: "fl \<Rightarrow> fl"
  pe_window_ms :: u64
  pe_rapl :: "fl option"
  pe_freq_ratio :: "fl option"
  pe_brightness :: "fl option"
  pe_wifi :: "bool option"

definition score_components :: "power_env \<Rightarrow> totals \<Rightarrow> AppMetrics \<Rightarrow> ScoreComponents" where
  "score_components E T m =
     \<lparr> sc_cpu = cpu_score (pe_rapl E) (pe_freq_ratio E) (total_cpu_pct T) (cpu_avg m),
       sc_gpu = fmul F32 GPU_WEIGHT (foldl fmax fzero (gpu_pcts m)),
       sc_display = fmul F32 (fmul F32 DISPLAY_WEIGHT (focus_share (focus_ms m) (pe_window_ms E)))
                      (unwrap_or (pe_brightness E) (Num 1)),
       sc_disk = fmul F32 DISK_WEIGHT (log_share (pe_log2 E) (disk_bytes m) (max_disk_bytes T)),
       sc_net = fmul F32 (log_share (pe_log2 E) (net_bytes m) (max_net_bytes T)) (net_weight (pe_wifi E)),
       sc_mem = fmul F32 MEM_WEIGHT (mem_share (mem_rss m) (total_mem_rss T)) \<rparr>"

definition score_sum :: "ScoreComponents \<Rightarrow> fl" where
  "score_sum c =
     fadd F32 (fadd F32 (fadd F32 (fadd F32 (fadd F32 (sc_cpu c) (sc_gpu c)) (sc_display c))
       (sc_disk c)) (sc_net c)) (sc_mem c)"

definition initial_stat :: "string \<Rightarrow> fl \<Rightarrow> AppPowerStats" where
  "initial_stat app score =
     \<lparr> aps_app_name = app, power_pct = fzero, power_score = score, on_battery = False,
       cpu_contribution = fzero, gpu_contribution = fzero, display_contribution = fzero,
       disk_contribution = fzero, net_contribution = fzero, mem_contribution = fzero \<rparr>"

definition power_stats :: "power_env \<Rightarrow> (string \<times> AppMetrics) list \<Rightarrow> (AppPowerStats \<times> ScoreComponents) list" where
  "power_stats E ams =
     (let T = totals_of (map snd ams) in
      map (\<lambda>(app, m). let c = score_components E T m in (initial_stat app (score_sum c), c)) ams)"

definition normalise :: "fl \<Rightarrow> AppPowerStats \<times> ScoreComponents \<Rightarrow> AppPowerStats" where
  "normalise total_score = (\<lambda>(s, c).
     if flt fzero total_score
     then (let s1 = s\<lparr> power_pct := fmul F32 (fdiv F32 (power_score s) total_score) (Num 100) \<rparr> in
           if flt fzero (power_score s)
           then s1\<lparr> cpu_contribution := fdiv F32 (sc_cpu c) (power_score s),
                    gpu_contribution := fdiv F32 (sc_gpu c) (power_score s),
                    display_contribution := fdiv F32 (sc_display c) (power_score s),
                    disk_contribution := fdiv F32 (sc_disk c) (power_score s),
                    net_contribution := fdiv F32 (sc_net c) (power_score s),
                    mem_contribution := fdiv F32 (sc_mem c) (power_score s) \<rparr>
           else s1)
     else s)"

definition total_score :: "(AppPowerStats \<times> ScoreComponents) list \<Rightarrow> fl" where
  "total_score ps = fsum F32 (map (power_score \<circ> fst) ps)"

definition compute_power_stats :: "power_env \<Rightarrow> (string \<times> AppMetrics) list \<Rightarrow> AppPowerStats list" where
  "compute_power_stats E ams =
     (if pe_window_ms E = 0 then []
      else (let ps = power_stats E ams in
            sort_by (\<lambda>a b. \<not> flt (power_pct a) (power_pct b)) (map (normalise (total_score ps)) ps)))"

section \<open>Never negative\<close>

definition fpart :: "fl \<Rightarrow> bool" where
  "fpart x \<longleftrightarrow> x = NaN \<or> fnn x"

lemma fpart_simps [simp]: "fpart NaN" "fpart PInf" "fpart NZero" "\<not> fpart NInf" "fpart (Num q) \<longleftrightarrow> 0 \<le> q"
  by (simp_all add: fpart_def)

lemma fpart_rnd: "0 \<le> q \<Longrightarrow> fpart (rnd f neg q)"
  by (simp add: fpart_def rnd_fnn)

lemma fpart_cases:
  assumes "fpart x"
  obtains "x = NaN" | "x = PInf" | "x = NZero" | q where "x = Num q" "0 \<le> q"
  using assms by (cases x) auto

lemma fpart_add: "fpart x \<Longrightarrow> fpart y \<Longrightarrow> fpart (fadd f x y)"
  by (elim fpart_cases) (simp_all add: fpart_rnd)

lemma fpart_mul: "fpart x \<Longrightarrow> fpart y \<Longrightarrow> fpart (fmul f x y)"
  by (elim fpart_cases) (auto simp: fmul_def is_inf_def finf_def fpart_rnd)

definition fpos :: "fl \<Rightarrow> bool" where
  "fpos x \<longleftrightarrow> x = NaN \<or> x = PInf \<or> (\<exists>q>0. x = Num q)"

lemma fpart_div: "fpart x \<Longrightarrow> fpos y \<Longrightarrow> fpart (fdiv f x y)"
  unfolding fpos_def
  by (elim fpart_cases disjE exE conjE)
    (auto simp: fdiv_def is_inf_def finf_def fsigned_zero_def fpart_rnd)

lemma fpos_flt: "flt fzero x \<Longrightarrow> fpos x"
  by (cases x) (auto simp: flt_def fpos_def)

lemma fpart_sum: "(\<And>x. x \<in> set xs \<Longrightarrow> fpart x) \<Longrightarrow> fpart (fsum f xs)"
proof -
  have "fpart a \<Longrightarrow> (\<And>x. x \<in> set xs \<Longrightarrow> fpart x) \<Longrightarrow> fpart (foldl (fadd f) a xs)" for a
    by (induction xs arbitrary: a) (auto intro: fpart_add)
  then show "(\<And>x. x \<in> set xs \<Longrightarrow> fpart x) \<Longrightarrow> fpart (fsum f xs)" by (simp add: fsum_def)
qed

lemma fpart_max: "fpart a \<Longrightarrow> (\<And>x. x \<in> set xs \<Longrightarrow> fpart x) \<Longrightarrow> fpart (foldl fmax a xs)"
  by (induction xs arbitrary: a) (auto simp: fmax_def)

lemma fpart_of_word [simp]: "fpart (of_word f w)" and fpart_of_len [simp]: "fpart (of_len f n)"
  by (simp_all add: fpart_def)

lemma rnd_ge_one: "1 \<le> q \<Longrightarrow> fpos (rnd f neg q)"
  using rnd_mag_ge [of 1 q f] by (auto simp: fpos_def rnd_nonneg_eq)

lemma fpos_of_len: "n \<noteq> 0 \<Longrightarrow> fpos (of_len f n)"
  unfolding of_len_def by (rule rnd_ge_one) simp

lemma fpos_of_word: "w \<noteq> 0 \<Longrightarrow> fpos (of_word f w)"
  unfolding of_word_of_len by (rule fpos_of_len) (simp add: unat_eq_0)

lemma lit_fpart [simp]: "0 \<le> q \<Longrightarrow> fpart (lit f q)"
  by (simp add: lit_def fpart_rnd)

lemmas weight_defs = CPU_WEIGHT_def GPU_WEIGHT_def DISPLAY_WEIGHT_def DISK_WEIGHT_def
  NET_WIFI_WEIGHT_def NET_ETH_WEIGHT_def NET_DEF_WEIGHT_def MEM_WEIGHT_def

lemma weights_fpart [simp]:
  "fpart CPU_WEIGHT" "fpart GPU_WEIGHT" "fpart DISPLAY_WEIGHT" "fpart DISK_WEIGHT" "fpart MEM_WEIGHT"
  "fpart (net_weight w)"
  by (simp_all add: weight_defs net_weight_def split: option.split bool.split)

text \<open>The law of \<open>f32::log2\<close>: not negative from 1 on, positive from 2 on.\<close>

definition log2_law :: "(fl \<Rightarrow> fl) \<Rightarrow> bool" where
  "log2_law log2 \<longleftrightarrow> (\<forall>q\<ge>1. fpart (log2 (Num q))) \<and> (\<forall>q\<ge>2. fpos (log2 (Num q)))"

lemma frepr_pow2: "frepr f (2 ^ n)"
  unfolding frepr_def by (rule exI [of _ 1], rule exI [of _ "int n"]) (cases f; simp)

lemma of_word_F32:
  fixes w :: u64
  obtains q where "of_word F32 w = Num q" and "0 \<le> q" and "q \<le> 2 ^ 64" and "w \<noteq> 0 \<Longrightarrow> 1 \<le> q"
proof -
  have le: "(of_nat (unat w) :: rat) \<le> 2 ^ 64"
  proof -
    have "unat w \<le> 2 ^ 64" using unsigned_less [of w, where ?'a = nat] by simp
    then have "(of_nat (unat w) :: rat) \<le> of_nat (2 ^ 64)" by (simp only: of_nat_le_iff)
    then show ?thesis by (simp only: of_nat_power of_nat_numeral)
  qed
  note u = rnd_upper [OF of_nat_0_le_iff le frepr_pow2, of F32 False]
  have "ffinite (of_word F32 w)" "fval (of_word F32 w) \<le> 2 ^ 64" "0 \<le> fval (of_word F32 w)"
    using u unfolding of_word_def by (simp_all add: one_less_power)
  moreover have "of_word F32 w \<noteq> NZero"
    unfolding of_word_def by (simp add: rnd_def Let_def)
  ultimately obtain q where q: "of_word F32 w = Num q" "0 \<le> q" "q \<le> 2 ^ 64" by (cases "of_word F32 w") auto
  moreover have "1 \<le> q" if "w \<noteq> 0"
  proof -
    have "1 \<le> unat w" using that by (simp add: unat_gt_0 Suc_leI)
    then have "(of_nat 1 :: rat) \<le> of_nat (unat w)" by (simp only: of_nat_le_iff)
    then have "(1 :: rat) \<le> of_nat (unat w)" by (simp only: of_nat_1)
    then show ?thesis
      using rnd_mag_ge [of 1 "of_nat (unat w)" F32] q(1) rnd_fval [of "of_nat (unat w)" F32 False]
      by (simp add: of_word_def)
  qed
  ultimately show thesis using that by blast
qed

lemma add_one_F32:
  assumes "0 \<le> q" and "q \<le> 2 ^ 64"
  obtains p where "fadd F32 (Num q) (Num 1) = Num p" and "1 \<le> p" and "1 \<le> q \<Longrightarrow> 2 \<le> p"
proof -
  have le: "q + 1 \<le> 2 ^ 65" using assms by simp
  note u = rnd_upper [OF _ le frepr_pow2, of F32 False]
  have "ffinite (rnd F32 False (q + 1))" using u assms(1) by simp
  moreover have "rnd F32 False (q + 1) \<noteq> NZero" by (simp add: rnd_def Let_def)
  ultimately obtain p where p: "rnd F32 False (q + 1) = Num p" by (cases "rnd F32 False (q + 1)") auto
  then have v: "p = rnd_mag F32 (q + 1)" using rnd_fval [of "q + 1" F32 False] assms(1) by simp
  have "1 \<le> p" unfolding v using assms(1) by (intro rnd_mag_ge) simp_all
  moreover have "2 \<le> p" if "1 \<le> q"
    unfolding v using that frepr_pow2 [of F32 1] by (intro rnd_mag_ge) simp_all
  ultimately show thesis using that p by simp
qed

lemma log_share_fpart: "log2_law log2 \<Longrightarrow> fpart (log_share log2 v mx)"
proof (cases "0 < mx")
  case True
  assume law: "log2_law log2"
  obtain a where a: "of_word F32 v = Num a" "0 \<le> a" "a \<le> 2 ^ 64" by (rule of_word_F32)
  obtain b where b: "of_word F32 mx = Num b" "0 \<le> b" "b \<le> 2 ^ 64" "1 \<le> b"
    using True by (metis of_word_F32 less_irrefl)
  obtain p where p: "fadd F32 (Num a) (Num 1) = Num p" "1 \<le> p" by (rule add_one_F32 [OF a(2,3)])
  obtain r where r: "fadd F32 (Num b) (Num 1) = Num r" "2 \<le> r" using b(4) by (metis add_one_F32 [OF b(2,3)])
  have "fpart (log2 (Num p))" "fpos (log2 (Num r))" using law p r by (simp_all add: log2_law_def)
  then show ?thesis using True by (simp only: log_share_def if_True a b p r) (intro fpart_mul fpart_div, simp_all)
qed (simp add: log_share_def)

lemma focus_share_fpart: "window \<noteq> 0 \<Longrightarrow> fpart (focus_share f window)"
proof -
  assume "window \<noteq> 0"
  then have "fpart (fmul F32 (fdiv F32 (of_word F32 f) (of_word F32 window)) (Num 100))"
    by (intro fpart_mul fpart_div fpos_of_word) simp_all
  then show ?thesis by (simp add: focus_share_def fclamp_def)
qed

lemma mem_share_fpart: "fpart (mem_share rss tot)"
  unfolding mem_share_def Let_def by (auto intro!: fpart_mul fpart_div fpos_of_word)

lemma cpu_avg_fpart: "(\<And>x. x \<in> set (cpu_pcts m) \<Longrightarrow> fpart x) \<Longrightarrow> fpart (cpu_avg m)"
  unfolding cpu_avg_def by (auto intro!: fpart_div fpart_sum fpos_of_len)

lemma cpu_score_fpart:
  assumes "\<And>x. rapl = Some x \<Longrightarrow> fpart x" and "\<And>x. freq = Some x \<Longrightarrow> fpart x" and "fpart avg"
  shows "fpart (cpu_score rapl freq tot avg)"
  unfolding cpu_score_def using assms by (auto intro!: fpart_mul fpart_div fpos_flt split: option.split)

section \<open>Finite totals\<close>

lemma fadd_parts:
  assumes "fpart x" and "fpart y" and "ffinite (fadd f x y)"
  shows "fnn x" and "fnn y" and "ffinite x" and "ffinite y"
  using assms by (elim fpart_cases; simp)+

lemma foldl_fadd_parts:
  assumes "fpart a" and "\<And>x. x \<in> set xs \<Longrightarrow> fpart x" and "ffinite (foldl (fadd f) a xs)"
  shows "fnn a \<and> ffinite a" and "x \<in> set xs \<Longrightarrow> fnn x \<and> ffinite x"
  using assms
proof (induction xs arbitrary: a)
  case (Cons y xs)
  {
    case 1
    then show ?case using Cons.IH(1) [of "fadd f a y"] fadd_parts [of a y f] by (simp add: fpart_add)
  next
    case 2
    then show ?case
      using Cons.IH [of "fadd f a y"] fadd_parts [of a y f] by (auto simp: fpart_add)
  }
qed (auto simp: fpart_def)

lemma fsum_parts:
  assumes "\<And>x. x \<in> set xs \<Longrightarrow> fpart x" and "ffinite (fsum f xs)" and "x \<in> set xs"
  shows "fnn x" and "ffinite x"
  using foldl_fadd_parts(2) [of NZero xs f x] assms by (auto simp: fsum_def)

text \<open>The parts of a score.\<close>

definition parts :: "ScoreComponents \<Rightarrow> fl list" where
  "parts c = [sc_cpu c, sc_gpu c, sc_display c, sc_disk c, sc_net c, sc_mem c]"

lemma score_sum_fpart: "(\<And>x. x \<in> set (parts c) \<Longrightarrow> fpart x) \<Longrightarrow> fpart (score_sum c)"
  unfolding score_sum_def parts_def by (intro fpart_add) simp_all

lemma score_sum_fwf [simp]: "fwf F32 (score_sum c)"
  by (simp add: score_sum_def)

lemma score_sum_foldl: "score_sum c = foldl (fadd F32) (sc_cpu c) (tl (parts c))"
  by (simp add: score_sum_def parts_def)

lemma score_sum_ge:
  assumes "\<And>x. x \<in> set (parts c) \<Longrightarrow> fpart x \<and> fwf F32 x" and "ffinite (score_sum c)" and "x \<in> set (parts c)"
  shows "fnn x" and "fle x (score_sum c)"
proof -
  have c: "set (parts c) = insert (sc_cpu c) (set (tl (parts c)))" by (simp add: parts_def)
  have fin: "fnn (sc_cpu c)" "\<And>y. y \<in> set (tl (parts c)) \<Longrightarrow> fnn y \<and> fwf F32 y"
    using foldl_fadd_parts [of "sc_cpu c" "tl (parts c)" F32] assms(1,2) unfolding c score_sum_foldl by blast+
  then show "fnn x" using assms(3) unfolding c by blast
  show "fle x (score_sum c)"
  proof (cases "x = sc_cpu c")
    case True
    then show ?thesis
      unfolding score_sum_foldl using foldl_fadd_ge [of F32 "sc_cpu c" "tl (parts c)"] fin assms(1) c by simp
  next
    case False
    then show ?thesis
      unfolding score_sum_foldl using foldl_fadd_ge_mem [of F32 "sc_cpu c" "tl (parts c)" x] fin assms(1,3) c by simp
  qed
qed

text \<open>What the inputs have to satisfy.\<close>

definition power_inputs :: "power_env \<Rightarrow> (string \<times> AppMetrics) list \<Rightarrow> bool" where
  "power_inputs E ams \<longleftrightarrow> log2_law (pe_log2 E) \<and>
     list_all fpart (List.map_filter id [pe_rapl E, pe_freq_ratio E, pe_brightness E]) \<and>
     list_all (\<lambda>(_, m). list_all fpart (cpu_pcts m @ gpu_pcts m)) ams"

lemma power_inputsD:
  assumes "power_inputs E ams"
  shows "log2_law (pe_log2 E)" and "pe_rapl E = Some x \<Longrightarrow> fpart x" and "pe_freq_ratio E = Some x \<Longrightarrow> fpart x"
    and "pe_brightness E = Some x \<Longrightarrow> fpart x"
    and "(n, m) \<in> set ams \<Longrightarrow> x \<in> set (cpu_pcts m) \<union> set (gpu_pcts m) \<Longrightarrow> fpart x"
  using assms unfolding power_inputs_def by (auto simp: map_filter_simps list_all_iff split: option.splits)

lemma parts_fpart:
  assumes "power_inputs E ams" and "(n, m) \<in> set ams" and "pe_window_ms E \<noteq> 0"
    and "x \<in> set (parts (score_components E T m))"
  shows "fpart x \<and> fwf F32 x"
proof -
  note I = power_inputsD [OF assms(1)]
  have cpu: "fpart (cpu_avg m)" using I(5) [OF assms(2)] by (intro cpu_avg_fpart) simp
  have "fpart (foldl fmax fzero (gpu_pcts m))" using I(5) [OF assms(2)] by (intro fpart_max) simp_all
  moreover have "fpart (unwrap_or (pe_brightness E) (Num 1))"
    using I(4) by (cases "pe_brightness E") (simp_all add: unwrap_or_def)
  moreover have "fpart (cpu_score (pe_rapl E) (pe_freq_ratio E) (total_cpu_pct T) (cpu_avg m))"
    by (rule cpu_score_fpart [OF I(2,3) cpu])
  moreover have "fwf F32 (cpu_score (pe_rapl E) (pe_freq_ratio E) (total_cpu_pct T) (cpu_avg m))"
    by (simp add: cpu_score_def split: option.split)
  ultimately show ?thesis
    using assms(4) log_share_fpart [OF I(1)] focus_share_fpart [OF assms(3)] mem_share_fpart
    by (auto simp: parts_def score_components_def intro!: fpart_mul)
qed

section \<open>Normalised statistics\<close>

definition contributions :: "AppPowerStats \<Rightarrow> fl list" where
  "contributions s = [cpu_contribution s, gpu_contribution s, display_contribution s,
     disk_contribution s, net_contribution s, mem_contribution s]"

definition share_of :: "rat \<Rightarrow> fl \<Rightarrow> bool" where
  "share_of hi x \<longleftrightarrow> ffinite x \<and> 0 \<le> fval x \<and> fval x \<le> hi"

lemma share_of_zero [simp]: "0 \<le> hi \<Longrightarrow> share_of hi fzero"
  by (simp add: share_of_def)

lemma share_of_not_NaN: "share_of hi x \<Longrightarrow> x \<noteq> NaN"
  by (auto simp: share_of_def)

lemma normalise_name [simp]: "aps_app_name (normalise t (s, c)) = aps_app_name s"
  by (simp add: normalise_def Let_def)

lemma normalise_within:
  assumes "\<And>x. x \<in> set (parts c) \<Longrightarrow> fpart x \<and> fwf F32 x" and "fnn (score_sum c)" and "ffinite t" and "fle (score_sum c) t"
  shows "share_of 100 (power_pct (normalise t (initial_stat n (score_sum c), c)))"
    and "\<forall>x\<in>set (contributions (normalise t (initial_stat n (score_sum c), c))). share_of 1 x"
proof -
  let ?p = "score_sum c"
  have fin: "ffinite ?p" using assms(2-4) by (cases ?p; cases t) (auto simp: fle_def)
  have pct: "share_of 100 (fmul F32 (fdiv F32 ?p t) (Num 100))" if "flt fzero t"
  proof -
    have "0 < fval t" using that assms(3) by (cases t) (auto simp: flt_def)
    note d = fdiv_share [OF assms(2,3,4) this, of F32]
    show ?thesis using fmul_percent [OF d, of F32] by (simp add: share_of_def)
  qed
  have share: "share_of 1 (fdiv F32 x ?p)" if "x \<in> set (parts c)" "flt fzero ?p" for x
  proof -
    have "0 < fval ?p" using that(2) fin by (cases ?p) (auto simp: flt_def)
    with score_sum_ge [OF assms(1) fin that(1)] fdiv_share [of x ?p F32] fin show ?thesis
      by (simp add: share_of_def)
  qed
  show "share_of 100 (power_pct (normalise t (initial_stat n ?p, c)))"
    using pct by (auto simp: normalise_def initial_stat_def Let_def)
  show "\<forall>x\<in>set (contributions (normalise t (initial_stat n ?p, c))). share_of 1 x"
    using share by (auto simp: normalise_def initial_stat_def Let_def contributions_def parts_def)
qed

lemma float_preorder:
  assumes "\<And>s. s \<in> A \<Longrightarrow> f s \<noteq> NaN"
  shows "total_preorder_on A (\<lambda>a b. \<not> flt (f a) (f b))"
proof -
  have le: "\<not> flt (f a) (f b) \<longleftrightarrow> fle (f b) (f a)" if "a \<in> A" "b \<in> A" for a b
    using flt_iff_not_fle [OF assms assms, OF that] by simp
  have "fle (f b) (f a) \<or> fle (f a) (f b)" if "a \<in> A" "b \<in> A" for a b
    using fle_total [OF assms assms, OF that] by blast
  moreover have "fle (f c) (f a)" if "fle (f b) (f a)" "fle (f c) (f b)" for a b c
    using fle_trans [OF that(2,1)] .
  ultimately show ?thesis unfolding total_preorder_on_def by (simp add: le)
qed

lemma names_compute:
  "pe_window_ms E \<noteq> 0 \<Longrightarrow> mset (map aps_app_name (compute_power_stats E ams)) = mset (map fst ams)"
  unfolding compute_power_stats_def Let_def mset_map if_not_P mset_sort_by
  by (simp add: multiset.map_comp comp_def case_prod_unfold initial_stat_def power_stats_def Let_def)

section \<open>Properties\<close>

text \<open>C16: The power statistics of any set of applications.  When the window is not empty, the inputs are not negative (NaN
  samples are admitted), \<open>log2\<close> obeys its law and the total score is finite, the result has exactly one entry per
  application, is sorted by descending percentage, every percentage lies in [0, 100] and every
  contribution in [0, 1].\<close>

theorem power_stats_ranges:
  assumes "pe_window_ms E \<noteq> 0" and "power_inputs E ams" and "ffinite (total_score (power_stats E ams))"
  shows "mset (map aps_app_name (compute_power_stats E ams)) = mset (map fst ams) \<and>
    sorted_wrt (\<lambda>a b. fle (power_pct b) (power_pct a)) (compute_power_stats E ams) \<and>
    (\<forall>s\<in>set (compute_power_stats E ams). share_of 100 (power_pct s) \<and> list_all (share_of 1) (contributions s))"
proof -
  let ?T = "totals_of (map snd ams)" and ?t = "total_score (power_stats E ams)"
  let ?c = "\<lambda>m. score_components E ?T m"
  let ?ss = "map (normalise ?t) (power_stats E ams)"
  let ?le = "\<lambda>a b. \<not> flt (power_pct a) (power_pct b)"
  have ps: "power_stats E ams = map (\<lambda>(n, m). (initial_stat n (score_sum (?c m)), ?c m)) ams"
    by (simp add: power_stats_def Let_def)
  have t: "?t = fsum F32 (map (\<lambda>(n, m). score_sum (?c m)) ams)"
    unfolding total_score_def ps by (simp add: comp_def case_prod_unfold initial_stat_def)
  have part: "fpart x" if "x \<in> set (map (\<lambda>(n, m). score_sum (?c m)) ams)" for x
    using that parts_fpart [OF assms(2) _ assms(1)] by (auto intro!: score_sum_fpart)
  have range: "share_of 100 (power_pct s) \<and> list_all (share_of 1) (contributions s)" if "s \<in> set ?ss" for s
  proof -
    from that obtain n m where nm: "(n, m) \<in> set ams" and s: "s = normalise ?t (initial_stat n (score_sum (?c m)), ?c m)"
      unfolding ps by auto
    then have mem: "score_sum (?c m) \<in> set (map (\<lambda>(n, m). score_sum (?c m)) ams)" by force
    have fin: "ffinite (fsum F32 (map (\<lambda>(n, m). score_sum (?c m)) ams))" using assms(3) unfolding t .
    have nn: "fnn (score_sum (?c m))" by (rule fsum_parts(1) [OF part fin mem])
    have "fle (score_sum (?c m)) ?t"
      unfolding t by (rule fsum_ge_mem [OF _ mem]) (use fsum_parts(1) [OF part fin] in auto)
    moreover have "fpart x \<and> fwf F32 x" if "x \<in> set (parts (?c m))" for x
      by (rule parts_fpart [OF assms(2) nm assms(1) that])
    ultimately show ?thesis using normalise_within [OF _ nn assms(3)] unfolding s list_all_iff by blast
  qed
  then have ok: "power_pct s \<noteq> NaN" if "s \<in> set ?ss" for s using that share_of_not_NaN by blast
  have le: "?le a b \<longleftrightarrow> fle (power_pct b) (power_pct a)" if "a \<in> set ?ss" "b \<in> set ?ss" for a b
    using flt_iff_not_fle [OF ok ok, OF that] by simp
  have "total_preorder_on (set ?ss) ?le" by (rule float_preorder [OF ok])
  then have "sorted_wrt ?le (sort_by ?le ?ss)" by (rule sorted_sort_by)
  then have "sorted_wrt (\<lambda>a b. fle (power_pct b) (power_pct a)) (sort_by ?le ?ss)"
    by (rule sorted_wrt_mono_rel [rotated]) (use le in auto)
  then show ?thesis
    using range assms(1) names_compute [OF assms(1), of ams] by (simp add: compute_power_stats_def Let_def)
qed

text \<open>A base-2 logarithm rounded down to an integer, and two applications.\<close>

definition log2_floor :: "fl \<Rightarrow> fl" where
  "log2_floor x = (case x of Num q \<Rightarrow> if 1 \<le> q then Num (of_int (ilog2 q)) else NaN | _ \<Rightarrow> x)"

definition w_env :: power_env where
  "w_env = \<lparr> pe_log2 = log2_floor, pe_window_ms = 1000, pe_rapl = Some (Num 8), pe_freq_ratio = None,
     pe_brightness = None, pe_wifi = Some True \<rparr>"

definition w_apps :: "(string \<times> AppMetrics) list" where
  "w_apps = [(''a'', AppMetrics_default\<lparr>cpu_pcts := [Num 16]\<rparr>),
     (''b'', AppMetrics_default\<lparr>cpu_pcts := [Num 32, Num 64]\<rparr>)]"

lemma w_totals:
  "totals_of (map snd w_apps) = \<lparr> max_disk_bytes = 0, max_net_bytes = 0, total_mem_rss = 0, total_cpu_pct = Num 64 \<rparr>"
  by code_simp

abbreviation w_components :: "rat \<Rightarrow> ScoreComponents" where
  "w_components q \<equiv> \<lparr> sc_cpu = Num q, sc_gpu = fzero, sc_display = fzero, sc_disk = fzero, sc_net = fzero, sc_mem = fzero \<rparr>"

lemma w_parts:
  "fmul F32 GPU_WEIGHT fzero = fzero" "fmul F32 DISPLAY_WEIGHT fzero = fzero" "fmul F32 DISK_WEIGHT fzero = fzero"
  "fmul F32 fzero NET_WIFI_WEIGHT = fzero" "fmul F32 MEM_WEIGHT fzero = fzero" "fmul F32 fzero (Num 1) = fzero"
  "focus_share 0 1000 = fzero"
  "cpu_score (Some (Num 8)) None (Num 64) (Num 16) = Num 2" "cpu_score (Some (Num 8)) None (Num 64) (Num 48) = Num 6"
  "cpu_avg (AppMetrics_default\<lparr>cpu_pcts := [Num 16]\<rparr>) = Num 16"
  "cpu_avg (AppMetrics_default\<lparr>cpu_pcts := [Num 32, Num 64]\<rparr>) = Num 48"
  by code_simp+

lemma w_scores:
  "map (\<lambda>(n, m). (n, score_components w_env
      \<lparr> max_disk_bytes = 0, max_net_bytes = 0, total_mem_rss = 0, total_cpu_pct = Num 64 \<rparr> m)) w_apps =
   [(''a'', w_components 2), (''b'', w_components 6)]"
  using w_parts(10,11)
  by (simp add: w_apps_def w_env_def score_components_def w_parts(1-9) log_share_def mem_share_def
      net_weight_def unwrap_or_def) (simp add: AppMetrics_default_def w_parts(1-9))

lemma w_score_sums: "score_sum (w_components 2) = Num 2" "score_sum (w_components 6) = Num 6"
  by code_simp+

lemma w_stats:
  "power_stats w_env w_apps =
     [(initial_stat ''a'' (Num 2), w_components 2), (initial_stat ''b'' (Num 6), w_components 6)]"
proof -
  have "power_stats w_env w_apps =
      map (\<lambda>(n, c). (initial_stat n (score_sum c), c))
        (map (\<lambda>(n, m). (n, score_components w_env (totals_of (map snd w_apps)) m)) w_apps)"
    by (simp add: power_stats_def Let_def case_prod_unfold)
  then show ?thesis unfolding w_totals w_scores by (simp add: w_score_sums)
qed

lemma w_total: "total_score (power_stats w_env w_apps) = Num 8"
  unfolding w_stats by code_simp

lemma w_result: "map aps_app_name (compute_power_stats w_env w_apps) = [''b'', ''a'']"
proof -
  have "map aps_app_name (sort_by (\<lambda>a b. \<not> flt (power_pct a) (power_pct b)) (map (normalise (Num 8))
      [(initial_stat ''a'' (Num 2), w_components 2), (initial_stat ''b'' (Num 6), w_components 6)])) = [''b'', ''a'']"
    by code_simp
  then show ?thesis
    unfolding compute_power_stats_def Let_def w_total unfolding w_stats by (simp add: w_env_def)
qed

lemma log2_floor_law: "log2_law log2_floor"
proof -
  have "0 \<le> ilog2 q" if "1 \<le> q" for q
  proof (rule ccontr)
    assume "\<not> 0 \<le> ilog2 q"
    then have "(2 powi (ilog2 q + 1) :: rat) \<le> 2 powi 0" by (intro power_int_increasing) simp_all
    with ilog2_bounds(2) [of q] that show False by simp
  qed
  moreover have "0 < ilog2 q" if "2 \<le> q" for q
  proof (rule ccontr)
    assume "\<not> 0 < ilog2 q"
    then have "(2 powi (ilog2 q + 1) :: rat) \<le> 2 powi 1" by (intro power_int_increasing) simp_all
    with ilog2_bounds(2) [of q] that show False by simp
  qed
  ultimately show ?thesis by (auto simp: log2_law_def log2_floor_def fpos_def)
qed

theorem power_stats_ranges_witness:
  "map aps_app_name (compute_power_stats w_env w_apps) = [''b'', ''a''] \<and>
   list_all (share_of 100 \<circ> power_pct) (compute_power_stats w_env w_apps)"
proof -
  have "ffinite (total_score (power_stats w_env w_apps))" by (simp add: w_total)
  moreover have "power_inputs w_env w_apps"
    using log2_floor_law by (simp add: power_inputs_def w_env_def w_apps_def AppMetrics_default_def map_filter_simps)
  moreover have "pe_window_ms w_env \<noteq> 0" by (simp add: w_env_def)
  ultimately show ?thesis using power_stats_ranges [of w_env w_apps] w_result
    unfolding list_all_iff comp_apply by blast
qed

end
