(* ===== verification/Power_Stats.thy ===== *)
theory Power_Stats
  imports Storage_Props Power_Calc
begin

text \<open>
  The power queries of \<open>crates/heimwatch-storage/src/db.rs\<close>: which samples of which application
  enter the power attribution, the battery filter, and the averages over the power records of the
  window.  The calculation itself is \<open>Power_Calc\<close>.
\<close>

section \<open>Averages over the power records\<close>

fun pwr_of :: "MetricPayload \<Rightarrow> PowerData option" where
  "pwr_of (PwrP d) = Some d"
| "pwr_of _ = None"

definition pwr_values :: "(PowerData \<Rightarrow> 'a option) \<Rightarrow> MetricRecord list \<Rightarrow> 'a list" where
  "pwr_values field rs = List.map_filter (\<lambda>r. Option.bind (pwr_of (payload r)) field) rs"

definition mean32 :: "fl list \<Rightarrow> fl option" where
  "mean32 vs = (if vs = [] then None else Some (fdiv F32 (fsum F32 vs) (of_len F32 (length vs))))"

definition extract_rapl_average :: "MetricRecord list \<Rightarrow> fl option" where
  "extract_rapl_average rs = mean32 (pwr_values rapl_package_watts rs)"

definition extract_freq_ratio_average :: "MetricRecord list \<Rightarrow> fl option" where
  "extract_freq_ratio_average rs = mean32 (pwr_values avg_cpu_freq_ratio rs)"

definition extract_display_brightness_average :: "MetricRecord list \<Rightarrow> fl option" where
  "extract_display_brightness_average rs = mean32 (pwr_values display_brightness rs)"

definition extract_is_wifi_last :: "MetricRecord list \<Rightarrow> bool option" where
  "extract_is_wifi_last rs = (case pwr_values is_wifi (rev rs) of [] \<Rightarrow> None | v # _ \<Rightarrow> Some v)"

section \<open>The battery filter\<close>

fun on_battery_ts :: "MetricRecord \<Rightarrow> u64 option" where
  "on_battery_ts r = (case payload r of
     PwrP d \<Rightarrow> if \<not> charging d \<and> battery_percent d \<noteq> None then Some (timestamp r) else None
   | _ \<Rightarrow> None)"

fun charging_ts :: "MetricRecord \<Rightarrow> u64 option" where
  "charging_ts r = (case payload r of
     PwrP d \<Rightarrow> if charging d then Some (timestamp r) else None
   | _ \<Rightarrow> None)"

definition on_battery_set :: "bool option \<Rightarrow> MetricRecord list \<Rightarrow> u64 list option" where
  "on_battery_set ob rs = (case ob of
     Some True \<Rightarrow> Some (List.map_filter on_battery_ts rs)
   | Some False \<Rightarrow> Some (List.map_filter charging_ts rs)
   | None \<Rightarrow> None)"

definition passes_filter :: "u64 list option \<Rightarrow> u64 \<Rightarrow> bool" where
  "passes_filter s ts = unwrap_or (map_option (\<lambda>l. ts \<in> set l) s) True"

section \<open>Samples per application\<close>

text \<open>What one payload adds to the metrics of its application, one definition per loop.\<close>

fun add_cpu :: "MetricPayload \<Rightarrow> (AppMetrics \<Rightarrow> AppMetrics) option" where
  "add_cpu (CpuP d) = Some (\<lambda>m. m\<lparr> cpu_pcts := cpu_pcts m @ [cpu_usage_percent d] \<rparr>)"
| "add_cpu _ = None"

fun add_gpu :: "MetricPayload \<Rightarrow> (AppMetrics \<Rightarrow> AppMetrics) option" where
  "add_gpu (GpuProcP d) = map_option (\<lambda>pct m. m\<lparr> gpu_pcts := gpu_pcts m @ [pct] \<rparr>) (gp_usage_percent d)"
| "add_gpu _ = None"

fun add_foc :: "MetricPayload \<Rightarrow> (AppMetrics \<Rightarrow> AppMetrics) option" where
  "add_foc (FocP d) = Some (\<lambda>m. m\<lparr> focus_ms := focus_ms m + duration_ms d \<rparr>)"
| "add_foc _ = None"

fun add_dsk :: "MetricPayload \<Rightarrow> (AppMetrics \<Rightarrow> AppMetrics) option" where
  "add_dsk (DskP d) = Some (\<lambda>m. m\<lparr> disk_bytes := disk_bytes m + (read_bytes d + write_bytes d) \<rparr>)"
| "add_dsk _ = None"

fun add_net :: "MetricPayload \<Rightarrow> (AppMetrics \<Rightarrow> AppMetrics) option" where
  "add_net (NetP d) = Some (\<lambda>m. m\<lparr> net_bytes := net_bytes m + (tx_bytes d + rx_bytes d) \<rparr>)"
| "add_net _ = None"

fun add_mem :: "MetricPayload \<Rightarrow> (AppMetrics \<Rightarrow> AppMetrics) option" where
  "add_mem (MemP d) = Some (\<lambda>m. m\<lparr> mem_rss := mem_rss m @ [rss_bytes d] \<rparr>)"
| "add_mem _ = None"

type_synonym app_map = "(string \<times> AppMetrics) list"

definition add_sample ::
  "(u64 \<Rightarrow> bool) \<Rightarrow> (MetricPayload \<Rightarrow> (AppMetrics \<Rightarrow> AppMetrics) option) \<Rightarrow> app_map \<Rightarrow> MetricRecord \<Rightarrow> app_map" where
  "add_sample passes add m r =
     (if passes (timestamp r)
      then (case add (payload r) of
              Some f \<Rightarrow> entry_mod (app_name r) AppMetrics_default f m
            | None \<Rightarrow> m)
      else m)"

text \<open>The six loops, in the order of the code.\<close>

definition collect_app_metrics ::
  "(u64 \<Rightarrow> bool) \<Rightarrow> MetricRecord list \<Rightarrow> MetricRecord list \<Rightarrow> MetricRecord list \<Rightarrow> MetricRecord list \<Rightarrow>
   MetricRecord list \<Rightarrow> MetricRecord list \<Rightarrow> app_map" where
  "collect_app_metrics passes cpu gpu foc dsk net mem =
     (let m1 = foldl (add_sample passes add_cpu) [] cpu;
          m2 = foldl (add_sample passes add_gpu) m1 gpu;
          m3 = foldl (add_sample passes add_foc) m2 foc;
          m4 = foldl (add_sample passes add_dsk) m3 dsk;
          m5 = foldl (add_sample passes add_net) m4 net
      in foldl (add_sample passes add_mem) m5 mem)"

section \<open>The queries\<close>

definition get_power_stats ::
  "'w ext \<Rightarrow> 'd chrono \<Rightarrow> (string, AppMetrics) hash_iter \<Rightarrow> (fl \<Rightarrow> fl) \<Rightarrow> (nat \<Rightarrow> any_error + u64) \<Rightarrow>
   u64 \<Rightarrow> u64 \<Rightarrow> bool option \<Rightarrow> ('w, AppPowerStats list) io" where
  "get_power_stats X C iter log2 clock start end_t ob =
     (let window_ms = (end_t - start) * 1000 in
      if window_ms = 0 then retS []
      else
        bindS (get_metrics_by_type X C (clock 0) Cpu start end_t) (\<lambda>cpu.
        bindS (get_metrics_by_type X C (clock 1) Mem start end_t) (\<lambda>mem.
        bindS (get_metrics_by_type X C (clock 2) Dsk start end_t) (\<lambda>dsk.
        bindS (get_metrics_by_type X C (clock 3) Net start end_t) (\<lambda>net.
        bindS (get_metrics_by_type X C (clock 4) GpuProc start end_t) (\<lambda>gpu.
        bindS (get_metrics_by_type X C (clock 5) Foc start end_t) (\<lambda>foc.
        bindS (get_metrics_by_type X C (clock 6) Pwr start end_t) (\<lambda>pwr.
        let passes = passes_filter (on_battery_set ob pwr);
            app_metrics = collect_app_metrics passes cpu gpu foc dsk net mem;
            stats = compute_power_stats
              \<lparr> pe_log2 = log2, pe_window_ms = window_ms,
                pe_rapl = extract_rapl_average pwr,
                pe_freq_ratio = extract_freq_ratio_average pwr,
                pe_brightness = extract_display_brightness_average pwr,
                pe_wifi = extract_is_wifi_last pwr \<rparr> (iter app_metrics)
        in retS (map (\<lambda>s. s\<lparr> on_battery := unwrap_or ob False \<rparr>) stats)))))))))"

definition get_top_apps_by_power ::
  "'w ext \<Rightarrow> 'd chrono \<Rightarrow> (string, AppMetrics) hash_iter \<Rightarrow> (fl \<Rightarrow> fl) \<Rightarrow> (nat \<Rightarrow> any_error + u64) \<Rightarrow>
   u64 \<Rightarrow> u64 \<Rightarrow> bool option \<Rightarrow> nat \<Rightarrow> ('w, AppPowerStats list) io" where
  "get_top_apps_by_power X C iter log2 clock start end_t ob limit =
     bindS (get_power_stats X C iter log2 clock start end_t ob) (\<lambda>stats. retS (take limit stats))"

section \<open>What is collected\<close>

text \<open>The updates that a list of records contributes for one application.\<close>

definition updates ::
  "(u64 \<Rightarrow> bool) \<Rightarrow> (MetricPayload \<Rightarrow> (AppMetrics \<Rightarrow> AppMetrics) option) \<Rightarrow> string \<Rightarrow> MetricRecord list \<Rightarrow>
   (AppMetrics \<Rightarrow> AppMetrics) list" where
  "updates passes add n rs =
     List.map_filter (\<lambda>r. if passes (timestamp r) \<and> app_name r = n then add (payload r) else None) rs"

abbreviation metrics_of :: "app_map \<Rightarrow> string \<Rightarrow> AppMetrics" where
  "metrics_of m n \<equiv> unwrap_or (map_of m n) AppMetrics_default"

lemma updates_Nil [simp]: "updates p add n [] = []"
  by (simp add: updates_def map_filter_simps)

lemma updates_Cons [simp]:
  "updates p add n (r # rs) =
     (if p (timestamp r) \<and> app_name r = n \<and> add (payload r) \<noteq> None
      then the (add (payload r)) # updates p add n rs else updates p add n rs)"
  by (auto simp: updates_def map_filter_simps)

lemma add_sample_step:
  "map_of (add_sample p add m r) n =
     (if p (timestamp r) \<and> app_name r = n \<and> add (payload r) \<noteq> None
      then Some (the (add (payload r)) (metrics_of m n)) else map_of m n)"
  by (auto simp: add_sample_def map_of_entry_mod unwrap_or_def split: option.splits)

lemma add_samples:
  "map_of (foldl (add_sample p add) m rs) n =
     (if updates p add n rs = [] then map_of m n
      else Some (foldl (\<lambda>x f. f x) (metrics_of m n) (updates p add n rs)))"
  by (induction rs arbitrary: m) (auto simp: add_sample_step unwrap_or_def)

lemma distinct_add_samples:
  "distinct (map fst m) \<Longrightarrow> distinct (map fst (foldl (add_sample p add) m rs))"
  by (induction rs arbitrary: m) (auto simp: add_sample_def entry_mod_distinct split: option.split)

text \<open>The samples of one application that pass the filter.\<close>

definition picked :: "(u64 \<Rightarrow> bool) \<Rightarrow> string \<Rightarrow> (MetricPayload \<Rightarrow> 'a option) \<Rightarrow> MetricRecord list \<Rightarrow> 'a list" where
  "picked passes n sel rs =
     List.map_filter (\<lambda>r. if passes (timestamp r) \<and> app_name r = n then sel (payload r) else None) rs"

fun cpu_pct_of :: "MetricPayload \<Rightarrow> fl option" where
  "cpu_pct_of (CpuP d) = Some (cpu_usage_percent d)" | "cpu_pct_of _ = None"

fun gpu_pct_of :: "MetricPayload \<Rightarrow> fl option" where
  "gpu_pct_of (GpuProcP d) = gp_usage_percent d" | "gpu_pct_of _ = None"

fun focus_of :: "MetricPayload \<Rightarrow> u64 option" where
  "focus_of (FocP d) = Some (duration_ms d)" | "focus_of _ = None"

fun disk_of :: "MetricPayload \<Rightarrow> u64 option" where
  "disk_of (DskP d) = Some (read_bytes d + write_bytes d)" | "disk_of _ = None"

fun net_of :: "MetricPayload \<Rightarrow> u64 option" where
  "net_of (NetP d) = Some (tx_bytes d + rx_bytes d)" | "net_of _ = None"

fun rss_of :: "MetricPayload \<Rightarrow> u64 option" where
  "rss_of (MemP d) = Some (rss_bytes d)" | "rss_of _ = None"

lemma picked_Nil [simp]: "picked p n sel [] = []"
  by (simp add: picked_def map_filter_simps)

lemma picked_Cons [simp]:
  "picked p n sel (r # rs) =
     (if p (timestamp r) \<and> app_name r = n \<and> sel (payload r) \<noteq> None
      then the (sel (payload r)) # picked p n sel rs else picked p n sel rs)"
  by (auto simp: picked_def map_filter_simps)

text \<open>Each loop changes one field.\<close>

lemma updates_picked:
  assumes "\<And>pl. add pl = map_option g (sel pl)"
  shows "updates p add n rs = map g (picked p n sel rs)"
  by (induction rs) (auto simp: assms)

lemma add_sel:
  "add_cpu pl = map_option (\<lambda>v m. m\<lparr> cpu_pcts := cpu_pcts m @ [v] \<rparr>) (cpu_pct_of pl)"
  "add_gpu pl = map_option (\<lambda>v m. m\<lparr> gpu_pcts := gpu_pcts m @ [v] \<rparr>) (gpu_pct_of pl)"
  "add_foc pl = map_option (\<lambda>v m. m\<lparr> focus_ms := focus_ms m + v \<rparr>) (focus_of pl)"
  "add_dsk pl = map_option (\<lambda>v m. m\<lparr> disk_bytes := disk_bytes m + v \<rparr>) (disk_of pl)"
  "add_net pl = map_option (\<lambda>v m. m\<lparr> net_bytes := net_bytes m + v \<rparr>) (net_of pl)"
  "add_mem pl = map_option (\<lambda>v m. m\<lparr> mem_rss := mem_rss m @ [v] \<rparr>) (rss_of pl)"
  by (cases pl; simp)+

lemma foldl_field:
  "foldl (\<lambda>x f. f x) m (map (\<lambda>v m. m\<lparr> cpu_pcts := cpu_pcts m @ [v] \<rparr>) vs) = m\<lparr> cpu_pcts := cpu_pcts m @ vs \<rparr>"
  "foldl (\<lambda>x f. f x) m (map (\<lambda>v m. m\<lparr> gpu_pcts := gpu_pcts m @ [v] \<rparr>) vs) = m\<lparr> gpu_pcts := gpu_pcts m @ vs \<rparr>"
  "foldl (\<lambda>x f. f x) m (map (\<lambda>v m. m\<lparr> focus_ms := focus_ms m + v \<rparr>) ws) = m\<lparr> focus_ms := focus_ms m + wsum ws \<rparr>"
  "foldl (\<lambda>x f. f x) m (map (\<lambda>v m. m\<lparr> disk_bytes := disk_bytes m + v \<rparr>) ws) = m\<lparr> disk_bytes := disk_bytes m + wsum ws \<rparr>"
  "foldl (\<lambda>x f. f x) m (map (\<lambda>v m. m\<lparr> net_bytes := net_bytes m + v \<rparr>) ws) = m\<lparr> net_bytes := net_bytes m + wsum ws \<rparr>"
  "foldl (\<lambda>x f. f x) m (map (\<lambda>v m. m\<lparr> mem_rss := mem_rss m @ [v] \<rparr>) ws) = m\<lparr> mem_rss := mem_rss m @ ws \<rparr>"
  by ((induction vs arbitrary: m; simp), (induction vs arbitrary: m; simp),
      (induction ws arbitrary: m; simp add: add.assoc)+)

lemma loop_metrics:
  "metrics_of (foldl (add_sample p add_cpu) m rs) n =
     (metrics_of m n)\<lparr> cpu_pcts := cpu_pcts (metrics_of m n) @ picked p n cpu_pct_of rs \<rparr>"
  "metrics_of (foldl (add_sample p add_gpu) m rs) n =
     (metrics_of m n)\<lparr> gpu_pcts := gpu_pcts (metrics_of m n) @ picked p n gpu_pct_of rs \<rparr>"
  "metrics_of (foldl (add_sample p add_foc) m rs) n =
     (metrics_of m n)\<lparr> focus_ms := focus_ms (metrics_of m n) + wsum (picked p n focus_of rs) \<rparr>"
  "metrics_of (foldl (add_sample p add_dsk) m rs) n =
     (metrics_of m n)\<lparr> disk_bytes := disk_bytes (metrics_of m n) + wsum (picked p n disk_of rs) \<rparr>"
  "metrics_of (foldl (add_sample p add_net) m rs) n =
     (metrics_of m n)\<lparr> net_bytes := net_bytes (metrics_of m n) + wsum (picked p n net_of rs) \<rparr>"
  "metrics_of (foldl (add_sample p add_mem) m rs) n =
     (metrics_of m n)\<lparr> mem_rss := mem_rss (metrics_of m n) @ picked p n rss_of rs \<rparr>"
  by (auto simp: add_samples updates_picked [OF add_sel(1)] updates_picked [OF add_sel(2)]
      updates_picked [OF add_sel(3)] updates_picked [OF add_sel(4)] updates_picked [OF add_sel(5)]
      updates_picked [OF add_sel(6)] foldl_field unwrap_or_def split: option.split)

lemma loop_none:
  "map_of (foldl (add_sample p add_cpu) m rs) n = None \<longleftrightarrow> map_of m n = None \<and> picked p n cpu_pct_of rs = []"
  "map_of (foldl (add_sample p add_gpu) m rs) n = None \<longleftrightarrow> map_of m n = None \<and> picked p n gpu_pct_of rs = []"
  "map_of (foldl (add_sample p add_foc) m rs) n = None \<longleftrightarrow> map_of m n = None \<and> picked p n focus_of rs = []"
  "map_of (foldl (add_sample p add_dsk) m rs) n = None \<longleftrightarrow> map_of m n = None \<and> picked p n disk_of rs = []"
  "map_of (foldl (add_sample p add_net) m rs) n = None \<longleftrightarrow> map_of m n = None \<and> picked p n net_of rs = []"
  "map_of (foldl (add_sample p add_mem) m rs) n = None \<longleftrightarrow> map_of m n = None \<and> picked p n rss_of rs = []"
  by (auto simp: add_samples updates_picked [OF add_sel(1)] updates_picked [OF add_sel(2)]
      updates_picked [OF add_sel(3)] updates_picked [OF add_sel(4)] updates_picked [OF add_sel(5)]
      updates_picked [OF add_sel(6)])

lemma distinct_collect: "distinct (map fst (collect_app_metrics p cpu gpu foc dsk net mem))"
  unfolding collect_app_metrics_def Let_def by (intro distinct_add_samples) simp

lemma collect_none:
  "map_of (collect_app_metrics p cpu gpu foc dsk net mem) n = None \<longleftrightarrow>
     picked p n cpu_pct_of cpu = [] \<and> picked p n gpu_pct_of gpu = [] \<and> picked p n focus_of foc = [] \<and>
     picked p n disk_of dsk = [] \<and> picked p n net_of net = [] \<and> picked p n rss_of mem = []"
  by (simp add: collect_app_metrics_def Let_def loop_none conj_ac)

lemma collect_metrics:
  "metrics_of (collect_app_metrics p cpu gpu foc dsk net mem) n =
     \<lparr> cpu_pcts = picked p n cpu_pct_of cpu, gpu_pcts = picked p n gpu_pct_of gpu,
       focus_ms = wsum (picked p n focus_of foc), disk_bytes = wsum (picked p n disk_of dsk),
       net_bytes = wsum (picked p n net_of net), mem_rss = picked p n rss_of mem \<rparr>"
  by (simp add: collect_app_metrics_def Let_def loop_metrics) (simp add: unwrap_or_def AppMetrics_default_def)

section \<open>Properties\<close>

text \<open>C15: The samples of an application.  After the six loops the map has an entry for an application
  exactly when one of its records of some kind passes the battery filter and has a value (the use of a graphics card
  may be absent, and such a record adds nothing), only one, and that
  entry holds, in order, the processor and graphics percentages and resident sizes, and the sums
  of focus time, disk and network bytes, of exactly the records that pass and have a value.\<close>

theorem power_samples_exact:
  "distinct (map fst (collect_app_metrics p cpu gpu foc dsk net mem)) \<and>
   map_of (collect_app_metrics p cpu gpu foc dsk net mem) n =
     (if picked p n cpu_pct_of cpu = [] \<and> picked p n gpu_pct_of gpu = [] \<and> picked p n focus_of foc = [] \<and>
         picked p n disk_of dsk = [] \<and> picked p n net_of net = [] \<and> picked p n rss_of mem = []
      then None
      else Some \<lparr> cpu_pcts = picked p n cpu_pct_of cpu, gpu_pcts = picked p n gpu_pct_of gpu,
        focus_ms = wsum (picked p n focus_of foc), disk_bytes = wsum (picked p n disk_of dsk),
        net_bytes = wsum (picked p n net_of net), mem_rss = picked p n rss_of mem \<rparr>)"
proof (cases "map_of (collect_app_metrics p cpu gpu foc dsk net mem) n")
  case None
  then show ?thesis using collect_none [of p cpu gpu foc dsk net mem n] by (simp add: distinct_collect)
next
  case (Some m)
  then have "m = metrics_of (collect_app_metrics p cpu gpu foc dsk net mem) n" by (simp add: unwrap_or_def)
  then show ?thesis
    using Some collect_none [of p cpu gpu foc dsk net mem n] unfolding collect_metrics
    by (simp add: distinct_collect)
qed

text \<open>What the query computes on the record lists of the trees.\<close>

definition power_env_of :: "(fl \<Rightarrow> fl) \<Rightarrow> u64 \<Rightarrow> u64 \<Rightarrow> MetricRecord list \<Rightarrow> power_env" where
  "power_env_of log2 s e pwr =
     \<lparr> pe_log2 = log2, pe_window_ms = (e - s) * 1000, pe_rapl = extract_rapl_average pwr,
       pe_freq_ratio = extract_freq_ratio_average pwr,
       pe_brightness = extract_display_brightness_average pwr, pe_wifi = extract_is_wifi_last pwr \<rparr>"

definition power_query ::
  "(string, AppMetrics) hash_iter \<Rightarrow> (fl \<Rightarrow> fl) \<Rightarrow> u64 \<Rightarrow> u64 \<Rightarrow> bool option \<Rightarrow>
   (MetricType \<Rightarrow> MetricRecord list) \<Rightarrow> AppPowerStats list" where
  "power_query iter log2 s e ob q =
     map (\<lambda>x. x\<lparr> on_battery := unwrap_or ob False \<rparr>)
       (compute_power_stats (power_env_of log2 s e (q Pwr))
         (iter (collect_app_metrics (passes_filter (on_battery_set ob (q Pwr)))
            (q Cpu) (q GpuProc) (q Foc) (q Dsk) (q Net) (q Mem))))"

text \<open>The query reads the clock once per kind of record.\<close>

fun power_read :: "MetricType \<Rightarrow> nat" where
  "power_read Cpu = 0" | "power_read Mem = 1" | "power_read Dsk = 2" | "power_read Net = 3"
| "power_read GpuProc = 4" | "power_read Foc = 5" | "power_read Pwr = 6" | "power_read Gpu = 7"

definition power_records ::
  "'d chrono \<Rightarrow> (nat \<Rightarrow> any_error + u64) \<Rightarrow> u64 \<Rightarrow> u64 \<Rightarrow> (string \<Rightarrow> MetricRecord list) \<Rightarrow> MetricType \<Rightarrow> MetricRecord list" where
  "power_records C clock s e D mt = query_spec C (unwrap_or (ok_opt (clock (power_read mt))) (- 1)) mt s e D"

context store
begin

lemma run_get_power_stats:
  assumes "holds_all X a D"
  shows "run (get_power_stats X C iter log2 clock s e ob) a
    (power_query iter log2 s e ob (power_records C clock s e D)) a"
proof (cases "(e - s) * 1000 = 0")
  case True
  then show ?thesis
    by (simp add: get_power_stats_def power_query_def compute_power_stats_def power_env_of_def run_ret)
next
  case False
  note q = run_get_metrics_by_type [OF assms, of C _ _ s e]
  show ?thesis
    unfolding get_power_stats_def Let_def if_not_P [OF False] power_query_def power_env_of_def
      power_records_def power_read.simps
    by (rule run_bind, rule q, rule run_bind, rule q, rule run_bind, rule q, rule run_bind, rule q,
        rule run_bind, rule q, rule run_bind, rule q, rule run_bind, rule q, rule run_ret)
qed

lemma run_top_power:
  assumes "holds_all X a D"
  shows "run (get_top_apps_by_power X C iter log2 clock s e ob limit) a
    (take limit (power_query iter log2 s e ob (power_records C clock s e D))) a"
  unfolding get_top_apps_by_power_def by (rule run_bind, rule run_get_power_stats [OF assms], rule run_ret)

end

text \<open>An application has a sample that passes the battery filter.\<close>

definition has_sample :: "bool option \<Rightarrow> (MetricType \<Rightarrow> MetricRecord list) \<Rightarrow> string \<Rightarrow> bool" where
  "has_sample ob q n =
     (let p = passes_filter (on_battery_set ob (q Pwr)) in
      picked p n cpu_pct_of (q Cpu) \<noteq> [] \<or> picked p n gpu_pct_of (q GpuProc) \<noteq> [] \<or>
      picked p n focus_of (q Foc) \<noteq> [] \<or> picked p n disk_of (q Dsk) \<noteq> [] \<or>
      picked p n net_of (q Net) \<noteq> [] \<or> picked p n rss_of (q Mem) \<noteq> [])"

lemma names_power_query:
  assumes "hash_order iter" and "(e - s) * 1000 \<noteq> 0"
  shows "distinct (map aps_app_name (power_query iter log2 s e ob q))"
    and "set (map aps_app_name (power_query iter log2 s e ob q)) = {n. has_sample ob q n}"
proof -
  let ?p = "passes_filter (on_battery_set ob (q Pwr))"
  let ?m = "collect_app_metrics ?p (q Cpu) (q GpuProc) (q Foc) (q Dsk) (q Net) (q Mem)"
  have "mset (map aps_app_name (power_query iter log2 s e ob q)) = mset (map fst (iter ?m))"
    using names_compute [of "power_env_of log2 s e (q Pwr)" "iter ?m"] assms(2)
    by (simp add: power_query_def power_env_of_def comp_def)
  also have "\<dots> = mset (map fst ?m)" using hash_order.iter_perm [OF assms(1), of ?m] by simp
  finally have names: "mset (map aps_app_name (power_query iter log2 s e ob q)) = mset (map fst ?m)" .
  show "distinct (map aps_app_name (power_query iter log2 s e ob q))"
    using mset_eq_imp_distinct_iff [OF names] distinct_collect by blast
  have "set (map aps_app_name (power_query iter log2 s e ob q)) = {n. map_of ?m n \<noteq> None}"
    using mset_eq_setD [OF names] by (auto simp: map_of_eq_None_iff)
  then show "set (map aps_app_name (power_query iter log2 s e ob q)) = {n. has_sample ob q n}"
    unfolding collect_none has_sample_def Let_def by blast
qed

text \<open>The applications of the power ranking.  On a healthy store, for a window of non-zero
  length, the query returns the first \<open>limit\<close> entries of a list that has exactly one entry for every
  application with a sample in the window that passes the battery filter, each marked with the
  requested battery state; the store is unchanged.\<close>

theorem top_power_apps:
  assumes "store X healthy absw" and "hash_order iter" and "healthy w" and "holds_all X (absw w) D"
    and "(e - s) * 1000 \<noteq> 0"
  shows "\<exists>w' stats. get_top_apps_by_power X C iter log2 clock s e ob limit w = (Inr (take limit stats), w') \<and>
    absw w' = absw w \<and> distinct (map aps_app_name stats) \<and>
    set (map aps_app_name stats) = {n. has_sample ob (power_records C clock s e D) n} \<and>
    list_all (\<lambda>x. on_battery x = (ob = Some True)) stats"
proof -
  let ?q = "power_records C clock s e D"
  obtain w' where "get_top_apps_by_power X C iter log2 clock s e ob limit w =
      (Inr (take limit (power_query iter log2 s e ob ?q)), w')" "absw w' = absw w"
    using runsD [OF store.run_top_power [OF assms(1,4)] assms(3)] by blast
  moreover have "list_all (\<lambda>x. on_battery x = (ob = Some True)) (power_query iter log2 s e ob ?q)"
    by (cases ob) (auto simp: power_query_def list_all_iff unwrap_or_def)
  ultimately show ?thesis using names_power_query [OF assms(2,5)] by blast
qed

theorem top_power_apps_witness:
  "\<exists>w' stats. get_top_apps_by_power (ref_ext w_recs) greg rev log2_floor (\<lambda>_. Inr 1000) 50 150 None 5 w_world =
     (Inr (take 5 stats), w') \<and> set (map aps_app_name stats) = {''curl'', ''ssh''}"
proof -
  let ?q = "power_records greg (\<lambda>_. Inr 1000) 50 150 w_db"
  have q: "?q Net = [net_rec ''curl'' 100 5 7, net_rec ''ssh'' 100 1 2]" "?q Cpu = []" "?q GpuProc = []"
    "?q Foc = []" "?q Dsk = []" "?q Mem = []"
    by code_simp+
  have "{n. has_sample None ?q n} = {''curl'', ''ssh''}"
    unfolding has_sample_def Let_def q
    by (auto simp: net_rec_def passes_filter_def on_battery_set_def unwrap_or_def)
  moreover have "((150 :: u64) - 50) * 1000 \<noteq> 0" by simp
  ultimately show ?thesis
    using top_power_apps [OF ref.store_axioms hash_rev.hash_order_axioms w_world_healthy w_world_holds_all,
        of 150 50 greg log2_floor "\<lambda>_. Inr 1000" None 5] by auto
qed

end
