(* ===== verification/Retention.thy ===== *)
theory Retention
  imports Storage
begin

text \<open>
  Retention settings (\<open>heimwatch-storage/src/retention.rs\<close>) and the storage layer's metadata, deletion,
  export and statistics functions (\<open>db.rs\<close>, second part).
\<close>

section \<open>Settings and reports\<close>

record RetentionConfig =
  cpu_days :: u32
  net_days :: u32
  pwr_days :: u32
  foc_days :: u32
  mem_days :: u32
  dsk_days :: u32
  gpu_days :: u32
  gpu_proc_days :: u32
  cleanup_interval_hours :: u64
  export_before_delete :: bool
  export_dir :: "string option"

definition default_retention_days :: u32 where
  "default_retention_days = 7"

definition default_cleanup_interval :: u64 where
  "default_cleanup_interval = 24"

definition RetentionConfig_default :: RetentionConfig where
  "RetentionConfig_default =
     \<lparr> cpu_days = 7, net_days = 7, pwr_days = 7, foc_days = 7, mem_days = 7, dsk_days = 7,
       gpu_days = 7, gpu_proc_days = 7, cleanup_interval_hours = 24,
       export_before_delete = False, export_dir = None \<rparr>"

fun retention_days_for :: "RetentionConfig \<Rightarrow> MetricType \<Rightarrow> u32" where
  "retention_days_for c Cpu = cpu_days c"
| "retention_days_for c Net = net_days c"
| "retention_days_for c Pwr = pwr_days c"
| "retention_days_for c Foc = foc_days c"
| "retention_days_for c Mem = mem_days c"
| "retention_days_for c Dsk = dsk_days c"
| "retention_days_for c Gpu = gpu_days c"
| "retention_days_for c GpuProc = gpu_proc_days c"

record CleanupReport =
  deleted_count :: u64
  exported_count :: u64
  export_path :: "string option"

record StorageStats =
  db_size_bytes :: u64
  record_counts :: "(MetricType \<times> u64) list"
  total_records :: u64

record TieredRetentionConfig =
  raw_hours :: u64
  daily_keep_days :: u32
  monthly_keep_months :: u32
  yearly_keep_years :: u32
  t_cleanup_interval_hours :: u64
  t_export_before_delete :: bool
  t_export_dir :: "string option"

definition TieredRetentionConfig_default :: TieredRetentionConfig where
  "TieredRetentionConfig_default =
     \<lparr> raw_hours = 24, daily_keep_days = 31, monthly_keep_months = 12, yearly_keep_years = 7,
       t_cleanup_interval_hours = 24, t_export_before_delete = False, t_export_dir = None \<rparr>"

record TieredCleanupReport =
  raw_aggregated :: u64
  raw_deleted :: u64
  daily_aggregated :: u64
  daily_deleted :: u64
  monthly_aggregated :: u64
  monthly_deleted :: u64
  yearly_deleted :: u64
  t_exported_count :: u64
  t_export_path :: "string option"

section \<open>Metadata\<close>

definition META_LAST_CLEANUP :: string where
  "META_LAST_CLEANUP = ''meta:last_cleanup''"

definition CONFIG_RETENTION_DAYS :: string where
  "CONFIG_RETENTION_DAYS = ''config:retention_days''"

definition get_metadata :: "'w ext \<Rightarrow> (string \<Rightarrow> any_error + 'a) \<Rightarrow> string \<Rightarrow> string \<Rightarrow> 'a \<Rightarrow> ('w, 'a) io" where
  "get_metadata X from_slice tree key dflt =
     bindS (tree_get X tree key) (\<lambda>v.
     case v of Some b \<Rightarrow> liftS (from_slice b) | None \<Rightarrow> retS dflt)"

definition set_retention_days :: "'w ext \<Rightarrow> u32 \<Rightarrow> ('w, unit) io" where
  "set_retention_days X days =
     bindS (meta_tree X) (\<lambda>tree.
     bindS (liftS (u32_to_vec X days)) (\<lambda>v.
     tree_insert X tree CONFIG_RETENTION_DAYS v))"

definition get_retention_days :: "'w ext \<Rightarrow> ('w, u32) io" where
  "get_retention_days X =
     bindS (meta_tree X) (\<lambda>tree. get_metadata X (u32_from_slice X) tree CONFIG_RETENTION_DAYS 7)"

definition set_last_cleanup_ts :: "'w ext \<Rightarrow> u64 \<Rightarrow> ('w, unit) io" where
  "set_last_cleanup_ts X ts =
     bindS (meta_tree X) (\<lambda>tree.
     bindS (liftS (u64_to_vec X ts)) (\<lambda>v.
     tree_insert X tree META_LAST_CLEANUP v))"

definition get_last_cleanup_ts :: "'w ext \<Rightarrow> ('w, u64 option) io" where
  "get_last_cleanup_ts X =
     bindS (meta_tree X) (\<lambda>tree. get_metadata X (opt_u64_from_slice X) tree META_LAST_CLEANUP None)"

section \<open>Deletion\<close>

text \<open>The loop that collects the keys of a range.\<close>

definition collect_keys :: "'w ext \<Rightarrow> string \<Rightarrow> MetricType \<Rightarrow> u64 \<Rightarrow> ('w, string list) io" where
  "collect_keys X tree mt cutoff =
     bindS (readS (tree_range X tree (range_start mt 0) (range_end mt cutoff))) (\<lambda>items.
     liftS (mapR (\<lambda>item. bindR item (\<lambda>(k, _). Inr k)) items))"

definition collect_all_keys :: "'w ext \<Rightarrow> string \<Rightarrow> u64 \<Rightarrow> ('w, string list) io" where
  "collect_all_keys X tree cutoff =
     foldS (\<lambda>ks mt. bindS (collect_keys X tree mt cutoff) (\<lambda>k. retS (ks @ k))) [] ALL_METRIC_TYPES"

definition cleanup_old_data :: "'w ext \<Rightarrow> any_error + u64 \<Rightarrow> u32 \<Rightarrow> ('w, u64) io" where
  "cleanup_old_data X clock retention_days =
     bindS (liftS clock) (\<lambda>now.
     let cutoff = retention_cutoff retention_days now in
     bindS (metrics_tree X) (\<lambda>tree.
     bindS (collect_all_keys X tree cutoff) (\<lambda>keys_to_delete.
     let cnt = of_nat (length keys_to_delete) in
     bindS (apply_batch X tree (map BRemove keys_to_delete)) (\<lambda>_.
     retS cnt))))"

definition delete_from_tree_before :: "'w ext \<Rightarrow> string \<Rightarrow> u64 \<Rightarrow> ('w, u64) io" where
  "delete_from_tree_before X tree cutoff =
     bindS (collect_all_keys X tree cutoff) (\<lambda>keys_to_delete.
     let cnt = of_nat (length keys_to_delete) in
     bindS (if 0 < cnt then apply_batch X tree (map BRemove keys_to_delete) else retS ()) (\<lambda>_.
     retS cnt))"

section \<open>Export\<close>

definition path_join :: "string \<Rightarrow> string \<Rightarrow> string" where
  "path_join dir file =
     (if dir = [] then file else if last dir = CHR ''/'' then dir @ file else dir @ ''/'' @ file)"

text \<open>The export file name carries the clock's nanoseconds, or the seconds when the clock fails.\<close>

definition export_file_path :: "string \<Rightarrow> u64 \<Rightarrow> nat option \<Rightarrow> string" where
  "export_file_path dir now nanos =
     path_join dir (''export-'' @ dec (unwrap_or nanos (unat now)) @ ''.jsonl'')"

text \<open>\<open>to_string\<close> gives the bytes of \<open>to_vec\<close>.\<close>

definition export_item :: "'w ext \<Rightarrow> string \<Rightarrow> u64 \<Rightarrow> any_error + string \<times> string \<Rightarrow> ('w, u64) io" where
  "export_item X path cnt item =
     bindS (liftS (bindR item (\<lambda>(_, v). bindR (rec_from_slice X v) (rec_to_vec X)))) (\<lambda>line.
     bindS (file_writeln X path line) (\<lambda>_.
     retS (cnt + 1)))"

definition export_type :: "'w ext \<Rightarrow> string \<Rightarrow> string \<Rightarrow> u64 \<Rightarrow> MetricType \<Rightarrow> u64 \<Rightarrow> ('w, u64) io" where
  "export_type X tree path cnt mt cutoff =
     bindS (readS (tree_range X tree (range_start mt 0) (range_end mt cutoff))) (\<lambda>items.
     foldS (export_item X path) cnt items)"

definition export_metrics_to_jsonl :: "'w ext \<Rightarrow> string \<Rightarrow> RetentionConfig \<Rightarrow> u64 \<Rightarrow> ('w, u64) io" where
  "export_metrics_to_jsonl X path config now =
     bindS (file_create X path) (\<lambda>_.
     bindS (metrics_tree X) (\<lambda>tree.
     foldS (\<lambda>cnt mt.
        let cutoff = retention_cutoff (retention_days_for config mt) now in
        export_type X tree path cnt mt cutoff) 0 ALL_METRIC_TYPES))"

section \<open>Cleanup with per-type retention\<close>

definition cleanup_type :: "'w ext \<Rightarrow> string \<Rightarrow> RetentionConfig \<Rightarrow> u64 \<Rightarrow> u64 \<Rightarrow> MetricType \<Rightarrow> ('w, u64) io" where
  "cleanup_type X tree config now total_deleted mt =
     (let cutoff = retention_cutoff (retention_days_for config mt) now in
      bindS (collect_keys X tree mt cutoff) (\<lambda>keys_to_delete.
      let cnt = of_nat (length keys_to_delete) in
      if 0 < cnt then
        bindS (apply_batch X tree (map BRemove keys_to_delete)) (\<lambda>_. retS (total_deleted + cnt))
      else retS total_deleted))"

definition cleanup_with_config ::
  "'w ext \<Rightarrow> any_error + u64 \<Rightarrow> nat option \<Rightarrow> RetentionConfig \<Rightarrow> ('w, CleanupReport) io" where
  "cleanup_with_config X clock nanos config =
     bindS (liftS clock) (\<lambda>now.
     bindS (metrics_tree X) (\<lambda>tree.
     bindS (case (export_before_delete config, export_dir config) of
         (True, Some dir) \<Rightarrow>
           bindS (create_dir_all X dir) (\<lambda>_.
           let path = export_file_path dir now nanos in
           bindS (export_metrics_to_jsonl X path config now) (\<lambda>n.
           retS (n, Some path)))
       | _ \<Rightarrow> retS (0, None)) (\<lambda>(total_exported, path).
     bindS (foldS (cleanup_type X tree config now) 0 ALL_METRIC_TYPES) (\<lambda>total_deleted.
     bindS (set_last_cleanup_ts X now) (\<lambda>_.
     retS \<lparr> deleted_count = total_deleted, exported_count = total_exported, export_path = path \<rparr>)))))"

section \<open>Statistics\<close>

text \<open>The counting loop does not look at the items, so it counts failed ones too.\<close>

definition get_storage_stats :: "'w ext \<Rightarrow> ('w, StorageStats) io" where
  "get_storage_stats X =
     bindS (metrics_tree X) (\<lambda>tree.
     bindS (size_on_disk X) (\<lambda>size.
     bindS (foldS (\<lambda>(counts, tot) mt.
         bindS (readS (tree_range X tree (range_start mt 0) (range_end mt (- 1)))) (\<lambda>items.
         let cnt = of_nat (length items) in
         retS (counts @ [(mt, cnt)], tot + cnt))) ([], 0) ALL_METRIC_TYPES) (\<lambda>(counts, tot).
     retS \<lparr> db_size_bytes = size, record_counts = counts, total_records = tot \<rparr>)))"

end
