(* ===== verification/Cleanup.thy ===== *)
theory Cleanup
  imports Retention Storage_Props
begin

text \<open>
  Properties of deletion and export: which records a cleanup removes, what it reports, what it
  exports first, and that the metadata reads back.
\<close>

section \<open>Expired records\<close>

definition expired :: "u64 \<Rightarrow> MetricRecord \<Rightarrow> bool" where
  "expired cutoff r \<longleftrightarrow> timestamp r < cutoff \<or> timestamp r = cutoff \<and> app_name r \<le> ''~''"

lemma in_range_expired: "in_range mt 0 c = (\<lambda>r. rec_type r = mt \<and> expired c r)"
  by (rule ext) (simp add: in_range_def expired_def)

abbreviation expired_keys :: "u64 \<Rightarrow> MetricRecord list \<Rightarrow> MetricType list \<Rightarrow> string list" where
  "expired_keys c rs mts \<equiv> concat (map (\<lambda>mt. map rkey (filter (in_range mt 0 c) rs)) mts)"

text \<open>The records that a per-type cleanup removes, in the order they are visited.\<close>

abbreviation expired_of :: "(MetricType \<Rightarrow> u64) \<Rightarrow> MetricRecord list \<Rightarrow> MetricType list \<Rightarrow> MetricRecord list" where
  "expired_of c rs mts \<equiv> concat (map (\<lambda>mt. filter (in_range mt 0 (c mt)) rs) mts)"

lemma length_by_type:
  "(\<Sum>mt\<leftarrow>mts. length (filter (\<lambda>r. rec_type r = mt \<and> P r) rs)) =
   length (filter (\<lambda>r. rec_type r \<in> set mts \<and> P r) rs)" if "distinct mts"
  using that
proof (induction mts)
  case (Cons mt mts)
  have "length (filter (\<lambda>r. rec_type r \<in> set (mt # mts) \<and> P r) rs) =
      length (filter (\<lambda>r. rec_type r = mt \<and> P r) rs) + length (filter (\<lambda>r. rec_type r \<in> set mts \<and> P r) rs)"
    using Cons.prems by (induction rs) auto
  then show ?case using Cons by simp
qed simp

lemma length_expired_keys: "length (expired_keys c rs ALL_METRIC_TYPES) = length (filter (expired c) rs)"
  using length_by_type [OF distinct_ALL_METRIC_TYPES, of "expired c" rs]
  by (simp add: length_concat comp_def in_range_expired)

lemma filter_not_keys:
  assumes "key_sorted rs" and "set fs \<subseteq> set rs"
  shows "filter (\<lambda>p. fst p \<notin> rkey ` set fs) (map (entry X) rs) = map (entry X) (filter (\<lambda>r. r \<notin> set fs) rs)"
proof -
  have "inj_on rkey (set rs)"
    using assms(1) by (metis distinct_map strict_sorted_iff)
  then have "rkey r \<in> rkey ` set fs \<longleftrightarrow> r \<in> set fs" if "r \<in> set rs" for r
    using assms(2) that by (meson inj_on_image_mem_iff)
  then show ?thesis by (simp add: filter_map comp_def cong: filter_cong)
qed

lemma remove_expired:
  assumes "holds X a t rs" and "P = (\<lambda>r. rec_type r \<in> set mts \<and> expired c r)"
  shows "foldl app_op (trees a t) (map BRemove (expired_keys c rs mts)) = map (entry X) (filter (\<lambda>r. \<not> P r) rs)"
proof -
  have set: "set (expired_keys c rs mts) = rkey ` set (filter P rs)"
    by (auto simp: assms(2) in_range_expired)
  have "trees a t = map (entry X) rs" "key_sorted rs" using assms(1) by (simp_all add: holds_def)
  moreover have "filter (\<lambda>r. r \<notin> set (filter P rs)) rs = filter (\<lambda>r. \<not> P r) rs"
    by (rule filter_cong) auto
  ultimately show ?thesis
    unfolding foldl_remove set using filter_not_keys [of rs "filter P rs" X] by simp
qed

section \<open>The deletion loops\<close>

context store
begin

lemma run_collect_keys:
  assumes "holds X a t rs"
  shows "run (collect_keys X t mt c) a (map rkey (filter (in_range mt 0 c) rs)) a"
proof -
  have "mapR (\<lambda>item. bindR item (\<lambda>(k, _). Inr k)) (map (\<lambda>r. Inr (entry X r)) fs) = (Inr (map rkey fs) :: any_error + _)" for fs
    unfolding mapR_map by (rule mapR_Inr) simp
  then show ?thesis
    unfolding collect_keys_def by (intro run_bind [OF run_items [OF assms]] run_lift)
qed

lemma run_collect_all:
  assumes "holds X a t rs"
  shows "run (foldS (\<lambda>ks mt. bindS (collect_keys X t mt c) (\<lambda>k. retS (ks @ k))) ks mts) a
    (ks @ expired_keys c rs mts) a"
proof (induction mts arbitrary: ks)
  case Nil
  then show ?case by (simp add: run_ret)
next
  case (Cons mt mts)
  have "run (bindS (collect_keys X t mt c) (\<lambda>k. retS (ks @ k))) a (ks @ map rkey (filter (in_range mt 0 c) rs)) a"
    by (rule run_bind, rule run_collect_keys [OF assms], rule run_ret)
  then show ?case
    unfolding foldS.simps by (rule run_bind) (rule run_eq, rule Cons.IH, simp_all)
qed

lemma run_collect_all_keys:
  "holds X a t rs \<Longrightarrow> run (collect_all_keys X t c) a (expired_keys c rs ALL_METRIC_TYPES) a"
  using run_collect_all [of a t rs c "[]" ALL_METRIC_TYPES] by (simp add: collect_all_keys_def)

lemma run_remove_all:
  assumes "holds X a t rs"
  shows "run (apply_batch X t (map BRemove (expired_keys c rs ALL_METRIC_TYPES))) a ()
    (set_tree t (map (entry X) (filter (\<lambda>r. \<not> expired c r) rs)) a)"
  by (rule run_eq, rule do_batch) (use assms in \<open>simp_all add: remove_expired\<close>)

lemma run_cleanup_old_data:
  assumes "holds X a ''metrics'' rs" and "c = retention_cutoff days now"
  shows "run (cleanup_old_data X (Inr now) days) a (of_nat (length (filter (expired c) rs)))
    (set_tree ''metrics'' (map (entry X) (filter (\<lambda>r. \<not> expired c r) rs)) a)"
  unfolding cleanup_old_data_def Let_def assms(2) [symmetric]
  by (rule run_eq, rule run_bind, rule run_lift, rule refl, unfold assms(2) [symmetric], rule run_bind,
      rule run_tree(1), rule run_bind, rule run_collect_all_keys [OF assms(1)], rule run_bind,
      rule run_remove_all [OF assms(1)], rule run_ret)
    (simp_all only: length_expired_keys)

lemma count_zero:
  assumes "length rs < 2 ^ 64" and "\<not> 0 < (of_nat (length (filter P rs)) :: u64)"
  shows "filter P rs = []"
proof -
  have "length (filter P rs) < 2 ^ 64" using assms(1) length_filter_le [of P rs] by linarith
  then have "unat (of_nat (length (filter P rs)) :: u64) = length (filter P rs)"
    by (simp add: unat_of_nat)
  moreover have "(of_nat (length (filter P rs)) :: u64) = 0" using assms(2) by (simp add: word_gt_0)
  ultimately show ?thesis by simp
qed

lemma run_delete_before:
  assumes "holds X a t rs" and "length rs < 2 ^ 64"
  shows "run (delete_from_tree_before X t c) a (of_nat (length (filter (expired c) rs)))
    (set_tree t (map (entry X) (filter (\<lambda>r. \<not> expired c r) rs)) a)"
proof -
  let ?ks = "expired_keys c rs ALL_METRIC_TYPES" and ?n = "of_nat (length (filter (expired c) rs)) :: u64"
  have del: "run (if 0 < ?n then apply_batch X t (map BRemove ?ks) else retS ()) a ()
      (set_tree t (map (entry X) (filter (\<lambda>r. \<not> expired c r) rs)) a)"
  proof (cases "0 < ?n")
    case False
    then have "filter (\<lambda>r. \<not> expired c r) rs = rs"
      using count_zero [OF assms(2)] by (metis (no_types, lifting) filter_True filter_empty_conv)
    then show ?thesis using False holds_set_tree [OF assms(1)] run_ret by simp
  qed (simp add: run_remove_all assms(1))
  show ?thesis
    unfolding delete_from_tree_before_def Let_def
    by (rule run_eq, rule run_bind, rule run_collect_all_keys [OF assms(1)],
        unfold length_expired_keys, rule run_bind, rule del, rule run_ret) simp_all
qed

lemma run_cleanup_type:
  assumes "holds X a t rs" and "length rs < 2 ^ 64" and "c = retention_cutoff (retention_days_for config mt) now"
  shows "run (cleanup_type X t config now n mt) a (n + of_nat (length (filter (in_range mt 0 c) rs)))
    (set_tree t (map (entry X) (filter (\<lambda>r. \<not> in_range mt 0 c r) rs)) a)"
proof -
  let ?fs = "filter (in_range mt 0 c) rs"
  let ?k = "of_nat (length (map rkey ?fs)) :: u64"
  have batch: "run (apply_batch X t (map BRemove (map rkey ?fs))) a ()
      (set_tree t (map (entry X) (filter (\<lambda>r. \<not> in_range mt 0 c r) rs)) a)"
    by (rule run_eq, rule do_batch)
      (use remove_expired [OF assms(1) refl, where mts = "[mt]" and c = c] in \<open>simp_all add: in_range_expired\<close>)
  have "run (if 0 < ?k then bindS (apply_batch X t (map BRemove (map rkey ?fs))) (\<lambda>_. retS (n + ?k)) else retS n) a
      (n + of_nat (length ?fs)) (set_tree t (map (entry X) (filter (\<lambda>r. \<not> in_range mt 0 c r) rs)) a)"
  proof (cases "0 < ?k")
    case True
    have "run (bindS (apply_batch X t (map BRemove (map rkey ?fs))) (\<lambda>_. retS (n + ?k))) a
      (n + ?k) (set_tree t (map (entry X) (filter (\<lambda>r. \<not> in_range mt 0 c r) rs)) a)"
      by (rule run_bind, rule batch, rule run_ret)
    with True show ?thesis by simp
  next
    case False
    then have nil: "?fs = []" using count_zero [OF assms(2)] by (simp only: length_map) blast
    then have "filter (\<lambda>r. \<not> in_range mt 0 c r) rs = rs"
      by (metis (no_types, lifting) filter_True filter_empty_conv)
    then show ?thesis using nil holds_set_tree [OF assms(1)] run_ret by simp
  qed
  then show ?thesis
    unfolding cleanup_type_def Let_def assms(3) [symmetric]
    by (intro run_bind [OF run_collect_keys [OF assms(1)]])
qed

text \<open>A record expires by the retention of its own type.\<close>

lemma run_cleanup_loop:
  assumes "holds X a t rs" and "length rs < 2 ^ 64" and "distinct mts"
    and "ex = (\<lambda>r. expired (retention_cutoff (retention_days_for config (rec_type r)) now) r)"
  shows "run (foldS (cleanup_type X t config now) n mts) a
    (n + of_nat (length (filter (\<lambda>r. rec_type r \<in> set mts \<and> ex r) rs)))
    (set_tree t (map (entry X) (filter (\<lambda>r. \<not> (rec_type r \<in> set mts \<and> ex r)) rs)) a)"
  using assms(1-3)
proof (induction mts arbitrary: n a rs)
  case Nil
  then show ?case using run_ret [of n a] by (simp add: holds_set_tree)
next
  case (Cons mt mts)
  let ?in = "in_range mt 0 (retention_cutoff (retention_days_for config mt) now)"
  let ?rs = "filter (\<lambda>r. \<not> ?in r) rs"
  have inr: "?in r \<longleftrightarrow> rec_type r = mt \<and> ex r" for r
    by (auto simp: in_range_expired assms(4))
  have h: "holds X (set_tree t (map (entry X) ?rs) a) t ?rs" by (rule holds_filter [OF Cons.prems(1)])
  have len: "length ?rs < 2 ^ 64"
    using Cons.prems(2) length_filter_le [of "\<lambda>r. \<not> ?in r" rs] by linarith
  note step = run_cleanup_type [OF Cons.prems(1,2) refl, where config = config and mt = mt and now = now and n = n]
  have IH: "run (foldS (cleanup_type X t config now) (n + of_nat (length (filter ?in rs))) mts)
      (set_tree t (map (entry X) ?rs) a)
      (n + of_nat (length (filter ?in rs)) + of_nat (length (filter (\<lambda>r. rec_type r \<in> set mts \<and> ex r) ?rs)))
      (set_tree t (map (entry X) (filter (\<lambda>r. \<not> (rec_type r \<in> set mts \<and> ex r)) ?rs)) a)"
    by (rule run_eq, rule Cons.IH [OF h len]) (use Cons.prems(3) in \<open>simp_all\<close>)
  have "length (filter ?in rs) + length (filter (\<lambda>r. rec_type r \<in> set mts \<and> ex r) ?rs) =
      length (filter (\<lambda>r. rec_type r \<in> set (mt # mts) \<and> ex r) rs)"
    using Cons.prems(3) unfolding inr by (induction rs) auto
  then have cnt: "(of_nat (length (filter ?in rs)) + of_nat (length (filter (\<lambda>r. rec_type r \<in> set mts \<and> ex r) ?rs)) :: u64) =
      of_nat (length (filter (\<lambda>r. rec_type r \<in> set (mt # mts) \<and> ex r) rs))"
    unfolding of_nat_add [symmetric] by (rule arg_cong)
  have keep: "filter (\<lambda>r. \<not> (rec_type r \<in> set mts \<and> ex r)) ?rs = filter (\<lambda>r. \<not> (rec_type r \<in> set (mt # mts) \<and> ex r)) rs"
    unfolding filter_filter by (rule filter_cong) (auto simp: inr)
  show ?case
    unfolding foldS.simps
    by (rule run_eq, rule run_bind, rule step, rule IH) (simp_all only: cnt keep add.assoc)
qed

lemma run_set_last_cleanup:
  assumes "u64_to_vec X ts = Inr v"
  shows "run (set_last_cleanup_ts X ts) a () (set_tree ''meta'' (upd META_LAST_CLEANUP v (trees a ''meta'')) a)"
  unfolding set_last_cleanup_ts_def
  by (rule run_bind, rule run_tree(2), rule run_bind, rule run_lift, rule assms, rule do_insert)

lemma run_get_metadata:
  assumes "case map_of (trees a t) k of Some b \<Rightarrow> from_slice b = Inr x | None \<Rightarrow> d = x"
  shows "run (get_metadata X from_slice t k d) a x a"
  unfolding get_metadata_def
  by (rule run_bind, rule do_get) (use assms in \<open>auto split: option.splits intro: run_lift run_ret\<close>)

section \<open>Export\<close>

lemma run_export_items:
  assumes "files a p = Some ls" and "\<And>r. r \<in> set fs \<Longrightarrow> roundtrips X r"
  shows "run (foldS (export_item X p) n (map (\<lambda>r. Inr (entry X r)) fs)) a (n + of_nat (length fs))
    (set_file p (ls @ map (bytes X) fs) a)"
  using assms
proof (induction fs arbitrary: n a ls)
  case Nil
  then show ?case using run_ret [of n a] by (simp add: set_file_idle)
next
  case (Cons r fs)
  have enc: "bindR (Inr (entry X r)) (\<lambda>(_, v). bindR (rec_from_slice X v) (rec_to_vec X)) = Inr (bytes X r)"
    using roundtrips_bytes [of X r] Cons.prems(2) [of r] by simp
  have item: "run (export_item X p n (Inr (entry X r))) a (n + 1) (set_file p (ls @ [bytes X r]) a)"
    unfolding export_item_def
    by (rule run_bind, rule run_lift, rule enc, rule run_bind, rule do_writeln, rule Cons.prems(1), rule run_ret)
  have "run (foldS (export_item X p) (n + 1) (map (\<lambda>r. Inr (entry X r)) fs)) (set_file p (ls @ [bytes X r]) a)
      (n + 1 + of_nat (length fs)) (set_file p ((ls @ [bytes X r]) @ map (bytes X) fs) a)"
    by (rule run_eq, rule Cons.IH [of _ "ls @ [bytes X r]"]) (use Cons.prems(2) in \<open>simp_all\<close>)
  then show ?case
    unfolding list.map foldS.simps
    by (intro run_bind [OF item]) (simp add: add.assoc)
qed

lemma run_export_type:
  assumes "holds X a t rs" and "files a p = Some ls"
  shows "run (export_type X t p n mt c) a (n + of_nat (length (filter (in_range mt 0 c) rs)))
    (set_file p (ls @ map (bytes X) (filter (in_range mt 0 c) rs)) a)"
  unfolding export_type_def
  by (rule run_bind, rule run_items [OF assms(1)], rule run_export_items [OF assms(2)])
    (use assms(1) in \<open>simp add: holds_def\<close>)

lemma run_export_loop:
  assumes "holds X a t rs" and "files a p = Some ls"
  shows "run (foldS (\<lambda>n mt. export_type X t p n mt (c mt)) n mts) a
    (n + of_nat (length (expired_of c rs mts))) (set_file p (ls @ map (bytes X) (expired_of c rs mts)) a)"
  using assms
proof (induction mts arbitrary: n a ls)
  case Nil
  then show ?case using run_ret [of n a] by (simp add: set_file_idle)
next
  case (Cons mt mts)
  let ?fs = "filter (in_range mt 0 (c mt)) rs"
  have "run (foldS (\<lambda>n mt. export_type X t p n mt (c mt)) (n + of_nat (length ?fs)) mts)
      (set_file p (ls @ map (bytes X) ?fs) a)
      (n + of_nat (length ?fs) + of_nat (length (expired_of c rs mts)))
      (set_file p ((ls @ map (bytes X) ?fs) @ map (bytes X) (expired_of c rs mts)) a)"
    by (rule run_eq, rule Cons.IH [of _ "ls @ map (bytes X) ?fs"]) (use Cons.prems in \<open>simp_all\<close>)
  then show ?case
    unfolding foldS.simps
    by (intro run_bind [OF run_export_type [OF Cons.prems]]) (simp add: add.assoc)
qed

lemma run_export:
  assumes "holds X a ''metrics'' rs"
    and "c = (\<lambda>mt. retention_cutoff (retention_days_for config mt) now)"
  shows "run (export_metrics_to_jsonl X p config now) a (of_nat (length (expired_of c rs ALL_METRIC_TYPES)))
    (set_file p (map (bytes X) (expired_of c rs ALL_METRIC_TYPES)) a)"
proof -
  have "run (foldS (\<lambda>n mt. export_type X ''metrics'' p n mt (c mt)) 0 ALL_METRIC_TYPES) (set_file p [] a)
      (0 + of_nat (length (expired_of c rs ALL_METRIC_TYPES)))
      (set_file p ([] @ map (bytes X) (expired_of c rs ALL_METRIC_TYPES)) (set_file p [] a))"
    by (rule run_export_loop) (use assms(1) in simp_all)
  then show ?thesis
    unfolding export_metrics_to_jsonl_def Let_def assms(2)
    by (intro run_bind [OF do_create] run_bind [OF run_tree(1)]) simp
qed

text \<open>The whole cleanup, with and without the export.\<close>

lemma run_cleanup_finish:
  assumes "holds X a ''metrics'' rs" and "length rs < 2 ^ 64" and "u64_to_vec X now = Inr v"
    and "ex = (\<lambda>r. expired (retention_cutoff (retention_days_for config (rec_type r)) now) r)"
    and "b = set_tree ''metrics'' (map (entry X) (filter (\<lambda>r. \<not> ex r) rs)) a"
  shows "run (bindS (foldS (cleanup_type X ''metrics'' config now) 0 ALL_METRIC_TYPES) (\<lambda>total_deleted.
     bindS (set_last_cleanup_ts X now) (\<lambda>_.
     retS \<lparr> deleted_count = total_deleted, exported_count = n, export_path = p \<rparr>))) a
    \<lparr> deleted_count = of_nat (length (filter ex rs)), exported_count = n, export_path = p \<rparr>
    (set_tree ''meta'' (upd META_LAST_CLEANUP v (trees a ''meta'')) b)"
proof -
  have loop: "run (foldS (cleanup_type X ''metrics'' config now) 0 ALL_METRIC_TYPES) a (of_nat (length (filter ex rs))) b"
    by (rule run_eq, rule run_cleanup_loop [OF assms(1,2) distinct_ALL_METRIC_TYPES assms(4)])
      (simp_all add: assms(5))
  have "trees b ''meta'' = trees a ''meta''" by (simp add: assms(5))
  then have ts: "run (set_last_cleanup_ts X now) b () (set_tree ''meta'' (upd META_LAST_CLEANUP v (trees a ''meta'')) b)"
    using run_set_last_cleanup [OF assms(3), of b] by simp
  show ?thesis
    by (rule run_bind, rule loop, rule run_bind, rule ts, rule run_ret)
qed

lemma run_cleanup_with_config:
  assumes "holds X a ''metrics'' rs" and "length rs < 2 ^ 64" and "u64_to_vec X now = Inr v"
    and "ex = (\<lambda>r. expired (retention_cutoff (retention_days_for config (rec_type r)) now) r)"
    and "\<not> (export_before_delete config \<and> export_dir config \<noteq> None)"
  shows "run (cleanup_with_config X (Inr now) nanos config) a
    \<lparr> deleted_count = of_nat (length (filter ex rs)), exported_count = 0, export_path = None \<rparr>
    (set_tree ''meta'' (upd META_LAST_CLEANUP v (trees a ''meta''))
      (set_tree ''metrics'' (map (entry X) (filter (\<lambda>r. \<not> ex r) rs)) a))"
proof -
  have none: "run (case (export_before_delete config, export_dir config) of
         (True, Some dir) \<Rightarrow>
           bindS (create_dir_all X dir) (\<lambda>_.
           let path = export_file_path dir now nanos in
           bindS (export_metrics_to_jsonl X path config now) (\<lambda>n. retS (n, Some path)))
       | _ \<Rightarrow> retS (0, None)) a (0, None) a"
    using assms(5) run_ret by (cases "export_before_delete config"; cases "export_dir config") simp_all
  show ?thesis
    unfolding cleanup_with_config_def
    by (rule run_bind, rule run_lift, rule refl, rule run_bind, rule run_tree(1), rule run_bind, rule none,
        unfold prod.case, rule run_cleanup_finish [OF assms(1-4) refl])
qed

lemma run_cleanup_with_export:
  assumes "holds X a ''metrics'' rs" and "length rs < 2 ^ 64" and "u64_to_vec X now = Inr v"
    and "ex = (\<lambda>r. expired (retention_cutoff (retention_days_for config (rec_type r)) now) r)"
    and "c = (\<lambda>mt. retention_cutoff (retention_days_for config mt) now)"
    and "export_before_delete config" and "export_dir config = Some dir"
    and "p = export_file_path dir now nanos"
  shows "run (cleanup_with_config X (Inr now) nanos config) a
    \<lparr> deleted_count = of_nat (length (filter ex rs)),
      exported_count = of_nat (length (expired_of c rs ALL_METRIC_TYPES)), export_path = Some p \<rparr>
    (set_tree ''meta'' (upd META_LAST_CLEANUP v (trees a ''meta''))
      (set_tree ''metrics'' (map (entry X) (filter (\<lambda>r. \<not> ex r) rs))
        (set_file p (map (bytes X) (expired_of c rs ALL_METRIC_TYPES)) a)))"
proof -
  let ?b = "set_file p (map (bytes X) (expired_of c rs ALL_METRIC_TYPES)) a"
  let ?n = "of_nat (length (expired_of c rs ALL_METRIC_TYPES)) :: u64"
  have exp: "run (case (export_before_delete config, export_dir config) of
         (True, Some dir) \<Rightarrow>
           bindS (create_dir_all X dir) (\<lambda>_.
           let path = export_file_path dir now nanos in
           bindS (export_metrics_to_jsonl X path config now) (\<lambda>n. retS (n, Some path)))
       | _ \<Rightarrow> retS (0, None)) a (?n, Some p) ?b"
    unfolding assms(7) eqTrueI [OF assms(6)] prod.case bool.case option.case Let_def assms(8) [symmetric]
    by (rule run_bind, rule do_mkdir, rule run_bind, rule run_export [OF assms(1,5)], rule run_ret)
  have hb: "holds X ?b ''metrics'' rs" using assms(1) by simp
  have fin: "run (bindS (foldS (cleanup_type X ''metrics'' config now) 0 ALL_METRIC_TYPES) (\<lambda>total_deleted.
     bindS (set_last_cleanup_ts X now) (\<lambda>_.
     retS \<lparr> deleted_count = total_deleted, exported_count = ?n, export_path = Some p \<rparr>))) ?b
    \<lparr> deleted_count = of_nat (length (filter ex rs)), exported_count = ?n, export_path = Some p \<rparr>
    (set_tree ''meta'' (upd META_LAST_CLEANUP v (trees a ''meta''))
      (set_tree ''metrics'' (map (entry X) (filter (\<lambda>r. \<not> ex r) rs)) ?b))"
    using run_cleanup_finish [OF hb assms(2-4) refl, of ?n "Some p"] by simp
  show ?thesis
    unfolding cleanup_with_config_def
    by (rule run_bind, rule run_lift, rule refl, rule run_bind, rule run_tree(1), rule run_bind, rule exp,
        unfold prod.case, rule fin)
qed

lemma run_get_last_cleanup:
  assumes "sorted_wrt (<) (map fst (trees a ''meta''))" and "opt_u64_from_slice X v = Inr (Some ts)"
  shows "run (get_last_cleanup_ts X) (set_tree ''meta'' (upd META_LAST_CLEANUP v (trees a ''meta'')) b)
    (Some ts) (set_tree ''meta'' (upd META_LAST_CLEANUP v (trees a ''meta'')) b)"
  unfolding get_last_cleanup_ts_def
  by (rule run_bind, rule run_tree(2), rule run_get_metadata)
    (simp add: map_of_upd [OF assms(1)] assms(2))

end

text \<open>The deleted records, grouped by type, are the expired ones.\<close>

lemma expired_of_types:
  "expired_of c rs mts = concat (map (\<lambda>mt. filter (\<lambda>r. rec_type r = mt \<and> expired (c (rec_type r)) r) rs) mts)"
  by (intro arg_cong [where f = concat] map_cong refl filter_cong) (auto simp: in_range_expired)

lemma filter_by_type:
  "distinct mts \<Longrightarrow> filter (\<lambda>r. rec_type r = mt) (concat (map (\<lambda>m. filter (\<lambda>r. rec_type r = m \<and> P r) rs) mts)) =
     (if mt \<in> set mts then filter (\<lambda>r. rec_type r = mt \<and> P r) rs else [])"
proof (induction mts)
  case (Cons m mts)
  have "filter (\<lambda>r. (rec_type r = m \<and> P r) \<and> rec_type r = mt) rs = (if mt = m then filter (\<lambda>r. rec_type r = mt \<and> P r) rs else [])"
    by (auto simp: filter_empty_conv intro: filter_cong)
  with Cons show ?case by auto
qed simp

lemma length_expired_of:
  "length (expired_of c rs ALL_METRIC_TYPES) = length (filter (\<lambda>r. expired (c (rec_type r)) r) rs)"
proof -
  show ?thesis
    using length_by_type [OF distinct_ALL_METRIC_TYPES, of "\<lambda>r. expired (c (rec_type r)) r" rs]
    by (simp add: expired_of_types length_concat comp_def)
qed

lemma set_expired_of:
  "set (expired_of c rs ALL_METRIC_TYPES) = set (filter (\<lambda>r. expired (c (rec_type r)) r) rs)"
  by (auto simp: in_range_expired)

section \<open>Properties\<close>

text \<open>C36: \<open>cleanup_old_data\<close> deletes from the raw tree exactly the records up to the cutoff (now minus
  the retention, saturating at zero), whatever their type, reports how many, keeps every other
  record and every other tree, and a second run at the same time deletes nothing.\<close>

theorem cleanup_old_exact:
  assumes "store X healthy absw" and "healthy w" and "holds X (absw w) ''metrics'' rs"
  shows "\<exists>w1 w2. let c = retention_cutoff days now; keep = filter (\<lambda>r. \<not> expired c r) rs in
    cleanup_old_data X (Inr now) days w = (Inr (of_nat (length (filter (expired c) rs))), w1) \<and>
    holds X (absw w1) ''metrics'' keep \<and>
    (\<forall>t. t \<noteq> ''metrics'' \<longrightarrow> trees (absw w1) t = trees (absw w) t) \<and>
    cleanup_old_data X (Inr now) days w1 = (Inr 0, w2) \<and> absw w2 = absw w1"
proof -
  let ?c = "retention_cutoff days now"
  let ?keep = "filter (\<lambda>r. \<not> expired ?c r) rs"
  let ?a = "set_tree ''metrics'' (map (entry X) ?keep) (absw w)"
  obtain w1 where w1: "cleanup_old_data X (Inr now) days w = (Inr (of_nat (length (filter (expired ?c) rs))), w1)"
      "healthy w1" "absw w1 = ?a"
    by (rule runsE [OF store.run_cleanup_old_data [OF assms(1,3) refl] assms(2) refl])
  have h: "holds X ?a ''metrics'' ?keep" by (rule holds_filter [OF assms(3)])
  obtain w2 where w2: "cleanup_old_data X (Inr now) days w1 = (Inr (of_nat (length (filter (expired ?c) ?keep))), w2)"
      "absw w2 = set_tree ''metrics'' (map (entry X) (filter (\<lambda>r. \<not> expired ?c r) ?keep)) ?a"
    by (rule runsE [OF store.run_cleanup_old_data [OF assms(1) h refl] w1(2,3)])
  have none: "filter (expired ?c) ?keep = []" "filter (\<lambda>r. \<not> expired ?c r) ?keep = ?keep" by simp_all
  have "cleanup_old_data X (Inr now) days w1 = (Inr 0, w2)" using w2(1) unfolding none by simp
  moreover have "absw w2 = absw w1" using w2(2) unfolding none w1(3) by simp
  moreover have "\<forall>t. t \<noteq> ''metrics'' \<longrightarrow> trees (absw w1) t = trees (absw w) t" unfolding w1(3) by simp
  moreover have "holds X (absw w1) ''metrics'' ?keep" using h unfolding w1(3) .
  ultimately show ?thesis unfolding Let_def using w1(1) by blast
qed

theorem cleanup_old_exact_witness:
  "\<exists>w1. cleanup_old_data (ref_ext w_recs) (Inr 86550) 1 w_world = (Inr 2, w1) \<and>
     holds (ref_ext w_recs) w1 ''metrics'' [net_rec ''curl'' 200 6 8]"
proof -
  have h: "holds (ref_ext w_recs) (id w_world) ''metrics'' w_recs"
    using w_world_holds [of "''metrics''"] by (simp add: w_db_def)
  have c: "retention_cutoff 1 86550 = 150" by code_simp
  have v: "filter (\<lambda>r. \<not> expired 150 r) w_recs = [net_rec ''curl'' 200 6 8]"
    "(of_nat (length (filter (expired 150) w_recs)) :: u64) = 2"
    by code_simp+
  show ?thesis
    using cleanup_old_exact [OF ref.store_axioms w_world_healthy h, of 1 86550]
    unfolding Let_def c v id_apply by blast
qed

text \<open>C10: Cleanup with per-type retention.  The raw tree keeps exactly the records that their own type's
  retention does not expire; the report counts the deleted ones; the time of the run is recorded
  and reads back; without a configured export nothing is written.\<close>

theorem cleanup_config_exact:
  assumes "store X healthy absw" and "healthy w" and "holds X (absw w) ''metrics'' rs"
    and "length rs < 2 ^ 64" and "u64_to_vec X now = Inr v" and "opt_u64_from_slice X v = Inr (Some now)"
    and "\<not> (export_before_delete config \<and> export_dir config \<noteq> None)"
  shows "\<exists>w1 w2. let gone = (\<lambda>r. expired (retention_cutoff (retention_days_for config (rec_type r)) now) r) in
    cleanup_with_config X (Inr now) nanos config w =
      (Inr \<lparr> deleted_count = of_nat (length (filter gone rs)), exported_count = 0, export_path = None \<rparr>, w1) \<and>
    holds X (absw w1) ''metrics'' (filter (\<lambda>r. \<not> gone r) rs) \<and> files (absw w1) = files (absw w) \<and>
    (\<forall>t. t \<notin> {''metrics'', ''meta''} \<longrightarrow> trees (absw w1) t = trees (absw w) t) \<and>
    get_last_cleanup_ts X w1 = (Inr (Some now), w2)"
proof -
  let ?g = "\<lambda>r. expired (retention_cutoff (retention_days_for config (rec_type r)) now) r"
  let ?b = "set_tree ''metrics'' (map (entry X) (filter (\<lambda>r. \<not> ?g r) rs)) (absw w)"
  let ?a = "set_tree ''meta'' (upd META_LAST_CLEANUP v (trees (absw w) ''meta'')) ?b"
  obtain w1 where w1: "cleanup_with_config X (Inr now) nanos config w =
      (Inr \<lparr> deleted_count = of_nat (length (filter ?g rs)), exported_count = 0, export_path = None \<rparr>, w1)"
      "healthy w1" "absw w1 = ?a"
    by (rule runsE [OF store.run_cleanup_with_config [OF assms(1,3-5) refl assms(7)] assms(2) refl])
  obtain w2 where w2: "get_last_cleanup_ts X w1 = (Inr (Some now), w2)"
    by (rule runsE [OF store.run_get_last_cleanup [OF assms(1) store.trees_sorted [OF assms(1,2)] assms(6)] w1(2,3)])
  have "holds X ?a ''metrics'' (filter (\<lambda>r. \<not> ?g r) rs)"
    using holds_filter [OF assms(3)] by (simp add: holds_other)
  with w1 w2 show ?thesis by (simp add: Let_def)
qed

definition w_config :: RetentionConfig where
  "w_config = RetentionConfig_default\<lparr>net_days := 1\<rparr>"

theorem cleanup_config_exact_witness:
  "\<exists>w1 w2. cleanup_with_config (ref_ext w_recs) (Inr 86550) None w_config w_world =
      (Inr \<lparr> deleted_count = 2, exported_count = 0, export_path = None \<rparr>, w1) \<and>
     get_last_cleanup_ts (ref_ext w_recs) w1 = (Inr (Some 86550), w2)"
proof -
  have h: "holds (ref_ext w_recs) (id w_world) ''metrics'' w_recs"
    using w_world_holds [of "''metrics''"] by (simp add: w_db_def)
  obtain v where v: "u64_to_vec (ref_ext w_recs) 86550 = Inr v"
      "opt_u64_from_slice (ref_ext w_recs) v = Inr (Some 86550)"
    using ref_u64_roundtrip by blast
  have n: "(of_nat (length (filter (\<lambda>r. expired (retention_cutoff (retention_days_for w_config (rec_type r)) 86550) r) w_recs)) :: u64) = 2"
    "\<not> (export_before_delete w_config \<and> export_dir w_config \<noteq> None)"
    by code_simp+
  have len: "length w_recs < 2 ^ 64" by (simp add: w_recs_def)
  show ?thesis
    using cleanup_config_exact [OF ref.store_axioms w_world_healthy h len v n(2), of None]
    unfolding Let_def n(1) by blast
qed

text \<open>C11: Export before delete.  With an export directory configured, the file written before the
  deletion holds one line per deleted record, its encoding: the types one after the other in the order of \<open>ALL_METRIC_TYPES\<close>,
  and each type's records in key order.  Both counts of the report agree, and exactly these records are gone from the tree.\<close>

theorem export_before_delete_complete:
  assumes "store X healthy absw" and "healthy w" and "holds X (absw w) ''metrics'' rs"
    and "length rs < 2 ^ 64" and "u64_to_vec X now = Inr v"
    and "export_before_delete config" and "export_dir config = Some dir"
  shows "\<exists>w1. let p = export_file_path dir now nanos;
      dropped = (\<lambda>r. expired (retention_cutoff (retention_days_for config (rec_type r)) now) r);
      gone = concat (map (\<lambda>mt. filter (\<lambda>r. rec_type r = mt \<and> dropped r) rs) ALL_METRIC_TYPES) in
    set gone = {r \<in> set rs. dropped r} \<and> (\<forall>mt. key_sorted (filter (\<lambda>r. rec_type r = mt) gone)) \<and>
    cleanup_with_config X (Inr now) nanos config w =
      (Inr \<lparr> deleted_count = of_nat (length gone), exported_count = of_nat (length gone), export_path = Some p \<rparr>, w1) \<and>
    files (absw w1) p = Some (map (bytes X) gone) \<and>
    holds X (absw w1) ''metrics'' (filter (\<lambda>r. r \<notin> set gone) rs)"
proof -
  let ?c = "\<lambda>mt. retention_cutoff (retention_days_for config mt) now"
  let ?g = "\<lambda>r. expired (?c (rec_type r)) r" and ?p = "export_file_path dir now nanos"
  let ?gone = "expired_of ?c rs ALL_METRIC_TYPES"
  let ?f = "set_file ?p (map (bytes X) ?gone) (absw w)"
  let ?b = "set_tree ''metrics'' (map (entry X) (filter (\<lambda>r. \<not> ?g r) rs)) ?f"
  let ?a = "set_tree ''meta'' (upd META_LAST_CLEANUP v (trees (absw w) ''meta'')) ?b"
  obtain w1 where w1: "cleanup_with_config X (Inr now) nanos config w =
      (Inr \<lparr> deleted_count = of_nat (length (filter ?g rs)), exported_count = of_nat (length ?gone), export_path = Some ?p \<rparr>, w1)"
      "absw w1 = ?a"
    by (rule runsE [OF store.run_cleanup_with_export [OF assms(1,3-5) refl refl assms(6,7) refl] assms(2) refl])
  have len: "length (filter ?g rs) = length ?gone" by (simp only: length_expired_of)
  have set: "set ?gone = {r \<in> set rs. ?g r}" using set_expired_of [of ?c rs] by simp
  have keep: "filter (\<lambda>r. \<not> ?g r) rs = filter (\<lambda>r. r \<notin> set ?gone) rs"
    unfolding set by (rule filter_cong) auto
  have "holds X ?f ''metrics'' rs" using assms(3) by simp
  from holds_filter [OF this] have hold: "holds X ?a ''metrics'' (filter (\<lambda>r. \<not> ?g r) rs)"
    by (simp add: holds_other)
  have "cleanup_with_config X (Inr now) nanos config w = (Inr \<lparr> deleted_count = of_nat (length ?gone),
      exported_count = of_nat (length ?gone), export_path = Some ?p \<rparr>, w1)"
    using w1(1) unfolding len .
  moreover have "files (absw w1) ?p = Some (map (bytes X) ?gone)" unfolding w1(2) by simp
  moreover have "holds X (absw w1) ''metrics'' (filter (\<lambda>r. r \<notin> set ?gone) rs)"
    using hold unfolding w1(2) keep .
  moreover have "key_sorted (filter (\<lambda>r. rec_type r = mt) ?gone)" for mt
    using assms(3) unfolding expired_of_types filter_by_type [OF distinct_ALL_METRIC_TYPES]
    by (cases mt) (simp_all add: holds_def sorted_wrt_map sorted_wrt_filter)
  ultimately show ?thesis using set unfolding Let_def expired_of_types by blast
qed

definition w_export_config :: RetentionConfig where
  "w_export_config = w_config\<lparr>export_before_delete := True, export_dir := Some ''/var/export''\<rparr>"

theorem export_before_delete_complete_witness:
  "\<exists>w1. cleanup_with_config (ref_ext w_recs) (Inr 86550) (Some 42) w_export_config w_world =
      (Inr \<lparr> deleted_count = 2, exported_count = 2, export_path = Some ''/var/export/export-42.jsonl'' \<rparr>, w1) \<and>
     files w1 ''/var/export/export-42.jsonl'' =
       Some (map (bytes (ref_ext w_recs)) [net_rec ''curl'' 100 5 7, net_rec ''ssh'' 100 1 2])"
proof -
  have h: "holds (ref_ext w_recs) (id w_world) ''metrics'' w_recs"
    using w_world_holds [of "''metrics''"] by (simp add: w_db_def)
  obtain v where v: "u64_to_vec (ref_ext w_recs) 86550 = Inr v" using ref_u64_roundtrip by blast
  have len: "length w_recs < 2 ^ 64" by (simp add: w_recs_def)
  have n: "export_before_delete w_export_config"
    "export_dir w_export_config = Some ''/var/export''" and d: "dec 42 = ''42''"
    by code_simp+
  have p: "export_file_path ''/var/export'' 86550 (Some 42) = ''/var/export/export-42.jsonl''"
    by (simp add: export_file_path_def path_join_def d)
  have gone: "concat (map (\<lambda>mt. filter (\<lambda>r. rec_type r = mt \<and>
      expired (retention_cutoff (retention_days_for w_export_config (rec_type r)) 86550) r) w_recs) ALL_METRIC_TYPES) =
    [net_rec ''curl'' 100 5 7, net_rec ''ssh'' 100 1 2]" by code_simp
  show ?thesis
    using export_before_delete_complete [OF ref.store_axioms w_world_healthy h len v n(1,2), of "Some 42"]
    unfolding Let_def p id_apply gone by auto
qed

end
