(* ===== verification/Tiers.thy ===== *)
theory Tiers
  imports Cleanup
begin

text \<open>
  Tiered retention (\<open>heimwatch-storage/src/db.rs\<close>, third part): aggregating raw records to days, days
  to months and months to years, deleting what was aggregated, and the whole tiered cleanup.
  The three aggregations are one loop over the metric types with a bucket function, a source and
  a destination tree.
\<close>

section \<open>Grouping and aggregating\<close>

text \<open>The \<open>BTreeMap\<close> from \<open>(bucket, application)\<close> to the records seen, in the order of its keys.\<close>

type_synonym groups = "((u64 \<times> string) \<times> MetricRecord list) list"

definition group_key :: "(u64 \<Rightarrow> u64) \<Rightarrow> MetricRecord \<Rightarrow> u64 \<times> string" where
  "group_key bucket r = (bucket (timestamp r), app_name r)"

definition group_add :: "(u64 \<Rightarrow> u64) \<Rightarrow> groups \<Rightarrow> MetricRecord \<Rightarrow> groups" where
  "group_add bucket g r =
     (let k = group_key bucket r in upd k (unwrap_or (map_of g k) [] @ [r]) g)"

text \<open>The second loop: aggregate each group under the time of its first record and add it to the
  batch.  A group is never empty, so its first record exists.\<close>

fun aggregate_groups ::
  "'w ext \<Rightarrow> MetricType \<Rightarrow> batch_op list \<Rightarrow> u64 \<Rightarrow> groups \<Rightarrow> any_error + batch_op list \<times> u64" where
  "aggregate_groups X mt batch tot [] = Inr (batch, tot)"
| "aggregate_groups X mt batch tot (((_, app), records) # gs) =
     (case aggregate_records records (timestamp (hd records)) of
        Some agg \<Rightarrow> bindR (rec_to_vec X agg) (\<lambda>v.
          aggregate_groups X mt (batch @ [BInsert (encode_key mt (timestamp agg) app) v]) (tot + 1) gs)
      | None \<Rightarrow> aggregate_groups X mt batch tot gs)"

definition aggregate_type ::
  "'w ext \<Rightarrow> (u64 \<Rightarrow> u64) \<Rightarrow> string \<Rightarrow> string \<Rightarrow> u64 \<Rightarrow> u64 \<Rightarrow> MetricType \<Rightarrow> ('w, u64) io" where
  "aggregate_type X bucket source_tree dest_tree cutoff total_written mt =
     bindS (scan_records X source_tree (range_start mt 0) (range_end mt cutoff)) (\<lambda>records.
     let gs = foldl (group_add bucket) [] records in
     bindS (liftS (aggregate_groups X mt [] total_written gs)) (\<lambda>(batch, total_written').
     bindS (if 0 < total_written' then apply_batch X dest_tree batch else retS ()) (\<lambda>_.
     retS total_written')))"

definition aggregate_raw_to_daily ::
  "'w ext \<Rightarrow> 'd chrono \<Rightarrow> u64 \<Rightarrow> TieredRetentionConfig \<Rightarrow> ('w, u64) io" where
  "aggregate_raw_to_daily X C now config =
     (let cutoff = sat_sub now (raw_hours config * 3600) in
      bindS (metrics_tree X) (\<lambda>source_tree.
      bindS (metrics_1d_tree X) (\<lambda>dest_tree.
      foldS (aggregate_type X (day_bucket C) source_tree dest_tree cutoff) 0 ALL_METRIC_TYPES)))"

definition aggregate_daily_to_monthly :: "'w ext \<Rightarrow> 'd chrono \<Rightarrow> u64 \<Rightarrow> ('w, u64) io" where
  "aggregate_daily_to_monthly X C now =
     (let cutoff = month_bucket C now in
      bindS (metrics_1d_tree X) (\<lambda>source_tree.
      bindS (metrics_1m_tree X) (\<lambda>dest_tree.
      foldS (aggregate_type X (month_bucket C) source_tree dest_tree cutoff) 0 ALL_METRIC_TYPES)))"

definition aggregate_monthly_to_yearly ::
  "'w ext \<Rightarrow> 'd chrono \<Rightarrow> u64 \<Rightarrow> TieredRetentionConfig \<Rightarrow> ('w, u64) io" where
  "aggregate_monthly_to_yearly X C now config =
     (let cutoff = subtract_months C now (monthly_keep_months config) in
      bindS (metrics_1m_tree X) (\<lambda>source_tree.
      bindS (metrics_1y_tree X) (\<lambda>dest_tree.
      foldS (aggregate_type X (year_bucket C) source_tree dest_tree cutoff) 0 ALL_METRIC_TYPES)))"

section \<open>The tiered cleanup\<close>

definition tiered_export ::
  "'w ext \<Rightarrow> u64 \<Rightarrow> nat option \<Rightarrow> TieredRetentionConfig \<Rightarrow> ('w, u64 \<times> string option) io" where
  "tiered_export X now nanos config =
     (case (t_export_before_delete config, t_export_dir config) of
        (True, Some dir) \<Rightarrow>
          bindS (create_dir_all X dir) (\<lambda>_.
          let path = export_file_path dir now nanos;
              cutoff = sat_sub now (raw_hours config * 3600) in
          bindS (metrics_tree X) (\<lambda>tree.
          bindS (file_create X path) (\<lambda>_.
          bindS (foldS (\<lambda>n mt. export_type X tree path n mt cutoff) 0 ALL_METRIC_TYPES) (\<lambda>n.
          retS (n, Some path)))))
      | _ \<Rightarrow> retS (0, None))"

definition cleanup_tiered ::
  "'w ext \<Rightarrow> 'd chrono \<Rightarrow> any_error + u64 \<Rightarrow> nat option \<Rightarrow> TieredRetentionConfig \<Rightarrow> ('w, TieredCleanupReport) io" where
  "cleanup_tiered X C clock nanos config =
     bindS (liftS clock) (\<lambda>now.
     bindS (tiered_export X now nanos config) (\<lambda>(n_exported, path).
     bindS (aggregate_raw_to_daily X C now config) (\<lambda>raw_agg.
     let raw_cutoff = sat_sub now (raw_hours config * 3600) in
     bindS (metrics_tree X) (\<lambda>raw_tree.
     bindS (delete_from_tree_before X raw_tree raw_cutoff) (\<lambda>raw_del.
     bindS (aggregate_daily_to_monthly X C now) (\<lambda>daily_agg.
     let daily_cutoff = month_bucket C now in
     bindS (metrics_1d_tree X) (\<lambda>daily_tree.
     bindS (delete_from_tree_before X daily_tree daily_cutoff) (\<lambda>daily_del.
     bindS (aggregate_monthly_to_yearly X C now config) (\<lambda>monthly_agg.
     let monthly_cutoff = subtract_months C now (monthly_keep_months config) in
     bindS (metrics_1m_tree X) (\<lambda>monthly_tree.
     bindS (delete_from_tree_before X monthly_tree monthly_cutoff) (\<lambda>monthly_del.
     let yearly_cutoff = subtract_months C now (sat_mul (yearly_keep_years config) 12) in
     bindS (metrics_1y_tree X) (\<lambda>yearly_tree.
     bindS (delete_from_tree_before X yearly_tree yearly_cutoff) (\<lambda>yearly_del.
     bindS (set_last_cleanup_ts X now) (\<lambda>_.
     retS \<lparr> raw_aggregated = raw_agg, raw_deleted = raw_del, daily_aggregated = daily_agg,
            daily_deleted = daily_del, monthly_aggregated = monthly_agg,
            monthly_deleted = monthly_del, yearly_deleted = yearly_del,
            t_exported_count = n_exported, t_export_path = path \<rparr>))))))))))))))"

section \<open>Groups\<close>

lemma group_add_sorted: "sorted_wrt (<) (map fst g) \<Longrightarrow> sorted_wrt (<) (map fst (group_add bucket g r))"
  by (simp add: group_add_def Let_def upd_sorted)

lemma groups_sorted:
  "sorted_wrt (<) (map fst g) \<Longrightarrow> sorted_wrt (<) (map fst (foldl (group_add bucket) g rs))"
  by (induction rs arbitrary: g) (simp_all add: group_add_sorted)

lemma map_of_groups:
  "sorted_wrt (<) (map fst g) \<Longrightarrow>
   map_of (foldl (group_add bucket) g rs) k =
     (if \<exists>r\<in>set rs. group_key bucket r = k
      then Some (unwrap_or (map_of g k) [] @ filter (\<lambda>r. group_key bucket r = k) rs)
      else map_of g k)"
proof (induction rs arbitrary: g)
  case (Cons r rs)
  have "map_of (group_add bucket g r) =
      (map_of g)(group_key bucket r \<mapsto> unwrap_or (map_of g (group_key bucket r)) [] @ [r])"
    using Cons.prems by (simp add: group_add_def Let_def map_of_upd)
  then show ?case using Cons.IH [OF group_add_sorted [OF Cons.prems]] by auto
qed simp

abbreviation groups_of :: "(u64 \<Rightarrow> u64) \<Rightarrow> MetricRecord list \<Rightarrow> groups" where
  "groups_of bucket rs \<equiv> foldl (group_add bucket) [] rs"

lemma group_mem:
  assumes "(k, g) \<in> set (groups_of bucket rs)"
  shows "g = filter (\<lambda>r. group_key bucket r = k) rs" and "g \<noteq> []"
proof -
  have "distinct (map fst (groups_of bucket rs))"
    using groups_sorted [of "[]" bucket rs] by (simp add: strict_sorted_iff)
  then have "map_of (groups_of bucket rs) k = Some g" using assms by simp
  then show "g = filter (\<lambda>r. group_key bucket r = k) rs" and "g \<noteq> []"
    by (auto simp: map_of_groups filter_empty_conv split: if_splits)
qed

lemma map_of_below: "\<forall>x\<in>set xs. k' < fst x \<Longrightarrow> k < k' \<Longrightarrow> map_of xs k = None"
  for k k' :: "'k::linorder"
  by (auto simp: map_of_eq_None_iff)

lemma mset_upd:
  "sorted_wrt (<) (map fst g) \<Longrightarrow> mset (concat (map snd (upd k v g))) + mset (unwrap_or (map_of g k) []) =
     mset (concat (map snd g)) + mset v"
  by (induction k v g rule: upd.induct) (auto simp: map_of_below)

lemma mset_groups: "sorted_wrt (<) (map fst g) \<Longrightarrow>
   mset (concat (map snd (foldl (group_add bucket) g rs))) = mset (concat (map snd g)) + mset rs"
proof (induction rs arbitrary: g)
  case (Cons r rs)
  have "mset (concat (map snd (group_add bucket g r))) = mset (concat (map snd g)) + {#r#}"
    using mset_upd [OF Cons.prems, of "group_key bucket r" "unwrap_or (map_of g (group_key bucket r)) [] @ [r]"]
    by (simp add: group_add_def Let_def)
  then show ?case using Cons.IH [OF group_add_sorted [OF Cons.prems]] by simp
qed simp

section \<open>The aggregates of one type\<close>

abbreviation agg_of :: "MetricRecord list \<Rightarrow> MetricRecord" where
  "agg_of g \<equiv> the (aggregate_records g (timestamp (hd g)))"

definition aggs :: "(u64 \<Rightarrow> u64) \<Rightarrow> MetricRecord list \<Rightarrow> MetricRecord list" where
  "aggs bucket rs = map (\<lambda>(_, g). agg_of g) (groups_of bucket rs)"

lemma group_agg:
  assumes "(k, g) \<in> set (groups_of bucket rs)" and "\<And>r. r \<in> set rs \<Longrightarrow> rec_type r = mt"
  shows "aggregate_records g (timestamp (hd g)) = Some (agg_of g)"
    and "app_name (agg_of g) = snd k" and "timestamp (agg_of g) = timestamp (hd g)"
    and "rec_type (agg_of g) = mt" and "hd g \<in> set rs" and "group_key bucket (hd g) = k"
    and "\<And>r. r \<in> set g \<Longrightarrow> rec_type r = mt \<and> app_name r = snd k"
proof -
  note g = group_mem [OF assms(1)]
  show agg: "aggregate_records g (timestamp (hd g)) = Some (agg_of g)"
    using aggregate_Some_iff [of g "timestamp (hd g)"] g(2) by (cases "aggregate_records g (timestamp (hd g))") auto
  have "hd g \<in> set (filter (\<lambda>r. group_key bucket r = k) rs)"
    using g by (metis hd_in_set)
  then show hd: "hd g \<in> set rs" "group_key bucket (hd g) = k" by simp_all
  obtain r g' where "g = r # g'" using g(2) by (cases g) auto
  with agg aggregate_meta [of r g' "timestamp (hd g)" "agg_of g"] hd assms(2) [of r]
  show "app_name (agg_of g) = snd k" "timestamp (agg_of g) = timestamp (hd g)" "rec_type (agg_of g) = mt"
    by (auto simp: group_key_def)
  show "\<And>r. r \<in> set g \<Longrightarrow> rec_type r = mt \<and> app_name r = snd k"
    using g(1) assms(2) by (auto simp: group_key_def)
qed

text \<open>The entries of the batch are the aggregates, each under its own key.\<close>

lemma aggregate_groups_eq:
  assumes "\<And>k g. (k, g) \<in> set gs \<Longrightarrow> aggregate_records g (timestamp (hd g)) = Some (agg_of g) \<and>
      app_name (agg_of g) = snd k \<and> rec_type (agg_of g) = mt \<and> roundtrips X (agg_of g)"
  shows "aggregate_groups X mt batch tot gs =
    Inr (batch @ map (\<lambda>r. BInsert (rkey r) (bytes X r)) (map (\<lambda>(_, g). agg_of g) gs), tot + of_nat (length gs))"
  using assms
proof (induction gs arbitrary: batch tot)
  case (Cons kg gs)
  obtain b n g where kg: "kg = ((b, n), g)" by (metis prod.collapse)
  have h: "aggregate_records g (timestamp (hd g)) = Some (agg_of g)" "app_name (agg_of g) = n"
    "rec_type (agg_of g) = mt" "rec_to_vec X (agg_of g) = Inr (bytes X (agg_of g))"
    using Cons.prems [of "(b, n)" g] roundtrips_bytes [of X "agg_of g"] by (auto simp: kg)
  have "aggregate_groups X mt batch tot (kg # gs) =
      aggregate_groups X mt (batch @ [BInsert (rkey (agg_of g)) (bytes X (agg_of g))]) (tot + 1) gs"
    unfolding kg aggregate_groups.simps by (subst h(1)) (simp add: h(2-4))
  also have "\<dots> = Inr ((batch @ [BInsert (rkey (agg_of g)) (bytes X (agg_of g))]) @
      map (\<lambda>r. BInsert (rkey r) (bytes X r)) (map (\<lambda>(_, g). agg_of g) gs), tot + 1 + of_nat (length gs))"
    by (rule Cons.IH, rule Cons.prems) simp
  finally show ?case by (simp add: kg add.assoc)
qed simp

lemma aggs_keys_distinct:
  assumes "\<And>r. r \<in> set rs \<Longrightarrow> rec_type r = mt"
  shows "distinct (map rkey (aggs bucket rs))"
proof -
  let ?gs = "groups_of bucket rs"
  have "distinct ?gs"
    using groups_sorted [of "[]" bucket rs] by (simp add: strict_sorted_iff distinct_map)
  moreover have key: "k = k'"
    if kg: "(k, g) \<in> set ?gs" and kg': "(k', g') \<in> set ?gs" and "rkey (agg_of g) = rkey (agg_of g')" for k g k' g'
    using group_agg(2-6) [OF kg assms] group_agg(2-6) [OF kg' assms] that(3)
    by (auto simp: encode_key_inj group_key_def prod_eq_iff)
  have "inj_on (\<lambda>p. rkey (agg_of (snd p))) (set ?gs)"
  proof (rule inj_onI)
    fix p q assume p: "p \<in> set ?gs" and q: "q \<in> set ?gs" and eq: "rkey (agg_of (snd p)) = rkey (agg_of (snd q))"
    have "fst p = fst q" using key [of "fst p" "snd p" "fst q" "snd q"] p q eq by simp
    moreover have "snd p = filter (\<lambda>r. group_key bucket r = fst p) rs"
      "snd q = filter (\<lambda>r. group_key bucket r = fst q) rs"
      using group_mem(1) [of "fst p" "snd p" bucket rs] group_mem(1) [of "fst q" "snd q" bucket rs] p q by simp_all
    ultimately show "p = q" by (simp add: prod_eq_iff)
  qed
  ultimately show ?thesis
    unfolding aggs_def map_map by (simp add: distinct_map case_prod_unfold comp_def)
qed

section \<open>Totals\<close>

text \<open>The total of an additive field over the records of one type and application.\<close>

fun arity :: "MetricType \<Rightarrow> nat" where
  "arity Net = 2"
| "arity Dsk = 2"
| "arity Cpu = 1"
| "arity Foc = 1"
| "arity _ = 0"

lemma length_additive_fields: "length (additive_fields p) = arity (metric_type p)"
  by (cases p) simp_all

definition field_total :: "nat \<Rightarrow> MetricType \<Rightarrow> string \<Rightarrow> MetricRecord list \<Rightarrow> u64" where
  "field_total i mt n rs = wsum (column i (filter (\<lambda>r. rec_type r = mt \<and> app_name r = n) rs))"

lemma field_total_Nil [simp]: "field_total i mt n [] = 0"
  by (simp add: field_total_def)

lemma field_total_append: "field_total i mt n (xs @ ys) = field_total i mt n xs + field_total i mt n ys"
  by (simp add: field_total_def)

lemma field_total_mset: "mset xs = mset ys \<Longrightarrow> field_total i mt n xs = field_total i mt n ys"
  unfolding field_total_def by (rule wsum_mset_cong) (simp add: mset_filter)

lemma field_total_partition:
  "field_total i mt n rs = field_total i mt n (filter P rs) + field_total i mt n (filter (\<lambda>r. \<not> P r) rs)"
  by (induction rs) (auto simp: field_total_def)

lemma field_total_concat:
  "field_total i mt n (concat gs) = wsum (map (field_total i mt n) gs)"
  by (induction gs) (simp_all add: field_total_append)

lemma field_total_agg:
  assumes "(k, g) \<in> set (groups_of bucket rs)" and "\<And>r. r \<in> set rs \<Longrightarrow> rec_type r = mt'" and "i < arity mt"
  shows "field_total i mt n [agg_of g] = field_total i mt n g"
proof (cases "mt' = mt \<and> snd k = n")
  case True
  note h = group_agg [OF assms(1,2)]
  have cols: "additive_fields (payload (agg_of g)) =
      map (\<lambda>i. wsum (column i g)) [0..<length (additive_fields (payload (agg_of g)))]"
    by (rule aggregate_columns [OF h(1), of mt']) (use group_mem(1) [OF assms(1)] assms(2) in auto)
  have len: "i < length (additive_fields (payload (agg_of g)))"
    using assms(3) h(4) True by (simp add: length_additive_fields)
  have "additive_fields (payload (agg_of g)) ! i = wsum (column i g)"
    using arg_cong [OF cols, of "\<lambda>xs. xs ! i"] nth_map_upt [of i _ 0 "\<lambda>i. wsum (column i g)"] len by simp
  moreover have "filter (\<lambda>r. rec_type r = mt \<and> app_name r = n) g = g"
    using h(7) True by (simp add: filter_id_conv)
  ultimately show ?thesis using h(2,4) True by (simp add: field_total_def)
next
  case False
  note h = group_agg [OF assms(1,2)]
  have "filter (\<lambda>r. rec_type r = mt \<and> app_name r = n) g = []"
    using h(7) False by (auto simp: filter_empty_conv)
  then show ?thesis using h(2,4) False by (auto simp: field_total_def)
qed

lemma field_total_aggs:
  assumes "\<And>r. r \<in> set rs \<Longrightarrow> rec_type r = mt'" and "i < arity mt"
  shows "field_total i mt n (aggs bucket rs) = field_total i mt n rs"
proof -
  let ?gs = "groups_of bucket rs"
  have "field_total i mt n (aggs bucket rs) = wsum (map (\<lambda>(k, g). field_total i mt n [agg_of g]) ?gs)"
    using field_total_concat [of i mt n "map (\<lambda>(_, g). [agg_of g]) ?gs"]
    by (simp add: aggs_def case_prod_unfold comp_def concat_map_singleton)
  also have "\<dots> = wsum (map (\<lambda>(k, g). field_total i mt n g) ?gs)"
    using field_total_agg [OF _ assms] by (intro arg_cong [of _ _ wsum] map_cong) auto
  also have "\<dots> = field_total i mt n (concat (map snd ?gs))"
    by (simp add: field_total_concat comp_def case_prod_unfold)
  also have "\<dots> = field_total i mt n rs"
    using mset_groups [of "[]" bucket rs] by (intro field_total_mset) simp
  finally show ?thesis .
qed

section \<open>One tier on record lists\<close>

text \<open>What a tier writes: the aggregates of the expired source records, type by type.\<close>

definition tier_writes :: "(u64 \<Rightarrow> u64) \<Rightarrow> u64 \<Rightarrow> MetricRecord list \<Rightarrow> MetricType list \<Rightarrow> MetricRecord list" where
  "tier_writes bucket c rs mts = concat (map (\<lambda>mt. aggs bucket (filter (in_range mt 0 c) rs)) mts)"

lemma length_groups: "length (groups_of bucket rs) \<le> length rs"
proof -
  have "length gs \<le> length (concat (map snd gs))" if "\<And>p. p \<in> set gs \<Longrightarrow> snd p \<noteq> []" for gs :: groups
    using that
  proof (induction gs)
    case (Cons p gs)
    then show ?case by (cases "snd p") (auto simp: Suc_le_eq add_strict_increasing)
  qed simp
  moreover have "length (concat (map snd (groups_of bucket rs))) = length rs"
    using arg_cong [OF mset_groups [of "[]" bucket rs], of size] by simp
  ultimately show ?thesis using group_mem(2) [of _ _ bucket rs] by fastforce
qed

lemma length_aggs: "length (aggs bucket rs) \<le> length rs"
  by (simp add: aggs_def length_groups)

lemma length_tier_writes:
  assumes "distinct mts"
  shows "length (tier_writes bucket c rs mts) \<le> length (filter (\<lambda>r. rec_type r \<in> set mts \<and> expired c r) rs)"
proof -
  have "length (tier_writes bucket c rs mts) = (\<Sum>mt\<leftarrow>mts. length (aggs bucket (filter (in_range mt 0 c) rs)))"
    by (simp add: tier_writes_def length_concat comp_def)
  also have "\<dots> \<le> (\<Sum>mt\<leftarrow>mts. length (filter (\<lambda>r. rec_type r = mt \<and> expired c r) rs))"
    unfolding in_range_expired by (rule sum_list_mono) (rule length_aggs)
  also have "\<dots> = length (filter (\<lambda>r. rec_type r \<in> set mts \<and> expired c r) rs)"
    by (rule length_by_type [OF assms])
  finally show ?thesis .
qed

lemma tier_writes_Cons:
  "tier_writes bucket c rs (mt # mts) = aggs bucket (filter (in_range mt 0 c) rs) @ tier_writes bucket c rs mts"
  by (simp add: tier_writes_def)

context store
begin

lemma run_aggregate_type:
  assumes "holds X a src rs" and "holds X a dst D"
    and rt: "\<And>r. r \<in> set (aggs bucket (filter (in_range mt 0 c) rs)) \<Longrightarrow> roundtrips X r"
    and bound: "unat tot + length (aggs bucket (filter (in_range mt 0 c) rs)) < 2 ^ 64"
  shows "run (aggregate_type X bucket src dst c tot mt) a
    (tot + of_nat (length (aggs bucket (filter (in_range mt 0 c) rs))))
    (set_tree dst (map (entry X) (ins_all (aggs bucket (filter (in_range mt 0 c) rs)) D)) a)"
proof -
  let ?rs = "filter (in_range mt 0 c) rs"
  let ?as = "aggs bucket ?rs"
  let ?batch = "map (\<lambda>r. BInsert (rkey r) (bytes X r)) ?as"
  let ?b = "set_tree dst (map (entry X) (ins_all ?as D)) a"
  have ty: "\<And>r. r \<in> set ?rs \<Longrightarrow> rec_type r = mt" by (simp add: in_range_def)
  have "aggregate_groups X mt [] tot (groups_of bucket ?rs) =
      Inr ([] @ map (\<lambda>r. BInsert (rkey r) (bytes X r)) (map (\<lambda>(_, g). agg_of g) (groups_of bucket ?rs)),
        tot + of_nat (length (groups_of bucket ?rs)))"
  proof (rule aggregate_groups_eq)
    fix k g assume kg: "(k, g) \<in> set (groups_of bucket ?rs)"
    then have "agg_of g \<in> set ?as" by (force simp: aggs_def)
    then show "aggregate_records g (timestamp (hd g)) = Some (agg_of g) \<and>
      app_name (agg_of g) = snd k \<and> rec_type (agg_of g) = mt \<and> roundtrips X (agg_of g)"
      using group_agg(1,2,4) [OF kg ty] rt by blast
  qed
  then have enc: "aggregate_groups X mt [] tot (groups_of bucket ?rs) = Inr (?batch, tot + of_nat (length ?as))"
    by (simp add: aggs_def)
  have app: "run (apply_batch X dst ?batch) a () ?b"
    by (rule run_eq, rule do_batch) (use assms(2) in \<open>simp_all add: holds_def foldl_batch_insert\<close>)
  have wr: "run (if 0 < tot + of_nat (length ?as) then apply_batch X dst ?batch else retS ()) a () ?b"
  proof (cases "0 < tot + of_nat (length ?as)")
    case False
    then have "unat (tot + of_nat (length ?as)) = 0" by (simp add: word_gt_0)
    then have "length ?as = 0" using bound by (simp add: unat_word_ariths unat_of_nat)
    then show ?thesis using False holds_set_tree [OF assms(2)] run_ret [of "()" a] by simp
  qed (simp add: app)
  show ?thesis
    unfolding aggregate_type_def Let_def
    by (rule run_bind, rule run_scan [OF assms(1)], rule run_bind, rule run_lift, rule enc,
        unfold prod.case, rule run_bind, rule wr, rule run_ret)
qed

lemma run_aggregate_loop:
  assumes "src \<noteq> dst" and "holds X a src rs" and "holds X a dst D"
    and "\<And>r. r \<in> set (tier_writes bucket c rs mts) \<Longrightarrow> roundtrips X r"
    and "unat tot + length (tier_writes bucket c rs mts) < 2 ^ 64"
  shows "run (foldS (aggregate_type X bucket src dst c) tot mts) a
    (tot + of_nat (length (tier_writes bucket c rs mts)))
    (set_tree dst (map (entry X) (ins_all (tier_writes bucket c rs mts) D)) a)"
  using assms(2-)
proof (induction mts arbitrary: tot a D)
  case Nil
  then show ?case using run_ret [of tot a] by (simp add: tier_writes_def holds_set_tree)
next
  case (Cons mt mts)
  let ?as = "aggs bucket (filter (in_range mt 0 c) rs)"
  let ?b = "set_tree dst (map (entry X) (ins_all ?as D)) a"
  have split: "tier_writes bucket c rs (mt # mts) = ?as @ tier_writes bucket c rs mts" by (rule tier_writes_Cons)
  have b1: "unat tot + length ?as < 2 ^ 64" using Cons.prems(4) by (simp add: split)
  have one: "run (aggregate_type X bucket src dst c tot mt) a (tot + of_nat (length ?as)) ?b"
    by (rule run_aggregate_type [OF Cons.prems(1,2)]) (use Cons.prems(3) b1 in \<open>auto simp: split\<close>)
  have u: "unat (tot + of_nat (length ?as)) = unat tot + length ?as"
    using b1 by (simp add: unat_word_ariths unat_of_nat)
  have hs: "holds X ?b src rs" using Cons.prems(1) assms(1) by (simp add: holds_other)
  have hd: "holds X ?b dst (ins_all ?as D)"
    by (rule holds_ins_all [OF Cons.prems(2)]) (use Cons.prems(3) in \<open>simp add: split\<close>)
  have rest: "run (foldS (aggregate_type X bucket src dst c) (tot + of_nat (length ?as)) mts) ?b
      (tot + of_nat (length ?as) + of_nat (length (tier_writes bucket c rs mts)))
      (set_tree dst (map (entry X) (ins_all (tier_writes bucket c rs mts) (ins_all ?as D))) ?b)"
    by (rule Cons.IH [OF hs hd]) (use Cons.prems(3,4) in \<open>auto simp: split u\<close>)
  show ?case
    unfolding foldS.simps split
    by (rule run_eq, rule run_bind, rule one, rule rest) (simp_all add: add.assoc)
qed

end

end
