(* ===== verification/Tiered_Cleanup.thy ===== *)
theory Tiered_Cleanup
  imports Tiers
begin

text \<open>
  The tiered cleanup as a whole: it refines four steps on the record lists of the trees, and it
  conserves every additive quantity: what leaves a tier arrives in the next one, and only the
  yearly retention removes anything.
\<close>

section \<open>Steps on the record lists\<close>

type_synonym tier_db = "string \<Rightarrow> MetricRecord list"

definition tier_step :: "(u64 \<Rightarrow> u64) \<Rightarrow> u64 \<Rightarrow> string \<Rightarrow> string \<Rightarrow> tier_db \<Rightarrow> tier_db" where
  "tier_step bucket c src dst D =
     D(src := filter (\<lambda>r. \<not> expired c r) (D src),
       dst := ins_all (tier_writes bucket c (D src) ALL_METRIC_TYPES) (D dst))"

definition raw_cut :: "u64 \<Rightarrow> TieredRetentionConfig \<Rightarrow> u64" where
  "raw_cut now config = sat_sub now (raw_hours config * 3600)"

definition month_cut :: "'d chrono \<Rightarrow> u64 \<Rightarrow> TieredRetentionConfig \<Rightarrow> u64" where
  "month_cut C now config = subtract_months C now (monthly_keep_months config)"

definition year_cut :: "'d chrono \<Rightarrow> u64 \<Rightarrow> TieredRetentionConfig \<Rightarrow> u64" where
  "year_cut C now config = subtract_months C now (sat_mul (yearly_keep_years config) 12)"

definition after_raw :: "'d chrono \<Rightarrow> u64 \<Rightarrow> TieredRetentionConfig \<Rightarrow> tier_db \<Rightarrow> tier_db" where
  "after_raw C now config D = tier_step (day_bucket C) (raw_cut now config) ''metrics'' ''metrics_1d'' D"

definition after_daily :: "'d chrono \<Rightarrow> u64 \<Rightarrow> TieredRetentionConfig \<Rightarrow> tier_db \<Rightarrow> tier_db" where
  "after_daily C now config D =
     tier_step (month_bucket C) (month_bucket C now) ''metrics_1d'' ''metrics_1m'' (after_raw C now config D)"

definition after_monthly :: "'d chrono \<Rightarrow> u64 \<Rightarrow> TieredRetentionConfig \<Rightarrow> tier_db \<Rightarrow> tier_db" where
  "after_monthly C now config D =
     tier_step (year_bucket C) (month_cut C now config) ''metrics_1m'' ''metrics_1y'' (after_daily C now config D)"

definition after_tiered :: "'d chrono \<Rightarrow> u64 \<Rightarrow> TieredRetentionConfig \<Rightarrow> tier_db \<Rightarrow> tier_db" where
  "after_tiered C now config D = (after_monthly C now config D)
     (''metrics_1y'' := filter (\<lambda>r. \<not> expired (year_cut C now config) r) (after_monthly C now config D ''metrics_1y''))"

text \<open>The aggregates that the three steps write.\<close>

definition writes_raw where
  "writes_raw C now config D = tier_writes (day_bucket C) (raw_cut now config) (D ''metrics'') ALL_METRIC_TYPES"

definition writes_daily where
  "writes_daily C now config D =
     tier_writes (month_bucket C) (month_bucket C now) (after_raw C now config D ''metrics_1d'') ALL_METRIC_TYPES"

definition writes_monthly where
  "writes_monthly C now config D =
     tier_writes (year_bucket C) (month_cut C now config) (after_daily C now config D ''metrics_1m'') ALL_METRIC_TYPES"

section \<open>Sizes\<close>

definition db_size :: "tier_db \<Rightarrow> nat" where
  "db_size D = (\<Sum>t\<leftarrow>tier_names. length (D t))"

lemma length_ins_rec: "length (ins_rec r D) \<le> Suc (length D)"
  by (induction D) auto

lemma length_ins_all: "length (ins_all rs D) \<le> length rs + length D"
proof (induction rs arbitrary: D)
  case (Cons r rs)
  show ?case using Cons.IH [of "ins_rec r D"] length_ins_rec [of r D] by simp
qed simp

lemma tier_step_size:
  "length (tier_step bucket c src dst D src) + length (tier_step bucket c src dst D dst) \<le>
   length (D src) + length (D dst)" if "src \<noteq> dst"
proof -
  let ?ws = "tier_writes bucket c (D src) ALL_METRIC_TYPES"
  have "length ?ws \<le> length (filter (expired c) (D src))"
    using length_tier_writes [OF distinct_ALL_METRIC_TYPES, of bucket c "D src"] by simp
  moreover have "length (filter (expired c) (D src)) + length (filter (\<lambda>r. \<not> expired c r) (D src)) = length (D src)"
    by (rule sum_length_filter_compl)
  moreover have "length (ins_all ?ws (D dst)) \<le> length ?ws + length (D dst)" by (rule length_ins_all)
  ultimately show ?thesis using that by (simp add: tier_step_def)
qed

lemma db_size_unfold:
  "db_size D = length (D ''metrics'') + length (D ''metrics_1d'') + length (D ''metrics_1m'') + length (D ''metrics_1y'')"
  by (simp add: db_size_def tier_names_def)

lemma tier_step_other: "t \<noteq> src \<Longrightarrow> t \<noteq> dst \<Longrightarrow> tier_step bucket c src dst D t = D t"
  by (simp add: tier_step_def)

lemma db_size_tier_step:
  assumes "(src, dst) \<in> {(''metrics'', ''metrics_1d''), (''metrics_1d'', ''metrics_1m''), (''metrics_1m'', ''metrics_1y'')}"
  shows "db_size (tier_step bucket c src dst D) \<le> db_size D"
proof -
  have "src \<noteq> dst" using assms by auto
  from tier_step_size [OF this, of bucket c D] assms show ?thesis
    unfolding db_size_unfold by (auto simp: tier_step_other)
qed

lemma db_size_steps:
  "db_size (after_raw C now config D) \<le> db_size D"
  "db_size (after_daily C now config D) \<le> db_size (after_raw C now config D)"
  "db_size (after_monthly C now config D) \<le> db_size (after_daily C now config D)"
  unfolding after_monthly_def by (simp_all add: db_size_tier_step after_raw_def after_daily_def)

lemma db_size_mem: "t \<in> set tier_names \<Longrightarrow> length (D t) \<le> db_size D"
  unfolding db_size_def by (rule member_le_sum_list) simp_all

section \<open>Refinement\<close>

context store
begin

lemma tier_runs:
  assumes h: "holds_all X a D" and ne: "src \<noteq> dst" and mem: "src \<in> set tier_names" "dst \<in> set tier_names"
    and size: "db_size D < 2 ^ 64"
    and rt: "\<And>r. r \<in> set (tier_writes bucket c (D src) ALL_METRIC_TYPES) \<Longrightarrow> roundtrips X r"
  obtains a1 a2 where
    "run (foldS (aggregate_type X bucket src dst c) 0 ALL_METRIC_TYPES) a
       (of_nat (length (tier_writes bucket c (D src) ALL_METRIC_TYPES))) a1"
    "run (delete_from_tree_before X src c) a1 (of_nat (length (filter (expired c) (D src)))) a2"
    "holds_all X a2 (tier_step bucket c src dst D)" "trees a2 ''meta'' = trees a ''meta''" "files a2 = files a"
proof -
  let ?ws = "tier_writes bucket c (D src) ALL_METRIC_TYPES"
  let ?a1 = "set_tree dst (map (entry X) (ins_all ?ws (D dst))) a"
  let ?keep = "filter (\<lambda>r. \<not> expired c r) (D src)"
  let ?a2 = "set_tree src (map (entry X) ?keep) ?a1"
  have hs: "holds X a src (D src)" and hd: "holds X a dst (D dst)" using h mem by (auto intro: holds_allD)
  have len: "length (D src) < 2 ^ 64" using db_size_mem [OF mem(1), of D] size by simp
  have "length ?ws \<le> length (D src)"
    using length_tier_writes [OF distinct_ALL_METRIC_TYPES, of bucket c "D src"] by (simp add: le_trans)
  then have agg: "run (foldS (aggregate_type X bucket src dst c) 0 ALL_METRIC_TYPES) a (0 + of_nat (length ?ws)) ?a1"
    using len by (intro run_aggregate_loop [OF ne hs hd rt]) simp_all
  have hs1: "holds X ?a1 src (D src)" using hs ne by (simp add: holds_other)
  have del: "run (delete_from_tree_before X src c) ?a1 (of_nat (length (filter (expired c) (D src)))) ?a2"
    by (rule run_delete_before [OF hs1 len])
  have hd1: "holds_all X ?a1 (D(dst := ins_all ?ws (D dst)))"
    by (rule holds_all_update [OF h holds_ins_all [OF hd rt]])
  have "holds_all X ?a2 ((D(dst := ins_all ?ws (D dst)))(src := ?keep))"
    by (rule holds_all_update [OF hd1 holds_filter [OF hs1]])
  moreover have "(D(dst := ins_all ?ws (D dst)))(src := ?keep) = tier_step bucket c src dst D"
    using ne by (auto simp: tier_step_def fun_eq_iff)
  moreover have "''meta'' \<notin> set tier_names" by (simp add: tier_names_def)
  then have "trees ?a2 ''meta'' = trees a ''meta''" using mem by auto
  ultimately show thesis using that [of ?a1 ?a2] agg del by simp
qed

lemma run_cleanup_tiered:
  assumes h: "holds_all X a D" and size: "db_size D < 2 ^ 64" and v: "u64_to_vec X now = Inr v"
    and rt: "\<And>r. r \<in> set (writes_raw C now config D @ writes_daily C now config D @ writes_monthly C now config D)
      \<Longrightarrow> roundtrips X r"
    and noexp: "\<not> (t_export_before_delete config \<and> t_export_dir config \<noteq> None)"
  shows "\<exists>b. run (cleanup_tiered X C (Inr now) nanos config) a
    \<lparr> raw_aggregated = of_nat (length (writes_raw C now config D)),
      raw_deleted = of_nat (length (filter (expired (raw_cut now config)) (D ''metrics''))),
      daily_aggregated = of_nat (length (writes_daily C now config D)),
      daily_deleted = of_nat (length (filter (expired (month_bucket C now)) (after_raw C now config D ''metrics_1d''))),
      monthly_aggregated = of_nat (length (writes_monthly C now config D)),
      monthly_deleted = of_nat (length (filter (expired (month_cut C now config)) (after_daily C now config D ''metrics_1m''))),
      yearly_deleted = of_nat (length (filter (expired (year_cut C now config)) (after_monthly C now config D ''metrics_1y''))),
      t_exported_count = 0, t_export_path = None \<rparr> b \<and>
    holds_all X b (after_tiered C now config D) \<and> files b = files a \<and>
    trees b ''meta'' = upd META_LAST_CLEANUP v (trees a ''meta'')"
proof -
  let ?D1 = "after_raw C now config D" and ?D2 = "after_daily C now config D" and ?D3 = "after_monthly C now config D"
  note D1 = after_raw_def [of C now config D] and D2 = after_daily_def [of C now config D]
    and D3 = after_monthly_def [of C now config D]
  have s1: "db_size ?D1 < 2 ^ 64" by (rule le_less_trans [OF db_size_steps(1) size])
  have s2: "db_size ?D2 < 2 ^ 64" by (rule le_less_trans [OF db_size_steps(2) s1])
  have s3: "db_size ?D3 < 2 ^ 64" by (rule le_less_trans [OF db_size_steps(3) s2])
  obtain a1 a2 where r1: "run (foldS (aggregate_type X (day_bucket C) ''metrics'' ''metrics_1d'' (raw_cut now config)) 0 ALL_METRIC_TYPES) a
       (of_nat (length (writes_raw C now config D))) a1"
    "run (delete_from_tree_before X ''metrics'' (raw_cut now config)) a1
       (of_nat (length (filter (expired (raw_cut now config)) (D ''metrics'')))) a2"
    and h2: "holds_all X a2 ?D1" "trees a2 ''meta'' = trees a ''meta''" "files a2 = files a"
    by (rule tier_runs [OF h, of "''metrics''" "''metrics_1d''" "day_bucket C" "raw_cut now config"])
      (use size rt in \<open>auto simp: writes_raw_def D1\<close>)
  obtain a3 a4 where r2: "run (foldS (aggregate_type X (month_bucket C) ''metrics_1d'' ''metrics_1m'' (month_bucket C now)) 0 ALL_METRIC_TYPES) a2
       (of_nat (length (writes_daily C now config D))) a3"
    "run (delete_from_tree_before X ''metrics_1d'' (month_bucket C now)) a3
       (of_nat (length (filter (expired (month_bucket C now)) (?D1 ''metrics_1d'')))) a4"
    and h4: "holds_all X a4 ?D2" "trees a4 ''meta'' = trees a2 ''meta''" "files a4 = files a2"
    by (rule tier_runs [OF h2(1), of "''metrics_1d''" "''metrics_1m''" "month_bucket C" "month_bucket C now"])
      (use s1 rt in \<open>auto simp: writes_daily_def D2\<close>)
  obtain a5 a6 where r3: "run (foldS (aggregate_type X (year_bucket C) ''metrics_1m'' ''metrics_1y'' (month_cut C now config)) 0 ALL_METRIC_TYPES) a4
       (of_nat (length (writes_monthly C now config D))) a5"
    "run (delete_from_tree_before X ''metrics_1m'' (month_cut C now config)) a5
       (of_nat (length (filter (expired (month_cut C now config)) (?D2 ''metrics_1m'')))) a6"
    and h6: "holds_all X a6 ?D3" "trees a6 ''meta'' = trees a4 ''meta''" "files a6 = files a4"
    by (rule tier_runs [OF h4(1), of "''metrics_1m''" "''metrics_1y''" "year_bucket C" "month_cut C now config"])
      (use s2 rt in \<open>auto simp: writes_monthly_def D3\<close>)
  have y: "holds X a6 ''metrics_1y'' (?D3 ''metrics_1y'')" using h6(1) by (rule holds_allD) simp
  have ylen: "length (?D3 ''metrics_1y'') < 2 ^ 64" using db_size_mem [of "''metrics_1y''" ?D3] s3 by simp
  let ?keep = "filter (\<lambda>r. \<not> expired (year_cut C now config) r) (?D3 ''metrics_1y'')"
  let ?a7 = "set_tree ''metrics_1y'' (map (entry X) ?keep) a6"
  let ?b = "set_tree ''meta'' (upd META_LAST_CLEANUP v (trees ?a7 ''meta'')) ?a7"
  have hb: "holds_all X ?a7 (after_tiered C now config D)"
    unfolding after_tiered_def by (rule holds_all_update [OF h6(1) holds_filter [OF y]])
  have "''meta'' \<notin> set tier_names" by (simp add: tier_names_def)
  with hb have hb': "holds_all X ?b (after_tiered C now config D)"
    by (simp add: holds_all_other)
  have noexp': "tiered_export X now nanos config = retS (0, None)"
    using noexp by (cases "t_export_before_delete config"; cases "t_export_dir config") (simp_all add: tiered_export_def)
  have "run (cleanup_tiered X C (Inr now) nanos config) a
    \<lparr> raw_aggregated = of_nat (length (writes_raw C now config D)),
      raw_deleted = of_nat (length (filter (expired (raw_cut now config)) (D ''metrics''))),
      daily_aggregated = of_nat (length (writes_daily C now config D)),
      daily_deleted = of_nat (length (filter (expired (month_bucket C now)) (?D1 ''metrics_1d''))),
      monthly_aggregated = of_nat (length (writes_monthly C now config D)),
      monthly_deleted = of_nat (length (filter (expired (month_cut C now config)) (?D2 ''metrics_1m''))),
      yearly_deleted = of_nat (length (filter (expired (year_cut C now config)) (?D3 ''metrics_1y''))),
      t_exported_count = 0, t_export_path = None \<rparr> ?b"
    unfolding cleanup_tiered_def aggregate_raw_to_daily_def aggregate_daily_to_monthly_def
      aggregate_monthly_to_yearly_def Let_def noexp'
    unfolding raw_cut_def [symmetric] month_cut_def [symmetric] year_cut_def [symmetric]
    by (rule run_bind, rule run_lift, rule refl, unfold noexp', rule run_bind, rule run_ret, unfold prod.case,
        rule run_bind, rule run_bind, rule run_tree, rule run_bind, rule run_tree, rule r1,
        rule run_bind, rule run_tree, rule run_bind, rule r1,
        rule run_bind, rule run_bind, rule run_tree, rule run_bind, rule run_tree, rule r2,
        rule run_bind, rule run_tree, rule run_bind, rule r2,
        rule run_bind, rule run_bind, rule run_tree, rule run_bind, rule run_tree, rule r3,
        rule run_bind, rule run_tree, rule run_bind, rule r3,
        rule run_bind, rule run_tree, rule run_bind, rule run_delete_before [OF y ylen],
        rule run_bind, rule run_set_last_cleanup [OF v], rule run_ret)
  moreover have "trees ?b ''meta'' = upd META_LAST_CLEANUP v (trees a ''meta'')" "files ?b = files a"
    using h2 h4 h6 by simp_all
  ultimately show ?thesis using hb' by blast
qed

end

section \<open>Conservation\<close>

definition fresh :: "MetricRecord list \<Rightarrow> MetricRecord list \<Rightarrow> bool" where
  "fresh ws D \<longleftrightarrow> (\<forall>x\<in>set ws. \<forall>y\<in>set D. rkey x \<noteq> rkey y)"

lemma mset_ins_rec: "\<forall>y\<in>set D. rkey r \<noteq> rkey y \<Longrightarrow> mset (ins_rec r D) = add_mset r (mset D)"
  by (induction D) auto

lemma mset_ins_all:
  "distinct (map rkey ws) \<Longrightarrow> fresh ws D \<Longrightarrow> mset (ins_all ws D) = mset ws + mset D"
proof (induction ws arbitrary: D)
  case (Cons r ws)
  have m: "mset (ins_rec r D) = add_mset r (mset D)"
    using Cons.prems(2) by (intro mset_ins_rec) (simp add: fresh_def)
  then have set: "set (ins_rec r D) = insert r (set D)" by (metis set_mset_add_mset_insert set_mset_mset)
  have "fresh ws (ins_rec r D)"
  proof -
    have "rkey x \<noteq> rkey r" if "x \<in> set ws" for x
      using Cons.prems(1) that image_eqI [of "rkey r" rkey x "set ws"] by fastforce
    with Cons.prems(2) show ?thesis unfolding fresh_def set by simp
  qed
  with Cons.IH [of "ins_rec r D"] Cons.prems m show ?case by simp
qed simp

lemma tier_writes_types: "r \<in> set (tier_writes bucket c rs mts) \<Longrightarrow> rec_type r \<in> set mts"
proof -
  assume "r \<in> set (tier_writes bucket c rs mts)"
  then obtain mt k g where mt: "mt \<in> set mts" and kg: "(k, g) \<in> set (groups_of bucket (filter (in_range mt 0 c) rs))"
    and r: "r = agg_of g"
    by (auto simp: tier_writes_def aggs_def)
  have "rec_type (agg_of g) = mt" by (rule group_agg(4) [OF kg]) (simp add: in_range_def)
  then show ?thesis using mt r by simp
qed

lemma tier_writes_distinct: "distinct mts \<Longrightarrow> distinct (map rkey (tier_writes bucket c rs mts))"
proof (induction mts)
  case (Cons mt mts)
  let ?rs = "filter (in_range mt 0 c) rs"
  have "distinct (map rkey (aggs bucket ?rs))"
    by (rule aggs_keys_distinct [of _ mt]) (simp add: in_range_def)
  moreover have "rkey x \<noteq> rkey y" if "x \<in> set (aggs bucket ?rs)" "y \<in> set (tier_writes bucket c rs mts)" for x y
  proof -
    have "rec_type x = mt"
      using tier_writes_types [of x bucket c rs "[mt]"] that(1) by (simp add: tier_writes_def)
    moreover have "rec_type y \<in> set mts" by (rule tier_writes_types [OF that(2)])
    ultimately show ?thesis using Cons.prems by (auto simp: rkey_inj)
  qed
  ultimately show ?case using Cons by (auto simp: tier_writes_Cons)
qed (simp add: tier_writes_def)

lemma field_total_in_range:
  "field_total i mt n (filter (in_range mt' 0 c) rs) =
   (if mt' = mt then field_total i mt n (filter (expired c) rs) else 0)"
  by (induction rs) (auto simp: field_total_def in_range_expired)

lemma field_total_writes:
  assumes "i < arity mt"
  shows "field_total i mt n (tier_writes bucket c rs ALL_METRIC_TYPES) = field_total i mt n (filter (expired c) rs)"
proof -
  have "field_total i mt n (aggs bucket (filter (in_range mt' 0 c) rs)) =
      (if mt' = mt then field_total i mt n (filter (expired c) rs) else 0)" for mt'
    using field_total_aggs [OF _ assms, of "filter (in_range mt' 0 c) rs" mt'] field_total_in_range
    by (simp add: in_range_def)
  then show ?thesis
    by (cases mt) (simp_all add: tier_writes_def field_total_append ALL_METRIC_TYPES_def)
qed

text \<open>The total over all tiers.\<close>

definition db_total :: "nat \<Rightarrow> MetricType \<Rightarrow> string \<Rightarrow> tier_db \<Rightarrow> u64" where
  "db_total i mt n D = wsum (map (\<lambda>t. field_total i mt n (D t)) tier_names)"

lemma field_total_step:
  assumes "src \<noteq> dst" and "i < arity mt" and "fresh (tier_writes bucket c (D src) ALL_METRIC_TYPES) (D dst)"
  shows "field_total i mt n (tier_step bucket c src dst D src) + field_total i mt n (tier_step bucket c src dst D dst) =
    field_total i mt n (D src) + field_total i mt n (D dst)"
proof -
  let ?ws = "tier_writes bucket c (D src) ALL_METRIC_TYPES"
  have "field_total i mt n (ins_all ?ws (D dst)) = field_total i mt n (?ws @ D dst)"
    using mset_ins_all [OF tier_writes_distinct [OF distinct_ALL_METRIC_TYPES] assms(3)]
    by (intro field_total_mset) simp
  also have "\<dots> = field_total i mt n (filter (expired c) (D src)) + field_total i mt n (D dst)"
    by (simp add: field_total_append field_total_writes [OF assms(2)])
  finally show ?thesis
    using assms(1) field_total_partition [of i mt n "D src" "expired c"] by (simp add: tier_step_def add_ac)
qed

lemma db_total_tier_step:
  assumes "(src, dst) \<in> {(''metrics'', ''metrics_1d''), (''metrics_1d'', ''metrics_1m''), (''metrics_1m'', ''metrics_1y'')}"
    and "i < arity mt" and "fresh (tier_writes bucket c (D src) ALL_METRIC_TYPES) (D dst)"
  shows "db_total i mt n (tier_step bucket c src dst D) = db_total i mt n D"
proof -
  have "src \<noteq> dst" using assms(1) by auto
  note step = field_total_step [OF this assms(2,3), of n]
  show ?thesis
    using assms(1) step unfolding db_total_def tier_names_def
    by (auto simp: tier_step_other add.assoc [symmetric])
qed

lemma db_total_steps:
  assumes "i < arity mt" and "fresh (writes_raw C now config D) (D ''metrics_1d'')"
    and "fresh (writes_daily C now config D) (after_raw C now config D ''metrics_1m'')"
    and "fresh (writes_monthly C now config D) (after_daily C now config D ''metrics_1y'')"
  shows "db_total i mt n (after_monthly C now config D) = db_total i mt n D"
proof -
  have "db_total i mt n (after_raw C now config D) = db_total i mt n D"
    unfolding after_raw_def
    by (rule db_total_tier_step) (use assms(1,2) in \<open>simp_all add: writes_raw_def\<close>)
  moreover have "db_total i mt n (after_daily C now config D) = db_total i mt n (after_raw C now config D)"
    unfolding after_daily_def
    by (rule db_total_tier_step) (use assms(1,3) in \<open>simp_all add: writes_daily_def\<close>)
  moreover have "db_total i mt n (after_monthly C now config D) = db_total i mt n (after_daily C now config D)"
    unfolding after_monthly_def
    by (rule db_total_tier_step) (use assms(1,4) in \<open>simp_all add: writes_monthly_def\<close>)
  ultimately show ?thesis by simp
qed

lemma db_total_tiered:
  "db_total i mt n (after_tiered C now config D) +
   field_total i mt n (filter (expired (year_cut C now config)) (after_monthly C now config D ''metrics_1y'')) =
   db_total i mt n (after_monthly C now config D)"
  using field_total_partition [of i mt n "after_monthly C now config D ''metrics_1y''" "expired (year_cut C now config)"]
  by (simp add: db_total_def after_tiered_def tier_names_def add_ac)

section \<open>Properties\<close>

text \<open>C4: The tiered cleanup, end to end.  From a healthy store whose four metric trees hold the lists
  \<open>D\<close>, with no export configured, the cleanup succeeds; its report counts what each step
  aggregated and what each step deleted, and no export; the trees then hold the lists of the abstract pipeline (aggregate the
  expired raw records by day and drop them, the past months' days by month, the months past
  their retention by year, drop the expired years); the time of the run reads back.\<close>

theorem tiered_cleanup_refines:
  assumes "store X healthy absw" and "healthy w" and "holds_all X (absw w) D" and "db_size D < 2 ^ 64"
    and "u64_to_vec X now = Inr v" and "opt_u64_from_slice X v = Inr (Some now)"
    and "\<And>r. r \<in> set (writes_raw C now config D @ writes_daily C now config D @ writes_monthly C now config D)
      \<Longrightarrow> roundtrips X r"
    and "\<not> (t_export_before_delete config \<and> t_export_dir config \<noteq> None)"
  shows "\<exists>w1 w2 rep. cleanup_tiered X C (Inr now) nanos config w = (Inr rep, w1) \<and>
    holds_all X (absw w1) (after_tiered C now config D) \<and> files (absw w1) = files (absw w) \<and>
    raw_aggregated rep = of_nat (length (writes_raw C now config D)) \<and>
    raw_deleted rep = of_nat (length (filter (expired (raw_cut now config)) (D ''metrics''))) \<and>
    daily_aggregated rep = of_nat (length (writes_daily C now config D)) \<and>
    daily_deleted rep = of_nat (length (filter (expired (month_bucket C now)) (after_raw C now config D ''metrics_1d''))) \<and>
    monthly_aggregated rep = of_nat (length (writes_monthly C now config D)) \<and>
    monthly_deleted rep = of_nat (length (filter (expired (month_cut C now config)) (after_daily C now config D ''metrics_1m''))) \<and>
    yearly_deleted rep = of_nat (length (filter (expired (year_cut C now config))
      (after_monthly C now config D ''metrics_1y''))) \<and>
    t_exported_count rep = 0 \<and> t_export_path rep = None \<and>
    get_last_cleanup_ts X w1 = (Inr (Some now), w2)"
proof -
  from store.run_cleanup_tiered [OF assms(1,3-5,7,8), where C = C and nanos = nanos] obtain b rep
    where b: "runs healthy absw (cleanup_tiered X C (Inr now) nanos config) (absw w) rep b"
      "holds_all X b (after_tiered C now config D)" "files b = files (absw w)"
      "trees b ''meta'' = upd META_LAST_CLEANUP v (trees (absw w) ''meta'')"
    and rep: "raw_aggregated rep = of_nat (length (writes_raw C now config D))"
      "raw_deleted rep = of_nat (length (filter (expired (raw_cut now config)) (D ''metrics'')))"
      "daily_aggregated rep = of_nat (length (writes_daily C now config D))"
      "daily_deleted rep = of_nat (length (filter (expired (month_bucket C now)) (after_raw C now config D ''metrics_1d'')))"
      "monthly_aggregated rep = of_nat (length (writes_monthly C now config D))"
      "monthly_deleted rep = of_nat (length (filter (expired (month_cut C now config)) (after_daily C now config D ''metrics_1m'')))"
      "yearly_deleted rep = of_nat (length (filter (expired (year_cut C now config))
        (after_monthly C now config D ''metrics_1y'')))"
      "t_exported_count rep = 0" "t_export_path rep = None"
    by auto
  obtain w1 where w1: "cleanup_tiered X C (Inr now) nanos config w = (Inr rep, w1)" "healthy w1" "absw w1 = b"
    by (rule runsE [OF b(1) assms(2) refl])
  have "b = set_tree ''meta'' (upd META_LAST_CLEANUP v (trees (absw w) ''meta'')) b"
    using set_tree_idle [of "''meta''" b] unfolding b(4) by simp
  with store.run_get_last_cleanup [OF assms(1) store.trees_sorted [OF assms(1,2)] assms(6), of b]
  have "runs healthy absw (get_last_cleanup_ts X) b (Some now) b" by simp
  from runsE [OF this w1(2,3)] obtain w2 where "get_last_cleanup_ts X w1 = (Inr (Some now), w2)"
    by blast
  with w1 b(2,3) rep show ?thesis by blast
qed

definition dsk_rec :: "string \<Rightarrow> u64 \<Rightarrow> u64 \<Rightarrow> u64 \<Rightarrow> MetricRecord" where
  "dsk_rec n ts rd wr = \<lparr> app_name = n, timestamp = ts,
     payload = DskP \<lparr> read_bytes = rd, write_bytes = wr, mount_point = ''/'' \<rparr> \<rparr>"

definition t_recs :: "MetricRecord list" where
  "t_recs = [dsk_rec ''curl'' 100 5 7, dsk_rec ''curl'' 200 6 8]"

definition t_agg :: MetricRecord where
  "t_agg = dsk_rec ''curl'' 100 11 15"

definition t_tbl :: "MetricRecord list" where
  "t_tbl = t_agg # t_recs"

definition t_db :: tier_db where
  "t_db t = (if t = ''metrics'' then t_recs else [])"

definition t_world :: aworld where
  "t_world = \<lparr> trees = (\<lambda>t. map (entry (ref_ext t_tbl)) (t_db t)), files = (\<lambda>_. None) \<rparr>"

text \<open>Two records of 1 January 1970, cleaned up on 1 January 1972 with a yearly retention of two
  years: they end as one record of the yearly tree.\<close>

definition t_config :: TieredRetentionConfig where
  "t_config = TieredRetentionConfig_default\<lparr>yearly_keep_years := 2\<rparr>"

lemma t_world_facts:
  "ref_healthy t_world" "holds_all (ref_ext t_tbl) (id t_world) t_db" "db_size t_db < 2 ^ 64"
  "\<not> (t_export_before_delete t_config \<and> t_export_dir t_config \<noteq> None)"
proof -
  have s: "key_sorted t_recs" by code_simp
  then show "ref_healthy t_world"
    by (simp add: ref_healthy_def t_world_def t_db_def comp_def)
  show "holds_all (ref_ext t_tbl) (id t_world) t_db"
    using s ref_rec_roundtrip [of _ t_tbl]
    by (auto simp: holds_all_def holds_def t_world_def roundtrips_def t_db_def t_tbl_def)
  show "db_size t_db < 2 ^ 64" by (simp add: db_size_unfold t_db_def t_recs_def)
  show "\<not> (t_export_before_delete t_config \<and> t_export_dir t_config \<noteq> None)"
    by (simp add: t_config_def TieredRetentionConfig_default_def)
qed

lemma t_cuts:
  "raw_cut 63072000 t_config = 62985600" "month_bucket greg 63072000 = 63072000"
  "month_cut greg 63072000 t_config = 31536000" "year_cut greg 63072000 t_config = 0"
  by code_simp+

lemma t_tier_writes:
  "tier_writes (day_bucket greg) 62985600 t_recs ALL_METRIC_TYPES = [t_agg]"
  "tier_writes (month_bucket greg) 63072000 [t_agg] ALL_METRIC_TYPES = [t_agg]"
  "tier_writes (year_bucket greg) 31536000 [t_agg] ALL_METRIC_TYPES = [t_agg]"
  "filter (\<lambda>r. \<not> expired 0 r) [t_agg] = [t_agg]"
  by code_simp+

lemma t_after:
  "after_raw greg 63072000 t_config t_db ''metrics_1d'' = [t_agg]"
  "after_raw greg 63072000 t_config t_db ''metrics_1m'' = []"
  "after_raw greg 63072000 t_config t_db ''metrics_1y'' = []"
  "after_daily greg 63072000 t_config t_db ''metrics_1m'' = [t_agg]"
  "after_daily greg 63072000 t_config t_db ''metrics_1y'' = []"
  "after_monthly greg 63072000 t_config t_db ''metrics_1y'' = [t_agg]"
  by (simp_all add: after_raw_def after_daily_def after_monthly_def tier_step_def t_cuts t_db_def t_tier_writes)

lemma t_writes:
  "writes_raw greg 63072000 t_config t_db = [t_agg]" "writes_daily greg 63072000 t_config t_db = [t_agg]"
  "writes_monthly greg 63072000 t_config t_db = [t_agg]"
  "after_tiered greg 63072000 t_config t_db ''metrics_1y'' = [t_agg]"
  using t_tier_writes
  by (simp_all add: writes_raw_def writes_daily_def writes_monthly_def after_tiered_def t_after t_cuts t_db_def del: filter.simps)

lemma t_roundtrips: "roundtrips (ref_ext t_tbl) t_agg"
  using ref_rec_roundtrip [of t_agg t_tbl] by (simp add: roundtrips_def t_tbl_def)

theorem tiered_cleanup_refines_witness:
  "\<exists>w1 rep. cleanup_tiered (ref_ext t_tbl) greg (Inr 63072000) None t_config t_world = (Inr rep, w1) \<and>
     holds (ref_ext t_tbl) w1 ''metrics_1y'' [t_agg] \<and> raw_aggregated rep = 1"
proof -
  obtain v where v: "u64_to_vec (ref_ext t_tbl) 63072000 = Inr v"
      "opt_u64_from_slice (ref_ext t_tbl) v = Inr (Some 63072000)"
    using ref_u64_roundtrip by blast
  from tiered_cleanup_refines [OF ref.store_axioms t_world_facts(1-3) v _ t_world_facts(4), of greg None]
  obtain w1 rep where "cleanup_tiered (ref_ext t_tbl) greg (Inr 63072000) None t_config t_world = (Inr rep, w1)"
      "holds_all (ref_ext t_tbl) (id w1) (after_tiered greg 63072000 t_config t_db)"
      "raw_aggregated rep = of_nat (length (writes_raw greg 63072000 t_config t_db))"
    by (simp add: t_writes t_roundtrips) blast
  moreover from this(2) have "holds (ref_ext t_tbl) w1 ''metrics_1y'' [t_agg]"
    using holds_allD [of "ref_ext t_tbl" "id w1" _ "''metrics_1y''"] by (simp flip: t_writes(4))
  ultimately show ?thesis by (auto simp: t_writes)
qed

text \<open>C1: The tiered cleanup loses nothing but what the yearly retention drops.  When no export is
  configured and no aggregate overwrites an existing record of its destination tree, then for every type, application and
  additive field the total over all four trees afterwards, plus the total of the yearly records
  deleted, is the total before.\<close>

theorem tiered_cleanup_conserves:
  assumes "store X healthy absw" and "healthy w" and "holds_all X (absw w) D" and "db_size D < 2 ^ 64"
    and "u64_to_vec X now = Inr v"
    and "\<And>r. r \<in> set (writes_raw C now config D @ writes_daily C now config D @ writes_monthly C now config D)
      \<Longrightarrow> roundtrips X r"
    and "\<not> (t_export_before_delete config \<and> t_export_dir config \<noteq> None)"
    and "i < arity mt" and "fresh (writes_raw C now config D) (D ''metrics_1d'')"
    and "fresh (writes_daily C now config D) (after_raw C now config D ''metrics_1m'')"
    and "fresh (writes_monthly C now config D) (after_daily C now config D ''metrics_1y'')"
  shows "\<exists>w1 rep D'. cleanup_tiered X C (Inr now) nanos config w = (Inr rep, w1) \<and> holds_all X (absw w1) D' \<and>
    db_total i mt n D' + field_total i mt n (filter (expired (year_cut C now config))
      (after_monthly C now config D ''metrics_1y'')) = db_total i mt n D"
proof -
  from store.run_cleanup_tiered [OF assms(1,3-7), where C = C and nanos = nanos] obtain b rep
    where b: "runs healthy absw (cleanup_tiered X C (Inr now) nanos config) (absw w) rep b"
      "holds_all X b (after_tiered C now config D)"
    by auto
  obtain w1 where "cleanup_tiered X C (Inr now) nanos config w = (Inr rep, w1)" "absw w1 = b"
    by (rule runsE [OF b(1) assms(2) refl])
  with b(2) db_total_tiered [of i mt n C now config D] db_total_steps [OF assms(8-11), of n]
  show ?thesis by metis
qed

theorem tiered_cleanup_conserves_witness:
  "\<exists>w1 rep D'. cleanup_tiered (ref_ext t_tbl) greg (Inr 63072000) None t_config t_world = (Inr rep, w1) \<and>
     holds_all (ref_ext t_tbl) w1 D' \<and> db_total 0 Dsk ''curl'' D' = 11"
proof -
  obtain v where v: "u64_to_vec (ref_ext t_tbl) 63072000 = Inr v"
    using ref_u64_roundtrip by blast
  have f: "fresh (writes_raw greg 63072000 t_config t_db) (t_db ''metrics_1d'')"
    "fresh (writes_daily greg 63072000 t_config t_db) (after_raw greg 63072000 t_config t_db ''metrics_1m'')"
    "fresh (writes_monthly greg 63072000 t_config t_db) (after_daily greg 63072000 t_config t_db ''metrics_1y'')"
    and t: "field_total 0 Dsk ''curl'' (filter (expired (year_cut greg 63072000 t_config))
      (after_monthly greg 63072000 t_config t_db ''metrics_1y'')) = 0" "db_total 0 Dsk ''curl'' t_db = 11"
    subgoal by (simp add: fresh_def t_db_def)
    subgoal by (simp add: fresh_def t_after)
    subgoal by (simp add: fresh_def t_after)
    subgoal unfolding t_after t_cuts by code_simp
    subgoal by code_simp
    done
  show ?thesis
    using tiered_cleanup_conserves [OF ref.store_axioms t_world_facts(1-3) v _ t_world_facts(4) _ f, of 0 Dsk None "''curl''"]
    unfolding t by (simp add: t_writes t_roundtrips)
qed

end
