(* ===== verification/Rust_Text.thy ===== *)
theory Rust_Text
  imports Prelude
begin

text \<open>
  The text functions of the Rust standard library that the collectors use, on strings as lists of
  UTF-8 bytes: \<open>String::from_utf8_lossy\<close>, \<open>split_whitespace\<close> and \<open>trim\<close> (Unicode white space),
  \<open>lines\<close>, and \<open>Path::file_name\<close>.
\<close>

section \<open>Lossy decoding\<close>

text \<open>Each maximal ill-formed part becomes one replacement character (U+FFFD).\<close>

definition replacement :: string where
  "replacement = map char_of [0xEF :: nat, 0xBF, 0xBD]"

definition second_ok :: "char \<Rightarrow> char \<Rightarrow> bool" where
  "second_ok a b \<longleftrightarrow>
     (if byte_in 224 224 a then byte_in 160 191 b
      else if byte_in 237 237 a then byte_in 128 159 b
      else if byte_in 240 240 a then byte_in 144 191 b
      else if byte_in 244 244 a then byte_in 128 143 b
      else cont_byte b)"

text \<open>The length of the character at the head, or else of its ill-formed part.\<close>

definition utf8_head :: "string \<Rightarrow> nat + nat" where
  "utf8_head s = (case s of
     [] \<Rightarrow> Inl 0
   | a # r \<Rightarrow>
       if byte_in 0 127 a then Inr 1
       else if byte_in 194 223 a then
         (case r of b # _ \<Rightarrow> if cont_byte b then Inr 2 else Inl 1 | [] \<Rightarrow> Inl 1)
       else if byte_in 224 239 a then
         (case r of
            [] \<Rightarrow> Inl 1
          | b # r2 \<Rightarrow> if \<not> second_ok a b then Inl 1
              else (case r2 of c # _ \<Rightarrow> if cont_byte c then Inr 3 else Inl 2 | [] \<Rightarrow> Inl 2))
       else if byte_in 240 244 a then
         (case r of
            [] \<Rightarrow> Inl 1
          | b # r2 \<Rightarrow> if \<not> second_ok a b then Inl 1
              else (case r2 of
                 [] \<Rightarrow> Inl 2
               | c # r3 \<Rightarrow> if \<not> cont_byte c then Inl 2
                   else (case r3 of d # _ \<Rightarrow> if cont_byte d then Inr 4 else Inl 3 | [] \<Rightarrow> Inl 3)))
       else Inl 1)"

lemma utf8_head_pos: "utf8_head (a # r) = Inr n \<Longrightarrow> 0 < n" "utf8_head (a # r) = Inl n \<Longrightarrow> 0 < n"
  by (auto simp: utf8_head_def split: if_splits list.splits)

function utf8_lossy :: "string \<Rightarrow> string" where
  "utf8_lossy [] = []"
| "utf8_lossy (a # r) =
     (case utf8_head (a # r) of
        Inr n \<Rightarrow> take n (a # r) @ utf8_lossy (drop n (a # r))
      | Inl n \<Rightarrow> replacement @ utf8_lossy (drop n (a # r)))"
  by pat_completeness auto
termination
  by (relation "measure length") (auto dest: utf8_head_pos)

lemma utf8_valid_head:
  "utf8_valid (a # r) \<longleftrightarrow> (\<exists>n. utf8_head (a # r) = Inr n \<and> utf8_valid (drop n (a # r)))"
proof -
  consider (one) "byte_in 0 127 a" | (two) "byte_in 194 223 a" | (three) "byte_in 224 239 a"
    | (four) "byte_in 240 244 a"
    | (none) "\<not> byte_in 0 127 a" "\<not> byte_in 194 223 a" "\<not> byte_in 224 239 a" "\<not> byte_in 240 244 a"
    by blast
  then show ?thesis
  proof cases
    case two
    then have "\<not> byte_in 0 127 a" by (simp add: byte_in_def)
    with two show ?thesis by (auto simp: utf8_head_def split: list.split)
  next
    case three
    then have "\<not> byte_in 0 127 a" "\<not> byte_in 194 223 a" "\<not> byte_in 240 240 a" "\<not> byte_in 244 244 a"
      by (simp_all add: byte_in_def)
    with three show ?thesis by (auto simp: utf8_head_def second_ok_def split: list.split)
  next
    case four
    then have "\<not> byte_in 0 127 a" "\<not> byte_in 194 223 a" "\<not> byte_in 224 239 a" "\<not> byte_in 224 224 a" "\<not> byte_in 237 237 a"
      by (simp_all add: byte_in_def)
    with four show ?thesis by (auto simp: utf8_head_def second_ok_def split: list.split)
  next
    case none
    then show ?thesis by (auto simp: utf8_head_def split: list.split)
  qed (simp add: utf8_head_def)
qed

lemma utf8_valid_take:
  assumes "utf8_head (a # r) = Inr n"
  shows "utf8_valid (take n (a # r) @ s) \<longleftrightarrow> utf8_valid s"
proof -
  have h: "utf8_head (take n (a # r) @ s) = Inr n" "drop n (take n (a # r) @ s) = s" "take n (a # r) \<noteq> []"
    using assms by (auto simp: utf8_head_def split: if_splits list.splits)
  obtain b t where bt: "take n (a # r) @ s = b # t" using h(3) by (cases "take n (a # r) @ s") auto
  show ?thesis using h(1,2) utf8_valid_head [of b t] unfolding bt by auto
qed

lemma utf8_valid_replacement: "utf8_valid (replacement @ s) \<longleftrightarrow> utf8_valid s"
  by (simp add: replacement_def byte_in_def)

lemma utf8_lossy_valid: "utf8_valid (utf8_lossy s)"
  by (induction s rule: utf8_lossy.induct)
    (auto simp: utf8_valid_take utf8_valid_replacement split: sum.split simp del: utf8_valid.simps(2))

lemma utf8_lossy_id: "utf8_valid s \<Longrightarrow> utf8_lossy s = s"
proof (induction s rule: utf8_lossy.induct)
  case (2 a r)
  then obtain n where "utf8_head (a # r) = Inr n" "utf8_valid (drop n (a # r))"
    using utf8_valid_head by blast
  with 2(2) [OF this] show ?case by (simp del: utf8_valid.simps(2))
qed simp

section \<open>White space and lines\<close>

text \<open>The number of bytes of the white-space character at the head, or 0.\<close>

definition ws_len :: "string \<Rightarrow> nat" where
  "ws_len s = (case map of_char (take 3 s) :: nat list of
     [] \<Rightarrow> 0
   | a # r \<Rightarrow>
       if 9 \<le> a \<and> a \<le> 13 \<or> a = 32 then 1
       else (case r of
          [] \<Rightarrow> 0
        | b # r2 \<Rightarrow>
            if a = 0xC2 \<and> (b = 0x85 \<or> b = 0xA0) then 2
            else (case r2 of
               [] \<Rightarrow> 0
             | c # _ \<Rightarrow>
                 if a = 0xE1 \<and> b = 0x9A \<and> c = 0x80 \<or>
                    a = 0xE2 \<and> b = 0x80 \<and> (0x80 \<le> c \<and> c \<le> 0x8A \<or> c = 0xA8 \<or> c = 0xA9 \<or> c = 0xAF) \<or>
                    a = 0xE2 \<and> b = 0x81 \<and> c = 0x9F \<or>
                    a = 0xE3 \<and> b = 0x80 \<and> c = 0x80
                 then 3 else 0)))"

lemma ws_len_Nil [simp]: "ws_len [] = 0"
  by (simp add: ws_len_def)

function split_ws_from :: "string \<Rightarrow> string \<Rightarrow> string list" where
  "split_ws_from tok [] = (if tok = [] then [] else [tok])"
| "split_ws_from tok (c # s) =
     (if ws_len (c # s) = 0 then split_ws_from (tok @ [c]) s
      else (if tok = [] then [] else [tok]) @ split_ws_from [] (drop (ws_len (c # s)) (c # s)))"
  by pat_completeness auto
termination
  by (relation "measure (length \<circ> snd)") auto

definition split_whitespace :: "string \<Rightarrow> string list" where
  "split_whitespace s = split_ws_from [] s"

function trim_start :: "string \<Rightarrow> string" where
  "trim_start s = (if ws_len s = 0 then s else trim_start (drop (ws_len s) s))"
  by pat_completeness auto
termination
proof (relation "measure length")
  show "(drop (ws_len s) s, s) \<in> measure length" if "ws_len s \<noteq> 0" for s
    using that by (cases s) auto
qed simp

declare trim_start.simps [simp del]

fun trim_end :: "string \<Rightarrow> string" where
  "trim_end [] = []"
| "trim_end (c # s) = (if trim_start (c # s) = [] then [] else c # trim_end s)"

definition trim :: "string \<Rightarrow> string" where
  "trim s = trim_end (trim_start s)"

definition strip_cr :: "string \<Rightarrow> string" where
  "strip_cr s = (if s \<noteq> [] \<and> last s = CHR 0x0D then butlast s else s)"

fun lines_from :: "string \<Rightarrow> string \<Rightarrow> string list" where
  "lines_from acc [] = (if acc = [] then [] else [acc])"
| "lines_from acc (c # s) =
     (if c = CHR 0x0A then strip_cr acc # lines_from [] s else lines_from (acc @ [c]) s)"

definition lines :: "string \<Rightarrow> string list" where
  "lines s = lines_from [] s"

text \<open>\<open>strip_prefix\<close>, \<open>strip_suffix\<close>, \<open>trim_end_matches\<close> and \<open>split_once\<close>, the last two at a pattern
  that is not empty and at an ASCII character.\<close>

definition strip_prefix :: "string \<Rightarrow> string \<Rightarrow> string option" where
  "strip_prefix p s = (if take (length p) s = p then Some (drop (length p) s) else None)"

definition strip_suffix :: "string \<Rightarrow> string \<Rightarrow> string option" where
  "strip_suffix p s = map_option rev (strip_prefix (rev p) (rev s))"

function trim_start_matches :: "string \<Rightarrow> string \<Rightarrow> string" where
  "trim_start_matches p s =
     (if p \<noteq> [] \<and> s \<noteq> [] \<and> take (length p) s = p then trim_start_matches p (drop (length p) s) else s)"
  by pat_completeness auto
termination by (relation "measure (length \<circ> snd)") auto

declare trim_start_matches.simps [simp del]

definition trim_end_matches :: "string \<Rightarrow> string \<Rightarrow> string" where
  "trim_end_matches p s = rev (trim_start_matches (rev p) (rev s))"

definition split_once :: "char \<Rightarrow> string \<Rightarrow> (string \<times> string) option" where
  "split_once c s =
     (if c \<in> set s then Some (takeWhile (\<lambda>x. x \<noteq> c) s, tl (dropWhile (\<lambda>x. x \<noteq> c) s)) else None)"

section \<open>Paths\<close>

text \<open>\<open>Path::file_name\<close>: the last component, unless it is \<open>..\<close>, the root or the current directory.\<close>

definition file_name :: "string \<Rightarrow> string option" where
  "file_name path =
     (let comps = filter (\<lambda>c. c \<noteq> [] \<and> c \<noteq> ''.'') (split_on CHR ''/'' path)
      in if comps = [] \<or> last comps = ''..'' then None else Some (last comps))"

text \<open>\<open>Path::join\<close>: an absolute second path replaces the first.\<close>

definition join :: "string \<Rightarrow> string \<Rightarrow> string" where
  "join dir p =
     (if p \<noteq> [] \<and> hd p = CHR ''/'' then p
      else if dir = [] then p
      else if last dir = CHR ''/'' then dir @ p
      else dir @ ''/'' @ p)"

section \<open>Other numbers\<close>

text \<open>\<open>str::parse\<close> at \<open>i64\<close>.\<close>

definition parse_i64 :: "string \<Rightarrow> parse_error + i64" where
  "parse_i64 s =
     (case s of
        [] \<Rightarrow> Inl ParseEmpty
      | c # cs \<Rightarrow>
          if cs = [] \<and> (c = CHR ''+'' \<or> c = CHR ''-'') then Inl InvalidDigit
          else if c = CHR ''-''
               then (case parse_digits (2 ^ 63 + 1) 0 cs of
                       Inr n \<Rightarrow> Inr (- of_nat n)
                     | Inl e \<Rightarrow> Inl (if e = PosOverflow then NegOverflow else e))
          else bindR (parse_digits (2 ^ 63) 0 (if c = CHR ''+'' then cs else s)) (\<lambda>n. Inr (of_nat n)))"

text \<open>\<open>u32::from_str_radix(_, 16)\<close>.\<close>

definition hex_val :: "char \<Rightarrow> nat option" where
  "hex_val c = (let n = of_char c in
     if 48 \<le> n \<and> n \<le> 57 then Some (n - 48)
     else if 97 \<le> n \<and> n \<le> 102 then Some (n - 87)
     else if 65 \<le> n \<and> n \<le> 70 then Some (n - 55)
     else None)"

fun parse_hex_digits :: "nat \<Rightarrow> string \<Rightarrow> parse_error + nat" where
  "parse_hex_digits acc [] = Inr acc"
| "parse_hex_digits acc (c # cs) =
     (case hex_val c of
        None \<Rightarrow> Inl InvalidDigit
      | Some d \<Rightarrow> if 2 ^ 32 \<le> acc * 16 + d then Inl PosOverflow else parse_hex_digits (acc * 16 + d) cs)"

definition parse_hex_u32 :: "string \<Rightarrow> parse_error + u32" where
  "parse_hex_u32 s =
     (case s of
        [] \<Rightarrow> Inl ParseEmpty
      | c # cs \<Rightarrow>
          if cs = [] \<and> (c = CHR ''+'' \<or> c = CHR ''-'') then Inl InvalidDigit
          else bindR (parse_hex_digits 0 (if c = CHR ''+'' then cs else s)) (\<lambda>n. Inr (of_nat n)))"

section \<open>Tokens of plain text\<close>

definition plain :: "string \<Rightarrow> bool" where
  "plain s \<longleftrightarrow> list_all (\<lambda>c. byte_in 33 127 c) s"

lemma ws_len_plain: "byte_in 33 127 c \<Longrightarrow> ws_len (c # s) = 0"
  by (auto simp: ws_len_def byte_in_def split: list.split)

lemma ws_len_space: "ws_len (CHR '' '' # s) = 1" "ws_len (CHR 0x09 # s) = 1"
  by (simp_all add: ws_len_def)

lemma split_ws_plain: "plain w \<Longrightarrow> split_ws_from tok (w @ s) = split_ws_from (tok @ w) s"
  by (induction w arbitrary: tok) (simp_all add: plain_def ws_len_plain)

lemma split_ws_spaces: "split_ws_from [] (replicate n (CHR '' '') @ s) = split_ws_from [] s"
  by (induction n) (simp_all add: ws_len_space)

end
