(* ===== verification/Probes.thy ===== *)
theory Probes
  imports Prelude
begin

text \<open>
  \<open>bpf/heimwatch-ebpf/src/main.rs\<close> and \<open>bpf/heimwatch-ebpf-common/src/lib.rs\<close>: the kernel-side
  probes and the counters they keep in three hash maps keyed by process name.  A BPF hash map is
  an association list; whether the kernel admits a new key is the parameter \<open>admits\<close>, with the
  documented behaviour of a map of \<open>BPF_MAP_ENTRIES\<close> entries as the locale \<open>bpf_hash\<close>.  Every probe
  is one step of the state; probes of different processors interleave as steps.
\<close>

section \<open>Counters\<close>

text \<open>A process name is an array of 16 bytes.\<close>

type_synonym comm = string

record PidNetStats =
  ns_tx_bytes :: u64
  ns_rx_bytes :: u64
  ns_comm :: comm

record PidCpuStats =
  cs_cpu_time_ns :: u64
  cs_last_sched_in_ns :: u64

record PidDiskStats =
  ds_read_bytes :: u64
  ds_write_bytes :: u64

definition BPF_MAP_ENTRIES :: nat where
  "BPF_MAP_ENTRIES = 10240"

section \<open>BPF hash maps\<close>

type_synonym 'v bpf_map = "(comm \<times> 'v) list"
type_synonym admission = "comm list \<Rightarrow> comm \<Rightarrow> bool"

text \<open>Writing through the pointer that \<open>get_ptr_mut\<close> returns, and inserting.\<close>

definition bpf_modify :: "comm \<Rightarrow> ('v \<Rightarrow> 'v) \<Rightarrow> 'v bpf_map \<Rightarrow> 'v bpf_map" where
  "bpf_modify k f m = map (\<lambda>(k', v). (k', if k' = k then f v else v)) m"

definition bpf_insert :: "admission \<Rightarrow> comm \<Rightarrow> 'v \<Rightarrow> 'v bpf_map \<Rightarrow> unit + 'v bpf_map" where
  "bpf_insert admits k v m =
     (if k \<in> set (map fst m) then Inr (bpf_modify k (\<lambda>_. v) m)
      else if admits (map fst m) k then Inr (m @ [(k, v)])
      else Inl ())"

text \<open>\<open>match M.get_ptr_mut(&k) { Some(s) => update, None => if M.insert(..).is_err() { warn } }\<close>.\<close>

definition bpf_upsert :: "admission \<Rightarrow> comm \<Rightarrow> ('v \<Rightarrow> 'v) \<Rightarrow> 'v \<Rightarrow> 'v bpf_map \<Rightarrow> 'v bpf_map" where
  "bpf_upsert admits k f new m =
     (case map_of m k of
        Some _ \<Rightarrow> bpf_modify k f m
      | None \<Rightarrow> (case bpf_insert admits k new m of Inr m' \<Rightarrow> m' | Inl _ \<Rightarrow> m))"

section \<open>The probes\<close>

record SchedSwitchArgs =
  sw_common_type :: "16 word"
  sw_common_flags :: u8
  sw_common_preempt_count :: u8
  sw_common_pid :: u32
  sw_prev_comm :: comm
  sw_prev_pid :: u32
  sw_prev_prio :: u32
  sw_prev_state :: i64
  sw_next_comm :: comm
  sw_next_pid :: u32
  sw_next_prio :: u32

record BlockRqIssueArgs =
  rq_common_type :: "16 word"
  rq_common_flags :: u8
  rq_common_preempt_count :: u8
  rq_common_pid :: u32
  rq_dev :: u32
  rq_sector :: u64
  rq_nr_sector :: u32
  rq_bytes :: u32
  rq_ioprio :: "16 word"
  rq_rwbs :: string
  rq_comm :: comm

record kstate =
  NETWORK_STATS :: "PidNetStats bpf_map"
  CPU_STATS :: "PidCpuStats bpf_map"
  DISK_STATS :: "PidDiskStats bpf_map"

definition kstate0 :: kstate where
  "kstate0 = \<lparr> NETWORK_STATS = [], CPU_STATS = [], DISK_STATS = [] \<rparr>"

definition zero_comm :: comm where
  "zero_comm = replicate 16 (CHR 0x00)"

text \<open>The helpers' results are \<open>None\<close> when they fail.\<close>

definition try_sendmsg :: "admission \<Rightarrow> u64 option \<Rightarrow> comm option \<Rightarrow> PidNetStats bpf_map \<Rightarrow> PidNetStats bpf_map" where
  "try_sendmsg admits arg2 current_comm m =
     (let size = unwrap_or arg2 0; comm = unwrap_or current_comm zero_comm in
      bpf_upsert admits comm (\<lambda>s. s\<lparr> ns_tx_bytes := sat_add (ns_tx_bytes s) size \<rparr>)
        \<lparr> ns_tx_bytes = size, ns_rx_bytes = 0, ns_comm = comm \<rparr> m)"

definition try_recvmsg :: "admission \<Rightarrow> i64 option \<Rightarrow> comm option \<Rightarrow> PidNetStats bpf_map \<Rightarrow> PidNetStats bpf_map" where
  "try_recvmsg admits ret current_comm m =
     (let bytes_received = unwrap_or ret 0 in
      if sint bytes_received \<le> 0 then m
      else (let comm = unwrap_or current_comm zero_comm in
            bpf_upsert admits comm (\<lambda>s. s\<lparr> ns_rx_bytes := sat_add (ns_rx_bytes s) bytes_received \<rparr>)
              \<lparr> ns_tx_bytes = 0, ns_rx_bytes = bytes_received, ns_comm = comm \<rparr> m))"

definition is_comm_empty :: "comm \<Rightarrow> bool" where
  "is_comm_empty comm \<longleftrightarrow> comm ! 0 = CHR 0x00"

definition sched_out :: "u64 \<Rightarrow> PidCpuStats \<Rightarrow> PidCpuStats" where
  "sched_out now_ns s =
     (let last_in = cs_last_sched_in_ns s;
          s1 = (if 0 < last_in
                then s\<lparr> cs_cpu_time_ns := sat_add (cs_cpu_time_ns s) (sat_sub now_ns last_in) \<rparr>
                else s)
      in s1\<lparr> cs_last_sched_in_ns := 0 \<rparr>)"

definition try_sched_switch :: "admission \<Rightarrow> u64 \<Rightarrow> SchedSwitchArgs option \<Rightarrow> PidCpuStats bpf_map \<Rightarrow> PidCpuStats bpf_map" where
  "try_sched_switch admits now_ns read_at m =
     (case read_at of
        None \<Rightarrow> m
      | Some args \<Rightarrow>
          (let prev_comm = sw_prev_comm args; next_comm = sw_next_comm args;
               m1 = (if \<not> is_comm_empty prev_comm then bpf_modify prev_comm (sched_out now_ns) m else m)
           in if \<not> is_comm_empty next_comm
              then bpf_upsert admits next_comm (\<lambda>s. s\<lparr> cs_last_sched_in_ns := now_ns \<rparr>)
                     \<lparr> cs_cpu_time_ns = 0, cs_last_sched_in_ns = now_ns \<rparr> m1
              else m1))"

definition try_block_rq_issue :: "admission \<Rightarrow> BlockRqIssueArgs option \<Rightarrow> PidDiskStats bpf_map \<Rightarrow> PidDiskStats bpf_map" where
  "try_block_rq_issue admits read_at m =
     (case read_at of
        None \<Rightarrow> m
      | Some args \<Rightarrow>
          if rq_bytes args = 0 then m
          else if is_comm_empty (rq_comm args) then m
          else
            (let bytes = ucast (rq_bytes args) :: u64;
                 first = (case rq_rwbs args of [] \<Rightarrow> CHR 0x00 | c # _ \<Rightarrow> c);
                 is_read = (first = CHR ''R'' \<or> first = CHR ''r'');
                 is_write = (first = CHR ''W'' \<or> first = CHR ''w'')
             in bpf_upsert admits (rq_comm args)
                  (\<lambda>s. if is_read then s\<lparr> ds_read_bytes := sat_add (ds_read_bytes s) bytes \<rparr>
                       else if is_write then s\<lparr> ds_write_bytes := sat_add (ds_write_bytes s) bytes \<rparr>
                       else s)
                  \<lparr> ds_read_bytes = (if is_read then bytes else 0),
                    ds_write_bytes = (if is_write then bytes else 0) \<rparr> m))"

text \<open>One probe firing.\<close>

datatype probe_event =
    SendMsg "u64 option" "comm option"
  | RecvMsg "i64 option" "comm option"
  | SchedSwitch u64 "SchedSwitchArgs option"
  | BlockRqIssue "BlockRqIssueArgs option"

fun fire :: "admission \<Rightarrow> kstate \<Rightarrow> probe_event \<Rightarrow> kstate" where
  "fire admits k (SendMsg a c) = k\<lparr> NETWORK_STATS := try_sendmsg admits a c (NETWORK_STATS k) \<rparr>"
| "fire admits k (RecvMsg r c) = k\<lparr> NETWORK_STATS := try_recvmsg admits r c (NETWORK_STATS k) \<rparr>"
| "fire admits k (SchedSwitch t a) = k\<lparr> CPU_STATS := try_sched_switch admits t a (CPU_STATS k) \<rparr>"
| "fire admits k (BlockRqIssue a) = k\<lparr> DISK_STATS := try_block_rq_issue admits a (DISK_STATS k) \<rparr>"

inductive reach :: "admission \<Rightarrow> kstate \<Rightarrow> bool" for admits where
  start: "reach admits kstate0"
| step: "reach admits k \<Longrightarrow> reach admits (fire admits k ev)"

inductive_cases reach_cases: "reach admits k"

section \<open>Facts on the maps\<close>

lemma map_of_modify [simp]: "map_of (bpf_modify k f m) k' = (if k' = k then map_option f (map_of m k) else map_of m k')"
  by (induction m) (auto simp: bpf_modify_def)

lemma keys_modify [simp]: "map fst (bpf_modify k f m) = map fst m"
  by (simp add: bpf_modify_def comp_def case_prod_unfold)

lemma keys_modify_set [simp]: "fst ` set (bpf_modify k f m) = fst ` set m"
  by (metis keys_modify set_map)

lemma length_modify [simp]: "length (bpf_modify k f m) = length m"
  by (simp add: bpf_modify_def)

lemma map_of_append_new: "map_of m k = None \<Longrightarrow> map_of (m @ [(k, v)]) k' = (if k' = k then Some v else map_of m k')"
  by (auto simp: map_add_def split: option.split)

lemma bpf_upsert_cases:
  "bpf_upsert admits k f new m =
     (if k \<in> set (map fst m) then bpf_modify k f m
      else if admits (map fst m) k then m @ [(k, new)] else m)"
proof (cases "map_of m k")
  case None
  then have "k \<notin> set (map fst m)" by (simp add: map_of_eq_None_iff)
  then show ?thesis using None by (simp add: bpf_upsert_def bpf_insert_def)
next
  case (Some v)
  then have "k \<in> set (map fst m)" by (metis map_of_eq_None_iff option.distinct(1) set_map)
  then show ?thesis using Some by (simp add: bpf_upsert_def)
qed

definition map_ok :: "'v bpf_map \<Rightarrow> bool" where
  "map_ok m \<longleftrightarrow> distinct (map fst m) \<and> length m \<le> BPF_MAP_ENTRIES"

lemma map_ok_modify [simp]: "map_ok (bpf_modify k f m) \<longleftrightarrow> map_ok m"
  unfolding map_ok_def by (metis keys_modify length_map)

text \<open>A hash map of \<open>BPF_MAP_ENTRIES\<close> entries admits a new key exactly while it is not full.\<close>

locale bpf_hash =
  fixes admits :: admission
  assumes admits_iff: "admits ks k \<longleftrightarrow> length ks < BPF_MAP_ENTRIES"
begin

lemma map_ok_upsert: "map_ok m \<Longrightarrow> map_ok (bpf_upsert admits k f new m)"
  by (simp add: bpf_upsert_cases map_ok_def [of "m @ _"] admits_iff) (simp add: map_ok_def)

text \<open>A sequence of updates of the form \<open>(key, change)\<close> to a map that has room for all keys: each
  key accumulates its own changes, from a neutral value.\<close>

lemma upserts_accumulate:
  assumes "distinct (map fst m)" and "card (set (map fst m) \<union> fst ` set us) \<le> BPF_MAP_ENTRIES"
    and "\<And>k f. (k, f) \<in> set us \<Longrightarrow> new k f = f (z k)"
  shows "map_of (foldl (\<lambda>m (k, f). bpf_upsert admits k f (new k f) m) m us) c =
    (if c \<in> set (map fst m) \<union> fst ` set us
     then Some (foldl (\<lambda>v (k, f). f v) (unwrap_or (map_of m c) (z c)) (filter (\<lambda>(k, f). k = c) us))
     else None)"
  using assms
proof (induction us arbitrary: m)
  case Nil
  then show ?case by (auto simp: unwrap_or_def map_of_eq_None_iff split: option.split)
next
  case (Cons u us)
  obtain k f where u: "u = (k, f)" by (cases u)
  let ?m = "bpf_upsert admits k f (new k f) m"
  have new: "new k f = f (z k)" using Cons.prems(3) u by simp
  have room: "length m < BPF_MAP_ENTRIES" if "k \<notin> set (map fst m)"
  proof -
    have "card (insert k (set (map fst m))) \<le> card (set (map fst m) \<union> fst ` set (u # us))"
      by (rule card_mono) (auto simp: u)
    then show ?thesis using that Cons.prems(1,2) distinct_card [of "map fst m"] by simp
  qed
  have m: "?m = (if k \<in> set (map fst m) then bpf_modify k f m else m @ [(k, f (z k))])"
    using room by (simp add: bpf_upsert_cases admits_iff new)
  have keys: "set (map fst ?m) = insert k (set (map fst m))"
    by (simp add: m insert_absorb)
  have dist: "distinct (map fst ?m)" using Cons.prems(1) by (simp add: m)
  have look: "map_of ?m c = (if c = k then Some (f (unwrap_or (map_of m c) (z c))) else map_of m c)"
  proof (cases "map_of m k")
    case None
    then have "?m = m @ [(k, f (z k))]" using m by (simp add: map_of_eq_None_iff)
    with None show ?thesis by (simp only: map_of_append_new [OF None]) (simp add: unwrap_or_def)
  next
    case (Some v)
    then have "?m = bpf_modify k f m" using m by (metis map_of_eq_None_iff option.distinct(1) set_map)
    with Some show ?thesis by (simp add: unwrap_or_def)
  qed
  have "card (set (map fst ?m) \<union> fst ` set us) \<le> BPF_MAP_ENTRIES"
    using Cons.prems(2) unfolding keys u by (simp add: insert_commute)
  from Cons.IH [OF dist this] Cons.prems(3) have
    "map_of (foldl (\<lambda>m (k, f). bpf_upsert admits k f (new k f) m) ?m us) c =
      (if c \<in> set (map fst ?m) \<union> fst ` set us
       then Some (foldl (\<lambda>v (k, f). f v) (unwrap_or (map_of ?m c) (z c)) (filter (\<lambda>(k, f). k = c) us))
       else None)" by simp
  then show ?case unfolding u keys look by (auto simp: unwrap_or_def)
qed

end

definition kernel_admits :: admission where
  "kernel_admits ks k \<longleftrightarrow> length ks < BPF_MAP_ENTRIES"

interpretation kernel: bpf_hash kernel_admits
  by unfold_locales (simp add: kernel_admits_def)

section \<open>Invariant of the reachable states\<close>

definition counters_ok :: "kstate \<Rightarrow> bool" where
  "counters_ok k \<longleftrightarrow> map_ok (NETWORK_STATS k) \<and> map_ok (CPU_STATS k) \<and> map_ok (DISK_STATS k) \<and>
     list_all (\<lambda>(c, s). ns_comm s = c) (NETWORK_STATS k)"

lemma list_all_modify:
  "list_all P m \<Longrightarrow> (\<And>v. P (k, v) \<Longrightarrow> P (k, f v)) \<Longrightarrow> list_all P (bpf_modify k f m)"
  by (auto simp: list_all_iff bpf_modify_def)

lemma list_all_upsert:
  "list_all P m \<Longrightarrow> (\<And>v. P (k, v) \<Longrightarrow> P (k, f v)) \<Longrightarrow> P (k, new) \<Longrightarrow> list_all P (bpf_upsert admits k f new m)"
  by (simp add: bpf_upsert_cases list_all_modify)

context bpf_hash
begin

lemma fire_ok: "counters_ok k \<Longrightarrow> counters_ok (fire admits k ev)"
  by (cases ev)
    (auto simp: counters_ok_def try_sendmsg_def try_recvmsg_def try_sched_switch_def try_block_rq_issue_def
      Let_def map_ok_upsert intro!: list_all_upsert split: option.split)

lemma reach_ok: "reach admits k \<Longrightarrow> counters_ok k"
proof (induction rule: reach.induct)
  case start
  then show ?case by (simp add: counters_ok_def kstate0_def map_ok_def)
qed (rule fire_ok)

end

section \<open>Counters never fall\<close>

definition le_net :: "PidNetStats \<Rightarrow> PidNetStats \<Rightarrow> bool" where
  "le_net s t \<longleftrightarrow> ns_tx_bytes s \<le> ns_tx_bytes t \<and> ns_rx_bytes s \<le> ns_rx_bytes t"

definition le_cpu :: "PidCpuStats \<Rightarrow> PidCpuStats \<Rightarrow> bool" where
  "le_cpu s t \<longleftrightarrow> cs_cpu_time_ns s \<le> cs_cpu_time_ns t"

definition le_dsk :: "PidDiskStats \<Rightarrow> PidDiskStats \<Rightarrow> bool" where
  "le_dsk s t \<longleftrightarrow> ds_read_bytes s \<le> ds_read_bytes t \<and> ds_write_bytes s \<le> ds_write_bytes t"

lemma le_refls [simp]: "le_net s s" "le_cpu t t" "le_dsk d d"
  by (simp_all add: le_net_def le_cpu_def le_dsk_def)

lemma le_cpu_sched_out [simp]: "le_cpu t (sched_out now t)"
  by (simp add: le_cpu_def sched_out_def Let_def sat_add_ge1)

lemma grows_modify:
  assumes "\<And>v. R v (f v)" and "\<And>v. R v v" and "map_of m c = Some v"
  shows "\<exists>v'. map_of (bpf_modify k f m) c = Some v' \<and> R v v'"
  using assms by auto

lemma grows_upsert:
  assumes "\<And>v. R v (f v)" and "\<And>v. R v v" and "map_of m c = Some v"
  shows "\<exists>v'. map_of (bpf_upsert admits k f new m) c = Some v' \<and> R v v'"
  using assms grows_modify [of R f m c v k] by (auto simp: bpf_upsert_cases map_add_def)

lemma fire_grows:
  "map_of (NETWORK_STATS k) c = Some s \<Longrightarrow> \<exists>s'. map_of (NETWORK_STATS (fire admits k ev)) c = Some s' \<and> le_net s s'"
  "map_of (CPU_STATS k) c = Some t \<Longrightarrow> \<exists>t'. map_of (CPU_STATS (fire admits k ev)) c = Some t' \<and> le_cpu t t'"
  "map_of (DISK_STATS k) c = Some d \<Longrightarrow> \<exists>d'. map_of (DISK_STATS (fire admits k ev)) c = Some d' \<and> le_dsk d d'"
proof -
  show "map_of (NETWORK_STATS k) c = Some s \<Longrightarrow> \<exists>s'. map_of (NETWORK_STATS (fire admits k ev)) c = Some s' \<and> le_net s s'"
    by (cases ev) (auto simp: try_sendmsg_def try_recvmsg_def Let_def le_net_def sat_add_ge1 intro!: grows_upsert)
  show "map_of (DISK_STATS k) c = Some d \<Longrightarrow> \<exists>d'. map_of (DISK_STATS (fire admits k ev)) c = Some d' \<and> le_dsk d d'"
    by (cases ev) (auto simp: try_block_rq_issue_def Let_def le_dsk_def sat_add_ge1 intro!: grows_upsert split: option.split)
  assume t: "map_of (CPU_STATS k) c = Some t"
  show "\<exists>t'. map_of (CPU_STATS (fire admits k ev)) c = Some t' \<and> le_cpu t t'"
  proof (cases ev)
    case (SchedSwitch now a)
    show ?thesis
    proof (cases a)
      case (Some args)
      let ?m = "if \<not> is_comm_empty (sw_prev_comm args) then bpf_modify (sw_prev_comm args) (sched_out now) (CPU_STATS k)
        else CPU_STATS k"
      obtain u where u: "map_of ?m c = Some u" "le_cpu t u"
        using grows_modify [of le_cpu "sched_out now" "CPU_STATS k" c t "sw_prev_comm args"] t
        by (cases "is_comm_empty (sw_prev_comm args)") auto
      obtain v where "map_of (try_sched_switch admits now a (CPU_STATS k)) c = Some v" "le_cpu u v"
        using grows_upsert [of le_cpu "\<lambda>s. s\<lparr>cs_last_sched_in_ns := now\<rparr>", OF _ _ u(1), of admits
            "sw_next_comm args" "\<lparr> cs_cpu_time_ns = 0, cs_last_sched_in_ns = now \<rparr>"] u(1)
        unfolding try_sched_switch_def Some Let_def option.case
        by (cases "is_comm_empty (sw_next_comm args)") (auto simp: le_cpu_def)
      then show ?thesis using u(2) SchedSwitch by (auto simp: le_cpu_def)
    qed (use t SchedSwitch in \<open>simp add: try_sched_switch_def le_cpu_def\<close>)
  qed (use t in \<open>simp_all add: le_cpu_def\<close>)
qed

text \<open>C14: The counters of the probes.  In every state that any interleaving of probe firings reaches,
  each map has at most \<open>BPF_MAP_ENTRIES\<close> entries with distinct names and every network entry carries
  its own name; and one more firing keeps every entry and never lowers a counter (saturation
  instead of wrap-around).\<close>

theorem probe_counters_invariant:
  assumes "bpf_hash admits" and "reach admits k"
  shows "counters_ok k \<and>
    (\<forall>ev c s. map_of (NETWORK_STATS k) c = Some s \<longrightarrow>
       (\<exists>s'. map_of (NETWORK_STATS (fire admits k ev)) c = Some s' \<and> le_net s s')) \<and>
    (\<forall>ev c s. map_of (CPU_STATS k) c = Some s \<longrightarrow>
       (\<exists>s'. map_of (CPU_STATS (fire admits k ev)) c = Some s' \<and> le_cpu s s')) \<and>
    (\<forall>ev c s. map_of (DISK_STATS k) c = Some s \<longrightarrow>
       (\<exists>s'. map_of (DISK_STATS (fire admits k ev)) c = Some s' \<and> le_dsk s s'))"
  using bpf_hash.reach_ok [OF assms] fire_grows by blast

theorem probe_counters_invariant_witness:
  "counters_ok (fire kernel_admits kstate0 (SendMsg (Some 5) (Some ''abcdefghijklmnop'')))"
  using probe_counters_invariant [OF kernel.bpf_hash_axioms reach.step [OF reach.start]] by blast

section \<open>Processor time\<close>

text \<open>The switches of one processor: times do not fall, each names as previous process the one that
  the switch before it named as next, and no next name is empty.\<close>

fun chained :: "u64 \<Rightarrow> comm \<Rightarrow> (u64 \<times> SchedSwitchArgs) list \<Rightarrow> bool" where
  "chained t prev [] \<longleftrightarrow> True"
| "chained t prev ((now, a) # rest) \<longleftrightarrow>
     t \<le> now \<and> sw_prev_comm a = prev \<and> \<not> is_comm_empty (sw_next_comm a) \<and> chained now (sw_next_comm a) rest"

abbreviation switches :: "(u64 \<times> SchedSwitchArgs) list \<Rightarrow> probe_event list" where
  "switches tr \<equiv> map (\<lambda>(t, a). SchedSwitch t (Some a)) tr"

definition cpu_total :: "PidCpuStats bpf_map \<Rightarrow> nat" where
  "cpu_total m = (\<Sum>(c, s)\<leftarrow>m. unat (cs_cpu_time_ns s))"

lemma cpu_total_Cons [simp]: "cpu_total ((c, s) # m) = unat (cs_cpu_time_ns s) + cpu_total m"
  by (simp add: cpu_total_def)

lemma cpu_total_Nil [simp]: "cpu_total [] = 0"
  by (simp add: cpu_total_def)

lemma cpu_total_append [simp]: "cpu_total (m @ m') = cpu_total m + cpu_total m'"
  by (simp add: cpu_total_def)

lemma cpu_total_modify:
  assumes "distinct (map fst m)" and "map_of m k = Some s" and "unat (cs_cpu_time_ns (f s)) = unat (cs_cpu_time_ns s) + d"
  shows "cpu_total (bpf_modify k f m) = cpu_total m + d"
  using assms
proof (induction m)
  case (Cons p m)
  obtain c u where p: "p = (c, u)" by (cases p)
  show ?case
  proof (cases "c = k")
    case True
    then have "bpf_modify k f m = m"
      using Cons.prems(1) p unfolding bpf_modify_def by (intro map_idI) force
    moreover have "bpf_modify k f (p # m) = (k, f s) # bpf_modify k f m"
      using True p Cons.prems(2) by (simp add: bpf_modify_def)
    ultimately show ?thesis using True Cons.prems(2,3) p by simp
  next
    case False
    then have "bpf_modify k f (p # m) = p # bpf_modify k f m" by (simp add: bpf_modify_def p)
    then show ?thesis using Cons False p by simp
  qed
qed simp

lemma cpu_total_ge: "map_of m k = Some s \<Longrightarrow> unat (cs_cpu_time_ns s) \<le> cpu_total m"
proof (induction m)
  case (Cons p m)
  then show ?case by (cases p) (auto split: if_splits intro: trans_le_add2)
qed simp

text \<open>The process \<open>cur\<close> runs since \<open>t\<close>, and the counters add up to the time since \<open>t0\<close>.\<close>

definition tracking :: "u64 \<Rightarrow> u64 \<Rightarrow> comm \<Rightarrow> PidCpuStats bpf_map \<Rightarrow> bool" where
  "tracking t0 t cur m \<longleftrightarrow> distinct (map fst m) \<and> 0 < t \<and> t0 \<le> t \<and> cpu_total m = unat t - unat t0 \<and>
     \<not> is_comm_empty cur \<and> (\<exists>s. map_of m cur = Some s \<and> cs_last_sched_in_ns s = t)"

lemma sched_out_time:
  assumes "cs_last_sched_in_ns s = t" and "0 < t" and "t \<le> now" and "unat (cs_cpu_time_ns s) \<le> unat t"
  shows "unat (cs_cpu_time_ns (sched_out now s)) = unat (cs_cpu_time_ns s) + (unat now - unat t)"
proof -
  have "unat now < 2 ^ 64" using unsigned_less [of now, where ?'a = nat] by simp
  then have "unat (cs_cpu_time_ns s) + (unat now - unat t) \<le> 2 ^ 64 - 1"
    using assms(3,4) by (simp add: word_le_nat_alt)
  then show ?thesis using assms(1,2) by (simp add: sched_out_def Let_def unat_sat_add unat_sat_sub)
qed

context bpf_hash
begin

lemma start_tracking:
  assumes "0 < t" and "\<not> is_comm_empty (sw_next_comm a)"
  shows "tracking t t (sw_next_comm a) (try_sched_switch admits t (Some a) [])"
    and "set (map fst (try_sched_switch admits t (Some a) [])) = {sw_next_comm a}"
  using assms
  by (simp_all add: tracking_def try_sched_switch_def Let_def bpf_modify_def bpf_upsert_cases admits_iff BPF_MAP_ENTRIES_def)

lemma keep_tracking:
  assumes tr: "tracking t0 t (sw_prev_comm a) m" and now: "t \<le> now" and ne: "\<not> is_comm_empty (sw_next_comm a)"
    and room: "sw_next_comm a \<notin> set (map fst m) \<Longrightarrow> length m < BPF_MAP_ENTRIES"
  shows "tracking t0 now (sw_next_comm a) (try_sched_switch admits now (Some a) m)"
    and "set (map fst (try_sched_switch admits now (Some a) m)) = insert (sw_next_comm a) (set (map fst m))"
proof -
  let ?m1 = "bpf_modify (sw_prev_comm a) (sched_out now) m" and ?n = "sw_next_comm a"
  let ?in = "\<lambda>s. s\<lparr> cs_last_sched_in_ns := now \<rparr>"
  let ?m2 = "if ?n \<in> set (map fst m) then bpf_modify ?n ?in ?m1
    else ?m1 @ [(?n, \<lparr> cs_cpu_time_ns = 0, cs_last_sched_in_ns = now \<rparr>)]"
  obtain s where s: "map_of m (sw_prev_comm a) = Some s" "cs_last_sched_in_ns s = t"
    and T: "distinct (map fst m)" "0 < t" "t0 \<le> t" "cpu_total m = unat t - unat t0" "\<not> is_comm_empty (sw_prev_comm a)"
    using tr by (auto simp: tracking_def)
  have le: "unat (cs_cpu_time_ns s) \<le> unat t" using cpu_total_ge [OF s(1)] T(4) by simp
  have step: "try_sched_switch admits now (Some a) m = ?m2"
    using ne T(5) room by (simp add: try_sched_switch_def Let_def bpf_upsert_cases admits_iff)
  have total1: "cpu_total ?m1 = unat now - unat t0"
    using cpu_total_modify [of m _ _ "sched_out now", OF T(1) s(1) sched_out_time [OF s(2) T(2) now le]] T(3,4) now
    by (simp add: word_le_nat_alt)
  have d1: "distinct (map fst ?m1)" using T(1) by simp
  have total2: "cpu_total ?m2 = unat now - unat t0"
  proof (cases "?n \<in> set (map fst m)")
    case True
    then obtain u where "map_of ?m1 ?n = Some u" by (metis keys_modify map_of_eq_None_iff not_None_eq set_map)
    from cpu_total_modify [of ?m1 ?n u ?in 0, OF d1 this] total1 True show ?thesis by simp
  qed (use total1 in simp)
  have keys: "set (map fst ?m2) = insert ?n (set (map fst m))"
    by auto
  then show "set (map fst (try_sched_switch admits now (Some a) m)) = insert ?n (set (map fst m))"
    unfolding step .
  have "distinct (map fst ?m2)" using T(1) by simp
  moreover have "\<exists>u. map_of ?m2 ?n = Some u \<and> cs_last_sched_in_ns u = now"
  proof (cases "map_of ?m1 ?n")
    case None
    then have "?n \<notin> set (map fst m)" by (metis keys_modify map_of_eq_None_iff set_map)
    then show ?thesis using map_of_append_new [OF None] by simp
  next
    case (Some u)
    then have "?n \<in> set (map fst m)" by (metis keys_modify map_of_eq_None_iff option.distinct(1) set_map)
    then show ?thesis using Some by simp
  qed
  ultimately show "tracking t0 now ?n (try_sched_switch admits now (Some a) m)"
    unfolding step using total2 ne T(2,3) now by (auto simp: tracking_def)
qed

lemma tracking_run:
  assumes "tracking t0 t prev m" and "chained t prev tr" and "set (map fst m) \<subseteq> N"
    and "(sw_next_comm \<circ> snd) ` set tr \<subseteq> N" and "finite N" and "card N \<le> BPF_MAP_ENTRIES"
  shows "\<exists>cur. tracking t0 (last (t # map fst tr)) cur
    (foldl (\<lambda>m (now, a). try_sched_switch admits now (Some a) m) m tr)"
  using assms
proof (induction tr arbitrary: t prev m)
  case (Cons x tr)
  obtain now a where x: "x = (now, a)" by (cases x)
  have room: "length m < BPF_MAP_ENTRIES" if "sw_next_comm a \<notin> set (map fst m)"
  proof -
    have "card (set (map fst m)) < card N"
      using that Cons.prems(3,4,5) x by (intro psubset_card_mono) auto
    then show ?thesis
      using Cons.prems(1,6) distinct_card [of "map fst m"] by (simp add: tracking_def)
  qed
  have pre: "tracking t0 t (sw_prev_comm a) m" "t \<le> now" "\<not> is_comm_empty (sw_next_comm a)"
    using Cons.prems(1,2) x by auto
  have "tracking t0 now (sw_next_comm a) (try_sched_switch admits now (Some a) m)"
    and "set (map fst (try_sched_switch admits now (Some a) m)) = insert (sw_next_comm a) (set (map fst m))"
    by (rule keep_tracking [OF pre room], assumption)+
  from Cons.IH [OF this(1)] this(2) Cons.prems x show ?case by (auto split: if_splits)
qed auto

end

lemma CPU_STATS_switches:
  "CPU_STATS (foldl (fire admits) k (switches tr)) =
     foldl (\<lambda>m (now, a). try_sched_switch admits now (Some a) m) (CPU_STATS k) tr"
  by (induction tr arbitrary: k) auto

text \<open>C13: Processor time is conserved.  For the switches of one processor (times above zero and not falling, each
  from the process switched to before and to one with a name, at most \<open>BPF_MAP_ENTRIES\<close> names) the counters of all
  processes together hold exactly the nanoseconds between the first and the last switch.\<close>

theorem cpu_time_conserved:
  assumes "bpf_hash admits" and "0 < t" and "\<not> is_comm_empty (sw_next_comm a)"
    and "chained t (sw_next_comm a) tr"
    and "card (insert (sw_next_comm a) ((sw_next_comm \<circ> snd) ` set tr)) \<le> BPF_MAP_ENTRIES"
  shows "cpu_total (CPU_STATS (foldl (fire admits) kstate0 (switches ((t, a) # tr)))) =
    unat (last (t # map fst tr)) - unat t"
proof -
  let ?N = "insert (sw_next_comm a) ((sw_next_comm \<circ> snd) ` set tr)"
  let ?m = "try_sched_switch admits t (Some a) []"
  note st = bpf_hash.start_tracking [OF assms(1-3)]
  have "\<exists>cur. tracking t (last (t # map fst tr)) cur
      (foldl (\<lambda>m (now, a). try_sched_switch admits now (Some a) m) ?m tr)"
    by (rule bpf_hash.tracking_run [OF assms(1) st(1) assms(4) _ _ _ assms(5)]) (use st(2) in auto)
  then show ?thesis
    unfolding CPU_STATS_switches by (auto simp: tracking_def kstate0_def)
qed

definition w_switch :: "comm \<Rightarrow> comm \<Rightarrow> SchedSwitchArgs" where
  "w_switch prev next =
     \<lparr> sw_common_type = 0, sw_common_flags = 0, sw_common_preempt_count = 0, sw_common_pid = 0,
       sw_prev_comm = prev, sw_prev_pid = 1, sw_prev_prio = 120, sw_prev_state = 0,
       sw_next_comm = next, sw_next_pid = 2, sw_next_prio = 120 \<rparr>"

theorem cpu_time_conserved_witness:
  "cpu_total (CPU_STATS (foldl (fire kernel_admits) kstate0
     (switches [(10, w_switch ''idle'' ''bash''), (25, w_switch ''bash'' ''curl''), (40, w_switch ''curl'' ''bash'')]))) = 30"
proof -
  let ?tr = "[(25 :: u64, w_switch ''bash'' ''curl''), (40, w_switch ''curl'' ''bash'')]"
  have "chained 10 (sw_next_comm (w_switch ''idle'' ''bash'')) ?tr"
    "\<not> is_comm_empty (sw_next_comm (w_switch ''idle'' ''bash''))"
    by (simp_all add: w_switch_def is_comm_empty_def)
  moreover have "card (insert (sw_next_comm (w_switch ''idle'' ''bash'')) ((sw_next_comm \<circ> snd) ` set ?tr)) \<le> BPF_MAP_ENTRIES"
    by (simp add: w_switch_def BPF_MAP_ENTRIES_def card_insert_if)
  ultimately show ?thesis
    using cpu_time_conserved [OF kernel.bpf_hash_axioms, of 10 "w_switch ''idle'' ''bash''" ?tr] by simp
qed

section \<open>Network counters\<close>

text \<open>What one event changes in the network map.\<close>

fun net_changes :: "probe_event \<Rightarrow> (comm \<times> (PidNetStats \<Rightarrow> PidNetStats)) list" where
  "net_changes (SendMsg a c) = [(unwrap_or c zero_comm, \<lambda>s. s\<lparr> ns_tx_bytes := sat_add (ns_tx_bytes s) (unwrap_or a 0) \<rparr>)]"
| "net_changes (RecvMsg r c) =
     (if sint (unwrap_or r 0) \<le> 0 then []
      else [(unwrap_or c zero_comm, \<lambda>s. s\<lparr> ns_rx_bytes := sat_add (ns_rx_bytes s) (unwrap_or r 0) \<rparr>)])"
| "net_changes _ = []"

definition net_zero :: "comm \<Rightarrow> PidNetStats" where
  "net_zero c = \<lparr> ns_tx_bytes = 0, ns_rx_bytes = 0, ns_comm = c \<rparr>"

lemma sat_add_zero [simp]: "sat_add 0 a = a"
  by (simp add: sat_add_def unsigned_less)

lemma NETWORK_STATS_run:
  "NETWORK_STATS (foldl (fire admits) k evs) =
     foldl (\<lambda>m (c, f). bpf_upsert admits c f (f (net_zero c)) m) (NETWORK_STATS k) (concat (map net_changes evs))"
proof (induction evs arbitrary: k)
  case (Cons ev evs)
  then show ?case
    by (cases ev) (simp_all add: try_sendmsg_def try_recvmsg_def Let_def net_zero_def)
qed simp

text \<open>The bytes that a trace sends and receives for one process.\<close>

fun sent_by :: "comm \<Rightarrow> probe_event \<Rightarrow> nat" where
  "sent_by c (SendMsg a c') = (if unwrap_or c' zero_comm = c then unat (unwrap_or a 0) else 0)"
| "sent_by c _ = 0"

fun received_by :: "comm \<Rightarrow> probe_event \<Rightarrow> nat" where
  "received_by c (RecvMsg r c') =
     (if unwrap_or c' zero_comm = c \<and> 0 < sint (unwrap_or r 0) then unat (unwrap_or r 0) else 0)"
| "received_by c _ = 0"

abbreviation changes_of :: "comm \<Rightarrow> probe_event list \<Rightarrow> (comm \<times> (PidNetStats \<Rightarrow> PidNetStats)) list" where
  "changes_of c evs \<equiv> filter (\<lambda>(k, f). k = c) (concat (map net_changes evs))"

lemma changes_total:
  "let s' = foldl (\<lambda>v (k, f). f v) s (changes_of c evs) in
     unat (ns_tx_bytes s') = min (unat (ns_tx_bytes s) + (\<Sum>ev\<leftarrow>evs. sent_by c ev)) (2 ^ 64 - 1) \<and>
     unat (ns_rx_bytes s') = min (unat (ns_rx_bytes s) + (\<Sum>ev\<leftarrow>evs. received_by c ev)) (2 ^ 64 - 1)"
proof (induction evs arbitrary: s)
  case Nil
  have "unat w \<le> 2 ^ 64 - 1" for w :: u64 using unsigned_less [of w, where ?'a = nat] by simp
  then show ?case by (simp add: min_def)
next
  case (Cons ev evs)
  show ?case
    using Cons.IH [of "foldl (\<lambda>v (k, f). f v) s (filter (\<lambda>(k, f). k = c) (net_changes ev))"]
    by (cases ev) (auto simp: Let_def unat_sat_add min_def)
qed

lemma network_counters:
  assumes "bpf_hash admits" and "card (fst ` set (concat (map net_changes evs))) \<le> BPF_MAP_ENTRIES"
  shows "case map_of (NETWORK_STATS (foldl (fire admits) kstate0 evs)) c of
      None \<Rightarrow> c \<notin> fst ` set (concat (map net_changes evs))
    | Some s \<Rightarrow> c \<in> fst ` set (concat (map net_changes evs)) \<and>
        unat (ns_tx_bytes s) = min (\<Sum>ev\<leftarrow>evs. sent_by c ev) (2 ^ 64 - 1) \<and>
        unat (ns_rx_bytes s) = min (\<Sum>ev\<leftarrow>evs. received_by c ev) (2 ^ 64 - 1)"
proof -
  let ?us = "concat (map net_changes evs)"
  have "map_of (NETWORK_STATS (foldl (fire admits) kstate0 evs)) c =
    (if c \<in> fst ` set ?us then Some (foldl (\<lambda>v (k, f). f v) (net_zero c) (changes_of c evs)) else None)"
    using bpf_hash.upserts_accumulate [OF assms(1), of "[]" ?us "\<lambda>c f. f (net_zero c)" net_zero c] assms(2)
    unfolding NETWORK_STATS_run by (simp add: kstate0_def unwrap_or_def)
  then show ?thesis
    using changes_total [of "net_zero c" c evs] by (auto simp: Let_def net_zero_def)
qed

text \<open>C31: Network counters are exact.  After any sequence of probe firings with at most
  \<open>BPF_MAP_ENTRIES\<close> process names, a process has an entry exactly when it sent or received, and its
  counters are the sums of all bytes it sent and of all positive sizes it received, cut off at
  the largest 64-bit value.\<close>

theorem network_counters_exact:
  assumes "bpf_hash admits" and "card (fst ` set (concat (map net_changes evs))) \<le> BPF_MAP_ENTRIES"
  shows "case map_of (NETWORK_STATS (foldl (fire admits) kstate0 evs)) c of
      None \<Rightarrow> c \<notin> fst ` set (concat (map net_changes evs))
    | Some s \<Rightarrow> c \<in> fst ` set (concat (map net_changes evs)) \<and>
        unat (ns_tx_bytes s) = min (\<Sum>ev\<leftarrow>evs. sent_by c ev) (2 ^ 64 - 1) \<and>
        unat (ns_rx_bytes s) = min (\<Sum>ev\<leftarrow>evs. received_by c ev) (2 ^ 64 - 1)"
  using assms by (rule network_counters)

theorem network_counters_exact_witness:
  "\<exists>s. map_of (NETWORK_STATS (foldl (fire kernel_admits) kstate0
       [SendMsg (Some 5) (Some ''curl''), RecvMsg (Some 7) (Some ''curl''), RecvMsg (Some (- 11)) (Some ''curl''),
        SendMsg (Some 6) (Some ''curl'')])) ''curl'' = Some s \<and>
     unat (ns_tx_bytes s) = 11 \<and> unat (ns_rx_bytes s) = 7"
proof -
  let ?evs = "[SendMsg (Some 5) (Some ''curl''), RecvMsg (Some 7) (Some ''curl''), RecvMsg (Some (- 11)) (Some ''curl''),
        SendMsg (Some 6) (Some ''curl'')]"
  have neg: "sint (- 11 :: i64) \<le> 0" "0 < sint (7 :: i64)" by code_simp+
  then have "fst ` set (concat (map net_changes ?evs)) = {''curl''}" by (simp add: unwrap_or_def)
  then show ?thesis
    using network_counters_exact [OF kernel.bpf_hash_axioms, of ?evs "''curl''"] neg
    by (simp add: unwrap_or_def BPF_MAP_ENTRIES_def split: option.splits)
qed

end
