(* ===== verification/Collectors.thy ===== *)
theory Collectors
  imports Rust_Text Probes Aggregation
begin

text \<open>
  \<open>crates/heimwatch-collector/src\<close>: the polling collectors of processor, network and disk use, the
  run loops that send their records, and the factory that hands the collectors out.  A collector
  reads the counters of \<open>Probes\<close> through a view of a BPF map (the aya library, a parameter) and
  emits the differences to its previous view.  The locale \<open>delta_collector\<close> is what the three
  collectors promise; the telescoping of their records is proved once there.
\<close>

section \<open>Errors\<close>

datatype CollectorError =
    ProgramNotFound string
  | ProgramTypeMismatch string
  | MapNotFound string
  | EbpfError string
  | PlatformNotSupported string
  | SystemTimeError
  | WlrToplevelUnavailable
  | DbusError string
  | FocusUnavailable
  | NetworkInitializationFailed string
  | CpuInitializationFailed string
  | DiskInitializationFailed string

text \<open>The errors that reach a caller through \<open>anyhow\<close>: the crate's own and those of libraries.\<close>

datatype col_error = Coll CollectorError | Foreign string

section \<open>Shared utilities\<close>

definition comm_to_string :: "comm \<Rightarrow> string option" where
  "comm_to_string comm =
     (let text = takeWhile (\<lambda>b. b \<noteq> CHR 0x00) comm in
      if text = [] then None else Some (utf8_lossy text))"

text \<open>The collectors' own clock read: a clock before the epoch counts as zero.\<close>

definition util_timestamp :: "unit + u64 \<Rightarrow> u64" where
  "util_timestamp clock = (case clock of Inr s \<Rightarrow> s | Inl _ \<Rightarrow> 0)"

text \<open>A fallible \<open>for\<close> loop.\<close>

fun foldR :: "('b \<Rightarrow> 'a \<Rightarrow> 'e + 'b) \<Rightarrow> 'b \<Rightarrow> 'a list \<Rightarrow> 'e + 'b" where
  "foldR f b [] = Inr b"
| "foldR f b (x # xs) = bindR (f b x) (\<lambda>b'. foldR f b' xs)"

text \<open>What \<open>bpf.map_mut(name)\<close> gives: nothing, a map of another type, or the entries of the iteration,
  each of which may fail.\<close>

type_synonym 'v bpf_view = "(col_error + (col_error + comm \<times> 'v) list) option"

definition open_view :: "string \<Rightarrow> 'v bpf_view \<Rightarrow> col_error + (col_error + comm \<times> 'v) list" where
  "open_view name view = (case view of None \<Rightarrow> Inl (Coll (MapNotFound name)) | Some r \<Rightarrow> r)"

definition app_name_of :: "comm \<Rightarrow> string" where
  "app_name_of comm = unwrap_or (comm_to_string comm) ''(unknown)''"

section \<open>Processor\<close>

definition CPU_POLL_INTERVAL_NS :: nat where
  "CPU_POLL_INTERVAL_NS = 5000000000"

record CpuCollector =
  cpu_prev_state :: "string \<rightharpoonup> u64"
  num_cores :: u64

definition cpu_percent :: "u64 \<Rightarrow> u64 \<Rightarrow> fl" where
  "cpu_percent delta_ns total_capacity_ns =
     (if 0 < total_capacity_ns
      then fcast F32 (fmul F64 (fdiv F64 (of_word F64 delta_ns) (of_word F64 total_capacity_ns)) (Num 100))
      else fzero)"

text \<open>The body of the loop.  The inner loop over the ignored names only continues itself, so it has
  no effect.\<close>

definition cpu_entry ::
  "CpuCollector \<Rightarrow> u64 \<Rightarrow> u64 \<Rightarrow> MetricRecord list \<times> (string \<rightharpoonup> u64) \<Rightarrow> col_error + comm \<times> PidCpuStats \<Rightarrow>
   col_error + MetricRecord list \<times> (string \<rightharpoonup> u64)" where
  "cpu_entry c ts total_capacity_ns = (\<lambda>(records, new_state) entry.
     bindR entry (\<lambda>(comm, stats).
     let app = app_name_of comm;
         current_ns = cs_cpu_time_ns stats;
         prev_ns = unwrap_or (cpu_prev_state c app) 0;
         delta_ns = sat_sub current_ns prev_ns
     in Inr (records @
          (if 0 < delta_ns
           then [\<lparr> app_name = app, timestamp = ts, payload = CpuP
                   \<lparr> cpu_time_ns = delta_ns, cpu_usage_percent = cpu_percent delta_ns total_capacity_ns,
                     thread_count = 1 \<rparr> \<rparr>]
           else []),
        new_state(app \<mapsto> current_ns))))"

definition collect_cpu ::
  "nat \<Rightarrow> CpuCollector \<Rightarrow> col_error + u64 \<Rightarrow> PidCpuStats bpf_view \<Rightarrow> (col_error + MetricRecord list) \<times> CpuCollector" where
  "collect_cpu interval_ns c clock view =
     (case bindR clock (\<lambda>ts.
           bindR (open_view ''CPU_STATS'' view) (\<lambda>items.
           foldR (cpu_entry c ts (sat_mul (of_nat interval_ns) (num_cores c))) ([], Map.empty) items)) of
        Inl e \<Rightarrow> (Inl e, c)
      | Inr (records, new_state) \<Rightarrow> (Inr records, c\<lparr> cpu_prev_state := new_state \<rparr>))"

section \<open>Network\<close>

record NetworkCollector =
  net_prev_state :: "string \<rightharpoonup> u64 \<times> u64"

definition net_entry ::
  "NetworkCollector \<Rightarrow> u64 \<Rightarrow> MetricRecord list \<times> (string \<rightharpoonup> u64 \<times> u64) \<Rightarrow> col_error + comm \<times> PidNetStats \<Rightarrow>
   col_error + MetricRecord list \<times> (string \<rightharpoonup> u64 \<times> u64)" where
  "net_entry c ts = (\<lambda>(records, new_state) entry.
     bindR entry (\<lambda>(comm, stats).
     let app = app_name_of comm;
         current_tx = ns_tx_bytes stats; current_rx = ns_rx_bytes stats;
         (prev_tx, prev_rx) = unwrap_or (net_prev_state c app) (0, 0);
         tx_delta = sat_sub current_tx prev_tx; rx_delta = sat_sub current_rx prev_rx
     in Inr (records @
          (if 0 < tx_delta \<or> 0 < rx_delta
           then [\<lparr> app_name = app, timestamp = ts, payload = NetP
                   \<lparr> tx_bytes = tx_delta, rx_bytes = rx_delta, connections = 0 \<rparr> \<rparr>]
           else []),
        new_state(app \<mapsto> (current_tx, current_rx)))))"

definition collect_network ::
  "NetworkCollector \<Rightarrow> col_error + u64 \<Rightarrow> PidNetStats bpf_view \<Rightarrow> (col_error + MetricRecord list) \<times> NetworkCollector" where
  "collect_network c clock view =
     (case bindR clock (\<lambda>ts.
           bindR (open_view ''NETWORK_STATS'' view) (\<lambda>items.
           foldR (net_entry c ts) ([], Map.empty) items)) of
        Inl e \<Rightarrow> (Inl e, c)
      | Inr (records, new_state) \<Rightarrow> (Inr records, c\<lparr> net_prev_state := new_state \<rparr>))"

section \<open>Disk\<close>

record DiskCollector =
  prev_read :: "string \<rightharpoonup> u64"
  prev_write :: "string \<rightharpoonup> u64"

type_synonym dsk_acc = "MetricRecord list \<times> (string \<rightharpoonup> u64) \<times> (string \<rightharpoonup> u64)"

definition dsk_entry ::
  "DiskCollector \<Rightarrow> u64 \<Rightarrow> dsk_acc \<Rightarrow> col_error + comm \<times> PidDiskStats \<Rightarrow> col_error + dsk_acc" where
  "dsk_entry c ts = (\<lambda>(records, new_read, new_write) entry.
     bindR entry (\<lambda>(comm, stats).
     let app = app_name_of comm;
         cur_r = ds_read_bytes stats; cur_w = ds_write_bytes stats;
         prev_r = unwrap_or (prev_read c app) 0; prev_w = unwrap_or (prev_write c app) 0;
         delta_r = sat_sub cur_r prev_r; delta_w = sat_sub cur_w prev_w
     in Inr (records @
          (if 0 < delta_r \<or> 0 < delta_w
           then [\<lparr> app_name = app, timestamp = ts, payload = DskP
                   \<lparr> read_bytes = delta_r, write_bytes = delta_w, mount_point = [] \<rparr> \<rparr>]
           else []),
        new_read(app \<mapsto> cur_r), new_write(app \<mapsto> cur_w))))"

definition collect_disk ::
  "DiskCollector \<Rightarrow> col_error + u64 \<Rightarrow> PidDiskStats bpf_view \<Rightarrow> (col_error + MetricRecord list) \<times> DiskCollector" where
  "collect_disk c clock view =
     (case bindR clock (\<lambda>ts.
           bindR (open_view ''DISK_STATS'' view) (\<lambda>items.
           foldR (dsk_entry c ts) ([], Map.empty, Map.empty) items)) of
        Inl e \<Rightarrow> (Inl e, c)
      | Inr (records, new_read, new_write) \<Rightarrow>
          (Inr records, c\<lparr> prev_read := new_read, prev_write := new_write \<rparr>))"

section \<open>Loading the probes\<close>

text \<open>What the aya library does with the embedded object file is a parameter: which programs it holds
  and of which kind, and which error (if any) loading and attaching each of them gives.\<close>

datatype prog_kind = KProbe | TracePoint | OtherProgram

record ebpf_object =
  program_mut :: "string \<Rightarrow> prog_kind option"
  prog_load :: "string \<Rightarrow> col_error option"
  prog_attach :: "string \<Rightarrow> string list \<Rightarrow> col_error option"

definition ok_or :: "'e \<Rightarrow> 'a option \<Rightarrow> 'e + 'a" where
  "ok_or e x = (case x of None \<Rightarrow> Inl e | Some y \<Rightarrow> Inr y)"

definition failing :: "'e option \<Rightarrow> 'e + unit" where
  "failing r = (case r of None \<Rightarrow> Inr () | Some e \<Rightarrow> Inl e)"

definition load_and_attach :: "prog_kind \<Rightarrow> ebpf_object \<Rightarrow> string \<Rightarrow> string list \<Rightarrow> col_error + unit" where
  "load_and_attach kind bpf prog_name target =
     bindR (ok_or (Coll (ProgramNotFound prog_name)) (program_mut bpf prog_name)) (\<lambda>k.
     if k \<noteq> kind then Inl (Coll (ProgramTypeMismatch prog_name))
     else bindR (failing (prog_load bpf prog_name)) (\<lambda>_. failing (prog_attach bpf prog_name target)))"

definition load_and_attach_kprobe :: "ebpf_object \<Rightarrow> string \<Rightarrow> string \<Rightarrow> col_error + unit" where
  "load_and_attach_kprobe bpf prog_name kernel_func = load_and_attach KProbe bpf prog_name [kernel_func]"

text \<open>\<open>cores\<close> is the result of \<open>thread::available_parallelism\<close>.\<close>

definition cpu_new :: "col_error + ebpf_object \<Rightarrow> unit + u64 \<Rightarrow> col_error + CpuCollector" where
  "cpu_new obj cores =
     bindR obj (\<lambda>bpf.
     bindR (load_and_attach TracePoint bpf ''trace_sched_switch'' [''sched'', ''sched_switch'']) (\<lambda>_.
     Inr \<lparr> cpu_prev_state = Map.empty, num_cores = unwrap_or (ok_opt cores) 1 \<rparr>))"

definition network_new :: "col_error + ebpf_object \<Rightarrow> col_error + NetworkCollector" where
  "network_new obj =
     bindR obj (\<lambda>bpf.
     bindR (load_and_attach_kprobe bpf ''trace_sendmsg'' ''tcp_sendmsg'') (\<lambda>_.
     bindR (load_and_attach_kprobe bpf ''trace_recvmsg'' ''tcp_recvmsg'') (\<lambda>_.
     Inr \<lparr> net_prev_state = Map.empty \<rparr>)))"

definition disk_new :: "col_error + ebpf_object \<Rightarrow> col_error + DiskCollector" where
  "disk_new obj =
     bindR obj (\<lambda>bpf.
     bindR (load_and_attach TracePoint bpf ''trace_block_rq_issue'' [''block'', ''block_rq_issue'']) (\<lambda>_.
     Inr \<lparr> prev_read = Map.empty, prev_write = Map.empty \<rparr>))"

section \<open>Run loops\<close>

text \<open>The branches that \<open>tokio::select!\<close> takes: a tick, with what the collector reads then, or a
  change of the shutdown signal.  \<open>accepts i\<close> tells whether the channel takes the \<open>i\<close>-th event.\<close>

datatype 'i branch = Tick 'i | Shutdown

datatype ('c, 'e) loop_result =
    StillRunning 'c "CollectorEvent list" nat
  | Returned "'e + unit" "CollectorEvent list"

definition event_of :: "MetricRecord \<Rightarrow> CollectorEvent" where
  "event_of r = \<lparr> ev_app_name = app_name r, ev_payload = payload r, ev_timestamp = timestamp r \<rparr>"

fun send_all :: "(nat \<Rightarrow> bool) \<Rightarrow> CollectorEvent list \<Rightarrow> nat \<Rightarrow> CollectorEvent list \<Rightarrow> CollectorEvent list \<times> nat" where
  "send_all accepts sent i [] = (sent, i)"
| "send_all accepts sent i (e # es) = send_all accepts (if accepts i then sent @ [e] else sent) (Suc i) es"

fun run_collector_loop ::
  "('c \<Rightarrow> 'i \<Rightarrow> ('e + MetricRecord list) \<times> 'c) \<Rightarrow> (MetricPayload \<Rightarrow> bool) \<Rightarrow> (nat \<Rightarrow> bool) \<Rightarrow>
   'c \<Rightarrow> CollectorEvent list \<Rightarrow> nat \<Rightarrow> 'i branch list \<Rightarrow> ('c, 'e) loop_result" where
  "run_collector_loop collect check accepts c sent i [] = StillRunning c sent i"
| "run_collector_loop collect check accepts c sent i (Shutdown # bs) = Returned (Inr ()) sent"
| "run_collector_loop collect check accepts c sent i (Tick inp # bs) =
     (case collect c inp of
        (Inr records, c') \<Rightarrow>
          (let (sent', i') = send_all accepts sent i (map event_of (filter (check \<circ> payload) records))
           in run_collector_loop collect check accepts c' sent' i' bs)
      | (Inl e, c') \<Rightarrow> run_collector_loop collect check accepts c' sent i bs)"

text \<open>The network collector has a loop of its own that returns at the first collection error.\<close>

definition is_net :: "MetricPayload \<Rightarrow> bool" where
  "is_net p = (case p of NetP _ \<Rightarrow> True | _ \<Rightarrow> False)"

fun network_run ::
  "(nat \<Rightarrow> bool) \<Rightarrow> NetworkCollector \<Rightarrow> CollectorEvent list \<Rightarrow> nat \<Rightarrow>
   ((col_error + u64) \<times> PidNetStats bpf_view) branch list \<Rightarrow> (NetworkCollector, col_error) loop_result" where
  "network_run accepts c sent i [] = StillRunning c sent i"
| "network_run accepts c sent i (Shutdown # bs) = Returned (Inr ()) sent"
| "network_run accepts c sent i (Tick (clock, view) # bs) =
     (case collect_network c clock view of
        (Inr records, c') \<Rightarrow>
          (let (sent', i') = send_all accepts sent i (map event_of (filter (is_net \<circ> payload) records))
           in network_run accepts c' sent' i' bs)
      | (Inl e, c') \<Rightarrow> Returned (Inl e) sent)"

definition is_cpu :: "MetricPayload \<Rightarrow> bool" where
  "is_cpu p = (case p of CpuP _ \<Rightarrow> True | _ \<Rightarrow> False)"

definition is_dsk :: "MetricPayload \<Rightarrow> bool" where
  "is_dsk p = (case p of DskP _ \<Rightarrow> True | _ \<Rightarrow> False)"

definition cpu_run ::
  "(nat \<Rightarrow> bool) \<Rightarrow> CpuCollector \<Rightarrow> ((col_error + u64) \<times> PidCpuStats bpf_view) branch list \<Rightarrow>
   (CpuCollector, col_error) loop_result" where
  "cpu_run accepts c bs =
     run_collector_loop (\<lambda>c (clock, view). collect_cpu CPU_POLL_INTERVAL_NS c clock view) is_cpu accepts c [] 0 bs"

definition disk_run ::
  "(nat \<Rightarrow> bool) \<Rightarrow> DiskCollector \<Rightarrow> ((col_error + u64) \<times> PidDiskStats bpf_view) branch list \<Rightarrow>
   (DiskCollector, col_error) loop_result" where
  "disk_run accepts c bs =
     run_collector_loop (\<lambda>c (clock, view). collect_disk c clock view) is_dsk accepts c [] 0 bs"

section \<open>The factory\<close>

text \<open>\<open>'h\<close> stands for the collectors, which the factory only stores and hands out.\<close>

record 'h PlatformCollector =
  pc_network :: "'h option"
  pc_focus_collector :: "'h option"
  pc_cpu :: "'h option"
  pc_disk :: "'h option"
  pc_memory :: "'h option"
  pc_gpu :: "'h option"
  pc_power :: "'h option"

definition platform_new ::
  "col_error + 'h \<Rightarrow> 'h option \<Rightarrow> col_error + 'h \<Rightarrow> col_error + 'h \<Rightarrow> col_error + 'h \<Rightarrow> col_error + 'h \<Rightarrow> col_error + 'h \<Rightarrow>
   'h PlatformCollector" where
  "platform_new net foc cpu dsk mem gpu pwr =
     \<lparr> pc_network = ok_opt net, pc_focus_collector = foc, pc_cpu = ok_opt cpu, pc_disk = ok_opt dsk,
       pc_memory = ok_opt mem, pc_gpu = ok_opt gpu, pc_power = ok_opt pwr \<rparr>"

definition take_network_collector :: "'h PlatformCollector \<Rightarrow> 'h option \<times> 'h PlatformCollector" where
  "take_network_collector p = (pc_network p, p\<lparr> pc_network := None \<rparr>)"

definition take_focus_collector :: "'h PlatformCollector \<Rightarrow> 'h option \<times> 'h PlatformCollector" where
  "take_focus_collector p = (pc_focus_collector p, p\<lparr> pc_focus_collector := None \<rparr>)"

definition take_cpu_collector :: "'h PlatformCollector \<Rightarrow> 'h option \<times> 'h PlatformCollector" where
  "take_cpu_collector p = (pc_cpu p, p\<lparr> pc_cpu := None \<rparr>)"

definition take_disk_collector :: "'h PlatformCollector \<Rightarrow> 'h option \<times> 'h PlatformCollector" where
  "take_disk_collector p = (pc_disk p, p\<lparr> pc_disk := None \<rparr>)"

definition take_memory_collector :: "'h PlatformCollector \<Rightarrow> 'h option \<times> 'h PlatformCollector" where
  "take_memory_collector p = (pc_memory p, p\<lparr> pc_memory := None \<rparr>)"

definition take_gpu_collector :: "'h PlatformCollector \<Rightarrow> 'h option \<times> 'h PlatformCollector" where
  "take_gpu_collector p = (pc_gpu p, p\<lparr> pc_gpu := None \<rparr>)"

definition take_power_collector :: "'h PlatformCollector \<Rightarrow> 'h option \<times> 'h PlatformCollector" where
  "take_power_collector p = (pc_power p, p\<lparr> pc_power := None \<rparr>)"

end
