(* ===== verification/Collector_Props.thy ===== *)
theory Collector_Props
  imports Collectors
begin

text \<open>
  Properties of the polling collectors: their common contract as the locale \<open>delta_collector\<close>, its
  three interpretations, and the run loops.
\<close>

section \<open>Folding over the entries of a map\<close>

definition named :: "(comm \<times> 'v) list \<Rightarrow> (string \<times> 'v) list" where
  "named es = map (\<lambda>(k, v). (app_name_of k, v)) es"

lemma named_Nil [simp]: "named [] = []" and named_Cons [simp]: "named ((k, v) # es) = (app_name_of k, v) # named es"
  by (simp_all add: named_def)

lemma foldR_entries:
  "(\<And>acc x. E acc (Inr x) = Inr (step acc x)) \<Longrightarrow> foldR E acc (map Inr es) = Inr (foldl step acc es)"
  by (induction es arbitrary: acc) auto

lemma foldl_records:
  "foldl (\<lambda>(rs, st) (k, v). (rs @ out (app_name_of k) v, ins (app_name_of k) v st)) (rs, st) es =
     (rs @ concat (map (\<lambda>(n, v). out n v) (named es)), foldl (\<lambda>st (n, v). ins n v st) st (named es))"
  by (induction es arbitrary: rs st) (auto simp: case_prod_unfold)

lemma foldl_insert:
  "distinct (map fst nes) \<Longrightarrow>
   foldl (\<lambda>st (n, v). st(n \<mapsto> g v)) st nes a = (case map_of nes a of Some v \<Rightarrow> Some (g v) | None \<Rightarrow> st a)"
proof (induction nes arbitrary: st)
  case (Cons p nes)
  obtain n v where p: "p = (n, v)" by (cases p)
  have "map_of nes n = None" using Cons.prems p by (simp add: map_of_eq_None_iff)
  then show ?case using Cons p by (auto split: option.split)
qed simp

text \<open>What a list of records reports for one application, in one additive field.\<close>

definition emitted :: "string \<Rightarrow> nat \<Rightarrow> MetricRecord list \<Rightarrow> nat" where
  "emitted n i rs = (\<Sum>r\<leftarrow>rs. if app_name r = n then unat (additive_fields (payload r) ! i) else 0)"

lemma emitted_append [simp]: "emitted n i (rs @ rs') = emitted n i rs + emitted n i rs'"
  by (simp add: emitted_def)

lemma emitted_Nil [simp]: "emitted n i [] = 0"
  by (simp add: emitted_def)

lemma emitted_other: "(\<And>r. r \<in> set rs \<Longrightarrow> app_name r \<noteq> n) \<Longrightarrow> emitted n i rs = 0"
  by (induction rs) (auto simp: emitted_def)

lemma emitted_concat:
  assumes "distinct (map fst nes)" and "\<And>n v r. r \<in> set (out n v) \<Longrightarrow> app_name r = n"
  shows "emitted a i (concat (map (\<lambda>(n, v). out n v) nes)) =
    (case map_of nes a of Some v \<Rightarrow> emitted a i (out a v) | None \<Rightarrow> 0)"
  using assms(1)
proof (induction nes)
  case (Cons p nes)
  obtain n v where p: "p = (n, v)" by (cases p)
  have "map_of nes n = None" using Cons.prems p by (simp add: map_of_eq_None_iff)
  moreover have "emitted a i (out n v) = 0" if "n \<noteq> a"
    using that assms(2) by (intro emitted_other) blast
  ultimately show ?case using Cons p by (auto split: option.split)
qed simp

text \<open>The value of a counter of an application in a view; no entry counts as zero.\<close>

definition reading :: "('v \<Rightarrow> u64) \<Rightarrow> (comm \<times> 'v) list \<Rightarrow> string \<Rightarrow> u64" where
  "reading g es n = (case map_of (named es) n of Some v \<Rightarrow> g v | None \<Rightarrow> 0)"

section \<open>The contract of the collectors\<close>

fun poll_all ::
  "('c \<Rightarrow> col_error + u64 \<Rightarrow> 'v bpf_view \<Rightarrow> (col_error + MetricRecord list) \<times> 'c) \<Rightarrow> 'c \<Rightarrow>
   (u64 \<times> (comm \<times> 'v) list) list \<Rightarrow> MetricRecord list \<times> 'c" where
  "poll_all collect c [] = ([], c)"
| "poll_all collect c ((ts, es) # ps) =
     (case collect c (Inr ts) (Some (Inr (map Inr es))) of
        (r, c') \<Rightarrow> (let (rs', c'') = poll_all collect c' ps in (unwrap_or (ok_opt r) [] @ rs', c'')))"

text \<open>A poll succeeds on a readable map, reports for each entry the difference to the previous value
  in every counter, and remembers the new values; a failing poll changes nothing.\<close>

locale delta_collector =
  fixes collect :: "'c \<Rightarrow> col_error + u64 \<Rightarrow> 'v bpf_view \<Rightarrow> (col_error + MetricRecord list) \<times> 'c"
    and cnt :: "'v \<Rightarrow> nat \<Rightarrow> u64" and prev :: "'c \<Rightarrow> string \<Rightarrow> nat \<Rightarrow> u64" and width :: nat
  assumes poll_ok: "distinct (map fst (named es)) \<Longrightarrow>
      \<exists>rs c'. collect c (Inr ts) (Some (Inr (map Inr es))) = (Inr rs, c') \<and>
        (\<forall>r\<in>set rs. timestamp r = ts) \<and>
        (\<forall>n i. i < width \<longrightarrow> prev c' n i = (case map_of (named es) n of Some v \<Rightarrow> cnt v i | None \<Rightarrow> 0) \<and>
          emitted n i rs = (case map_of (named es) n of Some v \<Rightarrow> unat (sat_sub (cnt v i) (prev c n i)) | None \<Rightarrow> 0))"
    and poll_err: "collect c clock view = (Inl e, c') \<Longrightarrow> c' = c"
begin

text \<open>As long as the counters of an application do not fall, its records add up to the counter.\<close>

lemma telescope:
  assumes "\<And>ts es. (ts, es) \<in> set ps \<Longrightarrow> distinct (map fst (named es))" and "i < width"
    and "sorted (map unat (prev c n i # map (\<lambda>(ts, es). reading (\<lambda>v. cnt v i) es n) ps))"
  shows "emitted n i (fst (poll_all collect c ps)) =
    unat (last (prev c n i # map (\<lambda>(ts, es). reading (\<lambda>v. cnt v i) es n) ps)) - unat (prev c n i)"
  using assms
proof (induction ps arbitrary: c)
  case (Cons p ps)
  obtain ts es where p: "p = (ts, es)" by (cases p)
  let ?f = "\<lambda>(ts :: u64, es). reading (\<lambda>v. cnt v i) es n"
  have d: "distinct (map fst (named es))" using Cons.prems(1) [of ts es] p by simp
  obtain rs c' where poll: "collect c (Inr ts) (Some (Inr (map Inr es))) = (Inr rs, c')"
    and pr: "prev c' n i = reading (\<lambda>v. cnt v i) es n"
    and em: "emitted n i rs = (case map_of (named es) n of Some v \<Rightarrow> unat (sat_sub (cnt v i) (prev c n i)) | None \<Rightarrow> 0)"
    using poll_ok [OF d, of c ts] Cons.prems(2) unfolding reading_def by blast
  have le: "unat (prev c n i) \<le> unat (reading (\<lambda>v. cnt v i) es n)" using Cons.prems(3) p by simp
  then have em': "emitted n i rs = unat (reading (\<lambda>v. cnt v i) es n) - unat (prev c n i)"
    by (simp add: em reading_def unat_sat_sub split: option.split)
  have sorted: "sorted (map unat (prev c' n i # map ?f ps))" using Cons.prems(3) p pr by simp
  have "emitted n i (fst (poll_all collect c' ps)) = unat (last (prev c' n i # map ?f ps)) - unat (prev c' n i)"
    by (rule Cons.IH [OF _ Cons.prems(2) sorted]) (use Cons.prems(1) in auto)
  moreover have "unat (prev c' n i) \<le> unat (last (prev c' n i # map ?f ps))"
    using sorted by (cases "map ?f ps" rule: rev_cases) (auto simp: sorted_append)
  moreover have "last (prev c n i # map ?f (p # ps)) = last (prev c' n i # map ?f ps)" using p pr by simp
  ultimately show ?case
    using le by (simp add: p poll case_prod_unfold Let_def em' pr ok_opt_def unwrap_or_def)
qed simp

end

section \<open>The three collectors\<close>

lemma delta_collectorI:
  fixes collect :: "'c \<Rightarrow> col_error + u64 \<Rightarrow> 'v bpf_view \<Rightarrow> (col_error + MetricRecord list) \<times> 'c"
  assumes "\<And>c ts es. collect c (Inr ts) (Some (Inr (map Inr es))) =
      (Inr (concat (map (\<lambda>(n, v). out c ts n v) (named es))), remember c (named es))"
    and "\<And>c ts n v r. r \<in> set (out c ts n v) \<Longrightarrow> app_name r = n \<and> timestamp r = ts"
    and "\<And>c ts n v i. i < width \<Longrightarrow> emitted n i (out c ts n v) = unat (sat_sub (cnt v i) (prev c n i))"
    and "\<And>c nes n i. distinct (map fst nes) \<Longrightarrow> i < width \<Longrightarrow>
      prev (remember c nes) n i = (case map_of nes n of Some v \<Rightarrow> cnt v i | None \<Rightarrow> 0)"
    and "\<And>c clock view e c'. collect c clock view = (Inl e, c') \<Longrightarrow> c' = c"
  shows "delta_collector collect cnt prev width"
proof
  show "collect c clock view = (Inl e, c') \<Longrightarrow> c' = c" for c clock view e c' by (rule assms(5))
  fix es :: "(comm \<times> 'v) list" and c ts
  assume d: "distinct (map fst (named es))"
  let ?rs = "concat (map (\<lambda>(n, v). out c ts n v) (named es))"
  have "\<forall>r\<in>set ?rs. timestamp r = ts" using assms(2) by fastforce
  moreover have "emitted n i ?rs = (case map_of (named es) n of
      Some v \<Rightarrow> unat (sat_sub (cnt v i) (prev c n i)) | None \<Rightarrow> 0)" if "i < width" for n i
    using emitted_concat [OF d, of "out c ts" n i] assms(2,3) that by (auto split: option.split)
  ultimately show "\<exists>rs c'. collect c (Inr ts) (Some (Inr (map Inr es))) = (Inr rs, c') \<and>
      (\<forall>r\<in>set rs. timestamp r = ts) \<and>
      (\<forall>n i. i < width \<longrightarrow> prev c' n i = (case map_of (named es) n of Some v \<Rightarrow> cnt v i | None \<Rightarrow> 0) \<and>
        emitted n i rs = (case map_of (named es) n of Some v \<Rightarrow> unat (sat_sub (cnt v i) (prev c n i)) | None \<Rightarrow> 0))"
    using assms(1,4) d by (intro exI [of _ ?rs] exI [of _ "remember c (named es)"]) auto
qed

definition cpu_out :: "CpuCollector \<Rightarrow> u64 \<Rightarrow> u64 \<Rightarrow> string \<Rightarrow> PidCpuStats \<Rightarrow> MetricRecord list" where
  "cpu_out c ts cap n v =
     (let d = sat_sub (cs_cpu_time_ns v) (unwrap_or (cpu_prev_state c n) 0) in
      if 0 < d then [\<lparr> app_name = n, timestamp = ts, payload = CpuP
        \<lparr> cpu_time_ns = d, cpu_usage_percent = cpu_percent d cap, thread_count = 1 \<rparr> \<rparr>] else [])"

definition cpu_remember :: "CpuCollector \<Rightarrow> (string \<times> PidCpuStats) list \<Rightarrow> CpuCollector" where
  "cpu_remember c nes = c\<lparr> cpu_prev_state := foldl (\<lambda>st (n, v). st(n \<mapsto> cs_cpu_time_ns v)) Map.empty nes \<rparr>"

lemma collect_cpu_ok:
  "collect_cpu iv c (Inr ts) (Some (Inr (map Inr es))) =
     (Inr (concat (map (\<lambda>(n, v). cpu_out c ts (sat_mul (of_nat iv) (num_cores c)) n v) (named es))),
      cpu_remember c (named es))"
proof -
  let ?cap = "sat_mul (of_nat iv) (num_cores c)"
  have "foldR (cpu_entry c ts ?cap) ([], Map.empty) (map Inr es) =
      Inr (foldl (\<lambda>(rs, st) (k, v). (rs @ cpu_out c ts ?cap (app_name_of k) v, st(app_name_of k \<mapsto> cs_cpu_time_ns v)))
        ([], Map.empty) es)"
    by (rule foldR_entries) (auto simp: cpu_entry_def cpu_out_def Let_def split: prod.split)
  then show ?thesis
    unfolding collect_cpu_def open_view_def cpu_remember_def
    by (simp add: foldl_records [where ins = "\<lambda>n v st. st(n \<mapsto> cs_cpu_time_ns v)"])
qed

interpretation cpu: delta_collector "collect_cpu iv" "\<lambda>v _. cs_cpu_time_ns v"
  "\<lambda>c n _. unwrap_or (cpu_prev_state c n) 0" 1
  by (rule delta_collectorI [where out = "\<lambda>c ts. cpu_out c ts (sat_mul (of_nat iv) (num_cores c))" and remember = cpu_remember], rule collect_cpu_ok)
    (auto simp: cpu_remember_def cpu_out_def Let_def emitted_def word_gt_0 foldl_insert unwrap_or_def collect_cpu_def
      split: if_splits option.split sum.splits prod.splits)

definition net_out :: "NetworkCollector \<Rightarrow> u64 \<Rightarrow> string \<Rightarrow> PidNetStats \<Rightarrow> MetricRecord list" where
  "net_out c ts n v =
     (let (ptx, prx) = unwrap_or (net_prev_state c n) (0, 0);
          dtx = sat_sub (ns_tx_bytes v) ptx; drx = sat_sub (ns_rx_bytes v) prx in
      if 0 < dtx \<or> 0 < drx then [\<lparr> app_name = n, timestamp = ts, payload = NetP
        \<lparr> tx_bytes = dtx, rx_bytes = drx, connections = 0 \<rparr> \<rparr>] else [])"

definition net_remember :: "NetworkCollector \<Rightarrow> (string \<times> PidNetStats) list \<Rightarrow> NetworkCollector" where
  "net_remember c nes =
     c\<lparr> net_prev_state := foldl (\<lambda>st (n, v). st(n \<mapsto> (ns_tx_bytes v, ns_rx_bytes v))) Map.empty nes \<rparr>"

lemma collect_network_ok:
  "collect_network c (Inr ts) (Some (Inr (map Inr es))) =
     (Inr (concat (map (\<lambda>(n, v). net_out c ts n v) (named es))),
      net_remember c (named es))"
proof -
  have "foldR (net_entry c ts) ([], Map.empty) (map Inr es) =
      Inr (foldl (\<lambda>(rs, st) (k, v). (rs @ net_out c ts (app_name_of k) v,
        st(app_name_of k \<mapsto> (ns_tx_bytes v, ns_rx_bytes v)))) ([], Map.empty) es)"
    by (rule foldR_entries) (auto simp: net_entry_def net_out_def Let_def split: prod.split)
  then show ?thesis
    unfolding collect_network_def open_view_def net_remember_def
    by (simp add: foldl_records [where ins = "\<lambda>n v st. st(n \<mapsto> (ns_tx_bytes v, ns_rx_bytes v))"])
qed

definition net_cnt :: "PidNetStats \<Rightarrow> nat \<Rightarrow> u64" where
  "net_cnt v i = (if i = 0 then ns_tx_bytes v else ns_rx_bytes v)"

definition net_prev :: "NetworkCollector \<Rightarrow> string \<Rightarrow> nat \<Rightarrow> u64" where
  "net_prev c n i = (case unwrap_or (net_prev_state c n) (0, 0) of (tx, rx) \<Rightarrow> if i = 0 then tx else rx)"

interpretation net: delta_collector collect_network net_cnt net_prev 2
  by (rule delta_collectorI [where out = "net_out" and remember = net_remember], rule collect_network_ok)
    (auto simp: net_remember_def net_out_def Let_def emitted_def word_gt_0 foldl_insert unwrap_or_def collect_network_def
      net_cnt_def net_prev_def less_2_cases_iff split: if_splits option.splits sum.splits prod.splits)

definition dsk_out :: "DiskCollector \<Rightarrow> u64 \<Rightarrow> string \<Rightarrow> PidDiskStats \<Rightarrow> MetricRecord list" where
  "dsk_out c ts n v =
     (let dr = sat_sub (ds_read_bytes v) (unwrap_or (prev_read c n) 0);
          dw = sat_sub (ds_write_bytes v) (unwrap_or (prev_write c n) 0) in
      if 0 < dr \<or> 0 < dw then [\<lparr> app_name = n, timestamp = ts, payload = DskP
        \<lparr> read_bytes = dr, write_bytes = dw, mount_point = [] \<rparr> \<rparr>] else [])"

lemma foldl_insert2:
  "foldl (\<lambda>(a, b) (n, v). (a(n \<mapsto> f v), b(n \<mapsto> g v))) (a, b) nes =
     (foldl (\<lambda>a (n, v). a(n \<mapsto> f v)) a nes, foldl (\<lambda>b (n, v). b(n \<mapsto> g v)) b nes)"
  by (induction nes arbitrary: a b) (auto simp: case_prod_unfold)

definition dsk_remember :: "DiskCollector \<Rightarrow> (string \<times> PidDiskStats) list \<Rightarrow> DiskCollector" where
  "dsk_remember c nes =
     c\<lparr> prev_read := foldl (\<lambda>st (n, v). st(n \<mapsto> ds_read_bytes v)) Map.empty nes,
        prev_write := foldl (\<lambda>st (n, v). st(n \<mapsto> ds_write_bytes v)) Map.empty nes \<rparr>"

lemma collect_disk_ok:
  "collect_disk c (Inr ts) (Some (Inr (map Inr es))) =
     (Inr (concat (map (\<lambda>(n, v). dsk_out c ts n v) (named es))),
      dsk_remember c (named es))"
proof -
  have "foldR (dsk_entry c ts) ([], Map.empty, Map.empty) (map Inr es) =
      Inr (foldl (\<lambda>(rs, st) (k, v). (rs @ dsk_out c ts (app_name_of k) v,
        (\<lambda>(a, b). (a(app_name_of k \<mapsto> ds_read_bytes v), b(app_name_of k \<mapsto> ds_write_bytes v))) st))
        ([], Map.empty, Map.empty) es)"
    by (rule foldR_entries) (auto simp: dsk_entry_def dsk_out_def Let_def split: prod.split)
  then show ?thesis
    unfolding collect_disk_def open_view_def dsk_remember_def
      foldl_records [where ins = "\<lambda>n v. \<lambda>(a, b). (a(n \<mapsto> ds_read_bytes v), b(n \<mapsto> ds_write_bytes v))"]
    using foldl_insert2 [of ds_read_bytes ds_write_bytes Map.empty Map.empty "named es"]
    by (simp add: case_prod_unfold)
qed

interpretation dsk: delta_collector collect_disk
  "\<lambda>v i. if i = 0 then ds_read_bytes v else ds_write_bytes v"
  "\<lambda>c n i. if i = 0 then unwrap_or (prev_read c n) 0 else unwrap_or (prev_write c n) 0" 2
  by (rule delta_collectorI [where out = "dsk_out" and remember = dsk_remember], rule collect_disk_ok)
    (auto simp: dsk_remember_def dsk_out_def Let_def emitted_def word_gt_0 foldl_insert unwrap_or_def collect_disk_def
      less_2_cases_iff split: if_splits option.splits sum.splits prod.splits)

section \<open>Properties\<close>

text \<open>C29: Nothing is counted twice or lost between polls.  For any sequence of readable views, in none of which two kernel names
  become the same application name, and in which the processor time of an application does not fall (it may have no entry at first), the records that
  the collector emits for it add up to the last counter minus the value remembered at the start,
  to the nanosecond.\<close>

theorem cpu_records_telescope:
  assumes "\<And>ts es. (ts, es) \<in> set ps \<Longrightarrow> distinct (map fst (named es))"
    and "sorted (map unat (unwrap_or (cpu_prev_state c n) 0 # map (\<lambda>(ts, es). reading cs_cpu_time_ns es n) ps))"
  shows "emitted n 0 (fst (poll_all (collect_cpu iv) c ps)) =
    unat (last (unwrap_or (cpu_prev_state c n) 0 # map (\<lambda>(ts, es). reading cs_cpu_time_ns es n) ps)) -
    unat (unwrap_or (cpu_prev_state c n) 0)"
  using cpu.telescope [where iv = iv and c = c and n = n and ps = ps and i = 0] assms by simp

definition w_cpu_polls :: "(u64 \<times> (comm \<times> PidCpuStats) list) list" where
  "w_cpu_polls =
     [(5, []), (10, [(''bash'', \<lparr> cs_cpu_time_ns = 100, cs_last_sched_in_ns = 0 \<rparr>)]),
      (15, [(''curl'', \<lparr> cs_cpu_time_ns = 7, cs_last_sched_in_ns = 0 \<rparr>), (''bash'', \<lparr> cs_cpu_time_ns = 100, cs_last_sched_in_ns = 0 \<rparr>)]),
      (20, [(''bash'', \<lparr> cs_cpu_time_ns = 250, cs_last_sched_in_ns = 3 \<rparr>)])]"

theorem cpu_records_telescope_witness:
  "emitted ''bash'' 0 (fst (poll_all (collect_cpu CPU_POLL_INTERVAL_NS)
     \<lparr> cpu_prev_state = Map.empty, num_cores = 4 \<rparr> w_cpu_polls)) = 250"
proof -
  have nm: "app_name_of ''bash'' = ''bash''" "app_name_of ''curl'' = ''curl''" by code_simp+
  have "distinct (map fst (named es))" if "(ts, es) \<in> set w_cpu_polls" for ts es
    using that by (auto simp: w_cpu_polls_def nm)
  then show ?thesis
    using cpu_records_telescope [where ps = w_cpu_polls and n = "''bash''" and iv = CPU_POLL_INTERVAL_NS
        and c = "\<lparr> cpu_prev_state = Map.empty, num_cores = 4 \<rparr>"]
    by (simp add: w_cpu_polls_def nm unwrap_or_def reading_def)
qed

text \<open>The records of the successful ticks, in order.\<close>

fun loop_records :: "('c \<Rightarrow> 'i \<Rightarrow> ('e + MetricRecord list) \<times> 'c) \<Rightarrow> 'c \<Rightarrow> 'i list \<Rightarrow> MetricRecord list" where
  "loop_records collect c [] = []"
| "loop_records collect c (x # xs) = (case collect c x of
     (Inr rs, c') \<Rightarrow> rs @ loop_records collect c' xs | (Inl _, c') \<Rightarrow> loop_records collect c' xs)"

lemma send_all_open: "send_all (\<lambda>_. True) sent i es = (sent @ es, i + length es)"
  by (induction es arbitrary: sent i) auto

lemma loop_sends:
  "run_collector_loop collect check (\<lambda>_. True) c sent i (map Tick xs @ Shutdown # bs) =
     Returned (Inr ()) (sent @ map event_of (filter (check \<circ> payload) (loop_records collect c xs)))"
proof (induction xs arbitrary: c sent i)
  case (Cons x xs)
  obtain r c' where "collect c x = (r, c')" by (cases "collect c x")
  then show ?case by (cases r) (simp_all add: Cons.IH send_all_open comp_def)
qed simp

text \<open>C30: The run loop.  For any collector, whatever ticks succeed or fail, the loop returns normally at
  the first change of the shutdown signal, having sent (to an open channel) exactly one event,
  in order, for every record of the collector's kind of the successful ticks: a failing tick
  neither ends the loop nor loses records of others.\<close>

theorem collector_loop_events:
  "run_collector_loop collect check (\<lambda>_. True) c [] 0 (map Tick xs @ Shutdown # bs) =
     Returned (Inr ()) (map event_of (filter (check \<circ> payload) (loop_records collect c xs)))"
  using loop_sends [of collect check c "[]" 0 xs bs] by simp

abbreviation net_poll ::
  "NetworkCollector \<Rightarrow> (col_error + u64) \<times> PidNetStats bpf_view \<Rightarrow> (col_error + MetricRecord list) \<times> NetworkCollector" where
  "net_poll c x \<equiv> collect_network c (fst x) (snd x)"

fun final_state :: "('c \<Rightarrow> 'i \<Rightarrow> ('e + MetricRecord list) \<times> 'c) \<Rightarrow> 'c \<Rightarrow> 'i list \<Rightarrow> 'c" where
  "final_state collect c [] = c"
| "final_state collect c (x # xs) = final_state collect (snd (collect c x)) xs"

fun all_ok :: "('c \<Rightarrow> 'i \<Rightarrow> ('e + MetricRecord list) \<times> 'c) \<Rightarrow> 'c \<Rightarrow> 'i list \<Rightarrow> bool" where
  "all_ok collect c [] \<longleftrightarrow> True"
| "all_ok collect c (x # xs) \<longleftrightarrow> \<not> isl (fst (collect c x)) \<and> all_ok collect (snd (collect c x)) xs"

lemma network_run_prefix:
  "all_ok net_poll c xs \<Longrightarrow> \<exists>j. network_run (\<lambda>_. True) c sent i (map Tick xs @ bs) =
     network_run (\<lambda>_. True) (final_state net_poll c xs)
       (sent @ map event_of (filter (is_net \<circ> payload) (loop_records net_poll c xs))) j bs"
proof (induction xs arbitrary: c sent i)
  case (Cons x xs)
  obtain clock view where x: "x = (clock, view)" by (cases x)
  obtain rs c' where p: "collect_network c clock view = (Inr rs, c')"
    using Cons.prems x by (cases "collect_network c clock view"; cases "fst (collect_network c clock view)") auto
  have "all_ok net_poll c' xs" using Cons.prems x p by simp
  from Cons.IH [OF this, of "sent @ map event_of (filter (is_net \<circ> payload) rs)" "i + length (map event_of (filter (is_net \<circ> payload) rs))"]
  show ?case by (simp add: x p send_all_open comp_def)
qed auto

text \<open>C38: The network collector's own loop is not so robust: after successful ticks, the first failing
  one ends it with that error; the events of the successful ticks were sent, and nothing that
  comes later, a shutdown included, is seen.\<close>

theorem network_loop_stops_on_error:
  assumes "all_ok (\<lambda>c x. collect_network c (fst x) (snd x)) c xs"
    and "collect_network (final_state (\<lambda>c x. collect_network c (fst x) (snd x)) c xs) clock view = (Inl e, c')"
  shows "network_run (\<lambda>_. True) c [] 0 (map Tick xs @ Tick (clock, view) # bs) =
    Returned (Inl e) (map event_of (filter (is_net \<circ> payload)
      (loop_records (\<lambda>c x. collect_network c (fst x) (snd x)) c xs)))"
proof -
  obtain j where "network_run (\<lambda>_. True) c [] 0 (map Tick xs @ Tick (clock, view) # bs) =
      network_run (\<lambda>_. True) (final_state net_poll c xs)
        ([] @ map event_of (filter (is_net \<circ> payload) (loop_records net_poll c xs))) j (Tick (clock, view) # bs)"
    using network_run_prefix [OF assms(1), of "[]" 0 "Tick (clock, view) # bs"] by blast
  then show ?thesis by (simp add: assms(2))
qed

theorem network_loop_stops_on_error_witness:
  "network_run (\<lambda>_. True) \<lparr> net_prev_state = Map.empty \<rparr> [] 0 [Tick (Inr 5, None), Shutdown] =
     Returned (Inl (Coll (MapNotFound ''NETWORK_STATS''))) []"
  using network_loop_stops_on_error [of "\<lparr> net_prev_state = Map.empty \<rparr>" "[]" "Inr 5" None
      "Coll (MapNotFound ''NETWORK_STATS'')" "\<lparr> net_prev_state = Map.empty \<rparr>" "[Shutdown]"]
  by (simp add: collect_network_def open_view_def)

end
