(* ===== verification/Memory_Collector.thy ===== *)
theory Memory_Collector
  imports Collectors Ranking
begin

text \<open>
  \<open>crates/heimwatch-collector/src/memory/linux.rs\<close> and \<open>crates/heimwatch-core/src/process.rs\<close>: the
  memory collector, which reads \<open>/proc\<close>, and the lookup of process names.  The file system is the
  parameter \<open>rf\<close>, from paths to contents; the listing of \<open>/proc\<close> is an argument.  Counters that are
  only logged are left out.
\<close>

section \<open>Process names\<close>

type_synonym reader = "string \<Rightarrow> col_error + string"

definition extract_process_name :: "string \<Rightarrow> string option" where
  "extract_process_name path = file_name path"

definition get_process_name :: "reader \<Rightarrow> u32 \<Rightarrow> col_error + string" where
  "get_process_name rf pid =
     (let from_cmdline = (case rf (''/proc/'' @ dec (unat pid) @ ''/cmdline'') of
            Inr cmdline \<Rightarrow>
              (let exe_path = hd (split_on (CHR 0x00) cmdline) in
               if exe_path \<noteq> [] then extract_process_name exe_path else None)
          | Inl _ \<Rightarrow> None)
      in case from_cmdline of
           Some name \<Rightarrow> Inr name
         | None \<Rightarrow> bindR (rf (''/proc/'' @ dec (unat pid) @ ''/comm'')) (\<lambda>comm. Inr (trim comm)))"

section \<open>Status files\<close>

record ProcStatus =
  vm_rss :: "u64 option"
  vm_size :: "u64 option"
  vm_swap :: "u64 option"

definition ProcStatus_default :: ProcStatus where
  "ProcStatus_default = \<lparr> vm_rss = None, vm_size = None, vm_swap = None \<rparr>"

definition status_line :: "ProcStatus \<Rightarrow> string \<Rightarrow> ProcStatus" where
  "status_line st line =
     (case split_whitespace line of
        k # v # _ \<Rightarrow>
          if k = ''VmRSS:'' then (case parse_u64 v of Inr n \<Rightarrow> st\<lparr> vm_rss := Some n \<rparr> | Inl _ \<Rightarrow> st)
          else if k = ''VmSize:'' then (case parse_u64 v of Inr n \<Rightarrow> st\<lparr> vm_size := Some n \<rparr> | Inl _ \<Rightarrow> st)
          else if k = ''VmSwap:'' then (case parse_u64 v of Inr n \<Rightarrow> st\<lparr> vm_swap := Some n \<rparr> | Inl _ \<Rightarrow> st)
          else st
      | _ \<Rightarrow> st)"

definition parse_status :: "string \<Rightarrow> ProcStatus" where
  "parse_status content = foldl status_line ProcStatus_default (lines content)"

definition read_proc_status :: "reader \<Rightarrow> string \<Rightarrow> col_error + ProcStatus" where
  "read_proc_status rf path = bindR (rf (path @ ''/status'')) (\<lambda>content. Inr (parse_status content))"

section \<open>Collection\<close>

definition MEM_POLL_INTERVAL_S :: nat where
  "MEM_POLL_INTERVAL_S = 10"

record MemStats =
  ms_rss :: u64
  ms_vms :: u64
  ms_swap :: u64
  ms_count :: u32

definition MemStats_default :: MemStats where
  "MemStats_default = \<lparr> ms_rss = 0, ms_vms = 0, ms_swap = 0, ms_count = 0 \<rparr>"

definition add_mem_stats :: "ProcStatus \<Rightarrow> MemStats \<Rightarrow> MemStats" where
  "add_mem_stats status e =
     \<lparr> ms_rss = sat_add (ms_rss e) (unwrap_or (vm_rss status) 0 * 1024),
       ms_vms = sat_add (ms_vms e) (unwrap_or (vm_size status) 0 * 1024),
       ms_swap = sat_add (ms_swap e) (unwrap_or (vm_swap status) 0 * 1024),
       ms_count = sat_add (ms_count e) 1 \<rparr>"

text \<open>One entry of the directory: its name, when it is text.\<close>

definition mem_entry :: "reader \<Rightarrow> (string \<times> MemStats) list \<Rightarrow> string \<Rightarrow> (string \<times> MemStats) list" where
  "mem_entry rf stats name =
     (case parse_u32 (if utf8_valid name then name else []) of
        Inl _ \<Rightarrow> stats
      | Inr pid \<Rightarrow>
          (case read_proc_status rf (''/proc/'' @ name) of
             Inl _ \<Rightarrow> stats
           | Inr status \<Rightarrow>
               (case get_process_name rf pid of
                  Inr app \<Rightarrow> entry_mod app MemStats_default (add_mem_stats status) stats
                | Inl _ \<Rightarrow> stats)))"

definition collect_memory ::
  "reader \<Rightarrow> (string, MemStats) hash_iter \<Rightarrow> col_error + u64 \<Rightarrow> col_error + (col_error + string) list \<Rightarrow>
   col_error + MetricRecord list" where
  "collect_memory rf iter clock read_dir =
     bindR clock (\<lambda>ts.
     let entries = (case read_dir of Inr es \<Rightarrow> List.map_filter ok_opt es | Inl _ \<Rightarrow> []);
         stats_by_app = foldl (mem_entry rf) [] entries
     in Inr (map (\<lambda>(app, s). \<lparr> app_name = app, timestamp = ts, payload = MemP
          \<lparr> rss_bytes = ms_rss s, vms_bytes = ms_vms s, swap_bytes = ms_swap s, process_count = ms_count s \<rparr> \<rparr>)
          (iter stats_by_app)))"

definition is_mem :: "MetricPayload \<Rightarrow> bool" where
  "is_mem p = (case p of MemP _ \<Rightarrow> True | _ \<Rightarrow> False)"

definition memory_run ::
  "(string, MemStats) hash_iter \<Rightarrow> (nat \<Rightarrow> bool) \<Rightarrow>
   (reader \<times> (col_error + u64) \<times> (col_error + (col_error + string) list)) branch list \<Rightarrow> (unit, col_error) loop_result" where
  "memory_run iter accepts bs =
     run_collector_loop (\<lambda>c (rf, clock, read_dir). (collect_memory rf iter clock read_dir, c)) is_mem accepts () [] 0 bs"

section \<open>Status files, read back\<close>

text \<open>A row of the status file as the kernel prints it: key, padding, number, unit.\<close>

definition status_row :: "string \<times> nat \<times> u64 \<Rightarrow> string" where
  "status_row = (\<lambda>(k, pad, n). k @ [CHR 0x09] @ replicate pad (CHR '' '') @ dec (unat n) @ '' kB'')"

definition status_file :: "(string \<times> nat \<times> u64) list \<Rightarrow> string" where
  "status_file rows = concat (map (\<lambda>row. status_row row @ [CHR 0x0A]) rows)"

text \<open>The value of the last row with the key.\<close>

definition row_value :: "(string \<times> nat \<times> u64) list \<Rightarrow> string \<Rightarrow> u64 option" where
  "row_value rows k = map_option snd (map_of (rev rows) k)"

lemma plain_dec: "plain (dec n)"
proof -
  have "byte_in 33 127 c" if "c \<in> set (dec n)" for c
    using dec_digits [OF that] by (simp add: byte_in_def is_digit_code)
  then show ?thesis by (simp add: plain_def list_all_iff)
qed

lemma lines_from_line: "CHR 0x0A \<notin> set l \<Longrightarrow> lines_from acc (l @ CHR 0x0A # s) = strip_cr (acc @ l) # lines_from [] s"
  by (induction l arbitrary: acc) auto

lemma newline_not_plain: "plain w \<Longrightarrow> CHR 0x0A \<notin> set w"
  by (auto simp: plain_def list_all_iff byte_in_def)

lemma lines_status_file:
  assumes "\<And>k pad n. (k, pad, n) \<in> set rows \<Longrightarrow> plain k"
  shows "lines (status_file rows) = map status_row rows"
  using assms
proof (induction rows)
  case (Cons row rows)
  obtain k pad n where row: "row = (k, pad, n)" by (cases row)
  have "plain k" using Cons.prems [of k pad n] by (simp add: row)
  then have "CHR 0x0A \<notin> set (status_row row)"
    using newline_not_plain [OF \<open>plain k\<close>] newline_not_plain [OF plain_dec [of "unat n"]] by (simp add: status_row_def row)
  then have "lines_from [] (status_row row @ CHR 0x0A # status_file rows) =
      strip_cr (status_row row) # lines_from [] (status_file rows)"
    using lines_from_line [of "status_row row" "[]" "status_file rows"] by simp
  moreover have "strip_cr (status_row row) = status_row row" by (simp add: strip_cr_def status_row_def row)
  moreover have "lines (status_file rows) = map status_row rows" by (rule Cons.IH) (use Cons.prems in auto)
  ultimately show ?case by (simp add: lines_def status_file_def)
qed (simp add: lines_def status_file_def)

lemma split_status_row:
  assumes "plain k" and "k \<noteq> []"
  shows "split_whitespace (status_row (k, pad, n)) = [k, dec (unat n), ''kB'']"
proof -
  have kb: "split_ws_from (dec (unat n)) '' kB'' = [dec (unat n), ''kB'']"
    using ws_len_space(1) [of "''kB''"] by (simp add: ws_len_plain byte_in_def)
  have "split_ws_from [] (dec (unat n) @ '' kB'') = [dec (unat n), ''kB'']"
    using split_ws_plain [OF plain_dec, of "[]" "unat n" "'' kB''"] kb by simp
  then have "split_ws_from k (CHR 0x09 # replicate pad (CHR '' '') @ dec (unat n) @ '' kB'') = [k, dec (unat n), ''kB'']"
    using assms(2) by (simp add: ws_len_space split_ws_spaces)
  then show ?thesis
    using split_ws_plain [OF assms(1), of "[]"] by (simp add: split_whitespace_def status_row_def)
qed

lemma parse_status_rows:
  assumes "\<And>k pad n. (k, pad, n) \<in> set rows \<Longrightarrow> plain k \<and> k \<noteq> []"
  shows "foldl status_line st (map status_row rows) =
    \<lparr> vm_rss = (case row_value rows ''VmRSS:'' of None \<Rightarrow> vm_rss st | Some n \<Rightarrow> Some n),
      vm_size = (case row_value rows ''VmSize:'' of None \<Rightarrow> vm_size st | Some n \<Rightarrow> Some n),
      vm_swap = (case row_value rows ''VmSwap:'' of None \<Rightarrow> vm_swap st | Some n \<Rightarrow> Some n) \<rparr>"
  using assms
proof (induction rows rule: rev_induct)
  case (snoc row rows)
  obtain k pad n where row: "row = (k, pad, n)" by (cases row)
  have k: "plain k" "k \<noteq> []" using snoc.prems [of k pad n] by (simp_all add: row)
  have step: "status_line st' (status_row (k, pad, n)) =
      (if k = ''VmRSS:'' then st'\<lparr> vm_rss := Some n \<rparr> else if k = ''VmSize:'' then st'\<lparr> vm_size := Some n \<rparr>
       else if k = ''VmSwap:'' then st'\<lparr> vm_swap := Some n \<rparr> else st')" for st'
    by (simp add: status_line_def split_status_row [OF k] parse_u64_dec)
  have "foldl status_line st (map status_row rows) =
    \<lparr> vm_rss = (case row_value rows ''VmRSS:'' of None \<Rightarrow> vm_rss st | Some n \<Rightarrow> Some n),
      vm_size = (case row_value rows ''VmSize:'' of None \<Rightarrow> vm_size st | Some n \<Rightarrow> Some n),
      vm_swap = (case row_value rows ''VmSwap:'' of None \<Rightarrow> vm_swap st | Some n \<Rightarrow> Some n) \<rparr>"
    by (rule snoc.IH) (use snoc.prems in auto)
  then show ?case by (simp add: step row row_value_def)
qed (simp add: row_value_def)

lemma parse_status_file:
  assumes "\<And>k pad n. (k, pad, n) \<in> set rows \<Longrightarrow> plain k \<and> k \<noteq> []"
  shows "parse_status (status_file rows) =
    \<lparr> vm_rss = row_value rows ''VmRSS:'', vm_size = row_value rows ''VmSize:'', vm_swap = row_value rows ''VmSwap:'' \<rparr>"
  using parse_status_rows [OF assms] lines_status_file [of rows] assms
  by (auto simp: parse_status_def ProcStatus_default_def split: option.split)

text \<open>Reading back a status file.  Whatever rows the kernel prints, in any order and number and with any
  padding, the parser finds exactly the values of the three keys it looks for (the last row of each)
  and nothing for a key that has no row.\<close>

theorem parse_status_roundtrip:
  assumes "\<And>k pad n. (k, pad, n) \<in> set rows \<Longrightarrow> plain k \<and> k \<noteq> []"
  shows "parse_status (status_file rows) =
    \<lparr> vm_rss = row_value rows ''VmRSS:'', vm_size = row_value rows ''VmSize:'', vm_swap = row_value rows ''VmSwap:'' \<rparr>"
  using assms by (rule parse_status_file)

theorem parse_status_roundtrip_witness:
  "parse_status (status_file [(''VmPeak:'', 3, 9000), (''VmSize:'', 2, 8000), (''VmRSS:'', 4, 1234), (''Threads:'', 0, 7)]) =
     \<lparr> vm_rss = Some 1234, vm_size = Some 8000, vm_swap = None \<rparr>"
proof -
  let ?rows = "[(''VmPeak:'', 3, 9000 :: u64), (''VmSize:'', 2, 8000), (''VmRSS:'', 4, 1234), (''Threads:'', 0, 7)]"
  have "plain k \<and> k \<noteq> []" if "(k, pad, n) \<in> set ?rows" for k pad n
    using that by (auto simp: plain_def byte_in_def)
  then have "parse_status (status_file ?rows) =
    \<lparr> vm_rss = row_value ?rows ''VmRSS:'', vm_size = row_value ?rows ''VmSize:'', vm_swap = row_value ?rows ''VmSwap:'' \<rparr>"
    by (rule parse_status_roundtrip)
  then show ?thesis by (simp add: row_value_def)
qed

section \<open>Totals\<close>

text \<open>The process behind a directory entry, when its status and its name can be read.\<close>

definition mem_sample :: "reader \<Rightarrow> string \<Rightarrow> (string \<times> ProcStatus) option" where
  "mem_sample rf name =
     (case parse_u32 (if utf8_valid name then name else []) of
        Inl _ \<Rightarrow> None
      | Inr pid \<Rightarrow>
          (case (read_proc_status rf (''/proc/'' @ name), get_process_name rf pid) of
             (Inr status, Inr app) \<Rightarrow> Some (app, status)
           | _ \<Rightarrow> None))"

definition mem_samples :: "reader \<Rightarrow> (col_error + string) list \<Rightarrow> (string \<times> ProcStatus) list" where
  "mem_samples rf es = List.map_filter (mem_sample rf) (List.map_filter ok_opt es)"

text \<open>Kibibytes as bytes, as the code computes them.\<close>

definition bytes_of :: "u64 option \<Rightarrow> nat" where
  "bytes_of kib = unat (unwrap_or kib 0 * 1024)"

lemma mem_fold: "foldl (mem_entry rf) m names =
    foldl (\<lambda>m s. entry_mod (fst s) MemStats_default (add_mem_stats (snd s)) m) m (List.map_filter (mem_sample rf) names)"
  by (induction names arbitrary: m)
    (auto simp: mem_entry_def mem_sample_def map_filter_simps split: sum.split)

lemma mem_stats_fold:
  "ms_rss (foldl (\<lambda>v s. add_mem_stats (snd s) v) e ss) =
     foldl (\<lambda>a s. sat_add a (unwrap_or (vm_rss (snd s)) 0 * 1024)) (ms_rss e) ss"
  "ms_vms (foldl (\<lambda>v s. add_mem_stats (snd s) v) e ss) =
     foldl (\<lambda>a s. sat_add a (unwrap_or (vm_size (snd s)) 0 * 1024)) (ms_vms e) ss"
  "ms_swap (foldl (\<lambda>v s. add_mem_stats (snd s) v) e ss) =
     foldl (\<lambda>a s. sat_add a (unwrap_or (vm_swap (snd s)) 0 * 1024)) (ms_swap e) ss"
  "ms_count (foldl (\<lambda>v s. add_mem_stats (snd s) v) e ss) = foldl (\<lambda>a s. sat_add a 1) (ms_count e) ss"
  by ((induction ss arbitrary: e; simp add: add_mem_stats_def)+)

lemma mem_stats_totals:
  fixes ss :: "(string \<times> ProcStatus) list"
  defines "v \<equiv> foldl (\<lambda>v s. add_mem_stats (snd s) v) MemStats_default ss"
  shows "unat (ms_rss v) = min (\<Sum>s\<leftarrow>ss. bytes_of (vm_rss (snd s))) (2 ^ 64 - 1)"
    and "unat (ms_vms v) = min (\<Sum>s\<leftarrow>ss. bytes_of (vm_size (snd s))) (2 ^ 64 - 1)"
    and "unat (ms_swap v) = min (\<Sum>s\<leftarrow>ss. bytes_of (vm_swap (snd s))) (2 ^ 64 - 1)"
    and "unat (ms_count v) = min (length ss) (2 ^ 32 - 1)"
  unfolding v_def mem_stats_fold unat_foldl_sat_add
  by (simp_all add: MemStats_default_def bytes_of_def sum_list_triv)

text \<open>C20: One poll of the memory collector.  It emits exactly one record per application that owns a readable
  process, at the time of the clock; its sizes are the sums over the application's processes and its
  count their number, each cut off at the largest value of its type.  Entries of \<open>/proc\<close> that are no
  process, or that cannot be read, change nothing.\<close>

theorem memory_totals_exact:
  assumes "hash_order iter"
  shows "\<exists>rs. collect_memory rf iter (Inr ts) (Inr es) = Inr rs \<and> distinct (map app_name rs) \<and>
    set (map app_name rs) = set (map fst (mem_samples rf es)) \<and>
    (\<forall>r\<in>set rs. \<exists>d. payload r = MemP d \<and> timestamp r = ts \<and>
       (let ss = filter (\<lambda>s. fst s = app_name r) (mem_samples rf es) in
        unat (rss_bytes d) = min (\<Sum>s\<leftarrow>ss. bytes_of (vm_rss (snd s))) (2 ^ 64 - 1) \<and>
        unat (vms_bytes d) = min (\<Sum>s\<leftarrow>ss. bytes_of (vm_size (snd s))) (2 ^ 64 - 1) \<and>
        unat (swap_bytes d) = min (\<Sum>s\<leftarrow>ss. bytes_of (vm_swap (snd s))) (2 ^ 64 - 1) \<and>
        unat (process_count d) = min (length ss) (2 ^ 32 - 1)))"
proof -
  let ?m = "foldl (mem_entry rf) [] (List.map_filter ok_opt es)"
  let ?rec = "\<lambda>(app, s). \<lparr> app_name = app, timestamp = ts, payload = MemP
          \<lparr> rss_bytes = ms_rss s, vms_bytes = ms_vms s, swap_bytes = ms_swap s, process_count = ms_count s \<rparr> \<rparr>"
  have m: "?m = foldl (\<lambda>m s. entry_mod (fst s) MemStats_default (add_mem_stats (snd s)) m) [] (mem_samples rf es)"
    unfolding mem_fold mem_samples_def ..
  have dist: "distinct (map fst ?m)" unfolding m by (rule fold_entry_mod(1)) simp
  have val: "map_of ?m a = (if a \<in> set (map fst (mem_samples rf es))
      then Some (foldl (\<lambda>v s. add_mem_stats (snd s) v) MemStats_default (filter (\<lambda>s. fst s = a) (mem_samples rf es)))
      else None)" for a
    unfolding m using fold_entry_mod(2) [of "[]" fst MemStats_default "\<lambda>s. add_mem_stats (snd s)" "mem_samples rf es" a]
    by (auto simp: image_iff)
  have keys: "set (map fst ?m) = set (map fst (mem_samples rf es))"
    using val by (metis (no_types, lifting) dom_map_of_conv_image_fst domIff list.set_map option.distinct(1) subsetI subset_antisym)
  have names: "map app_name (map ?rec (iter ?m)) = map fst (iter ?m)" by (simp add: comp_def case_prod_unfold)
  have it: "distinct (map fst (iter ?m))" "set (iter ?m) = set ?m"
    using dist hash_order.iter_distinct [OF assms, of ?m] hash_order.iter_set [OF assms, of ?m] by simp_all
  have "collect_memory rf iter (Inr ts) (Inr es) = Inr (map ?rec (iter ?m))"
    by (simp add: collect_memory_def)
  moreover have "\<exists>d. payload r = MemP d \<and> timestamp r = ts \<and>
       (let ss = filter (\<lambda>s. fst s = app_name r) (mem_samples rf es) in
        unat (rss_bytes d) = min (\<Sum>s\<leftarrow>ss. bytes_of (vm_rss (snd s))) (2 ^ 64 - 1) \<and>
        unat (vms_bytes d) = min (\<Sum>s\<leftarrow>ss. bytes_of (vm_size (snd s))) (2 ^ 64 - 1) \<and>
        unat (swap_bytes d) = min (\<Sum>s\<leftarrow>ss. bytes_of (vm_swap (snd s))) (2 ^ 64 - 1) \<and>
        unat (process_count d) = min (length ss) (2 ^ 32 - 1))" if r: "r \<in> set (map ?rec (iter ?m))" for r
  proof -
    obtain a v where av: "(a, v) \<in> set ?m" "r = ?rec (a, v)" using r it(2) by auto
    then have "map_of ?m a = Some v" using dist by simp
    then have v: "v = foldl (\<lambda>v s. add_mem_stats (snd s) v) MemStats_default (filter (\<lambda>s. fst s = a) (mem_samples rf es))"
      using val [of a] by (simp split: if_splits)
    show ?thesis unfolding av(2) Let_def using mem_stats_totals [of "filter (\<lambda>s. fst s = a) (mem_samples rf es)"] v by simp
  qed
  moreover have "set (map fst (iter ?m)) = set (map fst (mem_samples rf es))" using keys it(2) by (metis list.set_map)
  ultimately show ?thesis using it(1) names by (intro exI [of _ "map ?rec (iter ?m)"]) (simp only: simp_thms, blast)
qed

text \<open>A \<open>/proc\<close> with two processes of \<open>curl\<close>, one of them a kernel thread without a command line.\<close>

definition w_proc :: reader where
  "w_proc path =
     (if path = ''/proc/7/status'' then Inr (status_file [(''VmSize:'', 2, 5), (''VmRSS:'', 2, 3)])
      else if path = ''/proc/7/cmdline'' then Inr (''/usr/bin/curl'' @ [CHR 0x00] @ ''-s'')
      else if path = ''/proc/9/status'' then Inr (status_file [(''VmRSS:'', 2, 4)])
      else if path = ''/proc/9/cmdline'' then Inr []
      else if path = ''/proc/9/comm'' then Inr (''curl'' @ [CHR 0x0A])
      else Inl (Foreign ''not found''))"

lemma w_samples: "mem_samples w_proc [Inr ''self'', Inr ''7'', Inl (Foreign ''io''), Inr ''8'', Inr ''9''] =
  [(''curl'', \<lparr> vm_rss = Some 3, vm_size = Some 5, vm_swap = None \<rparr>),
   (''curl'', \<lparr> vm_rss = Some 4, vm_size = None, vm_swap = None \<rparr>)]"
proof -
  have pids: "parse_u32 ''self'' = Inl InvalidDigit" "parse_u32 ''7'' = Inr 7" "parse_u32 ''8'' = Inr 8" "parse_u32 ''9'' = Inr 9"
    by (simp_all add: parse_u32_def parse_unsigned_def is_digit_code digit_val_def)
  have paths: "''/proc/'' @ dec (unat (7 :: u32)) = ''/proc/7''" "''/proc/'' @ dec (unat (8 :: u32)) = ''/proc/8''"
    "''/proc/'' @ dec (unat (9 :: u32)) = ''/proc/9''"
    by code_simp+
  have names: "extract_process_name ''/usr/bin/curl'' = Some ''curl''" "trim (''curl'' @ [CHR 0x0A]) = ''curl''"
    "hd (split_on (CHR 0x00) (''/usr/bin/curl'' @ [CHR 0x00] @ ''-s'')) = ''/usr/bin/curl''"
    by code_simp+
  have valid: "utf8_valid ''self''" "utf8_valid ''7''" "utf8_valid ''8''" "utf8_valid ''9''" by code_simp+
  have status: "parse_status (status_file [(''VmSize:'', 2, 5), (''VmRSS:'', 2, 3)]) = \<lparr> vm_rss = Some 3, vm_size = Some 5, vm_swap = None \<rparr>"
    "parse_status (status_file [(''VmRSS:'', 2, 4)]) = \<lparr> vm_rss = Some 4, vm_size = None, vm_swap = None \<rparr>"
    by (subst parse_status_file; auto simp: plain_def byte_in_def row_value_def)+
  have proc: "get_process_name w_proc 7 = Inr ''curl''" "get_process_name w_proc 9 = Inr ''curl''"
    unfolding get_process_name_def append_assoc [symmetric] paths
    using names by (simp_all add: w_proc_def Let_def)
  have st: "read_proc_status w_proc ''/proc/7'' = Inr \<lparr> vm_rss = Some 3, vm_size = Some 5, vm_swap = None \<rparr>"
    "read_proc_status w_proc ''/proc/9'' = Inr \<lparr> vm_rss = Some 4, vm_size = None, vm_swap = None \<rparr>"
    "read_proc_status w_proc ''/proc/8'' = Inl (Foreign ''not found'')"
    by (simp_all add: read_proc_status_def w_proc_def status)
  have "mem_sample w_proc ''self'' = None" "mem_sample w_proc ''8'' = None"
    "mem_sample w_proc ''7'' = Some (''curl'', \<lparr> vm_rss = Some 3, vm_size = Some 5, vm_swap = None \<rparr>)"
    "mem_sample w_proc ''9'' = Some (''curl'', \<lparr> vm_rss = Some 4, vm_size = None, vm_swap = None \<rparr>)"
    by (simp_all add: mem_sample_def pids valid proc st del: utf8_valid.simps)
  then show ?thesis by (simp add: mem_samples_def map_filter_simps)
qed

theorem memory_totals_exact_witness:
  "\<exists>rs. collect_memory w_proc rev (Inr 100) (Inr [Inr ''self'', Inr ''7'', Inl (Foreign ''io''), Inr ''8'', Inr ''9'']) = Inr rs \<and>
     set (map app_name rs) = {''curl''}"
proof -
  have apps: "set (map fst (mem_samples w_proc [Inr ''self'', Inr ''7'', Inl (Foreign ''io''), Inr ''8'', Inr ''9''])) = {''curl''}"
    by (simp add: w_samples)
  show ?thesis using memory_totals_exact [OF hash_rev.hash_order_axioms] unfolding apps [symmetric] by blast
qed

end
