(* ===== verification/Daemon.thy ===== *)
theory Daemon
  imports Tiered_Cleanup Storage_Props Collectors Gregorian
begin

text \<open>
  \<open>crates/heimwatch-daemon/src/lib.rs\<close>, \<open>config.rs\<close> and \<open>logging.rs\<close>: start-up, the tasks that the daemon
  spawns, its event loop, the shutdown and the background cleanup.  The tasks share the store and
  run interleaved; the model takes the order in which their operations happen as a list and treats
  one operation on the store as one step.  The file system, the TOML parser and sled are
  parameters.
\<close>

section \<open>Configuration\<close>

record DaemonConfig =
  tiered_retention :: TieredRetentionConfig

definition DaemonConfig_default :: DaemonConfig where
  "DaemonConfig_default = \<lparr> tiered_retention = TieredRetentionConfig_default \<rparr>"

definition config_load ::
  "(string \<Rightarrow> any_error + string) \<Rightarrow> (string \<Rightarrow> any_error + DaemonConfig) \<Rightarrow> string \<Rightarrow> any_error + DaemonConfig" where
  "config_load read_to_string toml_from_str path =
     bindR (read_to_string path) (\<lambda>content. bindR (toml_from_str content) Inr)"

definition load_or_default ::
  "(string \<Rightarrow> any_error + string) \<Rightarrow> (string \<Rightarrow> any_error + DaemonConfig) \<Rightarrow> string \<Rightarrow> DaemonConfig" where
  "load_or_default read_to_string toml_from_str path =
     (case config_load read_to_string toml_from_str path of Inr config \<Rightarrow> config | Inl _ \<Rightarrow> DaemonConfig_default)"

section \<open>Log level\<close>

datatype LevelFilter = Off | Error | Warn | Info | Debug | Trace

record LogConfig =
  level :: LevelFilter
  json_format :: bool

definition log_config_new :: "LevelFilter \<Rightarrow> LogConfig" where
  "log_config_new l = \<lparr> level = l, json_format = False \<rparr>"

definition with_json :: "LogConfig \<Rightarrow> bool \<Rightarrow> LogConfig" where
  "with_json c json = c\<lparr> json_format := json \<rparr>"

definition LogConfig_default :: LogConfig where
  "LogConfig_default = \<lparr> level = Info, json_format = False \<rparr>"

text \<open>\<open>to_lowercase\<close> is Unicode lower-casing, a parameter \<open>lower\<close>.\<close>

definition parse_level :: "(string \<Rightarrow> string) \<Rightarrow> string \<Rightarrow> string + LevelFilter" where
  "parse_level lower level_str =
     (let s = lower level_str in
      if s = ''off'' then Inr Off
      else if s = ''error'' then Inr Error
      else if s = ''warn'' then Inr Warn
      else if s = ''info'' then Inr Info
      else if s = ''debug'' then Inr Debug
      else if s = ''trace'' then Inr Trace
      else Inl (''Invalid log level '' @ [CHR 0x27] @ level_str @ [CHR 0x27] @
                ''. Must be one of: off, error, warn, info, debug, trace''))"

section \<open>Spawning the collectors\<close>

definition spawn_one ::
  "('h PlatformCollector \<Rightarrow> 'h option \<times> 'h PlatformCollector) \<Rightarrow> 'h list \<times> 'h PlatformCollector \<Rightarrow>
   'h list \<times> 'h PlatformCollector" where
  "spawn_one tk = (\<lambda>(tasks, p). case tk p of
      (Some c, p') \<Rightarrow> (tasks @ [c], p')
    | (None, p') \<Rightarrow> (tasks, p'))"

definition spawn_collectors :: "'h PlatformCollector \<Rightarrow> 'h list \<times> 'h PlatformCollector" where
  "spawn_collectors p =
     foldl (\<lambda>s tk. spawn_one tk s) ([], p)
       [take_focus_collector, take_network_collector, take_cpu_collector, take_disk_collector,
        take_memory_collector, take_power_collector]"

section \<open>The event loop\<close>

definition event_record :: "CollectorEvent \<Rightarrow> MetricRecord" where
  "event_record ev = \<lparr> app_name = ev_app_name ev, timestamp = ev_timestamp ev, payload = ev_payload ev \<rparr>"

definition persist_event :: "'w ext \<Rightarrow> CollectorEvent \<Rightarrow> ('w, unit) io" where
  "persist_event X ev = bindS (insert_metric X (event_record ev)) (\<lambda>_. retS ())"

text \<open>What can happen next: an event arrives on the channel, the channel is found closed, Ctrl+C is
  pressed, or the sleep of the cleanup task ends (with the clock reads its cleanup makes).\<close>

datatype occurrence =
    Received CollectorEvent
  | Closed
  | CtrlC
  | CleanupDue "any_error + u64" "nat option"

datatype phase = Looping | Draining | Exited "any_error + unit"

record 'w daemon =
  d_phase :: phase
  d_shutdown :: bool
  d_cleanup :: bool
  d_world :: 'w

text \<open>One round of the cleanup task: the results are only logged.\<close>

definition cleanup_round ::
  "'w ext \<Rightarrow> 'd chrono \<Rightarrow> TieredRetentionConfig \<Rightarrow> any_error + u64 \<Rightarrow> nat option \<Rightarrow> 'w \<Rightarrow> 'w" where
  "cleanup_round X C config clock nanos w =
     (case cleanup_tiered X C clock nanos config w of
        (Inr _, w') \<Rightarrow> snd (get_storage_stats X w')
      | (Inl _, w') \<Rightarrow> w')"

text \<open>A closed channel disables its branch of the main loop, which then waits for Ctrl+C; it ends the
  drain.\<close>

fun daemon_step :: "'w ext \<Rightarrow> 'd chrono \<Rightarrow> TieredRetentionConfig \<Rightarrow> 'w daemon \<Rightarrow> occurrence \<Rightarrow> 'w daemon" where
  "daemon_step X C config d (Received ev) =
     (case d_phase d of
        Looping \<Rightarrow> (case persist_event X ev (d_world d) of
            (Inr _, w) \<Rightarrow> d\<lparr> d_world := w \<rparr>
          | (Inl e, w) \<Rightarrow> d\<lparr> d_phase := Exited (Inl e), d_world := w \<rparr>)
      | Draining \<Rightarrow> d\<lparr> d_world := snd (persist_event X ev (d_world d)) \<rparr>
      | Exited _ \<Rightarrow> d)"
| "daemon_step X C config d Closed =
     (case d_phase d of Draining \<Rightarrow> d\<lparr> d_phase := Exited (Inr ()) \<rparr> | _ \<Rightarrow> d)"
| "daemon_step X C config d CtrlC =
     (case d_phase d of Looping \<Rightarrow> d\<lparr> d_phase := Draining, d_shutdown := True \<rparr> | _ \<Rightarrow> d)"
| "daemon_step X C config d (CleanupDue clock nanos) =
     (case d_phase d of
        Exited _ \<Rightarrow> d
      | _ \<Rightarrow> if \<not> d_cleanup d then d
             else if d_shutdown d then d\<lparr> d_cleanup := False \<rparr>
             else d\<lparr> d_world := cleanup_round X C config clock nanos (d_world d) \<rparr>)"

definition run_config ::
  "(string \<Rightarrow> any_error + string) \<Rightarrow> (string \<Rightarrow> any_error + DaemonConfig) \<Rightarrow> string option \<Rightarrow> DaemonConfig" where
  "run_config read_to_string toml_from_str config_path = (case config_path of
      Some path \<Rightarrow> load_or_default read_to_string toml_from_str path
    | None \<Rightarrow> DaemonConfig_default)"

text \<open>\<open>run\<close>: configuration, store, collectors, then the loop.  The result is the error of the start-up, or
  the collectors that were spawned and the daemon after the occurrences.\<close>

definition daemon_run ::
  "'w ext \<Rightarrow> 'd chrono \<Rightarrow> (string \<Rightarrow> any_error + string) \<Rightarrow> (string \<Rightarrow> any_error + DaemonConfig) \<Rightarrow>
   'h PlatformCollector \<Rightarrow> string \<Rightarrow> string option \<Rightarrow> occurrence list \<Rightarrow> 'w \<Rightarrow> any_error + 'h list \<times> 'w daemon" where
  "daemon_run X C read_to_string toml_from_str platform db_path config_path occs w =
     (let config = run_config read_to_string toml_from_str config_path
      in case storage_open X db_path w of
           (Inl e, _) \<Rightarrow> Inl e
         | (Inr _, w') \<Rightarrow>
             Inr (fst (spawn_collectors platform),
                  foldl (daemon_step X C (tiered_retention config))
                    \<lparr> d_phase = Looping, d_shutdown = False, d_cleanup = True, d_world = w' \<rparr> occs))"

section \<open>Phases\<close>

lemma exited_stays: "d_phase d = Exited r \<Longrightarrow> foldl (daemon_step X C config) d occs = d"
proof (induction occs)
  case (Cons occ occs)
  have "daemon_step X C config d occ = d" using Cons.prems by (cases occ) simp_all
  then show ?case using Cons by simp
qed simp

section \<open>The store under the daemon\<close>

text \<open>What the daemon promises of the store, as a function on the record lists of its trees: every
  event received is inserted until the drain ends, and every cleanup before the shutdown moves and drops records.\<close>

definition db_insert :: "CollectorEvent \<Rightarrow> tier_db \<Rightarrow> tier_db" where
  "db_insert ev D = D(''metrics'' := ins_rec (event_record ev) (D ''metrics''))"

definition db_cleanup :: "'d chrono \<Rightarrow> TieredRetentionConfig \<Rightarrow> any_error + u64 \<Rightarrow> tier_db \<Rightarrow> tier_db" where
  "db_cleanup C config clock D = (case clock of Inr now \<Rightarrow> after_tiered C now config D | Inl _ \<Rightarrow> D)"

fun db_run :: "'d chrono \<Rightarrow> TieredRetentionConfig \<Rightarrow> bool \<Rightarrow> tier_db \<Rightarrow> occurrence list \<Rightarrow> tier_db" where
  "db_run C config sd D [] = D"
| "db_run C config sd D (Received ev # os) = db_run C config sd (db_insert ev D) os"
| "db_run C config sd D (Closed # os) = (if sd then D else db_run C config sd D os)"
| "db_run C config sd D (CtrlC # os) = db_run C config True D os"
| "db_run C config sd D (CleanupDue clock nanos # os) =
     db_run C config sd (if sd then D else db_cleanup C config clock D) os"

text \<open>The codec can store what is written, and no tree is larger than a counter.\<close>

definition cleanup_fits :: "'w ext \<Rightarrow> 'd chrono \<Rightarrow> TieredRetentionConfig \<Rightarrow> any_error + u64 \<Rightarrow> tier_db \<Rightarrow> bool" where
  "cleanup_fits X C config clock D \<longleftrightarrow>
     (case clock of Inl _ \<Rightarrow> True
      | Inr now \<Rightarrow> db_size D < 2 ^ 64 \<and> \<not> isl (u64_to_vec X now) \<and>
          list_all (roundtrips X) (writes_raw C now config D @ writes_daily C now config D @ writes_monthly C now config D))"

fun run_fits :: "'w ext \<Rightarrow> 'd chrono \<Rightarrow> TieredRetentionConfig \<Rightarrow> bool \<Rightarrow> tier_db \<Rightarrow> occurrence list \<Rightarrow> bool" where
  "run_fits X C config sd D [] = True"
| "run_fits X C config sd D (Received ev # os) =
     (roundtrips X (event_record ev) \<and> run_fits X C config sd (db_insert ev D) os)"
| "run_fits X C config sd D (Closed # os) = (sd \<or> run_fits X C config sd D os)"
| "run_fits X C config sd D (CtrlC # os) = run_fits X C config True D os"
| "run_fits X C config sd D (CleanupDue clock nanos # os) =
     ((sd \<or> cleanup_fits X C config clock D) \<and>
      run_fits X C config sd (if sd then D else db_cleanup C config clock D) os)"

context store
begin

lemma run_foldS_read:
  assumes "\<And>b x. \<exists>y. run (f b x) a y a"
  shows "\<exists>y. run (foldS f b xs) a y a"
proof (induction xs arbitrary: b)
  case Nil
  show ?case using run_ret [of b a] by auto
next
  case (Cons x xs)
  obtain y where "run (f b x) a y a" using assms by blast
  moreover obtain z where "run (foldS f y xs) a z a" using Cons.IH by blast
  ultimately have "run (foldS f b (x # xs)) a z a" by (simp add: run_bind)
  then show ?case by blast
qed

lemma get_storage_stats_reads:
  assumes "healthy w"
  shows "\<exists>s w'. get_storage_stats X w = (Inr s, w') \<and> healthy w' \<and> absw w' = absw w"
proof -
  obtain w1 where w1: "metrics_tree X w = (Inr ''metrics'', w1)" "healthy w1" "absw w1 = absw w"
    using runsE [OF run_tree(1) assms refl] by blast
  obtain n w2 where w2: "size_on_disk X w1 = (Inr n, w2)" "healthy w2" "absw w2 = absw w"
    using do_size [OF w1(2)] w1(3) by auto
  let ?f = "\<lambda>(counts, tot) mt. bindS (readS (tree_range X ''metrics'' (range_start mt 0) (range_end mt (- 1)))) (\<lambda>items.
         let cnt = of_nat (length items) :: u64 in retS (counts @ [(mt, cnt)], tot + cnt))"
  have "\<exists>y. run (?f b mt) (absw w) y (absw w)" for b :: "(MetricType \<times> u64) list \<times> u64" and mt
    unfolding Let_def case_prod_unfold by (rule exI, rule run_bind, rule do_range, rule run_ret)
  then have "\<exists>y. run (foldS ?f ([], 0) ALL_METRIC_TYPES) (absw w) y (absw w)" by (rule run_foldS_read)
  then obtain y w3 where "foldS ?f ([], 0) ALL_METRIC_TYPES w2 = (Inr y, w3)" "healthy w3" "absw w3 = absw w"
    using w2 by (auto elim: runsE)
  then show ?thesis
    using w1 w2 by (simp add: get_storage_stats_def bindS_def retS_def case_prod_unfold)
qed

lemma cleanup_round_refines:
  assumes "healthy w" and "holds_all X (absw w) D" and "cleanup_fits X C config clock D"
    and "\<not> (t_export_before_delete config \<and> t_export_dir config \<noteq> None)"
  shows "healthy (cleanup_round X C config clock nanos w) \<and>
    holds_all X (absw (cleanup_round X C config clock nanos w)) (db_cleanup C config clock D)"
proof (cases clock)
  case (Inl e)
  then show ?thesis
    using assms by (simp add: cleanup_round_def db_cleanup_def cleanup_tiered_def bindS_def liftS_def)
next
  case (Inr now)
  then obtain v where v: "u64_to_vec X now = Inr v" and size: "db_size D < 2 ^ 64"
    and rt: "\<And>r. r \<in> set (writes_raw C now config D @ writes_daily C now config D @ writes_monthly C now config D) \<Longrightarrow> roundtrips X r"
    using assms(3) unfolding cleanup_fits_def by (cases "u64_to_vec X now") (auto simp: list_all_iff)
  obtain rep b where b: "run (cleanup_tiered X C (Inr now) nanos config) (absw w) rep b"
      "holds_all X b (after_tiered C now config D)"
    using run_cleanup_tiered [OF assms(2) size v rt assms(4), where nanos = nanos] by blast
  obtain w1 where w1: "cleanup_tiered X C (Inr now) nanos config w = (Inr rep, w1)" "healthy w1" "absw w1 = b"
    by (rule runsE [OF b(1) assms(1) refl])
  obtain st w2 where "get_storage_stats X w1 = (Inr st, w2)" "healthy w2" "absw w2 = b"
    using get_storage_stats_reads [OF w1(2)] w1(3) by auto
  then show ?thesis using w1 b(2) by (simp add: cleanup_round_def db_cleanup_def Inr)
qed

lemma persist_refines:
  assumes "healthy w" and "holds_all X (absw w) D" and "roundtrips X (event_record ev)"
  obtains w' where "persist_event X ev w = (Inr (), w')" and "healthy w'" and "holds_all X (absw w') (db_insert ev D)"
proof -
  let ?b = "set_tree ''metrics'' (map (entry X) (ins_rec (event_record ev) (D ''metrics''))) (absw w)"
  have h: "holds X (absw w) ''metrics'' (D ''metrics'')" using holds_allD [OF assms(2)] by simp
  have "run (persist_event X ev) (absw w) () ?b"
    unfolding persist_event_def by (rule run_bind, rule run_insert_metric [OF h assms(3)], rule run_ret)
  then obtain w' where "persist_event X ev w = (Inr (), w')" "healthy w'" "absw w' = ?b"
    using assms(1) by (auto elim: runsE)
  moreover have "holds_all X ?b (db_insert ev D)"
    unfolding db_insert_def by (rule holds_all_update [OF assms(2) holds_ins_rec [OF h assms(3)]])
  ultimately show thesis using that by simp
qed

lemma daemon_refines:
  assumes noexp: "\<not> (t_export_before_delete config \<and> t_export_dir config \<noteq> None)"
    and "healthy (d_world d)" and "holds_all X (absw (d_world d)) D" and "run_fits X C config (d_shutdown d) D os"
    and "d_phase d = (if d_shutdown d then Draining else Looping)" and "\<not> d_shutdown d \<Longrightarrow> d_cleanup d"
  shows "healthy (d_world (foldl (daemon_step X C config) d os)) \<and>
    holds_all X (absw (d_world (foldl (daemon_step X C config) d os))) (db_run C config (d_shutdown d) D os) \<and>
    (\<forall>e. d_phase (foldl (daemon_step X C config) d os) \<noteq> Exited (Inl e))"
  using assms(2-)
proof (induction os arbitrary: d D)
  case (Cons occ os)
  show ?case
  proof (cases occ)
    case (Received ev)
    obtain w' where w': "persist_event X ev (d_world d) = (Inr (), w')" "healthy w'" "holds_all X (absw w') (db_insert ev D)"
      by (rule persist_refines [OF Cons.prems(1,2), of ev]) (use Cons.prems(3) Received in simp_all)
    have "daemon_step X C config d occ = d\<lparr> d_world := w' \<rparr>"
      using Cons.prems(4) by (simp add: Received w'(1))
    then show ?thesis
      using Cons.IH [of "d\<lparr> d_world := w' \<rparr>" "db_insert ev D"] Cons.prems w' by (cases "d_shutdown d") (simp_all add: Received)
  next
    case Closed
    show ?thesis
    proof (cases "d_shutdown d")
      case True
      then show ?thesis
        using Cons.prems exited_stays [of "d\<lparr> d_phase := Exited (Inr ()) \<rparr>" "Inr ()" X C config os] by (simp add: Closed)
    next
      case False
      then show ?thesis using Cons.IH [of d D] Cons.prems by (simp add: Closed)
    qed
  next
    case CtrlC
    then show ?thesis
      using Cons.IH [of "d\<lparr> d_phase := Draining, d_shutdown := True \<rparr>" D] Cons.IH [of d D] Cons.prems
      by (cases "d_shutdown d") simp_all
  next
    case (CleanupDue clock nanos)
    show ?thesis
    proof (cases "d_shutdown d")
      case True
      then show ?thesis
        using Cons.IH [of "d\<lparr> d_cleanup := False \<rparr>" D] Cons.IH [of d D] Cons.prems
        by (cases "d_cleanup d") (simp_all add: CleanupDue)
    next
      case False
      then show ?thesis
        using Cons.IH [of "d\<lparr> d_world := cleanup_round X C config clock nanos (d_world d) \<rparr>" "db_cleanup C config clock D"]
          cleanup_round_refines [OF Cons.prems(1,2) _ noexp, of C clock nanos] Cons.prems
        by (simp add: CleanupDue)
    qed
  qed
qed simp

end

section \<open>Properties\<close>

text \<open>C3: The daemon as a whole.  When the database opens on a healthy store whose trees hold the lists \<open>D\<close>,
  no export is configured and the codec can store what is written, the daemon never ends with an
  error, and after any interleaving of events, cleanups, a shutdown and the closing of the
  channel the trees hold exactly what the specification says: every event received up to the end
  of the drain, and the effect of every cleanup that came due before the shutdown.\<close>

theorem daemon_refines_db:
  fixes platform :: "'h PlatformCollector"
  assumes "store X healthy absw" and "storage_open X db_path w0 = (Inr (), w)" and "healthy w" and "holds_all X (absw w) D"
    and "\<not> (t_export_before_delete (tiered_retention (run_config rd toml cp)) \<and>
            t_export_dir (tiered_retention (run_config rd toml cp)) \<noteq> None)"
    and "run_fits X C (tiered_retention (run_config rd toml cp)) False D occs"
  shows "\<exists>tasks d. daemon_run X C rd toml platform db_path cp occs w0 = Inr (tasks, d) \<and> healthy (d_world d) \<and>
    holds_all X (absw (d_world d)) (db_run C (tiered_retention (run_config rd toml cp)) False D occs) \<and>
    (\<forall>e. d_phase d \<noteq> Exited (Inl e))"
  using store.daemon_refines [OF assms(1,5), of "\<lparr> d_phase = Looping, d_shutdown = False, d_cleanup = True, d_world = w \<rparr>" D C occs]
    assms(2-4,6)
  by (simp add: daemon_run_def)

definition w_occs :: "occurrence list" where
  "w_occs = [Received (event_of (net_rec ''ssh'' 100 1 2)), CleanupDue (Inl TimeError) None,
     Received (event_of (net_rec ''curl'' 100 5 7)), CtrlC, Received (event_of (net_rec ''curl'' 200 6 8)), Closed,
     Received (event_of (net_rec ''late'' 300 1 1))]"

lemma event_record_of [simp]: "event_record (event_of r) = r"
  by (simp add: event_record_def event_of_def)

theorem daemon_refines_db_witness:
  "\<exists>tasks d. daemon_run (ref_ext w_recs) greg (\<lambda>_. Inl (IoError ''none'')) (\<lambda>_. Inl (IoError ''none''))
     (platform_new (Inr ''net'') None (Inr ''cpu'') (Inl (Foreign ''no'')) (Inr ''mem'') (Inr ''gpu'') (Inr ''pwr''))
     ''db'' (Some ''heimwatch.toml'') w_occs ref_empty = Inr (tasks, d) \<and> holds (ref_ext w_recs) (d_world d) ''metrics'' w_recs"
proof -
  let ?rd = "\<lambda>_. Inl (IoError ''none'')" and ?c = "TieredRetentionConfig_default"
  have c: "tiered_retention (run_config ?rd ?rd (Some ''heimwatch.toml'')) = ?c"
    by (simp add: run_config_def load_or_default_def config_load_def DaemonConfig_default_def)
  have rt: "roundtrips (ref_ext w_recs) r" if "r \<in> set w_recs" for r
    using ref_rec_roundtrip [OF that] by (simp add: roundtrips_def)
  have fits: "run_fits (ref_ext w_recs) greg ?c False (\<lambda>_. []) w_occs"
    using rt by (simp add: w_occs_def cleanup_fits_def w_recs_def)
  have db: "db_run greg ?c False (\<lambda>_. []) w_occs ''metrics'' = w_recs" by code_simp
  have "holds_all (ref_ext w_recs) (id ref_empty) (\<lambda>_. [])" by (simp add: holds_all_def holds_def ref_empty_def)
  from daemon_refines_db [OF ref.store_axioms _ ref_healthy_empty this, of "''db''" ref_empty ?rd ?rd "Some ''heimwatch.toml''" greg w_occs
      "platform_new (Inr ''net'') None (Inr ''cpu'') (Inl (Foreign ''no'')) (Inr ''mem'') (Inr ''gpu'') (Inr ''pwr'')"]
  show ?thesis
    using fits db holds_allD [of "ref_ext w_recs" _ "db_run greg ?c False (\<lambda>_. []) w_occs" "''metrics''"]
    unfolding c by (auto simp: storage_open_def ref_ext_def [of w_recs] TieredRetentionConfig_default_def)
qed

lemma draining_exits:
  "d_phase d = Draining \<or> d_phase d = Exited r \<Longrightarrow> \<exists>r. d_phase (foldl (daemon_step X C config) d (mid @ [Closed])) = Exited r"
proof (induction mid arbitrary: d)
  case (Cons occ mid)
  have "d_phase (daemon_step X C config d occ) = Draining \<or> (\<exists>r. d_phase (daemon_step X C config d occ) = Exited r)"
    using Cons.prems by (cases occ) auto
  then show ?case
  proof (elim disjE exE)
    assume "d_phase (daemon_step X C config d occ) = Draining"
    then show ?thesis using Cons.IH [of "daemon_step X C config d occ"] by simp
  next
    fix r' assume "d_phase (daemon_step X C config d occ) = Exited r'"
    then show ?thesis
      using exited_stays [of "daemon_step X C config d occ" r' X C config "mid @ [Closed]"] by simp
  qed
qed auto

text \<open>Shutdown always completes.  Whatever the state, the store and the collectors do, once Ctrl+C was pressed and
  the channel is found closed afterwards, the daemon has exited, and nothing that is still due
  changes the store any more.\<close>

theorem daemon_shutdown_completes:
  "\<exists>r. d_phase (foldl (daemon_step X C config) d (pre @ CtrlC # mid @ Closed # post)) = Exited r \<and>
    foldl (daemon_step X C config) d (pre @ CtrlC # mid @ Closed # post) =
    foldl (daemon_step X C config) d (pre @ CtrlC # mid @ [Closed])"
proof -
  let ?d = "daemon_step X C config (foldl (daemon_step X C config) d pre) CtrlC"
  let ?e = "foldl (daemon_step X C config) ?d (mid @ [Closed])"
  have "d_phase ?d = Draining \<or> (\<exists>r. d_phase ?d = Exited r)" by (auto split: phase.split)
  then obtain r where r: "d_phase ?e = Exited r"
    using draining_exits [of ?d] by blast
  have "foldl (daemon_step X C config) d (pre @ CtrlC # mid @ Closed # post) = foldl (daemon_step X C config) ?e post"
    by simp
  then show ?thesis using exited_stays [OF r, of X C config post] r by simp
qed

text \<open>C33: A store error while the daemon runs ends it with that error, and no later event is stored; a store
  error during the final drain is passed over and the drain goes on.\<close>

theorem daemon_store_error:
  assumes "persist_event X ev (d_world d) = (Inl e, w')"
  shows "(d_phase d = Looping \<longrightarrow>
      foldl (daemon_step X C config) d (Received ev # occs) = d\<lparr> d_phase := Exited (Inl e), d_world := w' \<rparr>) \<and>
    (d_phase d = Draining \<longrightarrow>
      foldl (daemon_step X C config) d (Received ev # occs) = foldl (daemon_step X C config) (d\<lparr> d_world := w' \<rparr>) occs)"
  using assms exited_stays [of "d\<lparr> d_phase := Exited (Inl e), d_world := w' \<rparr>" "Inl e" X C config occs] by simp

theorem daemon_store_error_witness:
  "d_phase (foldl (daemon_step (ref_ext []) greg TieredRetentionConfig_default)
      \<lparr> d_phase = Looping, d_shutdown = False, d_cleanup = True, d_world = ref_empty \<rparr>
      [Received (event_of (net_rec ''ssh'' 100 1 2)), CtrlC]) = Exited (Inl (JsonError ''not in the table''))"
proof -
  let ?d = "\<lparr> d_phase = Looping, d_shutdown = False, d_cleanup = True, d_world = ref_empty \<rparr>"
  have "persist_event (ref_ext []) (event_of (net_rec ''ssh'' 100 1 2)) (d_world ?d) = (Inl (JsonError ''not in the table''), ref_empty)"
    by (simp add: persist_event_def insert_metric_def metrics_tree_def bindS_def liftS_def retS_def ref_ext_def)
  from daemon_store_error [OF this, of greg TieredRetentionConfig_default "[CtrlC]"] show ?thesis by simp
qed

text \<open>The daemon runs every collector that the platform offers, in a fixed order, except the GPU collector,
  which it never takes.\<close>

theorem spawned_collectors:
  "spawn_collectors (platform_new net foc cpu dsk mem gpu pwr) =
     (List.map_filter id [foc, ok_opt net, ok_opt cpu, ok_opt dsk, ok_opt mem, ok_opt pwr],
      \<lparr> pc_network = None, pc_focus_collector = None, pc_cpu = None, pc_disk = None, pc_memory = None,
        pc_gpu = ok_opt gpu, pc_power = None \<rparr>)"
  by (simp add: spawn_collectors_def platform_new_def spawn_one_def take_focus_collector_def take_network_collector_def
      take_cpu_collector_def take_disk_collector_def take_memory_collector_def take_power_collector_def map_filter_simps
      split: option.split)

end
