(* ===== verification/End_To_End.thy ===== *)
theory End_To_End
  imports Collector_Props Daemon
begin

text \<open>
  The whole path of a network measurement: the probes count in the kernel, the collector polls the
  map and emits differences, its loop sends them to the daemon, the daemon stores them, and a
  query adds them up again.
\<close>

section \<open>From the kernel to the records\<close>

text \<open>The views that the collector gets when it polls at the given times, each after a batch of probe events.\<close>

fun kernel_polls ::
  "admission \<Rightarrow> kstate \<Rightarrow> (u64 \<times> probe_event list) list \<Rightarrow> (u64 \<times> (comm \<times> PidNetStats) list) list" where
  "kernel_polls admits k [] = []"
| "kernel_polls admits k ((ts, evs) # bs) =
     (let k' = foldl (fire admits) k evs in (ts, NETWORK_STATS k') # kernel_polls admits k' bs)"

abbreviation all_events :: "(u64 \<times> probe_event list) list \<Rightarrow> probe_event list" where
  "all_events bs \<equiv> concat (map snd bs)"

definition net_comms :: "probe_event list \<Rightarrow> comm set" where
  "net_comms evs = fst ` set (concat (map net_changes evs))"

lemma net_comms_append [simp]: "net_comms (xs @ ys) = net_comms xs \<union> net_comms ys"
  by (simp add: net_comms_def image_Un)

lemma finite_net_comms [simp]: "finite (net_comms evs)"
  by (simp add: net_comms_def)

lemma kernel_polls_views:
  "(ts, es) \<in> set (kernel_polls admits (foldl (fire admits) kstate0 pre) bs) \<Longrightarrow>
   \<exists>n. es = NETWORK_STATS (foldl (fire admits) kstate0 (pre @ all_events (take n bs)))"
proof (induction bs arbitrary: pre)
  case (Cons b bs)
  obtain t evs where b: "b = (t, evs)" by (cases b)
  from Cons.prems consider (here) "es = NETWORK_STATS (foldl (fire admits) kstate0 (pre @ evs))"
    | (later) "(ts, es) \<in> set (kernel_polls admits (foldl (fire admits) kstate0 (pre @ evs)) bs)"
    by (auto simp: b Let_def)
  then show ?case
  proof cases
    case here
    then show ?thesis by (intro exI [of _ 1]) (simp add: b)
  next
    case later
    from Cons.IH [OF this] obtain n
      where "es = NETWORK_STATS (foldl (fire admits) kstate0 ((pre @ evs) @ all_events (take n bs)))" by blast
    then show ?thesis by (intro exI [of _ "Suc n"]) (simp add: b)
  qed
qed simp

text \<open>The names of the processes stay apart when they become strings.\<close>

definition names_apart :: "comm set \<Rightarrow> bool" where
  "names_apart A \<longleftrightarrow> inj_on app_name_of A"

lemma map_of_named:
  assumes "inj_on app_name_of (insert c (fst ` set es))"
  shows "map_of (named es) (app_name_of c) = map_of es c"
  using assms
proof (induction es)
  case (Cons p es)
  obtain k v where p: "p = (k, v)" by (cases p)
  have "inj_on app_name_of (insert c (fst ` set es))" using Cons.prems by (rule inj_on_subset) auto
  moreover have "app_name_of k = app_name_of c \<longleftrightarrow> k = c" using Cons.prems p by (auto simp: inj_on_def)
  ultimately show ?case using Cons.IH p by auto
qed simp

lemma distinct_named: "inj_on app_name_of (fst ` set es) \<Longrightarrow> distinct (map fst es) \<Longrightarrow> distinct (map fst (named es))"
proof -
  assume "inj_on app_name_of (fst ` set es)" "distinct (map fst es)"
  then have "distinct (map app_name_of (map fst es))" by (simp only: distinct_map [of app_name_of "map fst es"] set_map)
  then show ?thesis by (simp add: named_def comp_def case_prod_unfold)
qed

text \<open>The bytes of one event in one direction.\<close>

definition bytes_by :: "nat \<Rightarrow> comm \<Rightarrow> probe_event \<Rightarrow> nat" where
  "bytes_by i c ev = (if i = 0 then sent_by c ev else received_by c ev)"

locale traced = bpf_hash +
  fixes A :: "comm set"
  assumes fin: "finite A" and room: "card A \<le> BPF_MAP_ENTRIES" and apart: "inj_on app_name_of A"
begin

abbreviation netmap :: "probe_event list \<Rightarrow> (comm \<times> PidNetStats) list" where
  "netmap evs \<equiv> NETWORK_STATS (foldl (fire admits) kstate0 evs)"

lemma counters:
  assumes "net_comms evs \<subseteq> A"
  shows "case map_of (netmap evs) c of None \<Rightarrow> c \<notin> net_comms evs
    | Some s \<Rightarrow> c \<in> net_comms evs \<and> unat (ns_tx_bytes s) = min (\<Sum>ev\<leftarrow>evs. sent_by c ev) (2 ^ 64 - 1) \<and>
        unat (ns_rx_bytes s) = min (\<Sum>ev\<leftarrow>evs. received_by c ev) (2 ^ 64 - 1)"
  using network_counters [OF bpf_hash_axioms, of evs c] card_mono [OF fin assms] room
  unfolding net_comms_def by simp

lemma view_keys: "net_comms evs \<subseteq> A \<Longrightarrow> fst ` set (netmap evs) = net_comms evs"
proof -
  assume sub: "net_comms evs \<subseteq> A"
  have "map_of (netmap evs) c = None \<longleftrightarrow> c \<notin> net_comms evs" for c
    using counters [OF sub, of c] by (cases "map_of (netmap evs) c") simp_all
  then show ?thesis by (simp add: map_of_eq_None_iff set_eq_iff)
qed

lemma view_distinct: "net_comms evs \<subseteq> A \<Longrightarrow> distinct (map fst (named (netmap evs)))"
proof -
  assume sub: "net_comms evs \<subseteq> A"
  have "reach admits (foldl (fire admits) kstate0 evs)" by (induction evs rule: rev_induct) (auto intro: reach.intros)
  from reach_ok [OF this] have "distinct (map fst (netmap evs))" by (simp add: counters_ok_def map_ok_def)
  moreover have "inj_on app_name_of (fst ` set (netmap evs))"
    using apart sub by (simp only: view_keys [OF sub] inj_on_subset)
  ultimately show ?thesis by (rule distinct_named [rotated])
qed

lemma bytes_by_none: "c \<notin> net_comms evs \<Longrightarrow> (\<Sum>ev\<leftarrow>evs. bytes_by i c ev) = 0"
proof (induction evs)
  case (Cons ev evs)
  then have IH: "(\<Sum>ev\<leftarrow>evs. bytes_by i c ev) = 0" and c: "c \<notin> fst ` set (net_changes ev)"
    by (simp_all add: net_comms_def image_Un)
  have "bytes_by i c ev = 0" using c by (cases ev) (simp_all add: bytes_by_def split: if_splits)
  then show ?case using IH by simp
qed simp

lemma reading_exact:
  assumes "net_comms evs \<subseteq> A" and "c \<in> A"
  shows "unat (reading (\<lambda>v. net_cnt v i) (netmap evs) (app_name_of c)) = min (\<Sum>ev\<leftarrow>evs. bytes_by i c ev) (2 ^ 64 - 1)"
proof -
  have "insert c (fst ` set (netmap evs)) \<subseteq> A" using assms view_keys [OF assms(1)] by simp
  then have named: "map_of (named (netmap evs)) (app_name_of c) = map_of (netmap evs) c"
    by (rule map_of_named [OF inj_on_subset [OF apart]])
  show ?thesis
  proof (cases "map_of (netmap evs) c")
    case None
    then have "c \<notin> net_comms evs" using counters [OF assms(1), of c] by simp
    then show ?thesis unfolding bytes_by_none [OF \<open>c \<notin> net_comms evs\<close>] by (simp add: reading_def named None)
  next
    case (Some v)
    then show ?thesis using counters [OF assms(1), of c] by (simp add: reading_def named net_cnt_def bytes_by_def [abs_def])
  qed
qed

definition readings :: "nat \<Rightarrow> comm \<Rightarrow> kstate \<Rightarrow> (u64 \<times> probe_event list) list \<Rightarrow> u64 list" where
  "readings i c k bs = map (\<lambda>(ts, es). reading (\<lambda>v. net_cnt v i) es (app_name_of c)) (kernel_polls admits k bs)"

lemma readings_Cons: "readings i c k ((ts, evs) # bs) =
    reading (\<lambda>v. net_cnt v i) (NETWORK_STATS (foldl (fire admits) k evs)) (app_name_of c) # readings i c (foldl (fire admits) k evs) bs"
  by (simp add: readings_def Let_def)

lemma readings_along:
  assumes "net_comms (pre @ all_events bs) \<subseteq> A" and "c \<in> A"
  shows "sorted (min (\<Sum>ev\<leftarrow>pre. bytes_by i c ev) (2 ^ 64 - 1) # map unat (readings i c (foldl (fire admits) kstate0 pre) bs)) \<and>
    last (min (\<Sum>ev\<leftarrow>pre. bytes_by i c ev) (2 ^ 64 - 1) # map unat (readings i c (foldl (fire admits) kstate0 pre) bs)) =
      min (\<Sum>ev\<leftarrow>pre @ all_events bs. bytes_by i c ev) (2 ^ 64 - 1)"
  using assms(1)
proof (induction bs arbitrary: pre)
  case Nil
  show ?case by (simp add: readings_def)
next
  case (Cons b bs)
  obtain ts evs where b: "b = (ts, evs)" by (cases b)
  have sub: "net_comms ((pre @ evs) @ all_events bs) \<subseteq> A" "net_comms (pre @ evs) \<subseteq> A" using Cons.prems b by simp_all
  have step: "map unat (readings i c (foldl (fire admits) kstate0 pre) (b # bs)) =
      min (\<Sum>ev\<leftarrow>pre @ evs. bytes_by i c ev) (2 ^ 64 - 1) # map unat (readings i c (foldl (fire admits) kstate0 (pre @ evs)) bs)"
    using reading_exact [OF sub(2) assms(2), of i] by (simp only: b readings_Cons foldl_append list.map)
  have "(\<Sum>ev\<leftarrow>pre. bytes_by i c ev) \<le> (\<Sum>ev\<leftarrow>pre @ evs. bytes_by i c ev)" by simp
  then have "min (\<Sum>ev\<leftarrow>pre. bytes_by i c ev) (2 ^ 64 - 1) \<le> min (\<Sum>ev\<leftarrow>pre @ evs. bytes_by i c ev) (2 ^ 64 - 1)"
    by (intro min.mono) simp_all
  with Cons.IH [OF sub(1)] show ?case
    unfolding step sorted2 last_ConsR [OF list.distinct(2)] by (simp only: b append_assoc snd_conv concat.simps list.map simp_thms)
qed

lemma views_distinct:
  assumes "net_comms (all_events bs) \<subseteq> A" and "(ts, es) \<in> set (kernel_polls admits kstate0 bs)"
  shows "distinct (map fst (named es))"
proof -
  obtain n where es: "es = netmap (all_events (take n bs))"
    using kernel_polls_views [of ts es admits "[]" bs] assms(2) by auto
  have "net_comms (all_events (take n bs)) \<subseteq> net_comms (all_events (take n bs @ drop n bs))"
    unfolding map_append concat_append net_comms_append by simp
  then show ?thesis unfolding es using assms(1) by (intro view_distinct) simp
qed

text \<open>The records of all polls add up to the bytes of the trace.\<close>

lemma emitted_total:
  assumes "net_comms (all_events bs) \<subseteq> A" and "c \<in> A" and "i < 2"
  shows "emitted (app_name_of c) i (fst (poll_all collect_network \<lparr> net_prev_state = Map.empty \<rparr> (kernel_polls admits kstate0 bs))) =
    min (\<Sum>ev\<leftarrow>all_events bs. bytes_by i c ev) (2 ^ 64 - 1)"
proof -
  let ?ps = "kernel_polls admits kstate0 bs" and ?c = "\<lparr> net_prev_state = Map.empty \<rparr>"
  have p: "net_prev ?c (app_name_of c) i = 0" by (simp add: net_prev_def)
  have z: "min (\<Sum>ev\<leftarrow>[]. bytes_by i c ev) (2 ^ 64 - 1) = unat (0 :: u64)" by simp
  have s: "sorted (map unat (0 # readings i c kstate0 bs))"
    and l: "last (map unat (0 # readings i c kstate0 bs)) = min (\<Sum>ev\<leftarrow>all_events bs. bytes_by i c ev) (2 ^ 64 - 1)"
    using readings_along [of "[]" bs c i] assms(1,2) unfolding z by simp_all
  have "emitted (app_name_of c) i (fst (poll_all collect_network ?c ?ps)) =
      unat (last (0 # readings i c kstate0 bs)) - unat (0 :: u64)"
    using net.telescope [OF views_distinct [OF assms(1)] assms(3), where c = ?c and n = "app_name_of c"] s
    unfolding p readings_def by simp
  also have "\<dots> = last (map unat (0 # readings i c kstate0 bs))" by (subst last_map) simp_all
  finally show ?thesis using l by simp
qed

end

interpretation one_process: traced kernel_admits "{c}" for c
  by unfold_locales (simp_all add: BPF_MAP_ENTRIES_def)

section \<open>From the records to the store\<close>

abbreviation net_records :: "NetworkCollector \<Rightarrow> (u64 \<times> (comm \<times> PidNetStats) list) list \<Rightarrow> MetricRecord list" where
  "net_records c ps \<equiv> fst (poll_all collect_network c ps)"

abbreviation tick_inputs :: "(u64 \<times> (comm \<times> PidNetStats) list) list \<Rightarrow> ((col_error + u64) \<times> PidNetStats bpf_view) list" where
  "tick_inputs ps \<equiv> map (\<lambda>(ts, es). (Inr ts, Some (Inr (map Inr es)))) ps"

lemma net_records_Cons:
  "net_records c ((ts, es) # ps) =
     concat (map (\<lambda>(n, v). net_out c ts n v) (named es)) @ net_records (net_remember c (named es)) ps"
  by (simp add: collect_network_ok case_prod_unfold Let_def)

lemma net_out_facts: "r \<in> set (net_out c ts n v) \<Longrightarrow> app_name r = n \<and> timestamp r = ts \<and> rec_type r = Net \<and> is_net (payload r)"
  by (auto simp: net_out_def Let_def is_net_def split: if_splits prod.splits)

lemma length_net_out: "length (net_out c ts n v) \<le> 1"
  by (simp add: net_out_def Let_def split: prod.split)

lemma net_records_facts:
  "r \<in> set (net_records c ps) \<Longrightarrow> timestamp r \<in> fst ` set ps \<and> rec_type r = Net \<and> is_net (payload r)"
proof (induction ps arbitrary: c)
  case (Cons p ps)
  obtain ts es where p: "p = (ts, es)" by (cases p)
  from Cons.prems show ?case
    unfolding p net_records_Cons using Cons.IH net_out_facts by fastforce
qed simp

lemma distinct_map_appendI:
  "distinct (map f xs) \<Longrightarrow> distinct (map f ys) \<Longrightarrow> (\<And>x y. x \<in> set xs \<Longrightarrow> y \<in> set ys \<Longrightarrow> f x \<noteq> f y) \<Longrightarrow>
   distinct (map f (xs @ ys))"
  by auto

lemma distinct_out_keys:
  "distinct (map fst nes) \<Longrightarrow> distinct (map rkey (concat (map (\<lambda>(n, v). net_out c ts n v) nes)))"
proof (induction nes)
  case (Cons p nes)
  obtain n v where p: "p = (n, v)" by (cases p)
  have "distinct (map rkey (net_out c ts n v))"
    using length_net_out [of c ts n v] by (cases "net_out c ts n v") auto
  moreover have "rkey x \<noteq> rkey y"
    if x: "x \<in> set (net_out c ts n v)" and y: "y \<in> set (concat (map (\<lambda>(n, v). net_out c ts n v) nes))" for x y
  proof -
    have "app_name x = n" using net_out_facts [OF x] by blast
    moreover obtain m w where "(m, w) \<in> set nes" "y \<in> set (net_out c ts m w)" using y by auto
    then have "app_name y \<in> fst ` set nes" using net_out_facts [of y c ts m w] by force
    moreover have "n \<notin> fst ` set nes" using Cons.prems p by simp
    ultimately have "app_name x \<noteq> app_name y" by metis
    then show ?thesis by (simp add: rkey_inj)
  qed
  moreover have "distinct (map rkey (concat (map (\<lambda>(n, v). net_out c ts n v) nes)))" using Cons p by simp
  ultimately show ?case unfolding p list.map concat.simps prod.case by (intro distinct_map_appendI)
qed simp

lemma distinct_record_keys:
  assumes "\<And>ts es. (ts, es) \<in> set ps \<Longrightarrow> distinct (map fst (named es))" and "sorted_wrt (<) (map fst ps)"
  shows "distinct (map rkey (net_records c ps))"
  using assms
proof (induction ps arbitrary: c)
  case (Cons p ps)
  obtain ts es where p: "p = (ts, es)" by (cases p)
  let ?here = "concat (map (\<lambda>(n, v). net_out c ts n v) (named es))" and ?c = "net_remember c (named es)"
  have "distinct (map rkey (net_records ?c ps))" by (rule Cons.IH) (use Cons.prems in auto)
  moreover have "distinct (map rkey ?here)" using Cons.prems(1) [of ts es] p by (intro distinct_out_keys) simp
  moreover have "rkey x \<noteq> rkey y" if x: "x \<in> set ?here" and y: "y \<in> set (net_records ?c ps)" for x y
  proof -
    have "timestamp x = ts" using x net_out_facts by fastforce
    moreover have "timestamp y \<in> fst ` set ps" using net_records_facts [OF y] by blast
    ultimately have "timestamp x \<noteq> timestamp y" using Cons.prems(2) p by auto
    then show ?thesis by (simp add: rkey_inj)
  qed
  ultimately show ?case unfolding p net_records_Cons by (intro distinct_map_appendI)
qed simp

lemma network_run_sends:
  "network_run (\<lambda>_. True) c [] 0 (map Tick (tick_inputs ps) @ Shutdown # bs) =
     Returned (Inr ()) (map event_of (net_records c ps))"
proof -
  have ok: "all_ok net_poll c (tick_inputs ps)"
    by (induction ps arbitrary: c) (auto simp: collect_network_ok)
  have recs: "loop_records net_poll c (tick_inputs ps) = net_records c ps"
  proof (induction ps arbitrary: c)
    case (Cons p ps)
    obtain ts es where p: "p = (ts, es)" by (cases p)
    show ?case using Cons [of "net_remember c (named es)"] unfolding p net_records_Cons by (simp add: collect_network_ok)
  qed simp
  have "filter (is_net \<circ> payload) (net_records c ps) = net_records c ps"
    using net_records_facts by (simp add: filter_id_conv)
  then show ?thesis
    using network_run_prefix [OF ok, of "[]" 0 "Shutdown # bs"] recs by auto
qed

text \<open>A daemon that receives events and then shuts down stores them all.\<close>

abbreviation session :: "CollectorEvent list \<Rightarrow> occurrence list" where
  "session evs \<equiv> map Received evs @ [CtrlC, Closed]"

lemma db_run_session:
  "db_run C config False D (session (map event_of rs)) = D(''metrics'' := ins_all rs (D ''metrics''))"
  by (induction rs arbitrary: D) (simp_all add: db_insert_def)

lemma run_fits_session:
  "list_all (roundtrips X) rs \<Longrightarrow> run_fits X C config False D (session (map event_of rs))"
  by (induction rs arbitrary: D) simp_all

section \<open>From the store to the ranking\<close>

lemma wsum_emitted:
  "emitted n i rs < 2 ^ 64 \<Longrightarrow> unat (wsum (column i (of_app n rs))) = emitted n i rs"
proof -
  have "emitted n i rs = sum_list (map unat (column i (of_app n rs)))"
    by (induction rs) (simp_all add: emitted_def)
  then show "emitted n i rs < 2 ^ 64 \<Longrightarrow> ?thesis" by (simp add: unat_wsum)
qed

lemma emitted_mset: "mset rs = mset rs' \<Longrightarrow> emitted n i rs = emitted n i rs'"
  unfolding emitted_def by (metis (no_types, lifting) mset_map sum_mset_sum_list)

lemma kernel_polls_times: "map fst (kernel_polls admits k bs) = map fst bs"
  by (induction admits k bs rule: kernel_polls.induct) (simp_all add: Let_def)

lemma net_records_names:
  "r \<in> set (net_records c ps) \<Longrightarrow> \<exists>(ts, es)\<in>set ps. app_name r \<in> app_name_of ` fst ` set es"
proof (induction ps arbitrary: c)
  case (Cons p ps)
  obtain ts es where p: "p = (ts, es)" by (cases p)
  from Cons.prems consider (here) "r \<in> set (concat (map (\<lambda>(n, v). net_out c ts n v) (named es)))"
    | (later) "r \<in> set (net_records (net_remember c (named es)) ps)"
    unfolding p net_records_Cons by auto
  then show ?case
  proof cases
    case here
    then obtain n v where nv: "(n, v) \<in> set (named es)" "r \<in> set (net_out c ts n v)" by auto
    then have "app_name r = n" using net_out_facts by blast
    moreover have "n \<in> app_name_of ` fst ` set es" using nv(1) by (force simp: named_def)
    ultimately show ?thesis by (simp add: p)
  next
    case later
    then show ?thesis using Cons.IH by auto
  qed
qed simp

context traced
begin

abbreviation trace_records :: "(u64 \<times> probe_event list) list \<Rightarrow> MetricRecord list" where
  "trace_records bs \<equiv> net_records \<lparr> net_prev_state = Map.empty \<rparr> (kernel_polls admits kstate0 bs)"

lemma trace_names:
  assumes "net_comms (all_events bs) \<subseteq> A"
  shows "app_name ` set (trace_records bs) \<subseteq> app_name_of ` A"
proof
  fix n assume "n \<in> app_name ` set (trace_records bs)"
  then obtain ts es where es: "(ts, es) \<in> set (kernel_polls admits kstate0 bs)" "n \<in> app_name_of ` fst ` set es"
    using net_records_names by fastforce
  obtain m where m: "es = netmap (all_events (take m bs))"
    using kernel_polls_views [of ts es admits "[]" bs] es(1) by auto
  have "net_comms (all_events (take m bs)) \<subseteq> net_comms (all_events (take m bs @ drop m bs))"
    unfolding map_append concat_append net_comms_append by simp
  then have "net_comms (all_events (take m bs)) \<subseteq> A" using assms by simp
  then show "n \<in> app_name_of ` A" using es(2) view_keys m by auto
qed

lemma trace_stored:
  assumes "net_comms (all_events bs) \<subseteq> A" and "sorted_wrt (<) (map fst bs)"
  shows "mset (ins_all (trace_records bs) []) = mset (trace_records bs)"
proof -
  have "distinct (map rkey (trace_records bs))"
    by (rule distinct_record_keys [OF views_distinct [OF assms(1)]]) (simp_all add: kernel_polls_times assms(2))
  from mset_ins_all [OF this, of "[]"] show ?thesis by (simp add: fresh_def)
qed

text \<open>The query over all polls reads exactly the stored records back.\<close>

lemma trace_query:
  assumes "net_comms (all_events bs) \<subseteq> A" and "sorted_wrt (<) (map fst bs)"
    and "\<And>ts. ts \<in> fst ` set bs \<Longrightarrow> s \<le> ts \<and> ts < e" and "trace_records bs \<noteq> []"
  shows "query_spec C now Net s e ((\<lambda>_. [])(''metrics'' := ins_all (trace_records bs) [])) = ins_all (trace_records bs) []"
proof -
  let ?rs = "ins_all (trace_records bs) []"
  have set: "set ?rs = set (trace_records bs)" using trace_stored [OF assms(1,2)] by (metis set_mset_mset)
  have "fst ` set (kernel_polls admits kstate0 bs) = fst ` set bs" by (metis kernel_polls_times set_map)
  have "in_range Net s e r" if "r \<in> set ?rs" for r
  proof -
    have r: "timestamp r \<in> fst ` set bs" "rec_type r = Net"
      using net_records_facts [OF that [unfolded set]] \<open>fst ` set (kernel_polls admits kstate0 bs) = fst ` set bs\<close> by simp_all
    show ?thesis using assms(3) [OF r(1)] r(2) by (simp add: in_range_def)
  qed
  then have f: "filter (in_range Net s e) ?rs = ?rs" by (simp add: filter_id_conv)
  have "?rs \<noteq> []" using set assms(4) by auto
  then have "filter (in_range Net s e) (((\<lambda>_. [])(''metrics'' := ?rs)) ''metrics'') \<noteq> []" unfolding fun_upd_same f .
  from query_spec_raw [where D = "(\<lambda>_. [])(''metrics'' := ?rs)", OF this] show ?thesis unfolding fun_upd_same f .
qed

end

section \<open>The ranking of a stored trace\<close>

text \<open>With room for all entries, a ranking lists every entry.\<close>

lemma ranked_all: "ranked score n (mset xs) ys \<Longrightarrow> length xs \<le> n \<Longrightarrow> mset ys = mset xs"
proof -
  assume r: "ranked score n (mset xs) ys" and "length xs \<le> n"
  then have "size (mset ys) = size (mset xs)" by (simp add: ranked_def)
  then show ?thesis using r unfolding ranked_def by (metis mset_subset_size nless_le subset_mset.le_imp_less_or_eq)
qed

lemma top_network_entry:
  assumes "store X healthy absw" and "hash_order iter" and "healthy w" and "holds_all X (absw w) D"
    and "query_spec C (unwrap_or (ok_opt clock) (- 1)) Net s e D = rs"
    and "n \<in> app_name ` set rs" and "card (app_name ` set rs) \<le> limit"
    and "emitted n 0 rs < 2 ^ 64" and "emitted n 1 rs < 2 ^ 64"
  shows "\<exists>w' stats x. get_top_apps_by_network X C iter clock s e limit w = (Inr stats, w') \<and> x \<in> set stats \<and>
    ans_app_name x = n \<and> unat (ans_tx_bytes x) = emitted n 0 rs \<and> unat (ans_rx_bytes x) = emitted n 1 rs"
proof -
  obtain w' apps stats where top: "get_top_apps_by_network X C iter clock s e limit w = (Inr stats, w')"
    and rk: "ranked net_total limit (mset apps) stats"
    and st: "stats_of ans_app_name (\<lambda>x. (ans_tx_bytes x, ans_rx_bytes x))
      (\<lambda>n. (wsum (column 0 (of_app n rs)), wsum (column 1 (of_app n rs)))) rs apps"
    using top_network [OF assms(1-4) refl, of C clock s e limit] unfolding assms(5) by blast
  have "length apps \<le> limit"
    using st assms(7) distinct_card [of "map ans_app_name apps"] unfolding stats_of_def by simp
  from ranked_all [OF rk this] have same: "mset stats = mset apps" .
  obtain x where x: "x \<in> set apps" "ans_app_name x = n"
    using st assms(6) unfolding stats_of_def by (metis imageE image_set)
  have "unat (ans_tx_bytes x) = emitted n 0 rs" "unat (ans_rx_bytes x) = emitted n 1 rs"
    using st x wsum_emitted [OF assms(8)] wsum_emitted [OF assms(9)] unfolding stats_of_def by auto
  moreover have "x \<in> set stats" using x(1) same by (metis set_mset_mset)
  ultimately show ?thesis using top x(2) by blast
qed

section \<open>Properties\<close>

text \<open>C2: The whole path of a network measurement.  Probes count in the kernel (at most as many process names as
  a map holds, and no two that become the same string), the collector polls at increasing
  times and its loop sends events until the shutdown, a daemon on an empty healthy store receives
  them and drains, and then the ranking of the network applications over the time of the polls
  lists every process that moved data, with exactly the bytes it sent and received in the trace
  (as long as they fit into 64 bits and the limit admits all processes).\<close>

theorem network_end_to_end:
  fixes platform :: "'h PlatformCollector"
  assumes "bpf_hash admits" and "card (net_comms (all_events bs)) \<le> BPF_MAP_ENTRIES"
    and "inj_on app_name_of (net_comms (all_events bs))"
    and "sorted_wrt (<) (map fst bs)" and "\<And>ts. ts \<in> fst ` set bs \<Longrightarrow> s \<le> ts \<and> ts < e"
    and "store X healthy absw" and "storage_open X db_path w0 = (Inr (), w)" and "healthy w" and "holds_all X (absw w) (\<lambda>_. [])"
    and "list_all (roundtrips X) (net_records \<lparr> net_prev_state = Map.empty \<rparr> (kernel_polls admits kstate0 bs))"
    and "\<not> (t_export_before_delete (tiered_retention (run_config rd toml cp)) \<and>
            t_export_dir (tiered_retention (run_config rd toml cp)) \<noteq> None)"
    and "hash_order iter" and "card (net_comms (all_events bs)) \<le> limit"
    and "c \<in> net_comms (all_events bs)"
    and "(\<Sum>ev\<leftarrow>all_events bs. sent_by c ev) < 2 ^ 64" and "(\<Sum>ev\<leftarrow>all_events bs. received_by c ev) < 2 ^ 64"
    and "0 < (\<Sum>ev\<leftarrow>all_events bs. sent_by c ev) + (\<Sum>ev\<leftarrow>all_events bs. received_by c ev)"
  shows "\<exists>evs tasks d w' stats x.
    network_run (\<lambda>_. True) \<lparr> net_prev_state = Map.empty \<rparr> [] 0
      (map Tick (tick_inputs (kernel_polls admits kstate0 bs)) @ [Shutdown]) = Returned (Inr ()) evs \<and>
    daemon_run X C rd toml platform db_path cp (session evs) w0 = Inr (tasks, d) \<and>
    get_top_apps_by_network X C iter clock s e limit (d_world d) = (Inr stats, w') \<and>
    x \<in> set stats \<and> ans_app_name x = app_name_of c \<and>
    unat (ans_tx_bytes x) = (\<Sum>ev\<leftarrow>all_events bs. sent_by c ev) \<and>
    unat (ans_rx_bytes x) = (\<Sum>ev\<leftarrow>all_events bs. received_by c ev)"
proof -
  let ?rs = "net_records \<lparr> net_prev_state = Map.empty \<rparr> (kernel_polls admits kstate0 bs)" and ?n = "app_name_of c"
  let ?D = "(\<lambda>_. [])(''metrics'' := ins_all ?rs [])"
  let ?d = "foldl (daemon_step X C (tiered_retention (run_config rd toml cp)))
      \<lparr> d_phase = Looping, d_shutdown = False, d_cleanup = True, d_world = w \<rparr> (session (map event_of ?rs))"
  have tr: "traced admits (net_comms (all_events bs))"
    using assms(1-3) by (intro traced.intro traced_axioms.intro) simp_all
  note sub = order_refl [of "net_comms (all_events bs)"]
  have tx: "emitted ?n 0 ?rs = (\<Sum>ev\<leftarrow>all_events bs. sent_by c ev)"
    using traced.emitted_total [OF tr sub assms(14), of 0] assms(15) by (simp add: bytes_by_def [abs_def])
  have rx: "emitted ?n 1 ?rs = (\<Sum>ev\<leftarrow>all_events bs. received_by c ev)"
    using traced.emitted_total [OF tr sub assms(14), of 1] assms(16) by (simp add: bytes_by_def [abs_def])
  have n: "?n \<in> app_name ` set ?rs"
  proof (rule ccontr)
    assume "?n \<notin> app_name ` set ?rs"
    then have "emitted ?n i ?rs = 0" for i by (intro emitted_other) (auto simp: image_iff)
    then show False using tx rx assms(17) by (metis add_is_0 less_numeral_extra(3))
  qed
  then have ne: "?rs \<noteq> []" by auto
  have stored: "mset (ins_all ?rs []) = mset ?rs" by (rule traced.trace_stored [OF tr sub assms(4)])
  have "healthy (d_world ?d) \<and> holds_all X (absw (d_world ?d)) (db_run C (tiered_retention (run_config rd toml cp))
      (d_shutdown \<lparr> d_phase = Looping, d_shutdown = False, d_cleanup = True, d_world = w \<rparr>) (\<lambda>_. []) (session (map event_of ?rs))) \<and>
      (\<forall>err. d_phase ?d \<noteq> Exited (Inl err))"
    by (rule store.daemon_refines [OF assms(6,11)])
      (use assms(8,9) run_fits_session [OF assms(10)] in \<open>simp_all del: map_map\<close>)
  then have d: "healthy (d_world ?d)" "holds_all X (absw (d_world ?d)) ?D"
    unfolding daemon.select_convs db_run_session by blast+
  have q: "query_spec C (unwrap_or (ok_opt clock) (- 1)) Net s e ?D = ins_all ?rs []"
    by (rule traced.trace_query [OF tr sub assms(4,5) ne])
  have names: "app_name ` set (ins_all ?rs []) = app_name ` set ?rs" using stored by (metis set_mset_mset)
  have "card (app_name ` set (ins_all ?rs [])) \<le> limit"
    unfolding names by (rule order_trans [OF surj_card_le [OF finite_net_comms traced.trace_names [OF tr sub]] assms(13)])
  from top_network_entry [OF assms(6,12) d q n [folded names] this] obtain w' stats x
    where "get_top_apps_by_network X C iter clock s e limit (d_world ?d) = (Inr stats, w')" "x \<in> set stats" "ans_app_name x = ?n"
      "unat (ans_tx_bytes x) = (\<Sum>ev\<leftarrow>all_events bs. sent_by c ev)" "unat (ans_rx_bytes x) = (\<Sum>ev\<leftarrow>all_events bs. received_by c ev)"
    using assms(15,16) unfolding emitted_mset [OF stored] tx rx by blast
  moreover have "daemon_run X C rd toml platform db_path cp (session (map event_of ?rs)) w0 = Inr (fst (spawn_collectors platform), ?d)"
    by (simp add: daemon_run_def Let_def assms(7))
  ultimately show ?thesis
    using network_run_sends [of "\<lparr> net_prev_state = Map.empty \<rparr>" "kernel_polls admits kstate0 bs" "[]"] by blast
qed

definition w_batches :: "(u64 \<times> probe_event list) list" where
  "w_batches = [(100, [SendMsg (Some 5) (Some ''curl''), RecvMsg (Some 7) (Some ''curl'')]),
     (200, [RecvMsg (Some 8) (Some ''curl''), SendMsg (Some 2) (Some ''curl''), SendMsg (Some 4) (Some ''curl'')])]"

lemma w_batches_comms: "net_comms (all_events w_batches) = {''curl''}"
proof -
  have "0 < sint (7 :: i64)" "0 < sint (8 :: i64)" by code_simp+
  then show ?thesis by (simp add: net_comms_def w_batches_def)
qed

lemma w_batches_sums: "(\<Sum>ev\<leftarrow>all_events w_batches. sent_by ''curl'' ev) = 11"
  "(\<Sum>ev\<leftarrow>all_events w_batches. received_by ''curl'' ev) = 15"
  by code_simp+

lemma w_batches_polls:
  "kernel_polls kernel_admits kstate0 w_batches =
     [(100, [(''curl'', \<lparr> ns_tx_bytes = 5, ns_rx_bytes = 7, ns_comm = ''curl'' \<rparr>)]),
      (200, [(''curl'', \<lparr> ns_tx_bytes = 11, ns_rx_bytes = 15, ns_comm = ''curl'' \<rparr>)])]"
proof -
  have "0 < sint (7 :: i64)" "0 < sint (8 :: i64)" by code_simp+
  then show ?thesis
    by (simp add: w_batches_def Let_def try_sendmsg_def try_recvmsg_def kstate0_def bpf_upsert_cases kernel_admits_def
        BPF_MAP_ENTRIES_def bpf_modify_def sat_add_code)
qed

definition w_sent :: "MetricRecord list" where
  "w_sent = map (\<lambda>(t, a, b). \<lparr> app_name = ''curl'', timestamp = t, payload = NetP \<lparr> tx_bytes = a, rx_bytes = b, connections = 0 \<rparr> \<rparr>)
     [(100, 5, 7), (200, 6, 8)]"

lemma w_batches_records: "net_records \<lparr> net_prev_state = Map.empty \<rparr> (kernel_polls kernel_admits kstate0 w_batches) = w_sent"
proof -
  have "app_name_of ''curl'' = ''curl''" by code_simp
  then show ?thesis
    unfolding w_batches_polls net_records_Cons
    by (simp add: w_sent_def net_out_def net_remember_def sat_sub_def Let_def)
qed

theorem network_end_to_end_witness:
  "\<exists>evs tasks d w' stats x.
    network_run (\<lambda>_. True) \<lparr> net_prev_state = Map.empty \<rparr> [] 0
      (map Tick (tick_inputs (kernel_polls kernel_admits kstate0 w_batches)) @ [Shutdown]) = Returned (Inr ()) evs \<and>
    daemon_run (ref_ext w_sent) greg (\<lambda>_. Inl (IoError ''none'')) (\<lambda>_. Inl (IoError ''none''))
      (platform_new (Inr ''net'') None (Inl (Foreign ''no'')) (Inl (Foreign ''no'')) (Inl (Foreign ''no'')) (Inl (Foreign ''no''))
        (Inl (Foreign ''no''))) ''db'' None (session evs) ref_empty = Inr (tasks, d) \<and>
    get_top_apps_by_network (ref_ext w_sent) greg rev (Inr 1000) 50 300 10 (d_world d) = (Inr stats, w') \<and>
    x \<in> set stats \<and> ans_app_name x = ''curl'' \<and> unat (ans_tx_bytes x) = 11 \<and> unat (ans_rx_bytes x) = 15"
proof -
  let ?rd = "\<lambda>_. Inl (IoError ''none'')"
  have name: "app_name_of ''curl'' = ''curl''" by code_simp
  have empty: "holds_all (ref_ext w_sent) (id ref_empty) (\<lambda>_. [])" by (simp add: holds_all_def holds_def ref_empty_def)
  have rt: "list_all (roundtrips (ref_ext w_sent)) w_sent"
    using ref_rec_roundtrip [of _ w_sent] by (simp add: list_all_iff roundtrips_def)
  have opened: "storage_open (ref_ext w_sent) ''db'' ref_empty = (Inr (), ref_empty)" by (simp add: storage_open_def ref_ext_def)
  have noexp: "\<not> (t_export_before_delete (tiered_retention (run_config ?rd ?rd None)) \<and>
      t_export_dir (tiered_retention (run_config ?rd ?rd None)) \<noteq> None)"
    by (simp add: run_config_def DaemonConfig_default_def TieredRetentionConfig_default_def)
  have small: "card (net_comms (all_events w_batches)) \<le> BPF_MAP_ENTRIES" "card (net_comms (all_events w_batches)) \<le> 10"
    "inj_on app_name_of (net_comms (all_events w_batches))" "''curl'' \<in> net_comms (all_events w_batches)"
    by (simp_all add: w_batches_comms BPF_MAP_ENTRIES_def)
  have times: "sorted_wrt (<) (map fst w_batches)" "ts \<in> fst ` set w_batches \<Longrightarrow> 50 \<le> ts \<and> ts < 300" for ts
    by (auto simp: w_batches_def)
  show ?thesis
    using network_end_to_end [OF kernel.bpf_hash_axioms small(1,3) times ref.store_axioms opened ref_healthy_empty empty
        _ noexp hash_rev.hash_order_axioms small(2,4), where C = greg and clock = "Inr 1000"] rt
    unfolding w_batches_records w_batches_sums name by simp
qed

end
