(* ===== verification/Power_Collector.thy ===== *)
theory Power_Collector
  imports Collectors Power_Stats
begin

text \<open>
  \<open>crates/heimwatch-collector/src/power/linux.rs\<close>: the collector of battery, mains, RAPL, frequency,
  brightness and network-interface state.  The pseudo file systems it reads are the parameter
  \<open>fs\<close>.
\<close>

section \<open>Files\<close>

record file_sys =
  fs_read :: "string \<Rightarrow> col_error + string"
  fs_read_dir :: "string \<Rightarrow> col_error + (col_error + string) list"
  fs_exists :: "string \<Rightarrow> bool"
  fs_is_dir :: "string \<Rightarrow> bool"

text \<open>The paths of \<open>entries.flatten()\<close>; a directory that cannot be read has none.\<close>

definition dir_paths :: "file_sys \<Rightarrow> string \<Rightarrow> string list" where
  "dir_paths fs dir =
     (case fs_read_dir fs dir of
        Inr es \<Rightarrow> map (join dir) (List.map_filter ok_opt es)
      | Inl _ \<Rightarrow> [])"

text \<open>Every caller drops the text of the error.\<close>

definition read_sysfs_value :: "(string \<Rightarrow> parse_error + 'a) \<Rightarrow> file_sys \<Rightarrow> string \<Rightarrow> col_error + 'a" where
  "read_sysfs_value parse fs path =
     bindR (fs_read fs path) (\<lambda>content. map_err (\<lambda>_. Foreign (''Failed to parse '' @ path)) (parse (trim content)))"

section \<open>Floating-point text\<close>

text \<open>\<open>str::parse\<close> at \<open>f32\<close>: an optional sign, digits with at most one point and at least one digit, an
  optional exponent; or \<open>inf\<close>, \<open>infinity\<close>, \<open>nan\<close> in any case.  The exact value is rounded once.\<close>

definition digits_val :: "string \<Rightarrow> nat" where
  "digits_val ds = foldl (\<lambda>a c. a * 10 + digit_val c) 0 ds"

definition parse_exponent :: "string \<Rightarrow> int option" where
  "parse_exponent s =
     (case s of
        [] \<Rightarrow> Some 0
      | c # r \<Rightarrow>
          if c = CHR ''e'' \<or> c = CHR ''E''
          then (let neg = (r \<noteq> [] \<and> hd r = CHR ''-'');
                    ds = (if r \<noteq> [] \<and> (hd r = CHR ''-'' \<or> hd r = CHR ''+'') then tl r else r)
                in if ds = [] \<or> \<not> list_all is_digit ds then None
                   else Some (if neg then - int (digits_val ds) else int (digits_val ds)))
          else None)"

definition parse_decimal :: "string \<Rightarrow> rat option" where
  "parse_decimal s =
     (let i = takeWhile is_digit s; r = dropWhile is_digit s;
          f = (if r \<noteq> [] \<and> hd r = CHR ''.'' then takeWhile is_digit (tl r) else []);
          r2 = (if r \<noteq> [] \<and> hd r = CHR ''.'' then dropWhile is_digit (tl r) else r)
      in if i = [] \<and> f = [] then None
         else map_option (\<lambda>e. of_nat (digits_val (i @ f)) * 10 powi (e - int (length f))) (parse_exponent r2))"

definition lower_ascii :: "char \<Rightarrow> char" where
  "lower_ascii c = (if CHR ''A'' \<le> c \<and> c \<le> CHR ''Z'' then char_of ((of_char c :: nat) + 32) else c)"

definition parse_f32 :: "string \<Rightarrow> parse_error + fl" where
  "parse_f32 s =
     (if s = [] then Inl ParseEmpty
      else (let neg = (hd s = CHR ''-'');
                b = (if hd s = CHR ''-'' \<or> hd s = CHR ''+'' then tl s else s);
                w = map lower_ascii b
            in case parse_decimal b of
                 Some q \<Rightarrow> Inr (rnd F32 neg (if neg then - q else q))
               | None \<Rightarrow>
                   if w = ''inf'' \<or> w = ''infinity'' then Inr (if neg then NInf else PInf)
                   else if w = ''nan'' then Inr NaN
                   else Inl InvalidDigit))"

section \<open>Devices\<close>

record BatteryState =
  bs_capacity :: "fl option"
  bs_current_ua :: "i64 option"
  bs_voltage_uv :: "u64 option"
  bs_status :: "string option"

definition BatteryState_default :: BatteryState where
  "BatteryState_default = \<lparr> bs_capacity = None, bs_current_ua = None, bs_voltage_uv = None, bs_status = None \<rparr>"

definition node_of_type :: "file_sys \<Rightarrow> (string \<Rightarrow> bool) \<Rightarrow> string \<Rightarrow> string option" where
  "node_of_type fs is_type dir =
     map_option utf8_lossy
       (find (\<lambda>path. case fs_read fs (join path ''type'') of Inr t \<Rightarrow> is_type (trim t) | Inl _ \<Rightarrow> False) (dir_paths fs dir))"

definition discover_battery_node :: "file_sys \<Rightarrow> string \<Rightarrow> string option" where
  "discover_battery_node fs dir = node_of_type fs (\<lambda>t. t = ''Battery'') dir"

definition discover_ac_node :: "file_sys \<Rightarrow> string \<Rightarrow> string option" where
  "discover_ac_node fs dir = node_of_type fs (\<lambda>t. t = ''Mains'' \<or> t = ''AC'') dir"

definition read_battery_state :: "file_sys \<Rightarrow> string \<Rightarrow> BatteryState" where
  "read_battery_state fs battery_path =
     \<lparr> bs_capacity = ok_opt (read_sysfs_value parse_f32 fs (battery_path @ ''/capacity'')),
       bs_current_ua = ok_opt (read_sysfs_value parse_i64 fs (battery_path @ ''/current_now'')),
       bs_voltage_uv = ok_opt (read_sysfs_value parse_u64 fs (battery_path @ ''/voltage_now'')),
       bs_status = map_option trim (ok_opt (fs_read fs (battery_path @ ''/status''))) \<rparr>"

definition read_ac_online :: "file_sys \<Rightarrow> string \<Rightarrow> col_error + bool" where
  "read_ac_online fs ac_path =
     bindR (read_sysfs_value parse_u32 fs (ac_path @ ''/online'')) (\<lambda>online. Inr (online \<noteq> 0))"

section \<open>Averaged ratios\<close>

text \<open>One device: its two files, when both can be read and the maximum is not zero.  A path that is no text ends the
  whole function with \<open>None\<close>, the outer result.\<close>

definition device_ratio :: "(string \<Rightarrow> parse_error + 'a::len word) \<Rightarrow> file_sys \<Rightarrow> string \<Rightarrow> string \<Rightarrow> fl list option" where
  "device_ratio parse fs cur_path max_path =
     (if \<not> utf8_valid cur_path \<or> \<not> utf8_valid max_path then None
      else Some (case (read_sysfs_value parse fs cur_path, read_sysfs_value parse fs max_path) of
        (Inr cur, Inr mx) \<Rightarrow>
          if 0 < mx then [fclamp fzero (Num 1) (fdiv F32 (of_word F32 cur) (of_word F32 mx))] else []
      | _ \<Rightarrow> []))"

fun collect_ratios :: "(string \<Rightarrow> fl list option) \<Rightarrow> string list \<Rightarrow> fl list option" where
  "collect_ratios f [] = Some []"
| "collect_ratios f (p # ps) =
     (case f p of None \<Rightarrow> None | Some r \<Rightarrow> map_option (\<lambda>rs. r @ rs) (collect_ratios f ps))"

definition policy_ratio :: "file_sys \<Rightarrow> string \<Rightarrow> fl list option" where
  "policy_ratio fs path =
     (case file_name path of
        None \<Rightarrow> None
      | Some name \<Rightarrow>
          if take 6 (utf8_lossy name) \<noteq> ''policy'' then Some []
          else device_ratio parse_u32 fs (join path ''scaling_cur_freq'') (join path ''cpuinfo_max_freq''))"

definition read_avg_cpu_freq_ratio :: "file_sys \<Rightarrow> string \<Rightarrow> fl option" where
  "read_avg_cpu_freq_ratio fs dir = Option.bind (collect_ratios (policy_ratio fs) (dir_paths fs dir)) mean32"

definition read_display_brightness :: "file_sys \<Rightarrow> string \<Rightarrow> fl option" where
  "read_display_brightness fs dir =
     Option.bind
       (collect_ratios (\<lambda>path. device_ratio parse_u64 fs (join path ''brightness'') (join path ''max_brightness''))
         (dir_paths fs dir)) mean32"

section \<open>RAPL\<close>

definition RAPL_PATH :: string where
  "RAPL_PATH = ''/sys/class/powercap/intel-rapl/intel-rapl:0/energy_uj''"

definition discover_rapl_energy_path :: "file_sys \<Rightarrow> string option" where
  "discover_rapl_energy_path fs = (if fs_exists fs RAPL_PATH then Some RAPL_PATH else None)"

definition read_rapl_power :: "file_sys \<Rightarrow> string \<Rightarrow> u64 option \<Rightarrow> (col_error + fl) \<times> u64 option" where
  "read_rapl_power fs rapl_path prev_energy_uj =
     (case read_sysfs_value parse_u64 fs rapl_path of
        Inl e \<Rightarrow> (Inl e, prev_energy_uj)
      | Inr energy_uj \<Rightarrow>
          (Inr (case prev_energy_uj of
             Some prev \<Rightarrow> fcast F32 (fdiv F64 (fdiv F64 (of_word F64 (sat_sub energy_uj prev)) (Num 1000000)) (Num 30))
           | None \<Rightarrow> fzero), Some energy_uj))"

section \<open>The default route\<close>

definition route_step :: "(string \<times> u32) option \<Rightarrow> string \<Rightarrow> (string \<times> u32) option" where
  "route_step default_iface line =
     (let parts = split_on (CHR 0x09) line in
      if length parts < 7 then default_iface
      else if trim (parts ! 1) = ''00000000''
           then (case parse_hex_u32 (trim (parts ! 6)) of
               Inl _ \<Rightarrow> default_iface
             | Inr metric \<Rightarrow>
                 (case default_iface of
                    None \<Rightarrow> Some (parts ! 0, metric)
                  | Some (_, prev_metric) \<Rightarrow> if metric < prev_metric then Some (parts ! 0, metric) else default_iface))
      else default_iface)"

definition detect_default_interface_is_wifi :: "file_sys \<Rightarrow> string \<Rightarrow> string \<Rightarrow> bool option" where
  "detect_default_interface_is_wifi fs route_path net_class_path =
     (case fs_read fs route_path of
        Inl _ \<Rightarrow> None
      | Inr route_content \<Rightarrow>
          map_option (\<lambda>(iface, _). fs_is_dir fs (join (join net_class_path iface) ''wireless''))
            (foldl route_step None (drop 1 (lines route_content))))"

section \<open>The collector\<close>

record PowerCollector =
  battery_path :: "string option"
  ac_path :: "string option"
  rapl_energy_path :: "string option"
  prev_rapl_energy_uj :: "u64 option"

definition power_new :: "file_sys \<Rightarrow> col_error + PowerCollector" where
  "power_new fs =
     (let bat = discover_battery_node fs ''/sys/class/power_supply'';
          ac = discover_ac_node fs ''/sys/class/power_supply'';
          rapl = discover_rapl_energy_path fs
      in if bat = None \<and> ac = None
         then Inl (Foreign (''Power collection unavailable: no battery or AC adapter found '' @
                            ''(check /sys/class/power_supply/ permissions)''))
         else Inr \<lparr> battery_path = bat, ac_path = ac, rapl_energy_path = rapl, prev_rapl_energy_uj = None \<rparr>)"

definition charging_state :: "file_sys \<Rightarrow> PowerCollector \<Rightarrow> BatteryState \<Rightarrow> bool" where
  "charging_state fs c bat =
     (case bs_status bat of
        Some status \<Rightarrow> status = ''Charging''
      | None \<Rightarrow> (case ac_path c of
          Some ac \<Rightarrow> unwrap_or (ok_opt (read_ac_online fs ac)) False
        | None \<Rightarrow> False))"

definition collect_power :: "file_sys \<Rightarrow> PowerCollector \<Rightarrow> col_error + u64 \<Rightarrow> (col_error + MetricRecord list) \<times> PowerCollector" where
  "collect_power fs c clock =
     (case clock of
        Inl e \<Rightarrow> (Inl e, c)
      | Inr ts \<Rightarrow>
          (let bat = (case battery_path c of Some p \<Rightarrow> read_battery_state fs p | None \<Rightarrow> BatteryState_default);
               (rapl, prev) = (case rapl_energy_path c of
                   Some p \<Rightarrow> read_rapl_power fs p (prev_rapl_energy_uj c)
                 | None \<Rightarrow> (Inl (Foreign ''no counter''), prev_rapl_energy_uj c))
           in (Inr [\<lparr> app_name = ''system'', timestamp = ts, payload = PwrP
                 \<lparr> watt_usage = unwrap_or (ok_opt rapl) fzero, battery_percent = bs_capacity bat,
                   charging = charging_state fs c bat, rapl_package_watts = ok_opt rapl, rapl_core_watts = None,
                   battery_current_ua = bs_current_ua bat, battery_voltage_uv = bs_voltage_uv bat,
                   avg_cpu_freq_ratio = read_avg_cpu_freq_ratio fs ''/sys/devices/system/cpu/cpufreq'',
                   display_brightness = read_display_brightness fs ''/sys/class/backlight'',
                   is_wifi = detect_default_interface_is_wifi fs ''/proc/net/route'' ''/sys/class/net'' \<rparr> \<rparr>],
               c\<lparr> prev_rapl_energy_uj := prev \<rparr>)))"

definition is_pwr :: "MetricPayload \<Rightarrow> bool" where
  "is_pwr p = (case p of PwrP _ \<Rightarrow> True | _ \<Rightarrow> False)"

definition power_run ::
  "(nat \<Rightarrow> bool) \<Rightarrow> PowerCollector \<Rightarrow> (file_sys \<times> (col_error + u64)) branch list \<Rightarrow> (PowerCollector, col_error) loop_result" where
  "power_run accepts c bs = run_collector_loop (\<lambda>c (fs, clock). collect_power fs c clock) is_pwr accepts c [] 0 bs"

section \<open>Averages of ratios\<close>

lemma fadd_ratio:
  assumes "ffinite a" and "0 \<le> fval a" and "fval a \<le> of_nat m" and "share_of 1 x" and "Suc m < 2 ^ 24"
  shows "ffinite (fadd F32 a x) \<and> 0 \<le> fval (fadd F32 a x) \<and> fval (fadd F32 a x) \<le> of_nat (Suc m)"
proof -
  have x: "ffinite x" "0 \<le> fval x" "fval x \<le> 1" using assms(4) by (simp_all add: share_of_def)
  have q: "0 \<le> fval a + fval x" "fval a + fval x \<le> of_nat (Suc m)" using assms(2,3) x by simp_all
  have r: "frepr F32 (of_nat (Suc m))" using assms(5) by (intro frepr_of_nat) simp
  have "(of_nat (Suc m) :: rat) < 2 powi fexp_max F32"
  proof -
    have "(of_nat (Suc m) :: rat) < of_nat (2 ^ 24)" using assms(5) by (simp only: of_nat_less_iff)
    also have "\<dots> \<le> 2 powi fexp_max F32" by simp
    finally show ?thesis .
  qed
  then show ?thesis
    using rnd_upper [OF q r] q fadd_finite [OF assms(1) x(1)] by auto
qed

lemma foldl_fadd_ratio:
  assumes "ffinite a" and "0 \<le> fval a" and "fval a \<le> of_nat m" and "list_all (share_of 1) xs" and "m + length xs < 2 ^ 24"
  shows "ffinite (foldl (fadd F32) a xs) \<and> 0 \<le> fval (foldl (fadd F32) a xs) \<and>
    fval (foldl (fadd F32) a xs) \<le> of_nat (m + length xs)"
  using assms
proof (induction xs arbitrary: a m)
  case (Cons x xs)
  have "ffinite (fadd F32 a x) \<and> 0 \<le> fval (fadd F32 a x) \<and> fval (fadd F32 a x) \<le> of_nat (Suc m)"
    using Cons.prems by (intro fadd_ratio) simp_all
  then show ?case using Cons.IH [of "fadd F32 a x" "Suc m"] Cons.prems by simp
qed simp

lemma mean_share:
  assumes "list_all (share_of 1) xs" and "length xs < 2 ^ 24"
  shows "case mean32 xs of None \<Rightarrow> xs = [] | Some m \<Rightarrow> share_of 1 m"
proof (cases "xs = []")
  case False
  have "length xs < 2 ^ fprec F32" using assms(2) by simp
  then have n: "of_len F32 (length xs) = Num (of_nat (length xs))" by (rule of_len_exact)
  have s: "ffinite (fsum F32 xs)" "0 \<le> fval (fsum F32 xs)" "fval (fsum F32 xs) \<le> of_nat (length xs)"
    using foldl_fadd_ratio [of NZero 0 xs] assms by (simp_all add: fsum_def)
  have fnn: "fnn (fsum F32 xs)" using s by (cases "fsum F32 xs") simp_all
  have "fle (fsum F32 xs) (Num (of_nat (length xs)))" using s by (simp add: fle_finite)
  from fdiv_share [OF fnn _ this] False show ?thesis by (simp add: mean32_def n share_of_def)
qed (simp add: mean32_def)

lemma fclamp_share: "x \<noteq> NaN \<Longrightarrow> share_of 1 (fclamp fzero (Num 1) x)"
  by (cases x) (auto simp: fclamp_def flt_def share_of_def)

lemma ratio_share:
  fixes cur mx :: u64
  assumes "0 < mx"
  shows "share_of 1 (fclamp fzero (Num 1) (fdiv F32 (of_word F32 cur) (of_word F32 mx)))"
proof (rule fclamp_share)
  obtain p where p: "of_word F32 cur = Num p" by (rule of_word_F32)
  obtain q where q: "of_word F32 mx = Num q" "mx \<noteq> 0 \<Longrightarrow> 1 \<le> q" by (rule of_word_F32) blast
  have "mx \<noteq> 0" using assms by (simp add: word_gt_0)
  then have "q \<noteq> 0" using q(2) by auto
  then show "fdiv F32 (of_word F32 cur) (of_word F32 mx) \<noteq> NaN"
    by (simp add: p q(1) fdiv_def is_inf_def rnd_def Let_def)
qed

lemma of_word_u32: "of_word F32 (w :: u32) = of_word F32 (ucast w :: u64)"
  by (simp add: of_word_def unat_ucast_u64)

lemma device_ratio_u64: "device_ratio parse fs a b = Some rs \<Longrightarrow> list_all (share_of 1) rs \<and> length rs \<le> 1"
  for parse :: "string \<Rightarrow> parse_error + u64"
  by (auto simp: device_ratio_def ratio_share split: if_splits sum.splits)

lemma device_ratio_u32: "device_ratio parse fs a b = Some rs \<Longrightarrow> list_all (share_of 1) rs \<and> length rs \<le> 1"
  for parse :: "string \<Rightarrow> parse_error + u32"
proof -
  have "share_of 1 (fclamp fzero (Num 1) (fdiv F32 (of_word F32 cur) (of_word F32 mx)))" if "0 < mx" for cur mx :: u32
    unfolding of_word_u32 by (rule ratio_share) (use that in \<open>simp add: word_less_nat_alt unat_ucast_u64\<close>)
  then show "device_ratio parse fs a b = Some rs \<Longrightarrow> ?thesis"
    by (auto simp: device_ratio_def split: if_splits sum.splits)
qed

lemma collect_ratios_share:
  assumes "\<And>p rs. f p = Some rs \<Longrightarrow> list_all (share_of 1) rs \<and> length rs \<le> 1"
  shows "collect_ratios f ps = Some rs \<Longrightarrow> list_all (share_of 1) rs \<and> length rs \<le> length ps"
proof (induction ps arbitrary: rs)
  case (Cons p ps)
  then obtain r rs' where "f p = Some r" "collect_ratios f ps = Some rs'" "rs = r @ rs'"
    by (auto split: option.splits)
  then show ?case using assms [of p r] Cons.IH [of rs'] by simp
qed simp

lemma ratios_mean_share:
  assumes "\<And>p rs. f p = Some rs \<Longrightarrow> list_all (share_of 1) rs \<and> length rs \<le> 1"
    and "length ps < 2 ^ 24" and "Option.bind (collect_ratios f ps) mean32 = Some m"
  shows "share_of 1 m"
proof -
  obtain rs where rs: "collect_ratios f ps = Some rs" "mean32 rs = Some m" using assms(3) by (auto simp: bind_eq_Some_conv)
  have "list_all (share_of 1) rs \<and> length rs \<le> length ps" by (rule collect_ratios_share [OF assms(1) rs(1)])
  then show ?thesis using mean_share [of rs] assms(2) rs(2) by simp
qed

lemma policy_ratio_share: "policy_ratio fs p = Some rs \<Longrightarrow> list_all (share_of 1) rs \<and> length rs \<le> 1"
  using device_ratio_u32 by (auto simp: policy_ratio_def split: option.splits if_splits)

section \<open>The default route\<close>

text \<open>The default routes of a routing table, in order.\<close>

definition route_of :: "string \<Rightarrow> (string \<times> u32) option" where
  "route_of line =
     (let parts = split_on (CHR 0x09) line in
      if 7 \<le> length parts \<and> trim (parts ! 1) = ''00000000''
      then (case parse_hex_u32 (trim (parts ! 6)) of Inr metric \<Rightarrow> Some (parts ! 0, metric) | Inl _ \<Rightarrow> None)
      else None)"

definition default_routes :: "string \<Rightarrow> (string \<times> u32) list" where
  "default_routes content = List.map_filter route_of (drop 1 (lines content))"

definition better :: "(string \<times> u32) option \<Rightarrow> string \<times> u32 \<Rightarrow> (string \<times> u32) option" where
  "better best r = (case best of None \<Rightarrow> Some r | Some b \<Rightarrow> if snd r < snd b then Some r else best)"

lemma route_fold: "foldl route_step best ls = foldl better best (List.map_filter route_of ls)"
  by (induction ls arbitrary: best)
    (auto simp: route_step_def route_of_def better_def Let_def map_filter_simps split: sum.splits option.splits)

text \<open>The first of the cheapest.\<close>

lemma foldl_better:
  "foldl better (Some b) rs = Some r \<Longrightarrow>
   \<exists>pre post. b # rs = pre @ r # post \<and> (\<forall>x\<in>set pre. snd r < snd x) \<and> (\<forall>x\<in>set post. snd r \<le> snd x)"
proof (induction rs arbitrary: b)
  case (Cons y ys)
  show ?case
  proof (cases "snd y < snd b")
    case True
    then obtain pre post where p: "y # ys = pre @ r # post" "\<forall>x\<in>set pre. snd r < snd x" "\<forall>x\<in>set post. snd r \<le> snd x"
      using Cons.IH [of y] Cons.prems by (auto simp: better_def)
    have "snd r \<le> snd y" using p by (cases pre) auto
    then have "snd r < snd b" using True by simp
    then show ?thesis using p by (intro exI [of _ "b # pre"] exI [of _ post]) auto
  next
    case False
    then obtain pre post where p: "b # ys = pre @ r # post" "\<forall>x\<in>set pre. snd r < snd x" "\<forall>x\<in>set post. snd r \<le> snd x"
      using Cons.IH [of b] Cons.prems by (auto simp: better_def)
    show ?thesis
    proof (cases pre)
      case Nil
      then show ?thesis using p False by (intro exI [of _ "[]"] exI [of _ "y # ys"]) auto
    next
      case (Cons a pre')
      then have "snd r < snd y" using p False by auto
      then show ?thesis using p Cons by (intro exI [of _ "b # y # pre'"] exI [of _ post]) auto
    qed
  qed
qed (intro exI [of _ "[]"], simp)

lemma foldl_better_some: "\<exists>r. foldl better (Some b) rs = Some r"
  by (induction rs arbitrary: b) (auto simp: better_def)

section \<open>Properties\<close>

text \<open>C32: A power record.  A poll with a working clock always gives exactly one record for the application
  \<open>system\<close>; with fewer than \<open>2\<^sup>2\<^sup>4\<close> devices, the averaged processor frequency and display brightness, when
  they are present, are numbers in [0, 1] in spite of rounding; the mains adapter decides about
  charging only when there is no battery status.\<close>

theorem power_record_ranges:
  assumes "length (dir_paths fs ''/sys/devices/system/cpu/cpufreq'') < 2 ^ 24" and "length (dir_paths fs ''/sys/class/backlight'') < 2 ^ 24"
  shows "\<exists>d c'. collect_power fs c (Inr ts) = (Inr [\<lparr> app_name = ''system'', timestamp = ts, payload = PwrP d \<rparr>], c') \<and>
    pred_option (share_of 1) (avg_cpu_freq_ratio d) \<and> pred_option (share_of 1) (display_brightness d) \<and>
    (\<forall>p s. battery_path c = Some p \<and> fs_read fs (p @ ''/status'') = Inr s \<longrightarrow> charging d = (trim s = ''Charging''))"
proof -
  have "share_of 1 m" if "read_avg_cpu_freq_ratio fs ''/sys/devices/system/cpu/cpufreq'' = Some m" for m
    using that unfolding read_avg_cpu_freq_ratio_def by (rule ratios_mean_share [rotated 2, OF _ policy_ratio_share assms(1)])
  then have "pred_option (share_of 1) (read_avg_cpu_freq_ratio fs ''/sys/devices/system/cpu/cpufreq'')"
    by (simp add: option.pred_set elem_set)
  moreover have "share_of 1 m" if "read_display_brightness fs ''/sys/class/backlight'' = Some m" for m
    using that unfolding read_display_brightness_def by (rule ratios_mean_share [rotated 2, OF _ device_ratio_u64 assms(2)])
  then have "pred_option (share_of 1) (read_display_brightness fs ''/sys/class/backlight'')"
    by (simp add: option.pred_set elem_set)
  ultimately show ?thesis
    by (auto simp: collect_power_def charging_state_def read_battery_state_def Let_def split: prod.split)
qed

definition w_row :: "string list \<Rightarrow> string" where
  "w_row fs = concat (map (\<lambda>f. f @ [CHR 0x09]) fs)"

definition w_route :: string where
  "w_route = concat (map (\<lambda>row. w_row row @ [CHR 0x0A])
     [[''Iface'', ''Destination'', ''Gateway'', ''Flags'', ''RefCnt'', ''Use'', ''Metric''],
      [''eth0'', ''00000000'', ''0102A8C0'', ''0003'', ''0'', ''0'', ''64''],
      [''wlan0'', ''00000000'', ''0102A8C0'', ''0003'', ''0'', ''0'', ''1F''],
      [''wlan0'', ''0002A8C0'', ''00000000'', ''0001'', ''0'', ''0'', ''1'']])"

definition w_fs :: file_sys where
  "w_fs = \<lparr>
     fs_read = (\<lambda>p. if p = ''/sys/class/power_supply/BAT0/status'' then Inr (''Discharging'' @ [CHR 0x0A])
        else if p = ''/sys/devices/system/cpu/cpufreq/policy0/scaling_cur_freq'' then Inr ''1200000''
        else if p = ''/sys/devices/system/cpu/cpufreq/policy0/cpuinfo_max_freq'' then Inr ''2400000''
        else if p = ''/proc/net/route'' then Inr w_route
        else Inl (Foreign ''not found'')),
     fs_read_dir = (\<lambda>d. if d = ''/sys/devices/system/cpu/cpufreq'' then Inr [Inr ''policy0'', Inr ''boost''] else Inr []),
     fs_exists = (\<lambda>_. False),
     fs_is_dir = (\<lambda>p. p = ''/sys/class/net/wlan0/wireless'') \<rparr>"

definition w_power :: PowerCollector where
  "w_power = \<lparr> battery_path = Some ''/sys/class/power_supply/BAT0'', ac_path = None, rapl_energy_path = None, prev_rapl_energy_uj = None \<rparr>"

theorem power_record_ranges_witness:
  "\<exists>d c'. collect_power w_fs w_power (Inr 60) = (Inr [\<lparr> app_name = ''system'', timestamp = 60, payload = PwrP d \<rparr>], c') \<and>
     pred_option (share_of 1) (avg_cpu_freq_ratio d) \<and> \<not> charging d"
proof -
  have "length (dir_paths w_fs ''/sys/devices/system/cpu/cpufreq'') < 2 ^ 24" "length (dir_paths w_fs ''/sys/class/backlight'') < 2 ^ 24"
    by (simp_all add: dir_paths_def w_fs_def map_filter_simps)
  moreover have "trim (''Discharging'' @ [CHR 0x0A]) = ''Discharging''" by code_simp
  ultimately show ?thesis
    using power_record_ranges [of w_fs w_power 60] by (fastforce simp: w_fs_def w_power_def)
qed

text \<open>Which interface counts.  Among the default routes of the routing table (destination zero, a readable metric, enough
  columns) the first one with the lowest metric is taken, and the answer is whether its interface
  has a \<open>wireless\<close> directory; without a default route there is no answer.\<close>

theorem wifi_of_cheapest_route:
  assumes "fs_read fs route_path = Inr content"
  shows "default_routes content = [] \<and> detect_default_interface_is_wifi fs route_path net_path = None \<or>
    (\<exists>pre iface m post. default_routes content = pre @ (iface, m) # post \<and>
      list_all (\<lambda>r. m < snd r) pre \<and> list_all (\<lambda>r. m \<le> snd r) post \<and>
      detect_default_interface_is_wifi fs route_path net_path = Some (fs_is_dir fs (join (join net_path iface) ''wireless'')))"
proof (cases "default_routes content")
  case Nil
  then show ?thesis
    using assms by (simp add: detect_default_interface_is_wifi_def route_fold default_routes_def)
next
  case (Cons b rs)
  obtain r where r: "foldl better (Some b) rs = Some r" using foldl_better_some by blast
  obtain pre post where p: "b # rs = pre @ r # post" "\<forall>x\<in>set pre. snd r < snd x" "\<forall>x\<in>set post. snd r \<le> snd x"
    using foldl_better [OF r] by blast
  have "foldl route_step None (drop 1 (lines content)) = Some r"
    using r Cons unfolding route_fold default_routes_def by (simp add: better_def)
  then have "detect_default_interface_is_wifi fs route_path net_path = Some (fs_is_dir fs (join (join net_path (fst r)) ''wireless''))"
    using assms by (simp add: detect_default_interface_is_wifi_def case_prod_unfold)
  then show ?thesis
    using p Cons by (intro disjI2 exI [of _ pre] exI [of _ "fst r"] exI [of _ "snd r"] exI [of _ post]) (simp add: list_all_iff)
qed

lemma w_default_routes: "default_routes w_route = [(''eth0'', 0x64), (''wlan0'', 0x1F)]"
proof -
  let ?r1 = "w_row [''eth0'', ''00000000'', ''0102A8C0'', ''0003'', ''0'', ''0'', ''64'']"
  let ?r2 = "w_row [''wlan0'', ''00000000'', ''0102A8C0'', ''0003'', ''0'', ''0'', ''1F'']"
  let ?r3 = "w_row [''wlan0'', ''0002A8C0'', ''00000000'', ''0001'', ''0'', ''0'', ''1'']"
  have lines: "drop 1 (lines w_route) = [?r1, ?r2, ?r3]" by code_simp
  have split: "split_on (CHR 0x09) ?r1 = [''eth0'', ''00000000'', ''0102A8C0'', ''0003'', ''0'', ''0'', ''64'', []]"
    "split_on (CHR 0x09) ?r2 = [''wlan0'', ''00000000'', ''0102A8C0'', ''0003'', ''0'', ''0'', ''1F'', []]"
    "split_on (CHR 0x09) ?r3 = [''wlan0'', ''0002A8C0'', ''00000000'', ''0001'', ''0'', ''0'', ''1'', []]"
    by code_simp+
  have trim: "trim ''00000000'' = ''00000000''" "trim ''64'' = ''64''" "trim ''1F'' = ''1F''" "trim ''0002A8C0'' = ''0002A8C0''"
    by code_simp+
  have hex: "parse_hex_u32 ''64'' = Inr 0x64" "parse_hex_u32 ''1F'' = Inr 0x1F"
    by (simp_all add: parse_hex_u32_def hex_val_def Let_def)
  have "route_of ?r1 = Some (''eth0'', 0x64)" "route_of ?r2 = Some (''wlan0'', 0x1F)" "route_of ?r3 = None"
    unfolding route_of_def split by (simp_all add: Let_def trim hex)
  then show ?thesis unfolding default_routes_def lines by (simp add: map_filter_simps)
qed

theorem wifi_of_cheapest_route_witness:
  "detect_default_interface_is_wifi w_fs ''/proc/net/route'' ''/sys/class/net'' = Some True"
proof -
  have c: "fs_read w_fs ''/proc/net/route'' = Inr w_route" by (simp add: w_fs_def)
  show ?thesis
    using wifi_of_cheapest_route [OF c, of "''/sys/class/net''"] unfolding w_default_routes
    by (auto simp: Cons_eq_append_conv join_def w_fs_def)
qed

end
