(* ===== verification/Focus.thy ===== *)
theory Focus
  imports Collectors
begin

text \<open>
  \<open>crates/heimwatch-collector/src/focus/linux\<close>: which window has the focus, and for how long.  The
  Wayland and D-Bus libraries deliver events and replies, which are arguments; the bookkeeping on them
  is modelled.  Instants of the monotonic clock are nanoseconds.
\<close>

section \<open>Names\<close>

definition normalize_app_id :: "string option \<Rightarrow> string" where
  "normalize_app_id raw =
     (case raw of
        None \<Rightarrow> ''Unknown''
      | Some s \<Rightarrow>
          if s = [] then ''Unknown''
          else (case strip_prefix ''org.flatpak.'' s of
                  Some rest \<Rightarrow> rest
                | None \<Rightarrow> (case strip_prefix ''snap.'' s of
                    Some rest \<Rightarrow> last (split_on (CHR ''.'') rest)
                  | None \<Rightarrow> s)))"

definition create_focus_event :: "string \<Rightarrow> u64 \<Rightarrow> u64 \<Rightarrow> CollectorEvent" where
  "create_focus_event app elapsed_ms ts =
     \<lparr> ev_app_name = app, ev_payload = FocP \<lparr> app_id = app, duration_ms = elapsed_ms \<rparr>, ev_timestamp = ts \<rparr>"

section \<open>The source\<close>

datatype FocusSource = WlrToplevel | GnomeDbus

definition try_gnome_dbus_available :: "col_error + unit" where
  "try_gnome_dbus_available = Inr ()"

text \<open>Connecting to the compositor and reading its registry, each of which may fail with a message; \<open>globals\<close> are
  the interfaces that the compositor offers.\<close>

definition wlr_connect :: "string + unit \<Rightarrow> string + 'a \<Rightarrow> col_error + 'a" where
  "wlr_connect conn registry =
     bindR (map_err (\<lambda>e. Foreign (''Wayland connection failed: '' @ e)) conn) (\<lambda>_.
     map_err (\<lambda>e. Foreign (''Registry init failed: '' @ e)) registry)"

definition try_wlr_toplevel_available :: "col_error + string list \<Rightarrow> col_error + unit" where
  "try_wlr_toplevel_available globals =
     bindR globals (\<lambda>names.
       if ''zwlr_foreign_toplevel_manager_v1'' \<in> set names then Inr ()
       else Inl (Foreign ''zwlr-foreign-toplevel-management-v1 protocol not available''))"

definition focus_try_new :: "col_error + string list \<Rightarrow> FocusSource option" where
  "focus_try_new globals =
     (if \<not> isl (try_wlr_toplevel_available globals) then Some WlrToplevel
      else if \<not> isl try_gnome_dbus_available then Some GnomeDbus
      else None)"

section \<open>Wayland events\<close>

record ToplevelInfo =
  tl_app_id :: "string option"
  tl_is_activated :: bool

text \<open>The dispatcher: the known windows, what was sent and how often sending was tried; \<open>room n\<close> tells whether
  the channel has room at the \<open>n\<close>-th \<open>try_send\<close>.  \<open>act\<close> is the protocol's number for "activated".\<close>

record 'i WlrToplevelState =
  toplevels :: "'i \<rightharpoonup> ToplevelInfo"
  wl_sent :: "string option list"
  wl_attempts :: nat

datatype 'i wl_event =
    Toplevel 'i
  | Finished
  | AppId 'i string
  | State 'i "u8 list"
  | Done 'i
  | WClosed 'i
  | OtherEvent

fun chunks4 :: "u8 list \<Rightarrow> u32 list" where
  "chunks4 (a # b # c # d # r) =
     (ucast a + ucast b * 2 ^ 8 + ucast c * 2 ^ 16 + ucast d * 2 ^ 24) # chunks4 r"
| "chunks4 _ = []"

fun wl_dispatch :: "u32 \<Rightarrow> (nat \<Rightarrow> bool) \<Rightarrow> 'i WlrToplevelState \<Rightarrow> 'i wl_event \<Rightarrow> 'i WlrToplevelState" where
  "wl_dispatch act room st (Toplevel i) =
     st\<lparr> toplevels := (toplevels st)(i \<mapsto> \<lparr> tl_app_id = None, tl_is_activated = False \<rparr>) \<rparr>"
| "wl_dispatch act room st (AppId i a) =
     (case toplevels st i of
        Some info \<Rightarrow> st\<lparr> toplevels := (toplevels st)(i \<mapsto> info\<lparr> tl_app_id := Some a \<rparr>) \<rparr>
      | None \<Rightarrow> st)"
| "wl_dispatch act room st (State i bytes) =
     (case toplevels st i of
        Some info \<Rightarrow> st\<lparr> toplevels := (toplevels st)(i \<mapsto> info\<lparr> tl_is_activated := act \<in> set (chunks4 bytes) \<rparr>) \<rparr>
      | None \<Rightarrow> st)"
| "wl_dispatch act room st (Done i) =
     (case toplevels st i of
        Some info \<Rightarrow>
          if tl_is_activated info
          then st\<lparr> wl_sent := (if room (wl_attempts st) then wl_sent st @ [tl_app_id info] else wl_sent st),
                   wl_attempts := Suc (wl_attempts st) \<rparr>
          else st
      | None \<Rightarrow> st)"
| "wl_dispatch act room st (WClosed i) = st\<lparr> toplevels := (toplevels st)(i := None) \<rparr>"
| "wl_dispatch act room st Finished = st"
| "wl_dispatch act room st OtherEvent = st"

text \<open>The listener: it connects, binds the manager, and waits for the end of the dispatching thread or for the
  shutdown.  The thread has no end of its own: it only stops when dispatching fails.\<close>

datatype 'i wl_input =
    Dispatched "'i wl_event list"
  | DispatchFailed string
  | ThreadPanicked string
  | ListenerShutdown

datatype 'i listener_result =
    Listening "'i WlrToplevelState"
  | ListenerEnded "col_error + unit" "'i WlrToplevelState"

fun wlr_listen :: "u32 \<Rightarrow> (nat \<Rightarrow> bool) \<Rightarrow> 'i WlrToplevelState \<Rightarrow> 'i wl_input list \<Rightarrow> 'i listener_result" where
  "wlr_listen act room st [] = Listening st"
| "wlr_listen act room st (Dispatched evs # is) = wlr_listen act room (foldl (wl_dispatch act room) st evs) is"
| "wlr_listen act room st (DispatchFailed e # is) =
     ListenerEnded (Inl (Foreign (''Wayland error: Wayland dispatch error: '' @ e))) st"
| "wlr_listen act room st (ThreadPanicked e # is) = ListenerEnded (Inl (Foreign (''Task join error: '' @ e))) st"
| "wlr_listen act room st (ListenerShutdown # is) = ListenerEnded (Inr ()) st"

definition wlr_init :: "'i WlrToplevelState" where
  "wlr_init = \<lparr> toplevels = Map.empty, wl_sent = [], wl_attempts = 0 \<rparr>"

definition spawn_wlr_toplevel_listener ::
  "string + unit \<Rightarrow> string + unit \<Rightarrow> string + unit \<Rightarrow> u32 \<Rightarrow> (nat \<Rightarrow> bool) \<Rightarrow> 'i wl_input list \<Rightarrow> 'i listener_result" where
  "spawn_wlr_toplevel_listener conn registry bind act room inputs =
     (case bindR (wlr_connect conn registry) (\<lambda>_.
           map_err (\<lambda>e. Foreign (''Failed to bind zwlr_foreign_toplevel_manager: '' @ e)) bind) of
        Inl e \<Rightarrow> ListenerEnded (Inl e) wlr_init
      | Inr _ \<Rightarrow> wlr_listen act room wlr_init inputs)"

text \<open>The thread goes on after the shutdown of its listener: it never returns \<open>Ok\<close>.\<close>

fun wlr_thread ::
  "u32 \<Rightarrow> (nat \<Rightarrow> bool) \<Rightarrow> 'i WlrToplevelState \<Rightarrow> (string + 'i wl_event list) list \<Rightarrow> (col_error + unit) option \<times> 'i WlrToplevelState" where
  "wlr_thread act room st [] = (None, st)"
| "wlr_thread act room st (Inl e # is) = (Some (Inl (Foreign (''Wayland dispatch error: '' @ e))), st)"
| "wlr_thread act room st (Inr evs # is) = wlr_thread act room (foldl (wl_dispatch act room) st evs) is"

lemma wlr_thread_never_ok: "fst (wlr_thread act room st is) \<noteq> Some (Inr ())"
  by (induction act room st "is" rule: wlr_thread.induct) simp_all

section \<open>D-Bus polling\<close>

text \<open>A reply is an error, or a body that may not be the text that is expected.\<close>

type_synonym dbus_reply = "col_error + (col_error + string)"

definition reply_text :: "dbus_reply \<Rightarrow> string option" where
  "reply_text r = (case r of Inr (Inr s) \<Rightarrow> Some s | _ \<Rightarrow> None)"

definition query_gnome_active_app :: "dbus_reply \<Rightarrow> string option" where
  "query_gnome_active_app r =
     (case reply_text r of Some s \<Rightarrow> if s \<noteq> [] then Some s else None | None \<Rightarrow> None)"

definition get_kde_window_app :: "dbus_reply \<Rightarrow> string option" where
  "get_kde_window_app r =
     (case reply_text r of
        None \<Rightarrow> None
      | Some s \<Rightarrow>
          if drop (length s - 8) s = ''.desktop'' then Some (take (length s - 8) s)
          else if s \<noteq> [] then Some s else None)"

text \<open>\<open>window\<close> is the reply for the window at a path.\<close>

definition query_kde_active_app :: "dbus_reply \<Rightarrow> (string \<Rightarrow> dbus_reply) \<Rightarrow> string option" where
  "query_kde_active_app r window =
     (case reply_text r of
        None \<Rightarrow> None
      | Some path \<Rightarrow> if path = [] then None else get_kde_window_app (window path))"

definition get_active_window_app :: "dbus_reply \<times> dbus_reply \<times> (string \<Rightarrow> dbus_reply) \<Rightarrow> string option" where
  "get_active_window_app = (\<lambda>(gnome, kde, window).
     case query_gnome_active_app gnome of
       Some app \<Rightarrow> Some app
     | None \<Rightarrow> query_kde_active_app kde window)"

fun poll_active_window ::
  "string option \<Rightarrow> string option list \<Rightarrow> (dbus_reply \<times> dbus_reply \<times> (string \<Rightarrow> dbus_reply)) branch list \<Rightarrow> string option list" where
  "poll_active_window last_app_id sent [] = sent"
| "poll_active_window last_app_id sent (Shutdown # bs) = sent"
| "poll_active_window last_app_id sent (Tick replies # bs) =
     (let current_app = get_active_window_app replies in
      if current_app \<noteq> last_app_id then poll_active_window current_app (sent @ [current_app]) bs
      else poll_active_window last_app_id sent bs)"

definition spawn_gnome_dbus_listener ::
  "string + unit \<Rightarrow> (dbus_reply \<times> dbus_reply \<times> (string \<Rightarrow> dbus_reply)) branch list \<Rightarrow> col_error + string option list" where
  "spawn_gnome_dbus_listener conn replies =
     bindR (map_err (\<lambda>e. Foreign (''D-Bus session connection failed: '' @ e)) conn) (\<lambda>_.
     Inr (poll_active_window None [] replies))"

section \<open>The tracking loop\<close>

record FocusState =
  current_app :: "string option"
  focus_start :: nat

definition elapsed_ms :: "nat \<Rightarrow> FocusState \<Rightarrow> u64" where
  "elapsed_ms now st = of_nat ((now - focus_start st) div 1000000)"

text \<open>A branch carries what its body reads: the instant of \<open>elapsed\<close>, the clock and, for a change of
  focus, the instant at which the new session starts.\<close>

datatype focus_branch =
    Changed "string option" nat "col_error + u64" nat
  | ShutdownSignal nat "col_error + u64"
  | ListenerDied nat "col_error + u64"

datatype focus_result =
    Tracking FocusState "CollectorEvent list" nat
  | Ended "col_error + unit" "CollectorEvent list"

definition try_send1 :: "(nat \<Rightarrow> bool) \<Rightarrow> nat \<Rightarrow> CollectorEvent \<Rightarrow> CollectorEvent list \<Rightarrow> CollectorEvent list" where
  "try_send1 accepts i ev sent = (if accepts i then sent @ [ev] else sent)"

fun focus_run ::
  "(nat \<Rightarrow> bool) \<Rightarrow> FocusState \<Rightarrow> CollectorEvent list \<Rightarrow> nat \<Rightarrow> focus_branch list \<Rightarrow> focus_result" where
  "focus_run accepts st sent i [] = Tracking st sent i"
| "focus_run accepts st sent i (Changed raw_id now clock start # bs) =
     (let new_app = normalize_app_id raw_id in
      if current_app st = Some new_app then focus_run accepts st sent i bs
      else (let st' = \<lparr> current_app = Some new_app, focus_start = start \<rparr> in
        case current_app st of
          None \<Rightarrow> focus_run accepts st' sent i bs
        | Some prev_app \<Rightarrow>
            (case clock of
               Inl e \<Rightarrow> Ended (Inl e) sent
             | Inr ts \<Rightarrow>
                 focus_run accepts st' (try_send1 accepts i (create_focus_event prev_app (elapsed_ms now st) ts) sent) (Suc i) bs)))"
| "focus_run accepts st sent i (ShutdownSignal now clock # bs) =
     (case current_app st of
        None \<Rightarrow> Ended (Inr ()) sent
      | Some app \<Rightarrow>
          (case clock of
             Inl e \<Rightarrow> Ended (Inl e) sent
           | Inr ts \<Rightarrow> Ended (Inr ()) (try_send1 accepts i (create_focus_event app (elapsed_ms now st) ts) sent)))"
| "focus_run accepts st sent i (ListenerDied now clock # bs) =
     Ended (Inr ()) (case current_app st of
        None \<Rightarrow> sent
      | Some app \<Rightarrow> try_send1 accepts i (create_focus_event app (elapsed_ms now st) (unwrap_or (ok_opt clock) 0)) sent)"

text \<open>\<open>FocusCollector::run\<close>: the listener of the chosen source feeds the loop; each report meets the instants and the
  clock that its branch reads, and \<open>final\<close> is the branch that ends the loop.\<close>

definition listener_reports :: "FocusSource \<Rightarrow> 'i listener_result \<Rightarrow> col_error + string option list \<Rightarrow> string option list" where
  "listener_reports source wlr dbus =
     (case source of
        WlrToplevel \<Rightarrow> (case wlr of Listening st \<Rightarrow> wl_sent st | ListenerEnded _ st \<Rightarrow> wl_sent st)
      | GnomeDbus \<Rightarrow> unwrap_or (ok_opt dbus) [])"

definition focus_collector_run ::
  "FocusSource \<Rightarrow> 'i listener_result \<Rightarrow> col_error + string option list \<Rightarrow> nat \<Rightarrow> (nat \<times> (col_error + u64) \<times> nat) list \<Rightarrow>
   focus_branch \<Rightarrow> (nat \<Rightarrow> bool) \<Rightarrow> focus_result" where
  "focus_collector_run source wlr dbus start_instant reads final accepts =
     focus_run accepts \<lparr> current_app = None, focus_start = start_instant \<rparr> [] 0
       (map2 (\<lambda>raw_id (now, clock, start). Changed raw_id now clock start) (listener_reports source wlr dbus) reads @ [final])"

section \<open>Sessions\<close>

text \<open>What the loop should report: each session runs from a change to the next change to another application.\<close>

record change =
  ch_raw :: "string option"
  ch_now :: nat
  ch_ts :: u64
  ch_start :: nat

abbreviation ch_app :: "change \<Rightarrow> string" where
  "ch_app x \<equiv> normalize_app_id (ch_raw x)"

abbreviation changed :: "change \<Rightarrow> focus_branch" where
  "changed x \<equiv> Changed (ch_raw x) (ch_now x) (Inr (ch_ts x)) (ch_start x)"

fun real_changes :: "string option \<Rightarrow> change list \<Rightarrow> change list" where
  "real_changes cur [] = []"
| "real_changes cur (x # xs) =
     (if cur = Some (ch_app x) then real_changes cur xs else x # real_changes (Some (ch_app x)) xs)"

definition session_event :: "change \<Rightarrow> nat \<times> u64 \<Rightarrow> CollectorEvent" where
  "session_event x = (\<lambda>(now, ts). create_focus_event (ch_app x) (of_nat ((now - ch_start x) div 1000000)) ts)"

definition sessions :: "change list \<Rightarrow> nat \<Rightarrow> u64 \<Rightarrow> CollectorEvent list" where
  "sessions xs now ts = map2 session_event xs (map (\<lambda>x. (ch_now x, ch_ts x)) (tl xs) @ [(now, ts)])"

lemma sessions_Cons: "sessions (x # y # xs) now ts = session_event x (ch_now y, ch_ts y) # sessions (y # xs) now ts"
  by (simp add: sessions_def)

lemma focus_run_from:
  "focus_run (\<lambda>_. True) \<lparr> current_app = Some (ch_app x), focus_start = ch_start x \<rparr> sent i
     (map changed xs @ ShutdownSignal now (Inr ts) # bs) =
   Ended (Inr ()) (sent @ sessions (x # real_changes (Some (ch_app x)) xs) now ts)"
proof (induction xs arbitrary: x sent i)
  case Nil
  show ?case by (simp add: sessions_def session_event_def try_send1_def elapsed_ms_def)
next
  case (Cons y ys)
  show ?case
  proof (cases "ch_app x = ch_app y")
    case True
    then show ?thesis using Cons.IH [of x sent i] by simp
  next
    case False
    then show ?thesis
      using Cons.IH [of y "sent @ [session_event x (ch_now y, ch_ts y)]" "Suc i"]
      by (simp add: Let_def try_send1_def elapsed_ms_def session_event_def sessions_Cons)
  qed
qed

lemma real_changes_apart: "distinct_adj (map ch_app (real_changes cur xs))"
proof (induction xs arbitrary: cur)
  case (Cons x xs)
  have "real_changes (Some (ch_app x)) xs = [] \<or> ch_app (hd (real_changes (Some (ch_app x)) xs)) \<noteq> ch_app x"
    by (induction xs) auto
  moreover have "distinct_adj (map ch_app (real_changes (Some (ch_app x)) xs))" by (rule Cons.IH)
  ultimately show ?case using Cons.IH [of cur] by (cases "real_changes (Some (ch_app x)) xs") auto
qed simp

lemma sessions_apps: "map ev_app_name (sessions xs now ts) = map ch_app xs"
proof (induction xs)
  case (Cons x xs)
  then show ?case by (cases xs) (simp_all add: sessions_def session_event_def create_focus_event_def)
qed (simp add: sessions_def)

text \<open>The instants of the branches do not fall.\<close>

fun ordered :: "nat \<Rightarrow> change list \<Rightarrow> nat \<Rightarrow> bool" where
  "ordered t [] now \<longleftrightarrow> t \<le> now"
| "ordered t (x # xs) now \<longleftrightarrow> t \<le> ch_now x \<and> ch_now x \<le> ch_start x \<and> ordered (ch_start x) xs now"

lemma ordered_earlier: "ordered t xs now \<Longrightarrow> t' \<le> t \<Longrightarrow> ordered t' xs now"
  by (cases xs) auto

lemma ordered_real_changes: "ordered t xs now \<Longrightarrow> ordered t (real_changes cur xs) now"
proof (induction xs arbitrary: t cur)
  case (Cons x xs)
  then have "ordered (ch_start x) (real_changes cur xs) now" "t \<le> ch_start x" by auto
  then have "ordered t (real_changes cur xs) now" by (rule ordered_earlier)
  then show ?case using Cons by (cases "cur = Some (ch_app x)") simp_all
qed simp

lemma ordered_le: "ordered t xs now \<Longrightarrow> t \<le> now"
  by (induction xs arbitrary: t) fastforce+

definition focus_ms :: "CollectorEvent \<Rightarrow> nat" where
  "focus_ms ev = (case ev_payload ev of FocP d \<Rightarrow> unat (duration_ms d) | _ \<Rightarrow> 0)"

lemma session_ms: "focus_ms (session_event x (now, ts)) * 1000000 \<le> now - ch_start x"
proof -
  have "focus_ms (session_event x (now, ts)) \<le> (now - ch_start x) div 1000000"
    by (simp add: focus_ms_def session_event_def create_focus_event_def unsigned_of_nat take_bit_nat_less_eq_self)
  then show ?thesis by (simp add: less_eq_div_iff_mult_less_eq)
qed

lemma sessions_ms:
  "ordered t xs now \<Longrightarrow> (\<Sum>ev\<leftarrow>sessions xs now ts. focus_ms ev) * 1000000 \<le> now - t"
proof (induction xs arbitrary: t)
  case (Cons x xs)
  have t: "t \<le> ch_start x" and rest: "ordered (ch_start x) xs now" using Cons.prems by auto
  show ?case
  proof (cases xs)
    case Nil
    have "now - ch_start x \<le> now - t" using t by (rule diff_le_mono2)
    then show ?thesis using session_ms [of x now ts] Nil by (simp add: sessions_def)
  next
    case (Cons y ys)
    have y: "ordered (ch_now y) xs now" "ch_start x \<le> ch_now y" using rest Cons by auto
    have "(\<Sum>ev\<leftarrow>sessions xs now ts. focus_ms ev) * 1000000 \<le> now - ch_now y" by (rule Cons.IH [OF y(1)])
    moreover have "focus_ms (session_event x (ch_now y, ch_ts y)) * 1000000 \<le> ch_now y - ch_start x" by (rule session_ms)
    moreover have "ch_now y \<le> now" by (rule ordered_le [OF y(1)])
    ultimately show ?thesis using t y(2) unfolding Cons sessions_Cons by (simp add: algebra_simps)
  qed
qed (simp add: sessions_def)

section \<open>The history of the windows\<close>

text \<open>What the events so far, the latest first, say of a window: whether it exists, which application it belongs to,
  whether it is active.\<close>

fun known :: "'i \<Rightarrow> 'i wl_event list \<Rightarrow> bool" where
  "known i [] = False"
| "known i (Toplevel j # h) = (j = i \<or> known i h)"
| "known i (WClosed j # h) = (j \<noteq> i \<and> known i h)"
| "known i (_ # h) = known i h"

fun window_app :: "'i \<Rightarrow> 'i wl_event list \<Rightarrow> string option" where
  "window_app i [] = None"
| "window_app i (Toplevel j # h) = (if j = i then None else window_app i h)"
| "window_app i (AppId j a # h) = (if j = i then Some a else window_app i h)"
| "window_app i (_ # h) = window_app i h"

fun window_active :: "u32 \<Rightarrow> 'i \<Rightarrow> 'i wl_event list \<Rightarrow> bool" where
  "window_active act i [] = False"
| "window_active act i (Toplevel j # h) = (j \<noteq> i \<and> window_active act i h)"
| "window_active act i (State j bytes # h) = (if j = i then act \<in> set (chunks4 bytes) else window_active act i h)"
| "window_active act i (_ # h) = window_active act i h"

text \<open>What should have been reported: the application of an existing, active window at each of its commits.\<close>

fun reports :: "u32 \<Rightarrow> 'i wl_event list \<Rightarrow> string option list" where
  "reports act [] = []"
| "reports act (Done i # h) =
     reports act h @ (if known i h \<and> window_active act i h then [window_app i h] else [])"
| "reports act (_ # h) = reports act h"

definition history_of :: "u32 \<Rightarrow> 'i wl_event list \<Rightarrow> 'i WlrToplevelState \<Rightarrow> bool" where
  "history_of act h st \<longleftrightarrow> wl_sent st = reports act h \<and>
     (\<forall>i. toplevels st i =
       (if known i h then Some \<lparr> tl_app_id = window_app i h, tl_is_activated = window_active act i h \<rparr> else None))"

lemma history_step: "history_of act h st \<Longrightarrow> history_of act (ev # h) (wl_dispatch act (\<lambda>_. True) st ev)"
  by (cases ev) (simp_all add: history_of_def)

lemma history_run: "history_of act h st \<Longrightarrow> history_of act (rev evs @ h) (foldl (wl_dispatch act (\<lambda>_. True)) st evs)"
proof (induction evs arbitrary: h st)
  case (Cons ev evs)
  from Cons.IH [OF history_step [OF Cons.prems]] show ?case by simp
qed simp

lemma history_init: "history_of act [] wlr_init"
  by (simp add: history_of_def wlr_init_def)

lemma listen_dispatched:
  "wlr_listen act room st (map Dispatched batches @ [ListenerShutdown]) =
   ListenerEnded (Inr ()) (foldl (wl_dispatch act room) st (concat batches))"
  by (induction batches arbitrary: st) simp_all

section \<open>Properties\<close>

text \<open>C18: What the Wayland listener reports.  Once connected, with room in its channel, it reports up to the shutdown, in whatever
  batches the events come, exactly this: at each commit of a window that exists and is active at that
  moment, the application that the latest event of this window named, by a definition that only
  looks at the history of events; events of other windows do not matter, an unknown or closed
  window is never reported.\<close>

theorem wlr_reports_exact:
  "\<exists>st. spawn_wlr_toplevel_listener (Inr ()) (Inr ()) (Inr ()) act (\<lambda>_. True) (map Dispatched batches @ [ListenerShutdown]) =
      ListenerEnded (Inr ()) st \<and> wl_sent st = reports act (rev (concat batches)) \<and>
    (\<forall>i. toplevels st i = (if known i (rev (concat batches))
      then Some \<lparr> tl_app_id = window_app i (rev (concat batches)), tl_is_activated = window_active act i (rev (concat batches)) \<rparr>
      else None))"
proof -
  have "history_of act (rev (concat batches)) (foldl (wl_dispatch act (\<lambda>_. True)) wlr_init (concat batches))"
    using history_run [OF history_init [of act], of "concat batches"] by simp
  then show ?thesis
    by (simp add: history_of_def spawn_wlr_toplevel_listener_def wlr_connect_def map_err_def listen_dispatched)
qed

text \<open>C19: Focus sessions.  Tracking that starts with no application and ends with a shutdown reports, to an open channel, exactly
  one event per session, in order: a session starts when the (normalised) application changes,
  repeated reports of the same application do not split it, and it ends at the next change or
  at the shutdown.  Neighbouring events name different applications, and the reported times
  together never exceed the time that passed.\<close>

theorem focus_sessions_exact:
  assumes "ordered t0 xs now"
  shows "\<exists>evs. focus_run (\<lambda>_. True) \<lparr> current_app = None, focus_start = t0 \<rparr> [] 0
      (map changed xs @ ShutdownSignal now (Inr ts) # bs) = Ended (Inr ()) evs \<and>
    evs = sessions (real_changes None xs) now ts \<and> distinct_adj (map ev_app_name evs) \<and>
    (\<Sum>ev\<leftarrow>evs. focus_ms ev) * 1000000 \<le> now - t0"
proof -
  let ?evs = "sessions (real_changes None xs) now ts"
  have "focus_run (\<lambda>_. True) \<lparr> current_app = None, focus_start = t0 \<rparr> [] 0
      (map changed xs @ ShutdownSignal now (Inr ts) # bs) = Ended (Inr ()) ?evs"
  proof (cases xs)
    case Nil
    then show ?thesis by (simp add: sessions_def)
  next
    case (Cons x ys)
    then show ?thesis using focus_run_from [of x "[]" 0 ys now ts bs] by (simp add: Let_def)
  qed
  moreover have "distinct_adj (map ev_app_name ?evs)" unfolding sessions_apps by (rule real_changes_apart)
  moreover have "(\<Sum>ev\<leftarrow>?evs. focus_ms ev) * 1000000 \<le> now - t0"
    by (rule sessions_ms [OF ordered_real_changes [OF assms]])
  ultimately show ?thesis by blast
qed

theorem focus_sessions_exact_witness:
  "\<exists>evs. focus_run (\<lambda>_. True) \<lparr> current_app = None, focus_start = 0 \<rparr> [] 0
      [Changed (Some ''snap.firefox.firefox'') 1 (Inr 10) 2, Changed (Some ''firefox'') 5 (Inr 10) 5,
       Changed None 7 (Inr 10) 8, ShutdownSignal 9 (Inr 11)] = Ended (Inr ()) evs \<and>
     map ev_app_name evs = [''firefox'', ''Unknown'']"
proof -
  let ?xs = "[\<lparr> ch_raw = Some ''snap.firefox.firefox'', ch_now = 1, ch_ts = 10, ch_start = 2 \<rparr>,
    \<lparr> ch_raw = Some ''firefox'', ch_now = 5, ch_ts = 10, ch_start = 5 \<rparr>, \<lparr> ch_raw = None, ch_now = 7, ch_ts = 10, ch_start = 8 \<rparr>]"
  have n: "normalize_app_id (Some ''snap.firefox.firefox'') = ''firefox''" "normalize_app_id (Some ''firefox'') = ''firefox''"
    "normalize_app_id None = ''Unknown''" by code_simp+
  have "ordered 0 ?xs 9" by simp
  from focus_sessions_exact [OF this, of 11 "[]"] show ?thesis by (auto simp: sessions_apps n simp del: focus_run.simps)
qed

end
