(* ===== verification/Gpu_Collector.thy ===== *)
theory Gpu_Collector
  imports Power_Collector Ranking
begin

text \<open>
  \<open>crates/heimwatch-collector/src/gpu/linux\<close>: detection of the graphics cards, the four backends, the
  scan of \<open>/proc/<pid>/fdinfo\<close> and the collector that joins them.  The file system and NVML, the library
  of the NVIDIA backend, are parameters; NVML is absent when its feature is off.
\<close>

section \<open>Sysfs utilities\<close>

text \<open>\<open>fs::read_link\<close> comes beside the operations of \<open>file_sys\<close>.\<close>

record gpu_sys =
  gs_fs :: file_sys
  gs_read_link :: "string \<Rightarrow> col_error + string"

definition read_sysfs_u64 :: "gpu_sys \<Rightarrow> string \<Rightarrow> u64 option" where
  "read_sysfs_u64 g path =
     Option.bind (ok_opt (fs_read (gs_fs g) path)) (\<lambda>s. ok_opt (parse_u64 (trim s)))"

definition read_sysfs_string :: "gpu_sys \<Rightarrow> string \<Rightarrow> string option" where
  "read_sysfs_string g path = map_option trim (ok_opt (fs_read (gs_fs g) path))"

definition find_hwmon_path :: "gpu_sys \<Rightarrow> string \<Rightarrow> string option" where
  "find_hwmon_path g device_path =
     (let hwmon_dir = join device_path ''hwmon'' in
      if fs_exists (gs_fs g) hwmon_dir
      then (case fs_read_dir (gs_fs g) hwmon_dir of
              Inr entries \<Rightarrow> map_option (join hwmon_dir)
                (find (\<lambda>name. strip_prefix ''hwmon'' (utf8_lossy name) \<noteq> None) (List.map_filter ok_opt entries))
            | Inl _ \<Rightarrow> None)
      else None)"

definition read_hwmon_temp_celsius :: "gpu_sys \<Rightarrow> string \<Rightarrow> fl option" where
  "read_hwmon_temp_celsius g hwmon =
     map_option (\<lambda>m. fdiv F32 (of_word F32 m) (Num 1000)) (read_sysfs_u64 g (join hwmon ''temp1_input''))"

definition read_hwmon_power_watts :: "gpu_sys \<Rightarrow> string \<Rightarrow> fl option" where
  "read_hwmon_power_watts g hwmon =
     map_option (\<lambda>u. fdiv F32 (of_word F32 u) (Num 1000000)) (read_sysfs_u64 g (join hwmon ''power1_average''))"

definition read_device_name :: "gpu_sys \<Rightarrow> string \<Rightarrow> string option" where
  "read_device_name g device_path =
     (case read_sysfs_string g (join device_path ''product_name'') of
        Some name \<Rightarrow> Some name
      | None \<Rightarrow> read_sysfs_string g (join device_path ''name''))"

definition read_pci_slot_name :: "gpu_sys \<Rightarrow> string \<Rightarrow> string option" where
  "read_pci_slot_name g device_path =
     Option.bind (ok_opt (fs_read (gs_fs g) (join device_path ''uevent''))) (\<lambda>uevent.
     Option.bind (find (\<lambda>l. strip_prefix ''PCI_SLOT_NAME='' l \<noteq> None) (lines uevent)) (\<lambda>l.
     map_option (\<lambda>(_, v). trim v) (split_once CHR ''='' l)))"

section \<open>Backends\<close>

text \<open>The AMD, the Intel and the generic backend have the same fields.\<close>

record sysfs_backend =
  b_gpu_index :: u32
  b_device_path :: string
  b_pci_address :: string
  b_hwmon_path :: "string option"
  b_name :: string

record 'n NvidiaBackend =
  n_gpu_index :: u32
  n_pci_address :: string
  n_device :: 'n
  n_name :: string

datatype 'n GpuBackend =
    AmdBackend sysfs_backend
  | IntelBackend sysfs_backend
  | GenericBackend sysfs_backend
  | NvidiaBackend "'n NvidiaBackend"

record 'n nvml =
  nvml_init :: "col_error + unit"
  nvml_device_by_index :: "u32 \<Rightarrow> col_error + 'n"
  nvml_name :: "'n \<Rightarrow> col_error + string"
  nvml_utilization :: "'n \<Rightarrow> col_error + u32"
  nvml_memory :: "'n \<Rightarrow> col_error + (u64 \<times> u64)"
  nvml_temperature :: "'n \<Rightarrow> col_error + u32"
  nvml_power_usage :: "'n \<Rightarrow> col_error + u32"
  nvml_graphics_clock :: "'n \<Rightarrow> col_error + u32"
  nvml_memory_clock :: "'n \<Rightarrow> col_error + u32"

definition sysfs_backend_new :: "gpu_sys \<Rightarrow> string \<Rightarrow> u32 \<Rightarrow> string \<Rightarrow> sysfs_backend" where
  "sysfs_backend_new g label idx device_path =
     \<lparr> b_gpu_index = idx, b_device_path = device_path,
       b_pci_address = unwrap_or (read_pci_slot_name g device_path) [],
       b_hwmon_path = find_hwmon_path g device_path,
       b_name = unwrap_or (read_device_name g device_path) (label @ dec (unat idx)) \<rparr>"

definition amd_new :: "gpu_sys \<Rightarrow> u32 \<Rightarrow> string \<Rightarrow> col_error + 'n GpuBackend" where
  "amd_new g idx device_path = Inr (AmdBackend (sysfs_backend_new g ''AMD GPU '' idx device_path))"

definition intel_new :: "gpu_sys \<Rightarrow> u32 \<Rightarrow> string \<Rightarrow> col_error + 'n GpuBackend" where
  "intel_new g idx device_path = Inr (IntelBackend (sysfs_backend_new g ''Intel GPU '' idx device_path))"

definition generic_new :: "gpu_sys \<Rightarrow> u32 \<Rightarrow> string \<Rightarrow> 'n GpuBackend" where
  "generic_new g idx device_path = GenericBackend (sysfs_backend_new g ''GPU '' idx device_path)"

definition nvidia_new :: "'n nvml \<Rightarrow> gpu_sys \<Rightarrow> u32 \<Rightarrow> string \<Rightarrow> col_error + 'n GpuBackend" where
  "nvidia_new N g idx device_path =
     bindR (nvml_init N) (\<lambda>_.
     bindR (nvml_device_by_index N idx) (\<lambda>dev.
     Inr (NvidiaBackend
      \<lparr> n_gpu_index = idx, n_pci_address = unwrap_or (read_pci_slot_name g device_path) [], n_device = dev,
        n_name = unwrap_or (ok_opt (nvml_name N dev)) (''NVIDIA GPU '' @ dec (unat idx)) \<rparr>)))"

definition blank_data :: "u32 \<Rightarrow> GpuVendor \<Rightarrow> string \<Rightarrow> GpuData" where
  "blank_data idx v name =
     \<lparr> gpu_index = idx, vendor = v, gpu_name = name, usage_percent = None, vram_used_bytes = None,
       vram_total_bytes = None, temperature_celsius = None, power_draw_watts = None,
       core_clock_mhz = None, memory_clock_mhz = None \<rparr>"

definition with_hwmon :: "gpu_sys \<Rightarrow> string option \<Rightarrow> GpuData \<Rightarrow> GpuData" where
  "with_hwmon g hwmon_path d =
     (case hwmon_path of
        Some hwmon \<Rightarrow> d\<lparr> temperature_celsius := read_hwmon_temp_celsius g hwmon,
                         power_draw_watts := read_hwmon_power_watts g hwmon \<rparr>
      | None \<Rightarrow> d)"

fun marked_clock :: "string list \<Rightarrow> u32 option" where
  "marked_clock [] = None"
| "marked_clock (line # ls) =
     (if CHR ''*'' \<in> set line
      then (case split_whitespace line of
              _ # p # _ \<Rightarrow>
                (case parse_u32 (trim_end_matches ''Mhz'' p) of
                   Inr mhz \<Rightarrow> Some mhz
                 | Inl _ \<Rightarrow> marked_clock ls)
            | _ \<Rightarrow> marked_clock ls)
      else marked_clock ls)"

definition parse_pp_dpm_clock :: "gpu_sys \<Rightarrow> string \<Rightarrow> string \<Rightarrow> u32 option" where
  "parse_pp_dpm_clock g device_path clock_file =
     Option.bind (ok_opt (fs_read (gs_fs g) (join device_path clock_file))) (\<lambda>content. marked_clock (lines content))"

definition amd_collect :: "gpu_sys \<Rightarrow> sysfs_backend \<Rightarrow> col_error + GpuData" where
  "amd_collect g b =
     (let p = b_device_path b;
          d = (blank_data (b_gpu_index b) Amd (b_name b))
            \<lparr> usage_percent := map_option (of_word F32) (read_sysfs_u64 g (join p ''gpu_busy_percent'')),
              vram_used_bytes := read_sysfs_u64 g (join p ''mem_info_vram_used''),
              vram_total_bytes := read_sysfs_u64 g (join p ''mem_info_vram_total''),
              core_clock_mhz := parse_pp_dpm_clock g p ''pp_dpm_sclk'',
              memory_clock_mhz := parse_pp_dpm_clock g p ''pp_dpm_mclk'' \<rparr>
      in Inr (with_hwmon g (b_hwmon_path b) d))"

definition intel_collect :: "gpu_sys \<Rightarrow> sysfs_backend \<Rightarrow> col_error + GpuData" where
  "intel_collect g b =
     (let gt_path = join (b_device_path b) ''gt/gt0'';
          d = (blank_data (b_gpu_index b) Intel (b_name b))
            \<lparr> core_clock_mhz := map_option ucast (read_sysfs_u64 g (join gt_path ''rps_cur_freq_mhz'')) \<rparr>
      in Inr (with_hwmon g (b_hwmon_path b) d))"

definition generic_collect :: "gpu_sys \<Rightarrow> sysfs_backend \<Rightarrow> col_error + GpuData" where
  "generic_collect g b = Inr (with_hwmon g (b_hwmon_path b) (blank_data (b_gpu_index b) Unknown (b_name b)))"

definition nvidia_collect :: "'n nvml \<Rightarrow> 'n NvidiaBackend \<Rightarrow> col_error + GpuData" where
  "nvidia_collect N b =
     (let dev = n_device b in
      Inr ((blank_data (n_gpu_index b) Nvidia (n_name b))
        \<lparr> usage_percent := map_option (of_word F32) (ok_opt (nvml_utilization N dev)),
          vram_used_bytes := map_option fst (ok_opt (nvml_memory N dev)),
          vram_total_bytes := map_option snd (ok_opt (nvml_memory N dev)),
          temperature_celsius := map_option (of_word F32) (ok_opt (nvml_temperature N dev)),
          power_draw_watts := map_option (\<lambda>mw. fdiv F32 (of_word F32 mw) (Num 1000)) (ok_opt (nvml_power_usage N dev)),
          core_clock_mhz := ok_opt (nvml_graphics_clock N dev),
          memory_clock_mhz := ok_opt (nvml_memory_clock N dev) \<rparr>))"

fun backend_collect :: "'n nvml option \<Rightarrow> gpu_sys \<Rightarrow> 'n GpuBackend \<Rightarrow> col_error + GpuData" where
  "backend_collect N g (AmdBackend b) = amd_collect g b"
| "backend_collect N g (IntelBackend b) = intel_collect g b"
| "backend_collect N g (GenericBackend b) = generic_collect g b"
| "backend_collect (Some N) g (NvidiaBackend b) = nvidia_collect N b"
| "backend_collect None g (NvidiaBackend b) = Inl (Foreign ''nvidia'')"

fun pci_address :: "'n GpuBackend \<Rightarrow> string" where
  "pci_address (AmdBackend b) = b_pci_address b"
| "pci_address (IntelBackend b) = b_pci_address b"
| "pci_address (GenericBackend b) = b_pci_address b"
| "pci_address (NvidiaBackend b) = n_pci_address b"

fun backend_index :: "'n GpuBackend \<Rightarrow> u32" where
  "backend_index (AmdBackend b) = b_gpu_index b"
| "backend_index (IntelBackend b) = b_gpu_index b"
| "backend_index (GenericBackend b) = b_gpu_index b"
| "backend_index (NvidiaBackend b) = n_gpu_index b"

section \<open>Detection\<close>

definition resolve_driver :: "gpu_sys \<Rightarrow> string \<Rightarrow> string option" where
  "resolve_driver g device_path =
     Option.bind (ok_opt (gs_read_link g (join (join device_path ''driver'') ''module''))) (\<lambda>p.
     map_option utf8_lossy (file_name p))"

definition vendor_id_of :: "gpu_sys \<Rightarrow> string \<Rightarrow> u32" where
  "vendor_id_of g device_path =
     (case Option.bind (ok_opt (fs_read (gs_fs g) (join device_path ''vendor''))) (\<lambda>s. strip_prefix ''0x'' (trim s)) of
        Some v \<Rightarrow> unwrap_or (ok_opt (parse_hex_u32 v)) 0xFFFF
      | None \<Rightarrow> 0xFFFF)"

definition or_generic :: "gpu_sys \<Rightarrow> u32 \<Rightarrow> string \<Rightarrow> col_error + 'n GpuBackend \<Rightarrow> 'n GpuBackend" where
  "or_generic g idx device_path r = (case r of Inr b \<Rightarrow> b | Inl _ \<Rightarrow> generic_new g idx device_path)"

definition detect_and_create_backend ::
  "'n nvml option \<Rightarrow> gpu_sys \<Rightarrow> u32 \<Rightarrow> string \<Rightarrow> col_error + 'n GpuBackend option" where
  "detect_and_create_backend N g idx card_path =
     (let device_path = join card_path ''device'' in
      if \<not> fs_exists (gs_fs g) device_path then Inr None
      else
        let vendor_id = vendor_id_of g device_path;
            driver_module = resolve_driver g device_path
        in Inr (Some (
          if vendor_id = 0x1002 \<and> driver_module = Some ''amdgpu''
          then or_generic g idx device_path (amd_new g idx device_path)
          else if vendor_id = 0x8086 \<and> (driver_module = Some ''i915'' \<or> driver_module = Some ''xe'')
          then or_generic g idx device_path (intel_new g idx device_path)
          else case N of
              Some n \<Rightarrow> if vendor_id = 0x10de \<and> driver_module = Some ''nvidia''
                        then or_generic g idx device_path (nvidia_new n g idx device_path)
                        else generic_new g idx device_path
            | None \<Rightarrow> generic_new g idx device_path)))"

definition card_entry :: "string \<Rightarrow> string \<Rightarrow> (u32 \<times> string) option" where
  "card_entry drm_path name =
     (let name_str = utf8_lossy name in
      case strip_prefix ''card'' name_str of
        Some rest \<Rightarrow>
          if CHR ''-'' \<notin> set name_str
          then (case parse_u32 rest of Inr idx \<Rightarrow> Some (idx, join drm_path name) | Inl _ \<Rightarrow> None)
          else None
      | None \<Rightarrow> None)"

definition enumerate_gpus :: "'n nvml option \<Rightarrow> gpu_sys \<Rightarrow> col_error + 'n GpuBackend list" where
  "enumerate_gpus N g =
     (let drm_path = ''/sys/class/drm'' in
      if \<not> fs_exists (gs_fs g) drm_path
      then Inl (Foreign ''/sys/class/drm not found; GPU collection unavailable'')
      else bindR (fs_read_dir (gs_fs g) drm_path) (\<lambda>entries.
        let cards = sort_by (\<lambda>a b. fst a \<le> fst b)
              (List.map_filter (\<lambda>e. Option.bind (ok_opt e) (card_entry drm_path)) entries)
        in Inr (List.map_filter (\<lambda>(idx, path).
             case detect_and_create_backend N g idx path of Inr (Some b) \<Rightarrow> Some b | _ \<Rightarrow> None) cards)))"

section \<open>Per-process use\<close>

record DrmFdStats =
  fd_pdev :: string
  engine_gfx_ns :: "u64 option"
  cycles_gfx :: "u64 option"
  total_cycles_gfx :: "u64 option"
  memory_vram_bytes :: "u64 option"

record ProcessGpuStats =
  ps_pdev :: string
  engine_time :: u64
  total_cycles :: u64
  is_cycles_schema :: bool
  ps_vram_bytes :: u64

text \<open>The products wrap around, as in a release build.\<close>

definition parse_memory_size :: "string \<Rightarrow> u64 option" where
  "parse_memory_size t =
     (let s = trim t in
      case strip_suffix '' KiB'' s of
        Some num \<Rightarrow> map_option (\<lambda>n. n * 1024) (ok_opt (parse_u64 (trim num)))
      | None \<Rightarrow> (case strip_suffix '' MiB'' s of
          Some num \<Rightarrow> map_option (\<lambda>n. n * 1024 * 1024) (ok_opt (parse_u64 (trim num)))
        | None \<Rightarrow> (case strip_suffix '' GiB'' s of
            Some num \<Rightarrow> map_option (\<lambda>n. n * 1024 * 1024 * 1024) (ok_opt (parse_u64 (trim num)))
          | None \<Rightarrow> ok_opt (parse_u64 s))))"

definition fdinfo_line :: "DrmFdStats \<Rightarrow> string \<Rightarrow> DrmFdStats" where
  "fdinfo_line st line =
     (case strip_prefix (''drm-pdev:'' @ [CHR 0x09]) line of
        Some val \<Rightarrow> st\<lparr> fd_pdev := trim val \<rparr>
      | None \<Rightarrow> (case strip_prefix (''drm-engine-gfx:'' @ [CHR 0x09]) line of
          Some val \<Rightarrow> (case strip_suffix '' ns'' val of
              Some ns \<Rightarrow> st\<lparr> engine_gfx_ns := ok_opt (parse_u64 (trim ns)) \<rparr>
            | None \<Rightarrow> st)
        | None \<Rightarrow> (case strip_prefix (''drm-cycles-gfx:'' @ [CHR 0x09]) line of
            Some val \<Rightarrow> st\<lparr> cycles_gfx := ok_opt (parse_u64 (trim val)) \<rparr>
          | None \<Rightarrow> (case strip_prefix (''drm-total-cycles-gfx:'' @ [CHR 0x09]) line of
              Some val \<Rightarrow> st\<lparr> total_cycles_gfx := ok_opt (parse_u64 (trim val)) \<rparr>
            | None \<Rightarrow> (case strip_prefix (''drm-memory-vram:'' @ [CHR 0x09]) line of
                Some val \<Rightarrow> st\<lparr> memory_vram_bytes := parse_memory_size val \<rparr>
              | None \<Rightarrow> st)))))"

definition parse_drm_fdinfo :: "string \<Rightarrow> DrmFdStats option" where
  "parse_drm_fdinfo contents =
     (let st = foldl fdinfo_line
          \<lparr> fd_pdev = [], engine_gfx_ns = None, cycles_gfx = None, total_cycles_gfx = None, memory_vram_bytes = None \<rparr>
          (lines contents)
      in if fd_pdev st = [] then None else Some st)"

definition add_fd :: "DrmFdStats \<Rightarrow> ProcessGpuStats \<Rightarrow> ProcessGpuStats" where
  "add_fd stats e =
     e\<lparr> engine_time := sat_add (engine_time e)
          (unwrap_or (case engine_gfx_ns stats of Some n \<Rightarrow> Some n | None \<Rightarrow> cycles_gfx stats) 0),
        total_cycles := (case total_cycles_gfx stats of Some tc \<Rightarrow> max (total_cycles e) tc | None \<Rightarrow> total_cycles e),
        ps_vram_bytes := (case memory_vram_bytes stats of Some v \<Rightarrow> sat_add (ps_vram_bytes e) v | None \<Rightarrow> ps_vram_bytes e) \<rparr>"

definition fd_step ::
  "string list \<Rightarrow> (string \<times> ProcessGpuStats) list \<Rightarrow> col_error + string \<Rightarrow> (string \<times> ProcessGpuStats) list" where
  "fd_step known by_pdev contents =
     (case Option.bind (ok_opt contents) parse_drm_fdinfo of
        Some stats \<Rightarrow>
          if fd_pdev stats \<notin> set known then by_pdev
          else entry_mod (fd_pdev stats)
            \<lparr> ps_pdev = fd_pdev stats, engine_time = 0, total_cycles = 0,
              is_cycles_schema = (cycles_gfx stats \<noteq> None), ps_vram_bytes = 0 \<rparr>
            (add_fd stats) by_pdev
      | None \<Rightarrow> by_pdev)"

definition fdinfo_app_name :: "gpu_sys \<Rightarrow> u32 \<Rightarrow> string" where
  "fdinfo_app_name g pid =
     (case fs_read (gs_fs g) (''/proc/'' @ dec (unat pid) @ ''/comm'') of
        Inr content \<Rightarrow> trim content
      | Inl _ \<Rightarrow> ''pid:'' @ dec (unat pid))"

definition proc_fdinfo ::
  "gpu_sys \<Rightarrow> (string, ProcessGpuStats) hash_iter \<Rightarrow> string list \<Rightarrow> string \<Rightarrow> (u32 \<times> string \<times> ProcessGpuStats) list" where
  "proc_fdinfo g iter known name =
     (let name_str = utf8_lossy name in
      if \<not> list_all is_digit name_str then []
      else case parse_u32 name_str of
        Inl _ \<Rightarrow> []
      | Inr pid \<Rightarrow>
          let app = fdinfo_app_name g pid;
              dir = ''/proc/'' @ dec (unat pid) @ ''/fdinfo''
          in case fs_read_dir (gs_fs g) dir of
               Inl _ \<Rightarrow> []
             | Inr entries \<Rightarrow>
                 let by_pdev = foldl (fd_step known) []
                       (map (\<lambda>fd. fs_read (gs_fs g) (join dir fd)) (List.map_filter ok_opt entries))
                 in map (\<lambda>(_, stats). (pid, app, stats)) (iter by_pdev))"

definition scan_proc_fdinfo ::
  "gpu_sys \<Rightarrow> (string, ProcessGpuStats) hash_iter \<Rightarrow> string list \<Rightarrow> (u32 \<times> string \<times> ProcessGpuStats) list" where
  "scan_proc_fdinfo g iter known =
     (case fs_read_dir (gs_fs g) ''/proc'' of
        Inl _ \<Rightarrow> []
      | Inr entries \<Rightarrow> concat (map (proc_fdinfo g iter known) (List.map_filter ok_opt entries)))"

section \<open>The collector\<close>

record FdinfoSnapshot =
  fi_engine_time :: u64
  fi_total_cycles :: u64
  fi_is_cycles_schema :: bool

record 'n GpuCollector =
  backends :: "'n GpuBackend list"
  prev_fdinfo :: "(u32 \<times> string) \<rightharpoonup> FdinfoSnapshot"

definition gpu_new :: "'n nvml option \<Rightarrow> gpu_sys \<Rightarrow> col_error + 'n GpuCollector" where
  "gpu_new N g = bindR (enumerate_gpus N g) (\<lambda>bs. Inr \<lparr> backends = bs, prev_fdinfo = Map.empty \<rparr>)"

record AppGpuAgg =
  ag_gpu_index :: u32
  usage_sum :: fl
  usage_count :: u32
  ag_vram_bytes :: u64

definition AppGpuAgg_default :: AppGpuAgg where
  "AppGpuAgg_default = \<lparr> ag_gpu_index = 0, usage_sum = fzero, usage_count = 0, ag_vram_bytes = 0 \<rparr>"

definition FdinfoSnapshot_default :: FdinfoSnapshot where
  "FdinfoSnapshot_default = \<lparr> fi_engine_time = 0, fi_total_cycles = 0, fi_is_cycles_schema = False \<rparr>"

definition percent_of :: "u64 \<Rightarrow> u64 \<Rightarrow> fl" where
  "percent_of part whole = fcast F32 (fmul F64 (fdiv F64 (of_word F64 part) (of_word F64 whole)) (Num 100))"

definition process_usage :: "u64 \<Rightarrow> FdinfoSnapshot \<Rightarrow> ProcessGpuStats \<Rightarrow> fl option" where
  "process_usage interval_ns prev stats =
     (if is_cycles_schema stats
      then let delta_cycles = sat_sub (engine_time stats) (fi_engine_time prev);
               delta_total = sat_sub (total_cycles stats) (fi_total_cycles prev)
           in if 0 < delta_total then Some (percent_of delta_cycles delta_total) else None
      else let delta_ns = sat_sub (engine_time stats) (fi_engine_time prev)
           in if 0 < interval_ns \<and> 0 < delta_ns then Some (percent_of delta_ns interval_ns) else None)"

definition agg_process ::
  "(string \<rightharpoonup> u32) \<Rightarrow> fl option \<Rightarrow> ProcessGpuStats \<Rightarrow> AppGpuAgg \<Rightarrow> AppGpuAgg" where
  "agg_process index_of usage stats agg =
     (let agg1 = (case usage of
            Some u \<Rightarrow> agg\<lparr> usage_sum := fadd F32 (usage_sum agg) u, usage_count := usage_count agg + 1 \<rparr>
          | None \<Rightarrow> agg);
          agg2 = agg1\<lparr> ag_vram_bytes := sat_add (ag_vram_bytes agg1) (ps_vram_bytes stats) \<rparr>
      in case index_of (ps_pdev stats) of Some idx \<Rightarrow> agg2\<lparr> ag_gpu_index := idx \<rparr> | None \<Rightarrow> agg2)"

definition snapshot_of :: "(u32 \<times> string \<times> ProcessGpuStats) list \<Rightarrow> (u32 \<times> string) \<rightharpoonup> FdinfoSnapshot" where
  "snapshot_of ps = foldl (\<lambda>m (pid, _, stats). m((pid, ps_pdev stats) \<mapsto>
     \<lparr> fi_engine_time = engine_time stats, fi_total_cycles = total_cycles stats,
       fi_is_cycles_schema = is_cycles_schema stats \<rparr>)) Map.empty ps"

definition agg_step ::
  "u64 \<Rightarrow> ((u32 \<times> string) \<rightharpoonup> FdinfoSnapshot) \<Rightarrow> (string \<rightharpoonup> u32) \<Rightarrow>
   ((string \<times> string) \<times> AppGpuAgg) list \<Rightarrow> u32 \<times> string \<times> ProcessGpuStats \<Rightarrow> ((string \<times> string) \<times> AppGpuAgg) list" where
  "agg_step interval_ns prev_fd index_of m = (\<lambda>(pid, app, stats).
     let prev = unwrap_or (prev_fd (pid, ps_pdev stats)) FdinfoSnapshot_default;
         usage = process_usage interval_ns prev stats
     in entry_mod (app, ps_pdev stats) AppGpuAgg_default (agg_process index_of usage stats) m)"

definition proc_record :: "u64 \<Rightarrow> (string \<times> string) \<times> AppGpuAgg \<Rightarrow> MetricRecord" where
  "proc_record ts = (\<lambda>((app, _), agg).
     \<lparr> app_name = app, timestamp = ts, payload = GpuProcP
       \<lparr> gp_gpu_index = ag_gpu_index agg,
         gp_usage_percent = (if 0 < usage_count agg then Some (usage_sum agg) else None),
         gp_vram_used_bytes = (if 0 < ag_vram_bytes agg then Some (ag_vram_bytes agg) else None) \<rparr> \<rparr>)"

definition gpu_record :: "u64 \<Rightarrow> GpuData \<Rightarrow> MetricRecord" where
  "gpu_record ts d = \<lparr> app_name = ''gpu:'' @ dec (unat (gpu_index d)), timestamp = ts, payload = GpuP d \<rparr>"

text \<open>What one poll takes from outside.\<close>

record gpu_poll =
  gq_sys :: gpu_sys
  gq_clock :: "unit + u64"
  gq_pdev_iter :: "(string, ProcessGpuStats) hash_iter"
  gq_app_iter :: "(string \<times> string, AppGpuAgg) hash_iter"

definition known_addrs :: "'n GpuCollector \<Rightarrow> (string \<times> u32) list" where
  "known_addrs c = filter (\<lambda>(a, _). a \<noteq> []) (map (\<lambda>b. (pci_address b, backend_index b)) (backends c))"

definition collect_gpus ::
  "'n nvml option \<Rightarrow> u64 \<Rightarrow> 'n GpuCollector \<Rightarrow> gpu_poll \<Rightarrow> (col_error + MetricRecord list) \<times> 'n GpuCollector" where
  "collect_gpus N interval_ns c q =
     (let ts = util_timestamp (gq_clock q);
          gpu_records = List.map_filter (\<lambda>b. map_option (gpu_record ts) (ok_opt (backend_collect N (gq_sys q) b))) (backends c);
          addrs = known_addrs c;
          known_pdevs = map fst addrs
      in if known_pdevs = [] then (Inr gpu_records, c)
         else
           let index_of = map_of (rev addrs);
               ps = scan_proc_fdinfo (gq_sys q) (gq_pdev_iter q) known_pdevs;
               by_app_pdev = foldl (agg_step interval_ns (prev_fdinfo c) index_of) [] ps
           in (Inr (gpu_records @ map (proc_record ts) (gq_app_iter q by_app_pdev)),
               c\<lparr> prev_fdinfo := snapshot_of ps \<rparr>))"

definition is_gpu :: "MetricPayload \<Rightarrow> bool" where
  "is_gpu p = (case p of GpuP _ \<Rightarrow> True | GpuProcP _ \<Rightarrow> True | _ \<Rightarrow> False)"

definition gpu_run ::
  "'n nvml option \<Rightarrow> (nat \<Rightarrow> bool) \<Rightarrow> 'n GpuCollector \<Rightarrow> gpu_poll branch list \<Rightarrow> ('n GpuCollector, col_error) loop_result" where
  "gpu_run N accepts c bs = run_collector_loop (collect_gpus N 5000000000) is_gpu accepts c [] 0 bs"

section \<open>Totals of a poll\<close>

text \<open>The processes of a poll, each with its key, its use since the previous poll and its statistics.\<close>

definition usage_of ::
  "u64 \<Rightarrow> ((u32 \<times> string) \<rightharpoonup> FdinfoSnapshot) \<Rightarrow> u32 \<times> string \<times> ProcessGpuStats \<Rightarrow> fl option" where
  "usage_of interval_ns prev_fd = (\<lambda>(pid, _, stats).
     process_usage interval_ns (unwrap_or (prev_fd (pid, ps_pdev stats)) FdinfoSnapshot_default) stats)"

definition app_pdev :: "u32 \<times> string \<times> ProcessGpuStats \<Rightarrow> string \<times> string" where
  "app_pdev = (\<lambda>(_, app, stats). (app, ps_pdev stats))"

definition vram_of :: "u32 \<times> string \<times> ProcessGpuStats \<Rightarrow> nat" where
  "vram_of = (\<lambda>(_, _, stats). unat (ps_vram_bytes stats))"

lemma agg_step_entry:
  "agg_step iv prev ix = (\<lambda>m p. entry_mod (app_pdev p) AppGpuAgg_default (agg_process ix (usage_of iv prev p) (snd (snd p))) m)"
  by (intro ext) (simp add: agg_step_def app_pdev_def usage_of_def Let_def split: prod.split)

lemma agg_process_fields:
  "ag_vram_bytes (agg_process ix u st a) = sat_add (ag_vram_bytes a) (ps_vram_bytes st)"
  "usage_count (agg_process ix u st a) = usage_count a + of_bool (u \<noteq> None)"
  "usage_sum (agg_process ix u st a) = (case u of None \<Rightarrow> usage_sum a | Some x \<Rightarrow> fadd F32 (usage_sum a) x)"
  by (cases u; cases "ix (ps_pdev st)"; simp add: agg_process_def Let_def)+

lemma agg_fold_fields:
  fixes U :: "u32 \<times> string \<times> ProcessGpuStats \<Rightarrow> fl option" and ix :: "string \<rightharpoonup> u32"
  defines "run \<equiv> foldl (\<lambda>a p. agg_process ix (U p) (snd (snd p)) a)"
  shows "ag_vram_bytes (run a ps) = foldl (\<lambda>v p. sat_add v (ps_vram_bytes (snd (snd p)))) (ag_vram_bytes a) ps"
    and "usage_count (run a ps) = usage_count a + of_nat (length (List.map_filter U ps))"
    and "usage_sum (run a ps) = foldl (fadd F32) (usage_sum a) (List.map_filter U ps)"
  unfolding run_def
  by (induction ps arbitrary: a) (auto simp: agg_process_fields map_filter_simps split: option.split)

lemma agg_fold_vram:
  "unat (ag_vram_bytes (foldl (\<lambda>a p. agg_process ix (U p) (snd (snd p)) a) AppGpuAgg_default ps)) =
     min (\<Sum>p\<leftarrow>ps. vram_of p) (2 ^ 64 - 1)"
  unfolding agg_fold_fields unat_foldl_sat_add
  by (simp add: AppGpuAgg_default_def vram_of_def case_prod_unfold)

lemma agg_fold_index:
  assumes "ps \<noteq> []" and "\<And>p. p \<in> set ps \<Longrightarrow> ix (ps_pdev (snd (snd p))) = Some i"
  shows "ag_gpu_index (foldl (\<lambda>a p. agg_process ix (U p) (snd (snd p)) a) e ps) = i"
  using assms
proof (induction ps arbitrary: e)
  case (Cons p ps)
  have "ag_gpu_index (agg_process ix (U p) (snd (snd p)) e) = i" using Cons.prems(2) [of p] by (simp add: agg_process_def Let_def)
  with Cons show ?case by (cases "ps = []") auto
qed simp

text \<open>The scan reports devices of the given list only.\<close>

lemma fd_step_known:
  assumes "list_all (\<lambda>(k, st). ps_pdev st = k \<and> k \<in> set known) m"
  shows "list_all (\<lambda>(k, st). ps_pdev st = k \<and> k \<in> set known) (fd_step known m x)"
proof -
  have "list_all (\<lambda>(k, st). ps_pdev st = k \<and> k \<in> set known) (entry_mod k d f m)"
    if "list_all (\<lambda>(k, st). ps_pdev st = k \<and> k \<in> set known) m" "ps_pdev d = k" "k \<in> set known"
      "\<And>e. ps_pdev (f e) = ps_pdev e" for k d f and m :: "(string \<times> ProcessGpuStats) list"
    using that by (induction k d f m rule: entry_mod.induct) auto
  from this [OF assms] show ?thesis using assms by (auto simp: fd_step_def add_fd_def split: option.split)
qed

lemma fd_fold_known:
  "list_all (\<lambda>(k, st). ps_pdev st = k \<and> k \<in> set known) m \<Longrightarrow>
   list_all (\<lambda>(k, st). ps_pdev st = k \<and> k \<in> set known) (foldl (fd_step known) m xs)"
  by (induction xs arbitrary: m) (simp_all add: fd_step_known)

lemma scan_known:
  assumes "hash_order iter" and "p \<in> set (scan_proc_fdinfo g iter known)"
  shows "ps_pdev (snd (snd p)) \<in> set known"
proof -
  obtain name where "p \<in> set (proc_fdinfo g iter known name)"
    using assms(2) by (auto simp: scan_proc_fdinfo_def split: sum.splits)
  then obtain xs k st where "(k, st) \<in> set (iter (foldl (fd_step known) [] xs))" "snd (snd p) = st"
    by (auto simp: proc_fdinfo_def Let_def split: if_splits sum.splits)
  then show ?thesis
    using fd_fold_known [of known "[]" xs] hash_order.iter_set [OF assms(1)] by (auto simp: list_all_iff)
qed

text \<open>The record that an application should get for a device.\<close>

definition proc_total ::
  "u64 \<Rightarrow> (string \<rightharpoonup> u32) \<Rightarrow> (u32 \<times> string \<times> ProcessGpuStats \<Rightarrow> fl option) \<Rightarrow>
   (u32 \<times> string \<times> ProcessGpuStats) list \<Rightarrow> string \<times> string \<Rightarrow> MetricRecord" where
  "proc_total ts ix U ps k =
     (let ss = filter (\<lambda>p. app_pdev p = k) ps; us = List.map_filter U ss;
          v = min (\<Sum>p\<leftarrow>ss. vram_of p) (2 ^ 64 - 1)
      in \<lparr> app_name = fst k, timestamp = ts, payload = GpuProcP
           \<lparr> gp_gpu_index = the (ix (snd k)),
             gp_usage_percent = (if us = [] then None else Some (foldl (fadd F32) fzero us)),
             gp_vram_used_bytes = (if v = 0 then None else Some (of_nat v)) \<rparr> \<rparr>)"

lemma length_map_filter_le: "length (List.map_filter f xs) \<le> length xs"
  by (induction xs) (auto simp: map_filter_simps split: option.split)

lemma proc_record_total:
  fixes ps :: "(u32 \<times> string \<times> ProcessGpuStats) list"
  assumes k: "k \<in> app_pdev ` set ps" and len: "length ps < 2 ^ 32"
    and ix: "\<And>p. p \<in> set ps \<Longrightarrow> ix (ps_pdev (snd (snd p))) \<noteq> None"
  shows "proc_record ts (k, foldl (\<lambda>a p. agg_process ix (U p) (snd (snd p)) a) AppGpuAgg_default
      (filter (\<lambda>p. app_pdev p = k) ps)) = proc_total ts ix U ps k"
proof -
  let ?ss = "filter (\<lambda>p. app_pdev p = k) ps"
  let ?a = "foldl (\<lambda>a p. agg_process ix (U p) (snd (snd p)) a) AppGpuAgg_default ?ss"
  let ?us = "List.map_filter U ?ss" and ?v = "min (\<Sum>p\<leftarrow>?ss. vram_of p) (2 ^ 64 - 1)"
  have pd: "ps_pdev (snd (snd p)) = snd k" if "p \<in> set ?ss" for p
    using that by (auto simp: app_pdev_def case_prod_unfold)
  have "?ss \<noteq> []" using k by (auto simp: filter_empty_conv)
  moreover from this obtain p where "p \<in> set ?ss" by (cases ?ss) auto
  then have some: "ix (snd k) = Some (the (ix (snd k)))" using ix [of p] pd [of p] by auto
  ultimately have idx: "ag_gpu_index ?a = the (ix (snd k))"
    by (intro agg_fold_index) (auto simp: pd)
  have "length ?us < 2 ^ 32"
    using length_map_filter_le [of U ?ss] length_filter_le [of "\<lambda>p. app_pdev p = k" ps] len by linarith
  then have "unat (usage_count ?a) = length ?us"
    unfolding agg_fold_fields by (simp add: AppGpuAgg_default_def unat_of_nat)
  then have "0 < unat (usage_count ?a) \<longleftrightarrow> ?us \<noteq> []" by (simp only: length_greater_0_conv)
  then have cnt: "0 < usage_count ?a \<longleftrightarrow> ?us \<noteq> []" by (simp only: unat_gt_0 word_neq_0_conv)
  have v: "unat (ag_vram_bytes ?a) = ?v" by (rule agg_fold_vram)
  have vram: "ag_vram_bytes ?a = of_nat ?v" unfolding v [symmetric] by simp
  have vz: "0 < ag_vram_bytes ?a \<longleftrightarrow> ?v \<noteq> 0" unfolding v [symmetric] by (simp only: word_neq_0_conv [symmetric] unat_gt_0 [symmetric] neq0_conv)
  have sum: "usage_sum ?a = foldl (fadd F32) fzero ?us" unfolding agg_fold_fields(3) by (simp add: AppGpuAgg_default_def)
  have u: "(if 0 < usage_count ?a then Some (usage_sum ?a) else None) = (if ?us = [] then None else Some (foldl (fadd F32) fzero ?us))"
    unfolding cnt sum by simp
  have w: "(if 0 < ag_vram_bytes ?a then Some (ag_vram_bytes ?a) else None) = (if ?v = 0 then None else Some (of_nat ?v))"
    unfolding vz unfolding vram by (cases "?v = 0") (simp_all only: simp_thms if_True if_False)
  show ?thesis unfolding proc_record_def proc_total_def Let_def case_prod_unfold fst_conv snd_conv idx u w ..
qed

text \<open>One poll, in terms of the functions that the collector applies to a process.\<close>

lemma collect_gpus_records:
  assumes "hash_order (gq_app_iter q)" and "hash_order (gq_pdev_iter q)" and "known_addrs c \<noteq> []"
    and ps: "ps = scan_proc_fdinfo (gq_sys q) (gq_pdev_iter q) (map fst (known_addrs c))" and "length ps < 2 ^ 32"
  shows "\<exists>cards keys. distinct keys \<and> set keys = app_pdev ` set ps \<and> list_all (\<lambda>r. rec_type r = Gpu) cards \<and>
    collect_gpus N interval_ns c q =
      (Inr (cards @ map (proc_total (util_timestamp (gq_clock q)) (map_of (rev (known_addrs c)))
         (usage_of interval_ns (prev_fdinfo c)) ps) keys), c\<lparr> prev_fdinfo := snapshot_of ps \<rparr>)"
proof -
  let ?ts = "util_timestamp (gq_clock q)" and ?ix = "map_of (rev (known_addrs c))" and ?U = "usage_of interval_ns (prev_fdinfo c)"
  let ?m = "foldl (agg_step interval_ns (prev_fdinfo c) ?ix) [] ps"
  let ?it = "gq_app_iter q ?m"
  let ?cards = "List.map_filter (\<lambda>b. map_option (gpu_record ?ts) (ok_opt (backend_collect N (gq_sys q) b))) (backends c)"
  have m: "distinct (map fst ?m)" "map_of ?m a = (if a \<in> app_pdev ` set ps
      then Some (foldl (\<lambda>v p. agg_process ?ix (?U p) (snd (snd p)) v) AppGpuAgg_default (filter (\<lambda>p. app_pdev p = a) ps))
      else None)" for a
    unfolding agg_step_entry using fold_entry_mod [of "[]" app_pdev AppGpuAgg_default "\<lambda>p. agg_process ?ix (?U p) (snd (snd p))" ps]
    by (auto simp: image_iff)
  have it: "distinct (map fst ?it)" "set ?it = set ?m"
    using m(1) hash_order.iter_distinct [OF assms(1)] hash_order.iter_set [OF assms(1)] by simp_all
  have keys: "set (map fst ?it) = app_pdev ` set ps"
    using m(2) it(2) by (metis (no_types, lifting) dom_map_of_conv_image_fst domIff list.set_map option.distinct(1) subsetI subset_antisym)
  have ix: "?ix (ps_pdev (snd (snd p))) \<noteq> None" if "p \<in> set ps" for p
    using scan_known [OF assms(2), of p "gq_sys q" "map fst (known_addrs c)"] that
    by (simp add: ps map_of_eq_None_iff)
  have "proc_record ?ts e = proc_total ?ts ?ix ?U ps (fst e)" if "e \<in> set ?it" for e
  proof -
    have "map_of ?m (fst e) = Some (snd e)" using that it(2) m(1) by simp
    moreover have k: "fst e \<in> app_pdev ` set ps" using that keys by auto
    ultimately have "snd e = foldl (\<lambda>v p. agg_process ?ix (?U p) (snd (snd p)) v) AppGpuAgg_default
        (filter (\<lambda>p. app_pdev p = fst e) ps)"
      unfolding m(2) by simp
    then show ?thesis using proc_record_total [where ix = ?ix, OF k assms(5) ix, of ?ts ?U] by (metis prod.collapse)
  qed
  then have "map (proc_record ?ts) ?it = map (proc_total ?ts ?ix ?U ps) (map fst ?it)" by simp
  then have "collect_gpus N interval_ns c q = (Inr (?cards @ map (proc_total ?ts ?ix ?U ps) (map fst ?it)), c\<lparr> prev_fdinfo := snapshot_of ps \<rparr>)"
    using assms(3) by (simp add: collect_gpus_def Let_def ps)
  moreover have "list_all (\<lambda>r. rec_type r = Gpu) ?cards"
    by (auto simp: list_all_iff List.map_filter_def gpu_record_def)
  ultimately show ?thesis using it(1) keys by blast
qed

end
