(* ===== verification/Rust_Format.thy ===== *)
theory Rust_Format
  imports Floats Rust_Text
begin

text \<open>
  What the printing code uses of \<open>std::fmt\<close>, on strings as lists of UTF-8 bytes: decimal output of
  integers and floats with a precision, and padding to a width counted in characters; and the slicing
  of strings, which panics inside a character.
\<close>

section \<open>Padding\<close>

text \<open>The number of characters: every byte that does not continue one.\<close>

definition char_count :: "string \<Rightarrow> nat" where
  "char_count s = length (filter (\<lambda>c. \<not> cont_byte c) s)"

definition fmt_right :: "nat \<Rightarrow> string \<Rightarrow> string" where
  "fmt_right w s = replicate (w - char_count s) (CHR '' '') @ s"

definition fmt_left :: "nat \<Rightarrow> string \<Rightarrow> string" where
  "fmt_left w s = s @ replicate (w - char_count s) (CHR '' '')"

lemma char_count_append [simp]: "char_count (s @ t) = char_count s + char_count t"
  by (simp add: char_count_def)

lemma char_count_spaces [simp]: "char_count (replicate n (CHR '' '')) = n"
  by (simp add: char_count_def byte_in_def)

lemma char_count_padded: "char_count (fmt_right w s) = max w (char_count s)" "char_count (fmt_left w s) = max w (char_count s)"
  by (simp_all add: fmt_right_def fmt_left_def max_def)

section \<open>Numbers\<close>

definition fmt_u :: "'a::len word \<Rightarrow> string" where
  "fmt_u n = dec (unat n)"

text \<open>\<open>{:.p}\<close>: the exact value is rounded to \<open>p\<close> decimals, ties to even; \<open>m\<close> counts units of the last
  decimal.\<close>

definition fixed_digits :: "nat \<Rightarrow> nat \<Rightarrow> string" where
  "fixed_digits p m =
     (if p = 0 then dec m else dec (m div 10 ^ p) @ ''.'' @ pad_left p CHR ''0'' (dec (m mod 10 ^ p)))"

primrec fmt_fixed :: "nat \<Rightarrow> fl \<Rightarrow> string" where
  "fmt_fixed p NaN = ''NaN''"
| "fmt_fixed p PInf = ''inf''"
| "fmt_fixed p NInf = ''-inf''"
| "fmt_fixed p NZero = ''-'' @ fixed_digits p 0"
| "fmt_fixed p (Num q) = (if q < 0 then ''-'' else []) @ fixed_digits p (nat (round_even (\<bar>q\<bar> * 10 ^ p)))"

section \<open>Slices\<close>

definition is_char_boundary :: "string \<Rightarrow> nat \<Rightarrow> bool" where
  "is_char_boundary s i \<longleftrightarrow> i = 0 \<or> i = length s \<or> (i < length s \<and> \<not> cont_byte (s ! i))"

text \<open>\<open>&s[..i]\<close>; \<open>None\<close> is a panic.\<close>

definition slice_to :: "string \<Rightarrow> nat \<Rightarrow> string option" where
  "slice_to s i = (if is_char_boundary s i then Some (take i s) else None)"

text \<open>\<open>"x".repeat(n)\<close>\<close>

definition repeat_str :: "string \<Rightarrow> nat \<Rightarrow> string" where
  "repeat_str s n = concat (replicate n s)"

definition bar :: string where
  "bar = map char_of [0xE2 :: nat, 0x94, 0x80]"

end
