(* ===== verification/Snapshot_Tables.thy ===== *)
theory Snapshot_Tables
  imports Rust_Format Ranking
begin

text \<open>
  The printing half of \<open>crates/heimwatch-daemon/src/snapshot.rs\<close>: the tables of the snapshot commands.  A
  printer returns the arguments of its \<open>println!\<close> calls, or \<open>None\<close> when it panics, which a name can cause
  that is cut inside a character.  The lemmas say exactly when.  Left aside is the sort of the GPU process table: its comparison is
  not a total order when a use is NaN, and then \<open>sort_by\<close> may order the rows in any way or panic.
\<close>

section \<open>Values\<close>

definition format_app_name :: "string \<Rightarrow> nat \<Rightarrow> string option" where
  "format_app_name name max_len = slice_to name (min (length name) max_len)"

definition format_optional_percentage :: "fl option \<Rightarrow> string" where
  "format_optional_percentage val =
     (case val of Some v \<Rightarrow> fmt_right 6 (fmt_fixed 1 v) @ ''%'' | None \<Rightarrow> ''   N/A'')"

definition fmt_bytes :: "u64 \<Rightarrow> string" where
  "fmt_bytes b =
     (if b \<le> 1023 then fmt_right 3 (fmt_u b) @ '' B''
      else if b \<le> 1048575 then fmt_right 6 (fmt_fixed 1 (fdiv F64 (of_word F64 b) (Num 1024))) @ '' KB''
      else if b \<le> 1073741823 then fmt_right 6 (fmt_fixed 1 (fdiv F64 (of_word F64 b) (Num 1048576))) @ '' MB''
      else fmt_right 6 (fmt_fixed 1 (fdiv F64 (of_word F64 b) (Num 1073741824))) @ '' GB'')"

definition fmt_cpu_time_ns :: "u64 \<Rightarrow> string" where
  "fmt_cpu_time_ns ns =
     (let us_per_ns = fdiv F64 (Num 1) (Num 1000);
          ms_per_ns = fdiv F64 (Num 1) (Num 1000000);
          s_per_ns = fdiv F64 (Num 1) (Num 1000000000);
          secs = fmul F64 (of_word F64 ns) s_per_ns
      in if ns \<le> 999999 then fmt_right 6 (fmt_fixed 0 (fmul F64 (of_word F64 ns) us_per_ns)) @ '' us''
         else if ns \<le> 999999999 then fmt_right 6 (fmt_fixed 1 (fmul F64 (of_word F64 ns) ms_per_ns)) @ '' ms''
         else if ns \<le> 59999999999 then fmt_right 6 (fmt_fixed 1 secs) @ '' s''
         else if ns \<le> 3599999999999 then fmt_right 6 (fmt_fixed 1 (fdiv F64 secs (Num 60))) @ '' m''
         else fmt_right 6 (fmt_fixed 2 (fdiv F64 secs (Num 3600))) @ '' h'')"

definition fmt_duration_ms :: "u64 \<Rightarrow> string" where
  "fmt_duration_ms ms =
     (if ms \<le> 999 then fmt_right 4 (fmt_u ms) @ '' ms''
      else if ms \<le> 59999 then fmt_right 6 (fmt_fixed 1 (fdiv F64 (of_word F64 ms) (Num 1000))) @ '' s''
      else if ms \<le> 3599999 then fmt_right 6 (fmt_fixed 1 (fdiv F64 (of_word F64 ms) (Num 60000))) @ '' m''
      else fmt_right 6 (fmt_fixed 2 (fdiv F64 (of_word F64 ms) (Num 3600000))) @ '' h'')"

section \<open>Table frames\<close>

definition nl :: string where "nl = [CHR 0x0A]"

definition table_head :: "string \<Rightarrow> u64 \<Rightarrow> nat \<Rightarrow> string \<Rightarrow> string list" where
  "table_head title window_secs width columns =
     [nl @ ''Heiwatch '' @ title @ '' ('' @ fmt_u window_secs @ ''s window)'',
      repeat_str bar width, ''  '' @ columns, ''  '' @ repeat_str bar (width - 4)]"

text \<open>A table is its head, its rows and its foot; a row that panics ends the program.\<close>

definition with_rows :: "string list \<Rightarrow> string option list \<Rightarrow> string list \<Rightarrow> string list option" where
  "with_rows head rows foot = map_option (\<lambda>rs. head @ rs @ foot) (those rows)"

section \<open>Tables\<close>

definition net_row :: "MetricRecord \<Rightarrow> string option list" where
  "net_row r = (case payload r of
     NetP net \<Rightarrow> [map_option (\<lambda>n. ''  '' @ fmt_left 28 n @ '' '' @ fmt_right 10 (fmt_bytes (tx_bytes net)) @ '' '' @
         fmt_right 10 (fmt_bytes (rx_bytes net))) (format_app_name (app_name r) 28)]
   | _ \<Rightarrow> [])"

fun net_pair :: "MetricPayload \<Rightarrow> (u64 \<times> u64) option" where
  "net_pair (NetP net) = Some (tx_bytes net, rx_bytes net)"
| "net_pair _ = None"

definition print_network_table :: "MetricRecord list \<Rightarrow> u64 \<Rightarrow> string list option" where
  "print_network_table records window_secs =
     (let totals = List.map_filter (net_pair \<circ> payload) records in
      with_rows
       (table_head ''Network Snapshot'' window_secs 52
         (fmt_left 28 ''App'' @ '' '' @ fmt_right 10 ''TX'' @ '' '' @ fmt_right 10 ''RX''))
       (concat (map net_row records))
       [repeat_str bar 52,
        ''  '' @ fmt_left 28 ''Total'' @ '' '' @ fmt_right 10 (fmt_bytes (wsum (map fst totals))) @ '' '' @
          fmt_right 10 (fmt_bytes (wsum (map snd totals))), []])"

fun cpu_pair :: "MetricPayload \<Rightarrow> (u64 \<times> fl) option" where
  "cpu_pair (CpuP cpu) = Some (cpu_time_ns cpu, cpu_usage_percent cpu)"
| "cpu_pair _ = None"

definition key_of :: "('a \<Rightarrow> u64) \<Rightarrow> (MetricPayload \<Rightarrow> 'a option) \<Rightarrow> MetricRecord \<Rightarrow> u64" where
  "key_of f sel r = (case sel (payload r) of Some x \<Rightarrow> f x | None \<Rightarrow> 0)"

definition sort_desc :: "(MetricRecord \<Rightarrow> u64) \<Rightarrow> MetricRecord list \<Rightarrow> MetricRecord list" where
  "sort_desc key records = sort_by (\<lambda>a b. key b \<le> key a) records"

definition cpu_row :: "MetricRecord \<Rightarrow> string option list" where
  "cpu_row r = (case payload r of
     CpuP cpu \<Rightarrow> [map_option (\<lambda>n. ''  '' @ fmt_left 28 n @ '' '' @ fmt_right 18 (fmt_cpu_time_ns (cpu_time_ns cpu)) @ '' '' @
         fmt_right 17 (fmt_fixed 1 (cpu_usage_percent cpu)) @ ''%'') (format_app_name (app_name r) 28)]
   | _ \<Rightarrow> [])"

definition print_cpu_table :: "MetricRecord list \<Rightarrow> u64 \<Rightarrow> string list option" where
  "print_cpu_table records window_secs =
     (let sorted_recs = sort_desc (key_of fst cpu_pair) records;
          totals = List.map_filter (cpu_pair \<circ> payload) sorted_recs
      in with_rows
       (table_head ''CPU Snapshot'' window_secs 70
         (fmt_left 28 ''App'' @ '' '' @ fmt_right 18 ''CPU Time'' @ '' '' @ fmt_right 18 ''Usage %''))
       (concat (map cpu_row sorted_recs))
       [repeat_str bar 70,
        ''  '' @ fmt_left 28 ''Total'' @ '' '' @ fmt_right 18 (fmt_cpu_time_ns (wsum (map fst totals))) @ '' '' @
          fmt_right 17 (fmt_fixed 1 (foldl (fadd F32) fzero (map snd totals))) @ ''%'', []])"

fun disk_pair :: "MetricPayload \<Rightarrow> (u64 \<times> u64) option" where
  "disk_pair (DskP dsk) = Some (read_bytes dsk, write_bytes dsk)"
| "disk_pair _ = None"

definition disk_row :: "MetricRecord \<Rightarrow> string option list" where
  "disk_row r = (case payload r of
     DskP dsk \<Rightarrow> [map_option (\<lambda>n. ''  '' @ fmt_left 28 n @ '' '' @ fmt_right 10 (fmt_bytes (read_bytes dsk)) @ '' '' @
         fmt_right 10 (fmt_bytes (write_bytes dsk))) (format_app_name (app_name r) 28)]
   | _ \<Rightarrow> [])"

definition print_disk_table :: "MetricRecord list \<Rightarrow> u64 \<Rightarrow> string list option" where
  "print_disk_table records window_secs =
     (let sorted_recs = sort_desc (key_of (\<lambda>(r, w). r + w) disk_pair) records;
          totals = List.map_filter (disk_pair \<circ> payload) sorted_recs
      in with_rows
       (table_head ''Disk I/O Snapshot'' window_secs 64
         (fmt_left 28 ''App'' @ '' '' @ fmt_right 10 ''Read'' @ '' '' @ fmt_right 10 ''Write''))
       (concat (map disk_row sorted_recs))
       [repeat_str bar 64,
        ''  '' @ fmt_left 28 ''Total'' @ '' '' @ fmt_right 10 (fmt_bytes (wsum (map fst totals))) @ '' '' @
          fmt_right 10 (fmt_bytes (wsum (map snd totals))), []])"

fun mem_data :: "MetricPayload \<Rightarrow> MemoryData option" where
  "mem_data (MemP mem) = Some mem"
| "mem_data _ = None"

definition mem_row :: "MetricRecord \<Rightarrow> string option list" where
  "mem_row r = (case payload r of
     MemP mem \<Rightarrow> [map_option (\<lambda>n. ''  '' @ fmt_left 28 n @ '' '' @ fmt_right 10 (fmt_bytes (rss_bytes mem)) @ '' '' @
         fmt_right 10 (fmt_bytes (vms_bytes mem)) @ '' '' @ fmt_right 10 (fmt_bytes (swap_bytes mem)) @ '' '' @
         fmt_right 10 (fmt_u (process_count mem))) (format_app_name (app_name r) 28)]
   | _ \<Rightarrow> [])"

definition print_memory_table :: "MetricRecord list \<Rightarrow> u64 \<Rightarrow> string list option" where
  "print_memory_table records window_secs =
     (let sorted_recs = sort_desc (key_of rss_bytes mem_data) records;
          totals = List.map_filter (mem_data \<circ> payload) sorted_recs
      in with_rows
       (table_head ''Memory Usage Snapshot'' window_secs 80
         (fmt_left 28 ''App'' @ '' '' @ fmt_right 10 ''RSS'' @ '' '' @ fmt_right 10 ''VMS'' @ '' '' @
          fmt_right 10 ''Swap'' @ '' '' @ fmt_right 10 ''Procs''))
       (concat (map mem_row sorted_recs))
       [repeat_str bar 80,
        ''  '' @ fmt_left 28 ''Total'' @ '' '' @ fmt_right 10 (fmt_bytes (wsum (map rss_bytes totals))) @ '' '' @
          fmt_right 10 (fmt_bytes (wsum (map vms_bytes totals))) @ '' '' @
          fmt_right 10 (fmt_bytes (wsum (map swap_bytes totals))), []])"

definition focus_row :: "string \<times> u64 \<Rightarrow> string option" where
  "focus_row = (\<lambda>(app, t). map_option (\<lambda>n. ''  '' @ fmt_left 28 n @ '' '' @ fmt_right 20 (fmt_duration_ms t)) (format_app_name app 28))"

definition print_focus_table :: "(string, u64) hash_iter \<Rightarrow> MetricRecord list \<Rightarrow> u64 \<Rightarrow> string list option" where
  "print_focus_table iter records window_secs =
     (let app_totals = foldl focus_totals_step [] records;
          sorted_apps = sort_by (\<lambda>a b. snd b \<le> snd a) (iter app_totals)
      in with_rows
       (table_head ''Focus Time Snapshot'' window_secs 52 (fmt_left 28 ''App'' @ '' '' @ fmt_right 20 ''Focus Time''))
       (map focus_row sorted_apps)
       [repeat_str bar 52,
        ''  '' @ fmt_left 28 ''Total'' @ '' '' @ fmt_right 20 (fmt_duration_ms (wsum (map snd sorted_apps))), []])"

primrec vendor_str :: "GpuVendor \<Rightarrow> string" where
  "vendor_str Nvidia = ''NVIDIA''"
| "vendor_str Amd = ''AMD''"
| "vendor_str Intel = ''Intel''"
| "vendor_str Unknown = ''Unknown''"

definition degree :: string where
  "degree = map char_of [0xC2 :: nat, 0xB0]"

definition gpu_row :: "MetricRecord \<Rightarrow> string option list" where
  "gpu_row r = (case payload r of
     GpuP gpu \<Rightarrow>
       (let usage_str = format_optional_percentage (usage_percent gpu);
            vram_str = (case (vram_used_bytes gpu, vram_total_bytes gpu) of
                (Some used, Some tot) \<Rightarrow> fmt_bytes used @ ''/'' @ fmt_bytes tot
              | _ \<Rightarrow> ''N/A'');
            temp_str = (case temperature_celsius gpu of
                Some t \<Rightarrow> fmt_right 7 (fmt_fixed 1 t) @ degree @ ''C'' | None \<Rightarrow> ''  N/A'');
            clock_str = (case core_clock_mhz gpu of
                Some c \<Rightarrow> fmt_right 6 (fmt_u c) @ '' MHz'' | None \<Rightarrow> ''  N/A'')
        in [map_option (\<lambda>n. ''  '' @ fmt_left 28 n @ '' '' @ fmt_left 8 (vendor_str (vendor gpu)) @ '' '' @
              fmt_right 12 usage_str @ '' '' @ fmt_left 10 vram_str @ '' '' @ fmt_left 10 temp_str @ '' '' @
              fmt_left 14 clock_str) (format_app_name (gpu_name gpu) 28)])
   | _ \<Rightarrow> [])"

definition print_gpu_table :: "MetricRecord list \<Rightarrow> u64 \<Rightarrow> string list option" where
  "print_gpu_table records window_secs =
     with_rows
       (table_head ''GPU Snapshot'' window_secs 100
         (fmt_left 28 ''GPU'' @ '' '' @ fmt_left 8 ''Vendor'' @ '' '' @ fmt_left 12 ''Usage'' @ '' '' @
          fmt_left 10 ''VRAM'' @ '' '' @ fmt_left 10 ''Temp'' @ '' '' @ fmt_left 14 ''Clock''))
       (concat (map gpu_row records)) [repeat_str bar 100, []]"

definition proc_usage :: "MetricRecord \<Rightarrow> fl" where
  "proc_usage r = (case payload r of GpuProcP p \<Rightarrow> unwrap_or (gp_usage_percent p) fzero | _ \<Rightarrow> fzero)"

definition gpu_proc_row :: "MetricRecord \<Rightarrow> string option list" where
  "gpu_proc_row r = (case payload r of
     GpuProcP p \<Rightarrow>
       (let usage_str = (case gp_usage_percent p of
                Some u \<Rightarrow> fmt_right 10 (fmt_fixed 1 u) @ ''%'' | None \<Rightarrow> ''       N/A'');
            vram_str = (case gp_vram_used_bytes p of Some v \<Rightarrow> fmt_bytes v | None \<Rightarrow> ''N/A'')
        in [map_option (\<lambda>n. ''  '' @ fmt_left 28 n @ '' '' @ fmt_left 6 (fmt_u (gp_gpu_index p)) @ '' '' @
              fmt_left 12 usage_str @ '' '' @ fmt_right 12 vram_str) (format_app_name (app_name r) 28)])
   | _ \<Rightarrow> [])"

definition print_gpu_proc_table :: "MetricRecord list \<Rightarrow> u64 \<Rightarrow> string list option" where
  "print_gpu_proc_table records window_secs =
     with_rows
       (table_head ''GPU Per-Process Snapshot'' window_secs 68
         (fmt_left 28 ''App'' @ '' '' @ fmt_left 6 ''GPU'' @ '' '' @ fmt_right 12 ''Usage'' @ '' '' @ fmt_right 12 ''VRAM''))
       (concat (map gpu_proc_row (sort_by (\<lambda>a b. \<not> flt (proc_usage a) (proc_usage b)) records)))
       [repeat_str bar 68, []]"

definition opt_append :: "string list option \<Rightarrow> string list option \<Rightarrow> string list option" where
  "opt_append a b = Option.bind a (\<lambda>x. map_option (\<lambda>y. x @ y) b)"

definition print_snapshot_table ::
  "(string, u64) hash_iter \<Rightarrow> MetricRecord list \<Rightarrow> u64 \<Rightarrow> string list option" where
  "print_snapshot_table iter records window_secs =
     (case records of
        [] \<Rightarrow> Some [nl @ ''  (no data)'', []]
      | first # _ \<Rightarrow>
          (case payload first of
             NetP _ \<Rightarrow> print_network_table records window_secs
           | CpuP _ \<Rightarrow> print_cpu_table records window_secs
           | DskP _ \<Rightarrow> print_disk_table records window_secs
           | MemP _ \<Rightarrow> print_memory_table records window_secs
           | FocP _ \<Rightarrow> print_focus_table iter records window_secs
           | GpuP _ \<Rightarrow>
               (let gpu_records = filter (\<lambda>r. rec_type r = Gpu) records;
                    gpu_proc_records = filter (\<lambda>r. rec_type r = GpuProc) records
                in opt_append
                  (if gpu_records \<noteq> [] then print_gpu_table gpu_records window_secs else Some [])
                  (if gpu_proc_records \<noteq> [] then print_gpu_proc_table gpu_proc_records window_secs else Some []))
           | GpuProcP _ \<Rightarrow> print_gpu_proc_table records window_secs
           | _ \<Rightarrow> Some [''  (unsupported metric type)'']))"

section \<open>The generic table\<close>

text \<open>\<open>table.rs\<close>; its two closures are arguments.\<close>

record TableConfig =
  tc_title :: string
  tc_columns :: "(string \<times> nat) list"
  tc_total_width :: nat
  tc_header_width :: nat

fun join_with :: "string \<Rightarrow> string list \<Rightarrow> string" where
  "join_with sep [] = []"
| "join_with sep [x] = x"
| "join_with sep (x # y # xs) = x @ sep @ join_with sep (y # xs)"

definition print_table ::
  "TableConfig \<Rightarrow> MetricRecord list \<Rightarrow> (MetricRecord list \<Rightarrow> string list list) \<Rightarrow> string list \<Rightarrow> string list" where
  "print_table config records format_rows total_row =
     [nl @ tc_title config, repeat_str bar (tc_total_width config),
      ''  '' @ join_with ''  '' (map fst (tc_columns config)), ''  '' @ repeat_str bar (tc_header_width config)] @
     (if records = [] then [''  (no data)'']
      else map (\<lambda>row. ''  '' @ join_with ''  '' row) (format_rows records) @
           [repeat_str bar (tc_total_width config), ''  '' @ join_with ''  '' total_row]) @ [[]]"

section \<open>When a table panics\<close>

definition cuttable :: "string \<Rightarrow> bool" where
  "cuttable s \<longleftrightarrow> length s \<le> 28 \<or> \<not> cont_byte (s ! 28)"

lemma format_app_name_None: "format_app_name s 28 = None \<longleftrightarrow> \<not> cuttable s"
  by (auto simp: format_app_name_def slice_to_def is_char_boundary_def cuttable_def min_def)

text \<open>The name that a table for records of type \<open>t\<close> prints of a record.\<close>

definition shown_name :: "MetricType \<Rightarrow> MetricRecord \<Rightarrow> string option" where
  "shown_name t r =
     (case payload r of
        GpuP gpu \<Rightarrow> if t = Gpu then Some (gpu_name gpu) else None
      | GpuProcP _ \<Rightarrow> if t = Gpu \<or> t = GpuProc then Some (app_name r) else None
      | PwrP _ \<Rightarrow> None
      | _ \<Rightarrow> if rec_type r = t then Some (app_name r) else None)"

definition panics_on :: "MetricType \<Rightarrow> MetricRecord \<Rightarrow> bool" where
  "panics_on t r = (case shown_name t r of Some n \<Rightarrow> \<not> cuttable n | None \<Rightarrow> False)"

lemma those_None: "those xs = None \<longleftrightarrow> None \<in> set xs"
  by (induction xs) (auto split: option.split)

lemma with_rows_None: "with_rows head rows foot = None \<longleftrightarrow> None \<in> set rows"
  by (simp add: with_rows_def those_None)

lemma rows_panic:
  "None \<in> set (net_row r) \<longleftrightarrow> panics_on Net r" "None \<in> set (cpu_row r) \<longleftrightarrow> panics_on Cpu r"
  "None \<in> set (disk_row r) \<longleftrightarrow> panics_on Dsk r" "None \<in> set (mem_row r) \<longleftrightarrow> panics_on Mem r"
  "None \<in> set (gpu_proc_row r) \<longleftrightarrow> panics_on GpuProc r"
  "rec_type r = Gpu \<Longrightarrow> None \<in> set (gpu_row r) \<longleftrightarrow> panics_on Gpu r"
  by (cases "payload r"; simp add: net_row_def cpu_row_def disk_row_def mem_row_def gpu_row_def gpu_proc_row_def
      panics_on_def shown_name_def Let_def eq_commute [of None] format_app_name_None)+

lemma panics_on_gpu_proc: "rec_type r = GpuProc \<Longrightarrow> panics_on GpuProc r \<longleftrightarrow> panics_on Gpu r"
  by (cases "payload r") (simp_all add: panics_on_def shown_name_def)

lemma panics_on_other: "panics_on Gpu r \<Longrightarrow> rec_type r = Gpu \<or> rec_type r = GpuProc"
  by (cases "payload r") (simp_all add: panics_on_def shown_name_def)

lemma focus_names:
  "set (map fst (foldl focus_totals_step m rs)) = set (map fst m) \<union> {app_name r |r. r \<in> set rs \<and> rec_type r = Foc}"
proof (induction rs arbitrary: m)
  case (Cons r rs)
  have "set (map fst (focus_totals_step m r)) = set (map fst m) \<union> (if rec_type r = Foc then {app_name r} else {})"
    using entry_mod_keys by (cases "payload r") (simp_all add: focus_totals_step_def)
  then show ?case unfolding foldl_Cons Cons by auto
qed simp

lemma print_focus_None:
  assumes "hash_order iter"
  shows "print_focus_table iter rs w = None \<longleftrightarrow> (\<exists>x\<in>set rs. panics_on Foc x)"
proof -
  let ?m = "foldl focus_totals_step [] rs"
  have "print_focus_table iter rs w = None \<longleftrightarrow> (\<exists>e\<in>set ?m. focus_row e = None)"
    unfolding print_focus_table_def Let_def with_rows_None
    by (auto simp: hash_order.iter_set [OF assms] image_iff eq_commute [of None])
  also have "\<dots> \<longleftrightarrow> (\<exists>n\<in>set (map fst ?m). \<not> cuttable n)"
    by (simp add: focus_row_def format_app_name_None case_prod_unfold)
  also have "\<dots> \<longleftrightarrow> (\<exists>r\<in>set rs. rec_type r = Foc \<and> \<not> cuttable (app_name r))"
    unfolding focus_names by auto
  also have "\<dots> \<longleftrightarrow> (\<exists>x\<in>set rs. panics_on Foc x)"
    by (intro bex_cong refl) (auto simp: panics_on_def shown_name_def split: MetricPayload.split)
  finally show ?thesis .
qed

lemma tables_None:
  "print_network_table rs w = None \<longleftrightarrow> (\<exists>x\<in>set rs. panics_on Net x)"
  "print_cpu_table rs w = None \<longleftrightarrow> (\<exists>x\<in>set rs. panics_on Cpu x)"
  "print_disk_table rs w = None \<longleftrightarrow> (\<exists>x\<in>set rs. panics_on Dsk x)"
  "print_memory_table rs w = None \<longleftrightarrow> (\<exists>x\<in>set rs. panics_on Mem x)"
  "print_gpu_proc_table rs w = None \<longleftrightarrow> (\<exists>x\<in>set rs. panics_on GpuProc x)"
  by (simp_all add: print_network_table_def print_cpu_table_def print_disk_table_def print_memory_table_def
      print_gpu_proc_table_def Let_def with_rows_None rows_panic sort_desc_def)

lemma print_gpu_None:
  "(\<And>r. r \<in> set rs \<Longrightarrow> rec_type r = Gpu) \<Longrightarrow> print_gpu_table rs w = None \<longleftrightarrow> (\<exists>x\<in>set rs. panics_on Gpu x)"
  by (simp add: print_gpu_table_def with_rows_None rows_panic)

lemma opt_append_None: "opt_append a b = None \<longleftrightarrow> a = None \<or> b = None"
  by (cases a; simp add: opt_append_def)

text \<open>C37: When a snapshot table panics.  The table of records of the first record's type ends the program with a
  panic exactly when one of the names it prints is longer than 28 bytes and byte 28 lies inside a
  character; names of ASCII text, and all names of at most 28 bytes, are always printed.  (Uses of a graphics card that are NaN are left aside: the
  library may panic when it sorts them.)\<close>

theorem snapshot_table_panics:
  assumes "hash_order iter" and "records = first # rest"
  shows "print_snapshot_table iter records window_secs = None \<longleftrightarrow>
    (\<exists>r\<in>set records. case shown_name (rec_type first) r of Some n \<Rightarrow> 28 < length n \<and> cont_byte (n ! 28) | None \<Rightarrow> False)"
proof -
  have "print_snapshot_table iter records window_secs = None \<longleftrightarrow> (\<exists>r\<in>set records. panics_on (rec_type first) r)"
  proof (cases "payload first")
    case (PwrP d)
    have "\<not> panics_on Pwr r" for r by (cases "payload r") (simp_all add: panics_on_def shown_name_def)
    with PwrP show ?thesis by (simp add: print_snapshot_table_def assms(2))
  next
    case (GpuP d)
    let ?g = "filter (\<lambda>r. rec_type r = Gpu) records" and ?p = "filter (\<lambda>r. rec_type r = GpuProc) records"
    have "print_snapshot_table iter records window_secs = opt_append
        (if ?g \<noteq> [] then print_gpu_table ?g window_secs else Some [])
        (if ?p \<noteq> [] then print_gpu_proc_table ?p window_secs else Some [])"
      using GpuP by (simp add: print_snapshot_table_def assms(2) Let_def)
    moreover have "(if ?g \<noteq> [] then print_gpu_table ?g window_secs else Some []) = None \<longleftrightarrow> (\<exists>r\<in>set ?g. panics_on Gpu r)"
      using print_gpu_None [of ?g window_secs] by (cases "?g = []") simp_all
    moreover have "(if ?p \<noteq> [] then print_gpu_proc_table ?p window_secs else Some []) = None \<longleftrightarrow> (\<exists>r\<in>set ?p. panics_on GpuProc r)"
      using tables_None(5) [of ?p window_secs] by (cases "?p = []") simp_all
    ultimately have "print_snapshot_table iter records window_secs = None \<longleftrightarrow>
        (\<exists>r\<in>set ?g. panics_on Gpu r) \<or> (\<exists>r\<in>set ?p. panics_on GpuProc r)"
      by (simp only: opt_append_None)
    then show ?thesis using GpuP panics_on_gpu_proc panics_on_other by auto
  qed (simp_all add: print_snapshot_table_def assms(2) tables_None print_focus_None [OF assms(1)])
  then show ?thesis unfolding panics_on_def cuttable_def not_le de_Morgan_disj not_not linorder_not_le .
qed

definition w_name :: string where
  "w_name = replicate 27 (CHR ''a'') @ map char_of [0xC3 :: nat, 0xA9]"

definition w_named :: MetricRecord where
  "w_named = \<lparr> app_name = w_name, timestamp = 5, payload = NetP \<lparr> tx_bytes = 2, rx_bytes = 3, connections = 0 \<rparr> \<rparr>"

theorem snapshot_table_panics_witness:
  "utf8_valid w_name \<and> print_snapshot_table rev [w_named] 5 = None"
proof -
  have "utf8_valid w_name" "28 < length w_name" "cont_byte (w_name ! 28)" by code_simp+
  then show ?thesis
    using snapshot_table_panics [OF hash_rev.hash_order_axioms, of "[w_named]" w_named "[]" 5]
    by (simp add: w_named_def shown_name_def)
qed

end
