(* ===== verification/Snapshot.thy ===== *)
theory Snapshot
  imports Snapshot_Tables Gpu_Collector Memory_Collector Storage_Props
begin

text \<open>
  The commands of \<open>crates/heimwatch-daemon/src/snapshot.rs\<close>: observe for a while or query the store, then
  print.  The collectors and the store are those of their theories; what they read from outside, the
  JSON printer and the orders of hash maps are arguments.  Sleeping and logging are left out.
\<close>

datatype snapshot_error =
    WindowZero
  | UnknownMetric
  | Unavailable string col_error
  | CollectError col_error
  | DbRequired
  | DbOpen any_error
  | ClockFailed any_error
  | QueryFailed string any_error
  | JsonFailed any_error

datatype outcome = Printed "string list" | Failed snapshot_error | Panicked

type_synonym json_printer = "MetricRecord list \<Rightarrow> any_error + string"

definition printed :: "string list option \<Rightarrow> outcome" where
  "printed r = (case r of Some ls \<Rightarrow> Printed ls | None \<Rightarrow> Panicked)"

definition format_output ::
  "json_printer \<Rightarrow> (string, u64) hash_iter \<Rightarrow> string \<Rightarrow> MetricRecord list \<Rightarrow> u64 \<Rightarrow> outcome" where
  "format_output pretty iter fmt records window_secs =
     (if fmt = ''json''
      then (case pretty records of Inr s \<Rightarrow> Printed [s] | Inl e \<Rightarrow> Failed (JsonFailed e))
      else printed (print_snapshot_table iter records window_secs))"

definition after :: "snapshot_error + 'a \<Rightarrow> ('a \<Rightarrow> outcome) \<Rightarrow> outcome" where
  "after r f = (case r of Inr x \<Rightarrow> f x | Inl e \<Rightarrow> Failed e)"

section \<open>Snapshots from a collector\<close>

text \<open>What the commands read: the probe object, the clock and the map when the window is over, the
  directory of processes, the graphics cards before and after.\<close>

record 'n snapshot_env =
  sn_object :: "col_error + ebpf_object"
  sn_cores :: "unit + u64"
  sn_clock :: "col_error + u64"
  sn_net :: "PidNetStats bpf_view"
  sn_cpu :: "PidCpuStats bpf_view"
  sn_disk :: "PidDiskStats bpf_view"
  sn_files :: reader
  sn_proc :: "col_error + (col_error + string) list"
  sn_mem_iter :: "(string, MemStats) hash_iter"
  sn_focus_iter :: "(string, u64) hash_iter"
  sn_nvml :: "'n nvml option"
  sn_drm :: gpu_sys
  sn_baseline :: gpu_poll
  sn_poll :: gpu_poll
  sn_pretty :: json_printer

definition show_records :: "'n snapshot_env \<Rightarrow> string \<Rightarrow> u64 \<Rightarrow> MetricRecord list \<Rightarrow> outcome" where
  "show_records E fmt window_secs records = format_output (sn_pretty E) (sn_focus_iter E) fmt records window_secs"

definition run_network_snapshot :: "'n snapshot_env \<Rightarrow> u64 \<Rightarrow> string \<Rightarrow> outcome" where
  "run_network_snapshot E window_secs fmt =
     after (map_err (Unavailable ''Network collection'') (network_new (sn_object E))) (\<lambda>c.
     after (map_err CollectError (fst (collect_network c (sn_clock E) (sn_net E)))) (show_records E fmt window_secs))"

definition window_ns :: "u64 \<Rightarrow> nat" where
  "window_ns window_secs = unat window_secs * 1000000000"

definition run_cpu_snapshot :: "'n snapshot_env \<Rightarrow> u64 \<Rightarrow> string \<Rightarrow> outcome" where
  "run_cpu_snapshot E window_secs fmt =
     after (map_err (Unavailable ''CPU tracking'') (cpu_new (sn_object E) (sn_cores E))) (\<lambda>c.
     after (map_err CollectError (fst (collect_cpu (window_ns window_secs) c (sn_clock E) (sn_cpu E))))
       (show_records E fmt window_secs))"

definition run_disk_snapshot :: "'n snapshot_env \<Rightarrow> u64 \<Rightarrow> string \<Rightarrow> outcome" where
  "run_disk_snapshot E window_secs fmt =
     after (map_err (Unavailable ''Disk I/O tracking'') (disk_new (sn_object E))) (\<lambda>c.
     after (map_err CollectError (fst (collect_disk c (sn_clock E) (sn_disk E)))) (show_records E fmt window_secs))"

definition run_memory_snapshot :: "'n snapshot_env \<Rightarrow> u64 \<Rightarrow> string \<Rightarrow> outcome" where
  "run_memory_snapshot E window_secs fmt =
     after (map_err CollectError (collect_memory (sn_files E) (sn_mem_iter E) (sn_clock E) (sn_proc E)))
       (show_records E fmt window_secs)"

definition run_gpu_snapshot :: "'n snapshot_env \<Rightarrow> u64 \<Rightarrow> string \<Rightarrow> outcome" where
  "run_gpu_snapshot E window_secs fmt =
     after (map_err (Unavailable ''GPU metrics'') (gpu_new (sn_nvml E) (sn_drm E))) (\<lambda>c.
     case collect_gpus (sn_nvml E) 1000000000 c (sn_baseline E) of
       (Inl e, _) \<Rightarrow> Failed (CollectError e)
     | (Inr _, c') \<Rightarrow>
         after (map_err CollectError (fst (collect_gpus (sn_nvml E) (of_nat (window_ns window_secs)) c' (sn_poll E))))
           (show_records E fmt window_secs))"

section \<open>Snapshots from the store\<close>

definition run_focus_snapshot ::
  "'w ext \<Rightarrow> 'd chrono \<Rightarrow> 'n snapshot_env \<Rightarrow> unit + u64 \<Rightarrow> any_error + u64 \<Rightarrow> u64 \<Rightarrow> string \<Rightarrow> string option \<Rightarrow> 'w \<Rightarrow>
   outcome \<times> 'w" where
  "run_focus_snapshot X C E now_clock clock window_secs fmt db w =
     (case db of
        None \<Rightarrow> (Failed DbRequired, w)
      | Some db_path \<Rightarrow>
          (case storage_open X db_path w of
             (Inl e, w1) \<Rightarrow> (Failed (DbOpen e), w1)
           | (Inr _, w1) \<Rightarrow>
               (case current_unix_timestamp now_clock of
                  Inl e \<Rightarrow> (Failed (ClockFailed e), w1)
                | Inr now \<Rightarrow>
                    (case get_metrics_by_type X C clock Foc (sat_sub now window_secs) now w1 of
                       (Inl e, w2) \<Rightarrow> (Failed (QueryFailed ''focus events'' e), w2)
                     | (Inr records, w2) \<Rightarrow> (show_records E fmt window_secs records, w2)))))"

definition run_snapshot ::
  "'w ext \<Rightarrow> 'd chrono \<Rightarrow> 'n snapshot_env \<Rightarrow> unit + u64 \<Rightarrow> any_error + u64 \<Rightarrow> u64 \<Rightarrow> string \<Rightarrow> string \<Rightarrow> string option \<Rightarrow> 'w \<Rightarrow>
   outcome \<times> 'w" where
  "run_snapshot X C E now_clock clock window_secs fmt kind db w =
     (if window_secs = 0 then (Failed WindowZero, w)
      else if kind = ''cpu'' then (run_cpu_snapshot E window_secs fmt, w)
      else if kind = ''disk'' then (run_disk_snapshot E window_secs fmt, w)
      else if kind = ''focus'' then run_focus_snapshot X C E now_clock clock window_secs fmt db w
      else if kind = ''gpu'' then (run_gpu_snapshot E window_secs fmt, w)
      else if kind = ''memory'' then (run_memory_snapshot E window_secs fmt, w)
      else if kind = ''network'' then (run_network_snapshot E window_secs fmt, w)
      else (Failed UnknownMetric, w))"

section \<open>Power\<close>

text \<open>\<open>label.to_lowercase()\<close> is only used on the two ASCII labels, whose lower-case form is an argument here.\<close>

definition power_row :: "nat \<times> AppPowerStats \<Rightarrow> string option" where
  "power_row = (\<lambda>(i, stat).
     let pct = (\<lambda>x. fmt_right 2 (fmt_fixed 0 (fmul F32 x (Num 100))) @ ''%'') in
     map_option (\<lambda>n. ''  '' @ fmt_right 2 (dec (i + 1)) @ ''. '' @ fmt_left 20 n @ '' '' @
         fmt_right 5 (fmt_fixed 1 (power_pct stat)) @ ''%  (CPU: '' @ pct (cpu_contribution stat) @
         '', GPU: '' @ pct (gpu_contribution stat) @ '', Disp: '' @ pct (display_contribution stat) @
         '', Disk: '' @ pct (disk_contribution stat) @ '', Net: '' @ pct (net_contribution stat) @
         '', Mem: '' @ pct (mem_contribution stat) @ '')'')
       (format_app_name (aps_app_name stat) 20))"

definition print_power_section :: "string \<Rightarrow> string \<Rightarrow> AppPowerStats list \<Rightarrow> string list option" where
  "print_power_section label state stats =
     (let head = ''Top Apps by Power Percentage ('' @ label @ ''):'' in
      if stats = [] then Some [head, ''  (no data: not in '' @ state @ '' state during this window)'' @ nl]
      else with_rows [head] (map power_row (List.enumerate 0 stats)) [[]])"

definition print_system_power_summary :: "PowerData \<Rightarrow> string list" where
  "print_system_power_summary pwr =
     [''System Power (latest):'',
      (case battery_percent pwr of Some pct \<Rightarrow> ''  Battery: '' @ fmt_fixed 0 pct @ ''%'' | None \<Rightarrow> ''  Battery: N/A''),
      ''  Charging: '' @ (if charging pwr then ''true'' else ''false''),
      (case rapl_package_watts pwr of Some w \<Rightarrow> ''  RAPL Package: '' @ fmt_fixed 1 w @ ''W'' | None \<Rightarrow> ''  RAPL Package: N/A''),
      []]"

definition print_power_table ::
  "AppPowerStats list \<Rightarrow> AppPowerStats list \<Rightarrow> MetricRecord list \<Rightarrow> u64 \<Rightarrow> string list option" where
  "print_power_table plugged_in battery system_power window_secs =
     opt_append (Some [nl @ ''Power Usage (last '' @ fmt_u window_secs @ ''s)'' @ nl])
       (opt_append (print_power_section ''Plugged In'' ''plugged in'' plugged_in)
       (opt_append (print_power_section ''On Battery'' ''on battery'' battery)
         (Some (case system_power of [] \<Rightarrow> [] | _ # _ \<Rightarrow>
            (case payload (last system_power) of PwrP pwr \<Rightarrow> print_system_power_summary pwr | _ \<Rightarrow> [])))))"

record power_snapshot_env =
  pn_now :: "unit + u64"
  pn_clock :: "nat \<Rightarrow> any_error + u64"
  pn_iter :: "(string, AppMetrics) hash_iter"
  pn_log2 :: "fl \<Rightarrow> fl"
  pn_json :: "u64 \<Rightarrow> AppPowerStats list \<Rightarrow> AppPowerStats list \<Rightarrow> MetricRecord list \<Rightarrow> any_error + string"

definition run_power_snapshot ::
  "'w ext \<Rightarrow> 'd chrono \<Rightarrow> power_snapshot_env \<Rightarrow> u64 \<Rightarrow> string \<Rightarrow> string \<Rightarrow> nat \<Rightarrow> 'w \<Rightarrow> outcome \<times> 'w" where
  "run_power_snapshot X C E window_secs fmt db_path limit w =
     (case storage_open X db_path w of
        (Inl e, w1) \<Rightarrow> (Failed (DbOpen e), w1)
      | (Inr _, w1) \<Rightarrow>
     (case current_unix_timestamp (pn_now E) of
        Inl e \<Rightarrow> (Failed (ClockFailed e), w1)
      | Inr now \<Rightarrow>
     (let start = sat_sub now window_secs in
      case get_top_apps_by_power X C (pn_iter E) (pn_log2 E) (pn_clock E) start now (Some False) limit w1 of
        (Inl e, w2) \<Rightarrow> (Failed (QueryFailed ''power stats (plugged in)'' e), w2)
      | (Inr plugged_in, w2) \<Rightarrow>
     (case get_top_apps_by_power X C (pn_iter E) (pn_log2 E) (\<lambda>i. pn_clock E (7 + i)) start now (Some True) limit w2 of
        (Inl e, w3) \<Rightarrow> (Failed (QueryFailed ''power stats (on battery)'' e), w3)
      | (Inr battery, w3) \<Rightarrow>
     (case get_system_power_history X C (pn_clock E 14) start now w3 of
        (Inl e, w4) \<Rightarrow> (Failed (QueryFailed ''system power history'' e), w4)
      | (Inr system_power, w4) \<Rightarrow>
          (if fmt = ''json''
           then (case pn_json E window_secs plugged_in battery system_power of
                   Inr s \<Rightarrow> Printed [s] | Inl e \<Rightarrow> Failed (JsonFailed e))
           else printed (print_power_table plugged_in battery system_power window_secs), w4))))))"

section \<open>What the commands do to the store\<close>

lemma run_snapshot_zero: "run_snapshot X C E nc cl 0 fmt mt db w = (Failed WindowZero, w)"
  by (simp add: run_snapshot_def)

text \<open>On a healthy store the focus snapshot prints the query's answer and changes nothing.\<close>

lemma run_focus_snapshot_store:
  assumes "store X healthy absw" and "storage_open X db_path w = (Inr (), w1)" and "healthy w1"
    and "holds_all X (absw w1) D"
  shows "\<exists>w2. run_focus_snapshot X C E (Inr now) clock window fmt (Some db_path) w =
      (show_records E fmt window (query_spec C (unwrap_or (ok_opt clock) (- 1)) Foc (sat_sub now window) now D), w2) \<and>
    healthy w2 \<and> absw w2 = absw w1"
proof -
  obtain w2 where "get_metrics_by_type X C clock Foc (sat_sub now window) now w1 =
      (Inr (query_spec C (unwrap_or (ok_opt clock) (- 1)) Foc (sat_sub now window) now D), w2)" "healthy w2" "absw w2 = absw w1"
    using runsD [OF store.run_get_metrics_by_type [OF assms(1,4)] assms(3)] by blast
  then show ?thesis by (simp add: run_focus_snapshot_def assms(2) current_unix_timestamp_def map_err_def)
qed

end
