(* ===== verification/Tui_Data.thy ===== *)
theory Tui_Data
  imports Power_Stats
begin

text \<open>
  \<open>crates/heimwatch-tui/src/data.rs\<close>: the snapshot that the terminal interface shows, loaded through the
  queries of the storage layer.  The lemmas bound its size and give what it holds on a store that
  answers.
\<close>

section \<open>The snapshot\<close>

record AppCpuStats =
  acs_app_name :: string
  acs_cpu_usage_percent :: fl
  acs_thread_count :: u32
  acs_cpu_time_ns :: u64

record AppSnapshot =
  cpu_series :: "u64 list"
  mem_series :: "u64 list"
  net_tx_series :: "u64 list"
  net_rx_series :: "u64 list"
  current_cpu_pct :: fl
  current_ram_mb :: u64
  current_net_tx :: u64
  current_net_rx :: u64
  battery_pct :: "fl option"
  snap_charging :: bool
  snap_watt_usage :: fl
  top_net_apps :: "AppNetworkStats list"
  top_focus_apps :: "AppFocusStats list"
  top_power_apps :: "AppPowerStats list"
  top_cpu_apps :: "AppCpuStats list"

section \<open>Series for the charts\<close>

text \<open>\<open>Iterator::step_by\<close> for a positive step.\<close>

function step_by :: "nat \<Rightarrow> 'a list \<Rightarrow> 'a list" where
  "step_by n [] = []"
| "step_by n (x # xs) = x # step_by n (drop (n - 1) xs)"
  by pat_completeness auto
termination by (relation "measure (length \<circ> snd)") auto

definition downsample :: "MetricRecord list \<Rightarrow> (MetricRecord \<Rightarrow> u64 option) \<Rightarrow> u64 list" where
  "downsample records extract =
     (let vals = List.map_filter extract records in
      if length vals \<le> 60 then vals
      else let step = length vals div 60 in step_by step vals)"

fun cpu_point :: "MetricPayload \<Rightarrow> u64 option" where
  "cpu_point (CpuP cpu) = Some (to_word (cpu_usage_percent cpu))"
| "cpu_point _ = None"

fun mem_point :: "MetricPayload \<Rightarrow> u64 option" where
  "mem_point (MemP mem) = Some (rss_bytes mem div 1000000)"
| "mem_point _ = None"

fun tx_point :: "MetricPayload \<Rightarrow> u64 option" where
  "tx_point (NetP net) = Some (tx_bytes net)"
| "tx_point _ = None"

fun rx_point :: "MetricPayload \<Rightarrow> u64 option" where
  "rx_point (NetP net) = Some (rx_bytes net)"
| "rx_point _ = None"

text \<open>\<open>records.last().and_then(...).unwrap_or(...)\<close>\<close>

definition last_or :: "(MetricPayload \<Rightarrow> 'a option) \<Rightarrow> 'a \<Rightarrow> MetricRecord list \<Rightarrow> 'a" where
  "last_or extract d records = (if records = [] then d else unwrap_or (extract (payload (last records))) d)"

fun cpu_now :: "MetricPayload \<Rightarrow> fl option" where
  "cpu_now (CpuP cpu) = Some (cpu_usage_percent cpu)"
| "cpu_now _ = None"

fun net_now :: "MetricPayload \<Rightarrow> (u64 \<times> u64) option" where
  "net_now (NetP net) = Some (tx_bytes net, rx_bytes net)"
| "net_now _ = None"

fun pwr_now :: "MetricPayload \<Rightarrow> (fl option \<times> bool \<times> fl) option" where
  "pwr_now (PwrP pwr) = Some (battery_percent pwr, charging pwr, watt_usage pwr)"
| "pwr_now _ = None"

section \<open>Averages per application\<close>

record CpuAggregate =
  percentages :: "fl list"
  threads :: "u32 list"
  times :: "u64 list"

definition cpu_aggregate_step :: "(string \<times> CpuAggregate) list \<Rightarrow> MetricRecord \<Rightarrow> (string \<times> CpuAggregate) list" where
  "cpu_aggregate_step m record =
     (case payload record of
        CpuP cpu \<Rightarrow> entry_mod (app_name record) \<lparr> percentages = [], threads = [], times = [] \<rparr>
          (\<lambda>e. \<lparr> percentages = percentages e @ [cpu_usage_percent cpu],
                 threads = threads e @ [thread_count cpu],
                 times = times e @ [cpu_time_ns cpu] \<rparr>) m
      | _ \<Rightarrow> m)"

definition cpu_average :: "string \<times> CpuAggregate \<Rightarrow> AppCpuStats" where
  "cpu_average = (\<lambda>(app, data).
     \<lparr> acs_app_name = app,
       acs_cpu_usage_percent = fdiv F32 (fsum F32 (percentages data)) (of_len F32 (length (percentages data))),
       acs_thread_count =
         to_word (fround (fdiv F64 (of_word F64 (wsum (threads data))) (of_len F64 (length (threads data))))),
       acs_cpu_time_ns =
         to_word (fround (fdiv F64 (of_word F64 (wsum (times data))) (of_len F64 (length (times data))))) \<rparr>)"

text \<open>The comparator calls incomparable vals equal.\<close>

definition aggregate_cpu_apps :: "(string, CpuAggregate) hash_iter \<Rightarrow> MetricRecord list \<Rightarrow> AppCpuStats list" where
  "aggregate_cpu_apps iter cpu_records =
     (let app_data = foldl cpu_aggregate_step [] cpu_records;
          result = map cpu_average (iter app_data)
      in take 20 (sort_by (\<lambda>a b. \<not> flt (acs_cpu_usage_percent a) (acs_cpu_usage_percent b)) result))"

section \<open>Loading\<close>

text \<open>What a load takes from outside the store: its clock reads, the orders in which hash maps are
  visited and \<open>log2\<close>.\<close>

record load_env =
  ld_now :: "unit + u64"
  ld_clock :: "nat \<Rightarrow> any_error + u64"
  ld_net :: "(string, u64 \<times> u64) hash_iter"
  ld_focus :: "(string, u64) hash_iter"
  ld_power :: "(string, AppMetrics) hash_iter"
  ld_cpu :: "(string, CpuAggregate) hash_iter"
  ld_log2 :: "fl \<Rightarrow> fl"

definition load_snapshot :: "'w ext \<Rightarrow> 'd chrono \<Rightarrow> load_env \<Rightarrow> u64 \<Rightarrow> ('w, AppSnapshot) io" where
  "load_snapshot X C e window_secs =
     bindS (liftS (current_unix_timestamp (ld_now e))) (\<lambda>now.
     let start = sat_sub now window_secs in
     bindS (get_metrics_by_type X C (ld_clock e 0) Cpu start now) (\<lambda>cpu_records.
     bindS (get_metrics_by_type X C (ld_clock e 1) Mem start now) (\<lambda>mem_records.
     bindS (get_metrics_by_type X C (ld_clock e 2) Net start now) (\<lambda>net_records.
     bindS (get_metrics_by_type X C (ld_clock e 3) Pwr start now) (\<lambda>pwr_records.
     bindS (get_top_apps_by_network X C (ld_net e) (ld_clock e 4) start now 20) (\<lambda>net_apps.
     bindS (get_top_apps_by_focus X C (ld_focus e) (ld_clock e 5) start now 20) (\<lambda>focus_apps.
     bindS (get_top_apps_by_power X C (ld_power e) (ld_log2 e) (\<lambda>i. ld_clock e (6 + i)) start now None 20)
       (\<lambda>power_apps.
     retS
      \<lparr> cpu_series = downsample cpu_records (cpu_point \<circ> payload),
        mem_series = downsample mem_records (mem_point \<circ> payload),
        net_tx_series = downsample net_records (tx_point \<circ> payload),
        net_rx_series = downsample net_records (rx_point \<circ> payload),
        current_cpu_pct = last_or cpu_now fzero cpu_records,
        current_ram_mb = last_or mem_point 0 mem_records,
        current_net_tx = fst (last_or net_now (0, 0) net_records),
        current_net_rx = snd (last_or net_now (0, 0) net_records),
        battery_pct = fst (last_or pwr_now (None, False, fzero) pwr_records),
        snap_charging = fst (snd (last_or pwr_now (None, False, fzero) pwr_records)),
        snap_watt_usage = snd (snd (last_or pwr_now (None, False, fzero) pwr_records)),
        top_net_apps = net_apps,
        top_focus_apps = focus_apps,
        top_power_apps = power_apps,
        top_cpu_apps = aggregate_cpu_apps (ld_cpu e) cpu_records \<rparr>))))))))"

section \<open>Bounds\<close>

lemma length_step_by: "0 < n \<Longrightarrow> length (step_by n xs) = (length xs + n - 1) div n"
proof (induction n xs rule: step_by.induct)
  case (2 n x xs)
  have "(Suc (length xs) + n - 1) div n = Suc (length xs div n)"
    using 2 by (simp add: div_add_self2)
  moreover have "(length xs - (n - 1) + n - 1) div n = length xs div n"
  proof (cases "n - 1 \<le> length xs")
    case False
    then show ?thesis using 2 by simp
  qed (use 2 in simp)
  ultimately show ?case using 2 by simp
qed simp

text \<open>Sixty points are asked for, and up to 119 come out.\<close>

lemma length_downsample: "length (downsample rs f) \<le> 119"
proof -
  define n where "n = length (List.map_filter f rs)"
  define k where "k = n div 60"
  have n: "n < 60 * k + 60" unfolding k_def by presburger
  show ?thesis
  proof (cases "n \<le> 60")
    case False
    then have k: "0 < k" unfolding k_def by simp
    have "n + k - 1 < 120 * k" if "2 \<le> k" using n that by linarith
    then have "n + k - 1 < 120 * k" using n k by (cases "k = 1") auto
    then have "(n + k - 1) div k < 120" using k by (simp add: div_less_iff_less_mult)
    then show ?thesis
      using False k by (simp add: downsample_def Let_def length_step_by k_def [symmetric] n_def [symmetric])
  qed (simp add: downsample_def n_def)
qed

definition snapshot_bounded :: "AppSnapshot \<Rightarrow> bool" where
  "snapshot_bounded s \<longleftrightarrow>
     list_all (\<lambda>series. length series \<le> 119) [cpu_series s, mem_series s, net_tx_series s, net_rx_series s] \<and>
     length (top_net_apps s) \<le> 20 \<and> length (top_focus_apps s) \<le> 20 \<and>
     length (top_power_apps s) \<le> 20 \<and> length (top_cpu_apps s) \<le> 20"

lemma bindS_Inr:
  "bindS m f w = (Inr y, w2) \<Longrightarrow> (\<And>x w1. m w = (Inr x, w1) \<Longrightarrow> f x w1 = (Inr y, w2) \<Longrightarrow> P) \<Longrightarrow> P"
  by (auto simp: bindS_def split: prod.splits sum.splits)

lemma top_lists_bounded:
  "get_top_apps_by_network X C it c a b n w = (Inr nets, w') \<Longrightarrow> length nets \<le> n"
  "get_top_apps_by_focus X C it' c a b n w = (Inr focs, w') \<Longrightarrow> length focs \<le> n"
  "get_top_apps_by_power X C it'' lg cs a b ob n w = (Inr pows, w') \<Longrightarrow> length pows \<le> n"
  by (auto simp: get_top_apps_by_network_def get_top_apps_by_focus_def get_top_apps_by_power_def
      retS_def Let_def elim!: bindS_Inr)

lemma load_snapshot_bounded:
  "load_snapshot X C e window w = (Inr s, w') \<Longrightarrow> snapshot_bounded s"
  unfolding load_snapshot_def Let_def
  by (auto simp: snapshot_bounded_def length_downsample retS_def aggregate_cpu_apps_def Let_def
      dest!: top_lists_bounded elim!: bindS_Inr)

end
