(* ===== verification/Tui.thy ===== *)
theory Tui
  imports Tui_Data Storage_Props
begin

text \<open>
  \<open>crates/heimwatch-tui/src/app.rs\<close>, \<open>events.rs\<close> and \<open>lib.rs\<close>: the state of the terminal interface, the
  handlers of its events, and the loop that draws, waits and dispatches.  The loop, the loads that
  run in the background and the bounded channel between them form the step relation \<open>tui_step\<close>.
  The terminal (crossterm, ratatui) is a parameter: its events and the outcome of a draw arrive in
  any order.
\<close>

section \<open>Application state\<close>

type_synonym u16 = "16 word"

datatype Tab = Overview | Network | CpuTab | FocusTab | PowerTab

definition Tab_ALL :: "Tab list" where
  "Tab_ALL = [Overview, Network, CpuTab, FocusTab, PowerTab]"

primrec Tab_title :: "Tab \<Rightarrow> string" where
  "Tab_title Overview = ''Overview''"
| "Tab_title Network = ''Network''"
| "Tab_title CpuTab = ''CPU''"
| "Tab_title FocusTab = ''Focus''"
| "Tab_title PowerTab = ''Power''"

fun position_from :: "nat \<Rightarrow> ('a \<Rightarrow> bool) \<Rightarrow> 'a list \<Rightarrow> nat option" where
  "position_from i P [] = None"
| "position_from i P (x # xs) = (if P x then Some i else position_from (Suc i) P xs)"

definition Tab_index :: "Tab \<Rightarrow> nat" where
  "Tab_index t = unwrap_or (position_from 0 (\<lambda>u. u = t) Tab_ALL) 0"

text \<open>\<open>'t\<close> is the type of local times.\<close>

record 't App =
  active_tab :: Tab
  table_scroll :: nat
  visible_height :: u16
  snapshot :: "AppSnapshot option"
  last_refresh :: "'t option"
  db_path :: string
  loading :: bool
  error_message :: "string option"
  should_quit :: bool
  time_window_secs :: u64

definition App_new :: "string \<Rightarrow> 't App" where
  "App_new path =
     \<lparr> active_tab = Overview, table_scroll = 0, visible_height = 10, snapshot = None,
       last_refresh = None, db_path = path, loading = False, error_message = None,
       should_quit = False, time_window_secs = 86400 \<rparr>"

definition next_tab :: "'t App \<Rightarrow> 't App" where
  "next_tab a =
     (let current_idx = Tab_index (active_tab a);
          next_idx = (current_idx + 1) mod length Tab_ALL
      in a\<lparr> active_tab := Tab_ALL ! next_idx, table_scroll := 0 \<rparr>)"

definition prev_tab :: "'t App \<Rightarrow> 't App" where
  "prev_tab a =
     (let current_idx = Tab_index (active_tab a);
          next_idx = (if current_idx = 0 then length Tab_ALL - 1 else current_idx - 1)
      in a\<lparr> active_tab := Tab_ALL ! next_idx, table_scroll := 0 \<rparr>)"

definition current_tab_item_count :: "'t App \<Rightarrow> nat" where
  "current_tab_item_count a =
     (case snapshot a of
        None \<Rightarrow> 0
      | Some snap \<Rightarrow> (case active_tab a of
            Overview \<Rightarrow> length (top_cpu_apps snap)
          | Network \<Rightarrow> length (top_net_apps snap)
          | CpuTab \<Rightarrow> length (top_cpu_apps snap)
          | FocusTab \<Rightarrow> length (top_focus_apps snap)
          | PowerTab \<Rightarrow> length (top_power_apps snap)))"

definition scroll_down :: "'t App \<Rightarrow> 't App" where
  "scroll_down a =
     (let max_scroll = current_tab_item_count a - 1 in
      if table_scroll a < max_scroll then a\<lparr> table_scroll := table_scroll a + 1 \<rparr> else a)"

definition scroll_up :: "'t App \<Rightarrow> 't App" where
  "scroll_up a = a\<lparr> table_scroll := table_scroll a - 1 \<rparr>"

definition quit :: "'t App \<Rightarrow> 't App" where
  "quit a = a\<lparr> should_quit := True \<rparr>"

definition widen_window :: "'t App \<Rightarrow> 't App" where
  "widen_window a =
     (let max_secs = 7 * 24 * 3600 in a\<lparr> time_window_secs := min (time_window_secs a * 2) max_secs \<rparr>)"

definition narrow_window :: "'t App \<Rightarrow> 't App" where
  "narrow_window a = a\<lparr> time_window_secs := max (time_window_secs a div 2) 300 \<rparr>"

definition update_snapshot :: "'t \<Rightarrow> AppSnapshot \<Rightarrow> 't App \<Rightarrow> 't App" where
  "update_snapshot now snap a =
     a\<lparr> snapshot := Some snap, last_refresh := Some now, loading := False, error_message := None,
        table_scroll := 0 \<rparr>"

definition set_error :: "string \<Rightarrow> 't App \<Rightarrow> 't App" where
  "set_error e a = a\<lparr> error_message := Some e, loading := False \<rparr>"

section \<open>Event handlers\<close>

text \<open>Of crossterm's key codes, those that the handler names; \<open>OtherKey\<close> stands for the rest.  The
  modifiers are a set of flags, and the handler compares the whole set.\<close>

datatype KeyCode = Char char | KDown | KUp | KLeft | KRight | KTab | OtherKey

record KeyEvent =
  code :: KeyCode
  modifiers :: u8

definition SHIFT :: u8 where "SHIFT = 1"
definition CONTROL :: u8 where "CONTROL = 2"

datatype AppEvent =
    Key KeyEvent
  | Tick
  | Resize u16 u16
  | DataReady AppSnapshot
  | DataError string

text \<open>A handler returns the new state and the windows of the loads that it spawned.\<close>

definition load_initial_data :: "'t App \<Rightarrow> u64 list" where
  "load_initial_data a = [time_window_secs a]"

definition load_unless_loading :: "'t App \<Rightarrow> 't App \<times> u64 list" where
  "load_unless_loading a =
     (if \<not> loading a then (let a' = a\<lparr> loading := True \<rparr> in (a', load_initial_data a')) else (a, []))"

definition handle_key :: "KeyEvent \<Rightarrow> 't App \<Rightarrow> 't App \<times> u64 list" where
  "handle_key key a =
     (if code key = Char CHR ''q'' \<or> code key = Char CHR ''Q'' then (quit a, [])
      else if code key = Char CHR ''c'' \<and> modifiers key = CONTROL then (quit a, [])
      else if code key = Char CHR ''j'' \<or> code key = KDown then (scroll_down a, [])
      else if code key = Char CHR ''k'' \<or> code key = KUp then (scroll_up a, [])
      else if code key = Char CHR ''h'' \<or> code key = KLeft then (prev_tab a, [])
      else if code key = Char CHR ''l'' \<or> code key = KRight then (next_tab a, [])
      else if code key = KTab \<and> modifiers key = SHIFT then (prev_tab a, [])
      else if code key = KTab then (next_tab a, [])
      else if code key = Char CHR ''r'' \<or> code key = Char CHR ''R'' then load_unless_loading a
      else if code key = Char CHR ''+'' \<or> code key = Char CHR ''='' then load_unless_loading (widen_window a)
      else if code key = Char CHR ''-'' then load_unless_loading (narrow_window a)
      else (a, []))"

fun handle_event :: "'t \<Rightarrow> AppEvent \<Rightarrow> 't App \<Rightarrow> 't App \<times> u64 list" where
  "handle_event now (Key key) a = handle_key key a"
| "handle_event now Tick a = load_unless_loading a"
| "handle_event now (Resize w h) a = (a, [])"
| "handle_event now (DataReady snap) a = (update_snapshot now snap a, [])"
| "handle_event now (DataError err) a = (set_error err a, [])"

section \<open>The loop\<close>

text \<open>Inside one iteration the loop first draws, which sets the visible height from the height of the
  table area, then leaves if asked to, then waits in \<open>select!\<close>.  \<open>Blocked ev\<close> is a loop that awaits room
  in the channel.\<close>

datatype tui_phase = Drawing | Selecting | Blocked AppEvent | Ended "any_error + unit"

record ('w, 't) tui =
  t_app :: "'t App"
  t_world :: 'w
  t_loads :: "u64 list"
  t_channel :: "AppEvent list"
  t_phase :: tui_phase

definition CHANNEL_SIZE :: nat where "CHANNEL_SIZE = 32"

definition tui_start :: "string \<Rightarrow> 'w \<Rightarrow> ('w, 't) tui" where
  "tui_start path w =
     \<lparr> t_app = App_new path, t_world = w, t_loads = load_initial_data (App_new path :: 't App),
       t_channel = [], t_phase = Drawing \<rparr>"

definition draw :: "any_error + u16 \<Rightarrow> ('w, 't) tui \<Rightarrow> ('w, 't) tui" where
  "draw outcome s =
     (case outcome of
        Inl e \<Rightarrow> s\<lparr> t_phase := Ended (Inl e) \<rparr>
      | Inr table_height \<Rightarrow>
          (let a = (t_app s)\<lparr> visible_height := sat_sub table_height 3 \<rparr> in
           s\<lparr> t_app := a, t_phase := (if should_quit a then Ended (Inr ()) else Selecting) \<rparr>))"

definition send :: "AppEvent \<Rightarrow> ('w, 't) tui \<Rightarrow> ('w, 't) tui" where
  "send ev s =
     (if length (t_channel s) < CHANNEL_SIZE
      then s\<lparr> t_channel := t_channel s @ [ev], t_phase := Drawing \<rparr>
      else s\<lparr> t_phase := Blocked ev \<rparr>)"

definition receive :: "'t \<Rightarrow> AppEvent \<Rightarrow> AppEvent list \<Rightarrow> ('w, 't) tui \<Rightarrow> ('w, 't) tui" where
  "receive now ev rest s =
     (let (a, loads) = handle_event now ev (t_app s) in
      s\<lparr> t_app := a, t_loads := t_loads s @ loads, t_channel := rest, t_phase := Drawing \<rparr>)"

text \<open>A background load: the query, then a message to the loop.  \<open>fmt\<close> prints an error.\<close>

definition load_message ::
  "'w ext \<Rightarrow> 'd chrono \<Rightarrow> (any_error \<Rightarrow> string) \<Rightarrow> load_env \<Rightarrow> u64 \<Rightarrow> 'w \<Rightarrow> AppEvent \<times> 'w" where
  "load_message X C fmt e window w =
     (case load_snapshot X C e window w of
        (Inr snap, w') \<Rightarrow> (DataReady snap, w')
      | (Inl err, w') \<Rightarrow> (DataError (''Data load failed: '' @ fmt err), w'))"

inductive tui_step ::
  "'w ext \<Rightarrow> 'd chrono \<Rightarrow> (any_error \<Rightarrow> string) \<Rightarrow> ('w, 't) tui \<Rightarrow> ('w, 't) tui \<Rightarrow> bool"
  for X C fmt where
  drawn: "t_phase s = Drawing \<Longrightarrow> tui_step X C fmt s (draw outcome s)"
| key_pressed: "t_phase s = Selecting \<Longrightarrow> tui_step X C fmt s (send (Key k) s)"
| resized: "t_phase s = Selecting \<Longrightarrow> tui_step X C fmt s (send (Resize w h) s)"
| ignored: "t_phase s = Selecting \<Longrightarrow> tui_step X C fmt s (s\<lparr> t_phase := Drawing \<rparr>)"
| ticked: "t_phase s = Selecting \<Longrightarrow> tui_step X C fmt s (send Tick s)"
| received: "t_phase s = Selecting \<Longrightarrow> t_channel s = ev # rest \<Longrightarrow>
    tui_step X C fmt s (receive now ev rest s)"
| loaded: "t_loads s = before @ window # after \<Longrightarrow> length (t_channel s) < CHANNEL_SIZE \<Longrightarrow>
    load_message X C fmt e window (t_world s) = (ev, w) \<Longrightarrow>
    tui_step X C fmt s (s\<lparr> t_world := w, t_loads := before @ after, t_channel := t_channel s @ [ev] \<rparr>)"
| load_panicked: "t_loads s = before @ window # after \<Longrightarrow> length (t_channel s) < CHANNEL_SIZE \<Longrightarrow>
    tui_step X C fmt s
      (s\<lparr> t_loads := before @ after, t_channel := t_channel s @ [DataError (''Task error: '' @ msg)] \<rparr>)"

inductive_cases tui_stepE: "tui_step X C fmt s s'"

section \<open>Lemmas on the handlers\<close>

lemma next_prev_tab: "active_tab (next_tab (prev_tab a)) = active_tab a" "active_tab (prev_tab (next_tab a)) = active_tab a"
  by (cases "active_tab a"; simp add: next_tab_def prev_tab_def Let_def Tab_index_def Tab_ALL_def unwrap_or_def)+

lemmas app_defs = next_tab_def prev_tab_def scroll_down_def scroll_up_def quit_def widen_window_def
  narrow_window_def update_snapshot_def set_error_def Let_def

definition app_ok :: "'t App \<Rightarrow> bool" where
  "app_ok a \<longleftrightarrow>
     300 \<le> time_window_secs a \<and> time_window_secs a \<le> 604800 \<and>
     (table_scroll a = 0 \<or> table_scroll a < current_tab_item_count a) \<and>
     pred_option snapshot_bounded (snapshot a)"

text \<open>The messages that end a load.\<close>

fun is_data :: "AppEvent \<Rightarrow> bool" where
  "is_data (DataReady s) = True"
| "is_data (DataError e) = True"
| "is_data _ = False"

fun event_ok :: "AppEvent \<Rightarrow> bool" where
  "event_ok (DataReady s) = snapshot_bounded s"
| "event_ok _ = True"

lemma double_window: "(w::u64) \<le> 604800 \<Longrightarrow> 300 \<le> w \<Longrightarrow> 300 \<le> w * 2"
  by (simp add: word_le_nat_alt unat_word_ariths)

lemma half_window: "(w::u64) \<le> 604800 \<Longrightarrow> w div 2 \<le> 604800"
  by (simp add: word_le_nat_alt unat_div)

lemma item_count_updates [simp]:
  "current_tab_item_count (a\<lparr> table_scroll := i \<rparr>) = current_tab_item_count a"
  "current_tab_item_count (a\<lparr> visible_height := h \<rparr>) = current_tab_item_count a"
  "current_tab_item_count (a\<lparr> loading := b \<rparr>) = current_tab_item_count a"
  "current_tab_item_count (a\<lparr> error_message := m \<rparr>) = current_tab_item_count a"
  "current_tab_item_count (a\<lparr> should_quit := q \<rparr>) = current_tab_item_count a"
  "current_tab_item_count (a\<lparr> time_window_secs := t \<rparr>) = current_tab_item_count a"
  by (simp_all add: current_tab_item_count_def cong: option.case_cong Tab.case_cong)

lemma app_ok_updates:
  assumes "app_ok a"
  shows "app_ok (a\<lparr> active_tab := t, table_scroll := 0 \<rparr>)" "app_ok (a\<lparr> loading := b \<rparr>)"
    "app_ok (a\<lparr> visible_height := h \<rparr>)" "app_ok (quit a)" "app_ok (set_error e a)"
    "snapshot_bounded s \<Longrightarrow> app_ok (update_snapshot now s a)"
  using assms by (simp_all add: app_ok_def app_defs)

lemma app_ok_scroll:
  assumes "app_ok a"
  shows "app_ok (scroll_down a)" "app_ok (scroll_up a)"
proof -
  show "app_ok (scroll_down a)" using assms unfolding app_ok_def scroll_down_def Let_def by (simp add: less_diff_conv)
  show "app_ok (scroll_up a)" using assms unfolding app_ok_def scroll_up_def by auto
qed

lemma app_ok_window:
  assumes "app_ok a"
  shows "app_ok (widen_window a)" "app_ok (narrow_window a)"
  using assms double_window [of "time_window_secs a"] half_window [of "time_window_secs a"]
  unfolding app_ok_def widen_window_def narrow_window_def Let_def by (auto simp: min_def max_def)

lemmas app_ok_intros = app_ok_updates app_ok_scroll app_ok_window

lemma app_ok_load: "app_ok a \<Longrightarrow> app_ok (fst (load_unless_loading a))"
  by (simp add: load_unless_loading_def Let_def app_ok_intros)

lemma app_ok_key: "app_ok a \<Longrightarrow> app_ok (fst (handle_key k a))"
  by (simp add: handle_key_def next_tab_def prev_tab_def Let_def app_ok_intros app_ok_load)

lemma app_ok_handle_event: "app_ok a \<Longrightarrow> event_ok ev \<Longrightarrow> app_ok (fst (handle_event now ev a))"
  by (cases ev) (simp_all add: app_ok_key app_ok_load app_ok_intros)

text \<open>A handler turns the loading flag on exactly when it spawns a load.\<close>

lemma load_spawns:
  "length (snd (load_unless_loading a)) + of_bool (loading a) = of_bool (loading (fst (load_unless_loading a)))"
  by (simp add: load_unless_loading_def load_initial_data_def Let_def)

lemma window_loading [simp]: "loading (widen_window a) = loading a" "loading (narrow_window a) = loading a"
  by (simp_all add: app_defs)

lemma key_spawns: "length (snd (handle_key k a)) + of_bool (loading a) = of_bool (loading (fst (handle_key k a)))"
  using load_spawns [of a] load_spawns [of "widen_window a"] load_spawns [of "narrow_window a"]
  by (simp add: handle_key_def app_defs)

lemma event_spawns:
  "\<not> is_data ev \<Longrightarrow>
     length (snd (handle_event now ev a)) + of_bool (loading a) = of_bool (loading (fst (handle_event now ev a)))"
  "is_data ev \<Longrightarrow> snd (handle_event now ev a) = [] \<and> \<not> loading (fst (handle_event now ev a))"
  by (cases ev; simp add: key_spawns load_spawns app_defs)+

section \<open>Invariant of the loop\<close>

text \<open>Loads that run and results that wait in the channel.\<close>

definition in_flight :: "('w, 't) tui \<Rightarrow> nat" where
  "in_flight s = length (t_loads s) + length (filter is_data (t_channel s))"

definition tui_ok :: "('w, 't) tui \<Rightarrow> bool" where
  "tui_ok s \<longleftrightarrow>
     app_ok (t_app s) \<and> list_all event_ok (t_channel s) \<and> length (t_channel s) \<le> CHANNEL_SIZE \<and>
     of_bool (loading (t_app s)) \<le> in_flight s \<and> in_flight s \<le> of_bool (loading (t_app s)) + 1"

lemma tui_ok_start: "tui_ok (tui_start path w)"
  by (simp add: tui_ok_def tui_start_def app_ok_def App_new_def in_flight_def load_initial_data_def)

lemma tui_ok_draw: "tui_ok s \<Longrightarrow> tui_ok (draw outcome s)"
  by (cases outcome; cases "loading (t_app s)") (simp_all add: tui_ok_def draw_def in_flight_def Let_def app_ok_intros)

lemma tui_ok_send: "tui_ok s \<Longrightarrow> \<not> is_data ev \<Longrightarrow> tui_ok (send ev s)"
  by (cases ev) (simp_all add: tui_ok_def send_def in_flight_def)

lemma tui_ok_receive:
  assumes ok: "tui_ok s" and ch: "t_channel s = ev # rest"
  shows "tui_ok (receive now ev rest s)"
proof -
  obtain a ls where h: "handle_event now ev (t_app s) = (a, ls)" by fastforce
  have "app_ok a" using app_ok_handle_event [of "t_app s" ev now] ok ch h by (simp add: tui_ok_def)
  moreover have "of_bool (loading a) \<le> in_flight (receive now ev rest s) \<and>
      in_flight (receive now ev rest s) \<le> of_bool (loading a) + 1"
    using event_spawns [of ev now "t_app s"] ok ch h
    by (cases "is_data ev"; cases "loading (t_app s)") (auto simp: tui_ok_def in_flight_def receive_def)
  ultimately show ?thesis using ok ch h by (simp add: tui_ok_def receive_def)
qed

lemma load_message_data: "load_message X C fmt e window w = (ev, w') \<Longrightarrow> is_data ev \<and> event_ok ev"
  by (auto simp: load_message_def load_snapshot_bounded split: prod.splits sum.splits)

lemma tui_ok_finish:
  assumes "tui_ok s" "t_loads s = before @ window # after" "length (t_channel s) < CHANNEL_SIZE"
    "is_data ev" "event_ok ev"
  shows "tui_ok (s\<lparr> t_loads := before @ after, t_channel := t_channel s @ [ev] \<rparr>)"
  using assms by (simp add: tui_ok_def in_flight_def)

lemma tui_ok_world [simp]: "tui_ok (s\<lparr> t_world := w \<rparr>) = tui_ok s"
  by (simp add: tui_ok_def in_flight_def)

lemma tui_ok_step: "tui_step X C fmt s s' \<Longrightarrow> tui_ok s \<Longrightarrow> tui_ok s'"
proof (induction rule: tui_step.induct)
  case (ignored s)
  then show ?case by (simp add: tui_ok_def in_flight_def)
next
  case (loaded s before window after e ev w)
  then show ?case using tui_ok_finish [of "s\<lparr> t_world := w \<rparr>"] load_message_data by fastforce
qed (simp_all add: tui_ok_draw tui_ok_send tui_ok_receive tui_ok_finish)

lemma tui_ok_reachable: "(tui_step X C fmt)\<^sup>*\<^sup>* (tui_start path w) s \<Longrightarrow> tui_ok s"
  by (induction rule: rtranclp_induct) (auto intro: tui_ok_start tui_ok_step)

text \<open>C17: In every state that the terminal interface can reach, whatever keys, ticks, draws and load
  results come in whatever order: the window is between 5 minutes and 7 days, the scroll position
  is on an entry of the shown table (or 0), the shown lists have at most 20 entries and the series
  at most 119 points, the channel holds at most 32 messages, at most one load is in flight beyond
  the one that the loading flag announces, and while the flag is on a load is in flight, so that
  the flag cannot stay on without a result to come.\<close>

theorem tui_invariant:
  assumes "(tui_step X C fmt)\<^sup>*\<^sup>* (tui_start path w) s"
  shows "300 \<le> time_window_secs (t_app s) \<and> time_window_secs (t_app s) \<le> 604800 \<and>
    (table_scroll (t_app s) = 0 \<or> table_scroll (t_app s) < current_tab_item_count (t_app s)) \<and>
    pred_option snapshot_bounded (snapshot (t_app s)) \<and>
    length (t_channel s) \<le> 32 \<and>
    of_bool (loading (t_app s)) \<le> in_flight s \<and> in_flight s \<le> of_bool (loading (t_app s)) + 1"
  using tui_ok_reachable [OF assms] by (simp add: tui_ok_def app_ok_def CHANNEL_SIZE_def)

definition w_tui :: "(aworld, unit) tui" where
  "w_tui = receive () Tick [] (draw (Inr 24) (send Tick (draw (Inr 24) (tui_start ''db'' w_world))))"

lemma w_tui_reached: "(tui_step (ref_ext w_recs) greg fmt)\<^sup>*\<^sup>* (tui_start ''db'' w_world) w_tui"
proof -
  let ?s0 = "tui_start ''db'' w_world :: (aworld, unit) tui"
  let ?s1 = "draw (Inr 24) ?s0" let ?s2 = "send Tick ?s1" let ?s3 = "draw (Inr 24) ?s2"
  note defs = tui_start_def App_new_def draw_def send_def CHANNEL_SIZE_def Let_def
  have "tui_step (ref_ext w_recs) greg fmt ?s0 ?s1" by (rule drawn) (simp add: defs)
  moreover have "tui_step (ref_ext w_recs) greg fmt ?s1 ?s2" by (rule ticked) (simp add: defs)
  moreover have "tui_step (ref_ext w_recs) greg fmt ?s2 ?s3" by (rule drawn) (simp add: defs)
  moreover have "tui_step (ref_ext w_recs) greg fmt ?s3 w_tui"
    unfolding w_tui_def by (rule received) (simp_all add: defs)
  ultimately show ?thesis by (meson converse_rtranclp_into_rtranclp rtranclp.rtrancl_refl)
qed

theorem tui_invariant_witness:
  "t_loads w_tui = [86400, 86400] \<and> loading (t_app w_tui) \<and> in_flight w_tui \<le> of_bool (loading (t_app w_tui)) + 1"
  using tui_invariant [OF w_tui_reached]
  by (simp add: w_tui_def receive_def load_unless_loading_def load_initial_data_def tui_start_def App_new_def
      draw_def send_def CHANNEL_SIZE_def Let_def)

section \<open>A full channel\<close>

text \<open>The loop itself sends into the channel that only it empties: once the channel is full and another
  key arrives, no step is left.\<close>

lemma blocked_no_step:
  "tui_step X C fmt s s' \<Longrightarrow> t_phase s = Blocked ev \<Longrightarrow> length (t_channel s) = CHANNEL_SIZE \<Longrightarrow> False"
  by (erule tui_stepE) auto

lemma channel_fills:
  fixes X :: "'w ext"
  assumes "n \<le> CHANNEL_SIZE"
  shows "\<exists>s :: ('w, 't) tui. (tui_step X C fmt)\<^sup>*\<^sup>* (tui_start path w) s \<and> t_phase s = Selecting \<and>
    t_channel s = replicate n (Key k) \<and> \<not> should_quit (t_app s)"
  using assms
proof (induction n)
  case 0
  have "tui_step X C fmt (tui_start path w) (draw (Inr h) (tui_start path w))" for h
    by (rule drawn) (simp add: tui_start_def)
  then show ?case by (rule_tac exI [of _ "draw (Inr 0) (tui_start path w)"]) (auto simp: draw_def tui_start_def App_new_def Let_def)
next
  case (Suc n)
  then obtain s :: "('w, 't) tui" where s: "(tui_step X C fmt)\<^sup>*\<^sup>* (tui_start path w) s" "t_phase s = Selecting"
    "t_channel s = replicate n (Key k)" "\<not> should_quit (t_app s)" by auto
  let ?s1 = "send (Key k) s" let ?s2 = "draw (Inr 0) ?s1"
  have p: "t_phase ?s1 = Drawing" "t_channel ?s1 = replicate (Suc n) (Key k)" "t_app ?s1 = t_app s"
    using s Suc.prems by (simp_all add: send_def replicate_append_same)
  have "tui_step X C fmt s ?s1" "tui_step X C fmt ?s1 ?s2"
    using s(2) p(1) by (auto intro: tui_step.intros)
  with s(1) have "(tui_step X C fmt)\<^sup>*\<^sup>* (tui_start path w) ?s2" by auto
  then show ?case using p s(4) by (intro exI [of _ ?s2]) (simp add: draw_def Let_def)
qed

lemma tui_can_block:
  fixes X :: "'w ext"
  shows "\<exists>s :: ('w, 't) tui. (tui_step X C fmt)\<^sup>*\<^sup>* (tui_start path w) s \<and> (\<forall>s'. \<not> tui_step X C fmt s s') \<and>
     \<not> should_quit (t_app s)"
proof -
  obtain s :: "('w, 't) tui" where s: "(tui_step X C fmt)\<^sup>*\<^sup>* (tui_start path w) s" "t_phase s = Selecting"
    "length (t_channel s) = CHANNEL_SIZE" "\<not> should_quit (t_app s)"
    using channel_fills [OF order_refl] by (metis length_replicate)
  let ?s = "send Tick s"
  have b: "t_phase ?s = Blocked Tick" "length (t_channel ?s) = CHANNEL_SIZE" "t_app ?s = t_app s"
    using s(3) by (simp_all add: send_def)
  have "tui_step X C fmt s ?s" using s(2) by (rule ticked)
  with s(1) have "(tui_step X C fmt)\<^sup>*\<^sup>* (tui_start path w) ?s" by auto
  moreover have "\<not> tui_step X C fmt ?s s'" for s' using blocked_no_step b(1,2) by blast
  ultimately show ?thesis using b(3) s(4) by (intro exI [of _ ?s]) simp
qed

end
