(* ===== verification/Tui_View.thy ===== *)
theory Tui_View
  imports Tui Rust_Format
begin

text \<open>
  \<open>crates/heimwatch-tui/src/ui\<close>: what the terminal interface shows.  The widgets of ratatui are data here,
  with the texts, cols and colours that the code gives them; where they end up on the screen is the
  library's work.  A drawing function returns its widgets, or \<open>None\<close> when it panics, which a long name
  can cause that is cut inside a character.
\<close>

section \<open>Widgets\<close>

datatype color = Red | Yellow | Green | Blue | Cyan | DarkGray | Gray | White | Magenta | Plain

type_synonym span = "string \<times> color"

record cell =
  c_text :: string
  c_selected :: bool

datatype widget =
    Paragraph "span list"
  | Tabs "string list" nat
  | Sparkline string "u64 list" u64 color
  | BarChart string "(string \<times> u64) list" u64 color
  | Table string "string list" "cell list list" "nat list"

section \<open>Texts\<close>

definition ellipsis :: string where
  "ellipsis = map char_of [0xE2 :: nat, 0x80, 0xA6]"

definition truncate :: "string \<Rightarrow> nat \<Rightarrow> string option" where
  "truncate s max_len =
     (if max_len < length s then map_option (\<lambda>t. t @ ellipsis) (slice_to s (max_len - 1)) else Some s)"

definition truncate_app_name :: "string \<Rightarrow> string option" where
  "truncate_app_name name =
     (if 12 < length name then map_option (\<lambda>t. t @ ellipsis) (slice_to name 11) else Some name)"

definition tui_fmt_bytes :: "u64 \<Rightarrow> string" where
  "tui_fmt_bytes n =
     (if n < 1024 then fmt_u n @ '' B''
      else if n < 1048576 then fmt_fixed 1 (fdiv F64 (of_word F64 n) (Num 1024)) @ '' KB''
      else if n < 1073741824 then fmt_fixed 1 (fdiv F64 (of_word F64 n) (Num 1048576)) @ '' MB''
      else fmt_fixed 1 (fdiv F64 (of_word F64 n) (Num 1073741824)) @ '' GB'')"

definition format_duration_ms :: "u64 \<Rightarrow> string" where
  "format_duration_ms ms =
     (let seconds = ms div 1000; minutes = seconds div 60; hours = minutes div 60; days = hours div 24 in
      if 0 < days then fmt_u days @ '' days''
      else if 0 < hours then fmt_u hours @ ''h '' @ fmt_u (minutes mod 60) @ ''m''
      else if 0 < minutes then fmt_u minutes @ ''m''
      else fmt_u seconds @ ''s'')"

section \<open>Header, tabs and status\<close>

definition kib_rate :: "u64 \<Rightarrow> string" where
  "kib_rate n = fmt_fixed 1 (fdiv F32 (of_word F32 n) (Num 1024))"

definition draw_header :: "'t App \<Rightarrow> widget" where
  "draw_header a = Paragraph (case snapshot a of
     Some s \<Rightarrow>
       (let cpu = current_cpu_pct s;
            cpu_color = (if flt (Num 80) cpu then Red else if flt (Num 50) cpu then Yellow else Green);
            battery = (case battery_pct s of
                Some pct \<Rightarrow> ''Battery: '' @ fmt_fixed 0 pct @ ''%'' @
                  (if snap_charging s then ''  '' @ map char_of [0xE2 :: nat, 0x9A, 0xA1] else [])
              | None \<Rightarrow> ''Battery: N/A'')
        in [('' CPU: '' @ fmt_fixed 1 cpu @ ''% '', cpu_color),
            (''  RAM: '' @ kib_rate (current_ram_mb s) @ '' GB '', Blue),
            (''  TX: '' @ kib_rate (current_net_tx s) @ '' KB/s '', Cyan),
            (''  RX: '' @ kib_rate (current_net_rx s) @ '' KB/s '', Cyan),
            (''  '' @ battery @ '' '', if snap_charging s then Green else Yellow)])
   | None \<Rightarrow> [('' Connecting...'', DarkGray)])"

definition draw_tabs :: "'t App \<Rightarrow> widget" where
  "draw_tabs a = Tabs (map Tab_title Tab_ALL) (Tab_index (active_tab a))"

text \<open>\<open>clock_text\<close> prints a local time as \<open>%H:%M:%S\<close>.\<close>

definition em_dash :: string where
  "em_dash = map char_of [0xE2 :: nat, 0x80, 0x94]"

definition draw_status :: "('t \<Rightarrow> string) \<Rightarrow> 't App \<Rightarrow> widget" where
  "draw_status clock_text a =
     Paragraph
      [if loading a then ('' DB: '' @ db_path a @ ''   Loading... '', Yellow)
       else ('' DB: '' @ db_path a @ ''   Last: '' @
              (case last_refresh a of Some t \<Rightarrow> clock_text t | None \<Rightarrow> em_dash) @ ''   '', Plain),
       (''[q]uit  [h/l]tabs  [j/k]scroll  [r]efresh  [+/-]window  '', Plain)]"

section \<open>Charts\<close>

definition max_or :: "u64 \<Rightarrow> u64 list \<Rightarrow> u64" where
  "max_or d xs = (if xs = [] then d else Max (set xs))"

definition draw_overview_chart :: "AppSnapshot \<Rightarrow> widget list" where
  "draw_overview_chart s =
     [Sparkline '' CPU % '' (cpu_series s) 100 Yellow,
      Sparkline '' RAM (MB) '' (mem_series s) (max_or 100 (mem_series s)) Blue]"

definition draw_network_chart :: "AppSnapshot \<Rightarrow> widget list" where
  "draw_network_chart s =
     [Sparkline '' TX (bytes) '' (net_tx_series s) (max_or 100 (net_tx_series s)) Cyan,
      Sparkline '' RX (bytes) '' (net_rx_series s) (max_or 100 (net_rx_series s)) Cyan]"

definition bars_of :: "('a \<Rightarrow> string) \<Rightarrow> ('a \<Rightarrow> u64) \<Rightarrow> 'a list \<Rightarrow> (string \<times> u64) list option" where
  "bars_of name val apps = those (map (\<lambda>x. map_option (\<lambda>n. (n, val x)) (truncate_app_name (name x))) (take 10 apps))"

definition bar_chart :: "string \<Rightarrow> ((string \<times> u64) list \<Rightarrow> u64) \<Rightarrow> color \<Rightarrow> (string \<times> u64) list \<Rightarrow> widget list" where
  "bar_chart title mx col bars =
     (if bars = [] then [Paragraph [(''No data'', Plain)]] else [BarChart title bars (mx bars) col])"

definition draw_cpu_chart :: "AppSnapshot \<Rightarrow> widget list option" where
  "draw_cpu_chart s = map_option (bar_chart '' CPU % '' (\<lambda>_. 100) Yellow)
     (bars_of acs_app_name (\<lambda>x. min (to_word (acs_cpu_usage_percent x)) 100) (top_cpu_apps s))"

definition draw_focus_chart :: "AppSnapshot \<Rightarrow> widget list option" where
  "draw_focus_chart s = map_option (bar_chart '' Focus (minutes) '' (\<lambda>bars. max (max_or 100 (map snd bars)) 1) Green)
     (bars_of afs_app_name (\<lambda>x. total_duration_ms x div 60000) (top_focus_apps s))"

definition draw_power_chart :: "AppSnapshot \<Rightarrow> widget list option" where
  "draw_power_chart s = map_option (bar_chart '' Power % '' (\<lambda>_. 100) Magenta)
     (bars_of aps_app_name (\<lambda>x. min (to_word (power_pct x)) 100) (top_power_apps s))"

definition draw_chart :: "'t App \<Rightarrow> widget list option" where
  "draw_chart a = (case snapshot a of
     None \<Rightarrow> Some [Paragraph [(''No data '' @ em_dash @ '' waiting for refresh...'', DarkGray)]]
   | Some s \<Rightarrow> (case active_tab a of
       Overview \<Rightarrow> Some (draw_overview_chart s)
     | Network \<Rightarrow> Some (draw_network_chart s)
     | CpuTab \<Rightarrow> draw_cpu_chart s
     | FocusTab \<Rightarrow> draw_focus_chart s
     | PowerTab \<Rightarrow> draw_power_chart s))"

section \<open>Tables\<close>

text \<open>The rows of a table: the entries from the scroll position on, the first of them selected.\<close>

definition build_rows ::
  "('a \<Rightarrow> string) \<Rightarrow> nat \<Rightarrow> ('a \<Rightarrow> string list) \<Rightarrow> 'a list \<Rightarrow> nat \<Rightarrow> u16 \<Rightarrow> cell list list option" where
  "build_rows name width cols apps scroll height =
     those (map (\<lambda>(i, x).
        let sel = (i = 0 \<and> scroll < length apps) in
        map_option (\<lambda>n. map (\<lambda>t. \<lparr> c_text = t, c_selected = sel \<rparr>) (n # cols x)) (truncate (name x) width))
       (List.enumerate 0 (take (unat height) (drop scroll apps))))"

definition percent_text :: "fl \<Rightarrow> string" where
  "percent_text x = fmt_fixed 1 x @ ''%''"

definition up_arrow :: string where "up_arrow = map char_of [0xE2 :: nat, 0x86, 0x91]"
definition down_arrow :: string where "down_arrow = map char_of [0xE2 :: nat, 0x86, 0x93]"

definition overview_values :: "AppSnapshot \<Rightarrow> AppCpuStats \<Rightarrow> string list" where
  "overview_values s x =
     (let (tx, rx) = (case find (\<lambda>n. ans_app_name n = acs_app_name x) (top_net_apps s) of
            Some n \<Rightarrow> (ans_tx_bytes n, ans_rx_bytes n) | None \<Rightarrow> (0, 0));
          memory_mb = current_ram_mb s div of_nat (max (length (top_cpu_apps s)) 1)
      in [percent_text (acs_cpu_usage_percent x), fmt_u memory_mb @ ''MB'',
          up_arrow @ tui_fmt_bytes tx @ '' '' @ down_arrow @ tui_fmt_bytes rx])"

definition build_overview_table :: "AppSnapshot \<Rightarrow> nat \<Rightarrow> u16 \<Rightarrow> cell list list option" where
  "build_overview_table s = build_rows acs_app_name 22 (overview_values s) (top_cpu_apps s)"

definition build_network_table :: "AppSnapshot \<Rightarrow> nat \<Rightarrow> u16 \<Rightarrow> cell list list option" where
  "build_network_table s = build_rows ans_app_name 28
     (\<lambda>x. [tui_fmt_bytes (ans_tx_bytes x), tui_fmt_bytes (ans_rx_bytes x), tui_fmt_bytes (ans_tx_bytes x + ans_rx_bytes x)])
     (top_net_apps s)"

definition cpu_time_text :: "u64 \<Rightarrow> string" where
  "cpu_time_text ns =
     (let secs = ns div 1000000000 in
      if secs < 60 then fmt_u secs @ ''s''
      else if secs < 3600 then fmt_u (secs div 60) @ ''m''
      else fmt_u (secs div 3600) @ ''h'')"

definition build_cpu_table :: "AppSnapshot \<Rightarrow> nat \<Rightarrow> u16 \<Rightarrow> cell list list option" where
  "build_cpu_table s = build_rows acs_app_name 22
     (\<lambda>x. [percent_text (acs_cpu_usage_percent x), fmt_u (acs_thread_count x), cpu_time_text (acs_cpu_time_ns x)])
     (top_cpu_apps s)"

definition build_focus_table :: "AppSnapshot \<Rightarrow> nat \<Rightarrow> u16 \<Rightarrow> cell list list option" where
  "build_focus_table s = build_rows afs_app_name 28 (\<lambda>x. [format_duration_ms (total_duration_ms x)]) (top_focus_apps s)"

definition build_power_table :: "AppSnapshot \<Rightarrow> nat \<Rightarrow> u16 \<Rightarrow> cell list list option" where
  "build_power_table s = build_rows aps_app_name 15
     (\<lambda>x. map percent_text [power_pct x, cpu_contribution x, gpu_contribution x, display_contribution x, disk_contribution x])
     (top_power_apps s)"

primrec table_header :: "Tab \<Rightarrow> string list" where
  "table_header Overview = [''App'', ''CPU'', ''Memory'', ''Network'']"
| "table_header Network = [''App'', ''TX'', ''RX'', ''Total'']"
| "table_header CpuTab = [''App'', ''CPU %'', ''Threads'', ''CPU Time'']"
| "table_header FocusTab = [''App'', ''Duration'']"
| "table_header PowerTab = [''App'', ''Power %'', ''CPU'', ''GPU'', ''Display'', ''Disk'']"

primrec build_table :: "Tab \<Rightarrow> AppSnapshot \<Rightarrow> nat \<Rightarrow> u16 \<Rightarrow> cell list list option" where
  "build_table Overview = build_overview_table"
| "build_table Network = build_network_table"
| "build_table CpuTab = build_cpu_table"
| "build_table FocusTab = build_focus_table"
| "build_table PowerTab = build_power_table"

primrec table_title :: "Tab \<Rightarrow> string" where
  "table_title Overview = ''Applications''"
| "table_title Network = ''Network''"
| "table_title CpuTab = ''CPU''"
| "table_title FocusTab = ''Focus''"
| "table_title PowerTab = ''Power''"

primrec column_widths :: "Tab \<Rightarrow> nat list" where
  "column_widths Overview = [30, 15, 15, 40]"
| "column_widths Network = [40, 20, 20, 20]"
| "column_widths CpuTab = [40, 20, 20, 20]"
| "column_widths FocusTab = [60, 40]"
| "column_widths PowerTab = [35, 13, 13, 13, 13, 13]"

definition title_str :: "string \<Rightarrow> 't App \<Rightarrow> string" where
  "title_str title a =
     (let n = current_tab_item_count a in
      if n = 0 then '' '' @ title @ '' (no data) ''
      else '' '' @ title @ '' ('' @ up_arrow @ down_arrow @ '' '' @ dec (min (table_scroll a) (n - 1)) @ ''/'' @ dec n @ '') '')"

text \<open>\<open>draw_table\<close> first stores the visible height, which the state keeps.\<close>

definition draw_table :: "u16 \<Rightarrow> 't App \<Rightarrow> widget option \<times> 't App" where
  "draw_table area_height a0 =
     (let a = a0\<lparr> visible_height := sat_sub area_height 3 \<rparr> in
      (case snapshot a of
         None \<Rightarrow> Some (Table (title_str ''Applications'' a) (table_header (active_tab a)) [] [])
       | Some s \<Rightarrow>
           map_option (\<lambda>rows. Table (title_str (table_title (active_tab a)) a) (table_header (active_tab a)) rows
               (column_widths (active_tab a)))
             (build_table (active_tab a) s (table_scroll a) (visible_height a)), a))"

definition draw_ui :: "('t \<Rightarrow> string) \<Rightarrow> u16 \<Rightarrow> 't App \<Rightarrow> widget list option \<times> 't App" where
  "draw_ui clock_text area_height a =
     (case draw_chart a of
        None \<Rightarrow> (None, a)
      | Some chart \<Rightarrow>
          (case draw_table area_height a of
             (None, a') \<Rightarrow> (None, a')
           | (Some table, a') \<Rightarrow>
               (Some ([draw_header a, draw_tabs a] @ chart @ [table, draw_status clock_text a']), a')))"

section \<open>What is shown\<close>

text \<open>Drawing changes the visible height only, as the loop's \<open>draw\<close> assumes.\<close>

lemma draw_ui_state:
  "draw_ui clock_text h a = (Some ws, a') \<Longrightarrow> a' = a\<lparr> visible_height := sat_sub h 3 \<rparr>"
  by (auto simp: draw_ui_def draw_table_def Let_def split: option.splits prod.splits)

lemma those_map_Some: "(\<And>x. x \<in> set xs \<Longrightarrow> f x = Some (g x)) \<Longrightarrow> those (map f xs) = Some (map g xs)"
  by (induction xs) auto

text \<open>When the names fit, the table shows one row per entry from the scroll position on, as many as are
  visible, and marks the entry at the scroll position.\<close>

lemma build_rows_fit:
  assumes fit: "\<And>x. x \<in> set apps \<Longrightarrow> length (name x) \<le> width"
  shows "build_rows name width cols apps scroll height =
    Some (map (\<lambda>(i, x). map (\<lambda>t. \<lparr> c_text = t, c_selected = (i = 0) \<rparr>) (name x # cols x))
      (List.enumerate 0 (take (unat height) (drop scroll apps))))"
proof -
  have "scroll < length apps \<and> truncate (name x) width = Some (name x)"
    if "(i, x) \<in> set (List.enumerate 0 (take (unat height) (drop scroll apps)))" for i x
  proof -
    have x: "x \<in> set (take (unat height) (drop scroll apps))" using that by (auto simp: enumerate_eq_zip dest: set_zip_rightD)
    then have "drop scroll apps \<noteq> []" "x \<in> set apps" by (auto dest: in_set_takeD in_set_dropD)
    then show ?thesis using fit [of x] by (simp add: truncate_def)
  qed
  then show ?thesis unfolding build_rows_def by (intro those_map_Some) (auto simp: Let_def)
qed

lemma selected_entry:
  assumes "\<And>x. x \<in> set apps \<Longrightarrow> length (name x) \<le> width" and "scroll < length apps" and "0 < height"
  shows "\<exists>row rows. build_rows name width cols apps scroll height = Some (row # rows) \<and>
    row = map (\<lambda>t. \<lparr> c_text = t, c_selected = True \<rparr>) (name (apps ! scroll) # cols (apps ! scroll)) \<and>
    length rows < unat height"
proof -
  obtain k where k: "unat height = Suc k" using assms(3) by (metis not0_implies_Suc unat_gt_0 word_neq_0_conv nat_neq_iff)
  have d: "drop scroll apps = apps ! scroll # drop (Suc scroll) apps" using assms(2) by (simp add: Cons_nth_drop_Suc)
  show ?thesis using build_rows_fit [OF assms(1), where cols = cols and scroll = scroll and height = height] by (simp add: d k)
qed

end
