(* ===== verification/Fault_Store.thy ===== *)
theory Fault_Store
  imports Daemon
begin

text \<open>
  The storage code over libraries that may fail at any call: the disk is full, a file cannot be
  created, a stored value cannot be decoded.  The locale \<open>fault_store\<close> promises much less than \<open>store\<close>:
  an operation either does what it is documented to do or leaves the trees alone, whatever it
  returns.  That is enough for a typing of the store: every entry that decodes lies under the key of
  its own record, whatever failed before.
\<close>

section \<open>Computations under an invariant of the world\<close>

text \<open>\<open>guards P m Q\<close>: from a world with \<open>P\<close> the computation ends in a world with \<open>P\<close>, also when it fails, and
  a result satisfies \<open>Q\<close>.\<close>

definition guards :: "('w \<Rightarrow> bool) \<Rightarrow> ('w, 'a) io \<Rightarrow> ('a \<Rightarrow> bool) \<Rightarrow> bool" where
  "guards P m Q \<longleftrightarrow> (\<forall>w. P w \<longrightarrow> P (snd (m w)) \<and> (\<forall>x. fst (m w) = Inr x \<longrightarrow> Q x))"

abbreviation keeps :: "('w \<Rightarrow> bool) \<Rightarrow> ('w, 'a) io \<Rightarrow> bool" where
  "keeps P m \<equiv> guards P m (\<lambda>_. True)"

lemma guardsD:
  assumes "guards P m Q" and "P w"
  shows "P (snd (m w))" and "m w = (Inr x, w') \<Longrightarrow> Q x"
  using assms by (auto simp: guards_def)

lemma guards_ret: "Q x \<Longrightarrow> guards P (retS x) Q"
  by (simp add: guards_def retS_def)

lemma guards_fail: "guards P (failS e) Q"
  by (simp add: guards_def failS_def)

lemma guards_lift: "(\<And>x. r = Inr x \<Longrightarrow> Q x) \<Longrightarrow> guards P (liftS r) Q"
  by (simp add: guards_def liftS_def)

lemma guards_read: "(\<And>w. P w \<Longrightarrow> Q (f w)) \<Longrightarrow> guards P (readS f) Q"
  by (simp add: guards_def readS_def)

lemma guards_bind: "guards P m Q \<Longrightarrow> (\<And>x. Q x \<Longrightarrow> guards P (f x) R) \<Longrightarrow> guards P (bindS m f) R"
proof -
  assume m: "guards P m Q" and f: "\<And>x. Q x \<Longrightarrow> guards P (f x) R"
  have "P (snd (bindS m f w)) \<and> (\<forall>y. fst (bindS m f w) = Inr y \<longrightarrow> R y)" if "P w" for w
  proof (cases "m w")
    case (Pair r w')
    then have "P w'" "\<And>x. r = Inr x \<Longrightarrow> Q x" using m that by (force simp: guards_def)+
    then show ?thesis using f by (cases r) (auto simp: bindS_def Pair guards_def)
  qed
  then show ?thesis by (simp add: guards_def)
qed

lemma guards_weaken: "guards P m Q \<Longrightarrow> (\<And>x. Q x \<Longrightarrow> R x) \<Longrightarrow> guards P m R"
  by (simp add: guards_def)

lemma guards_foldS:
  "I b \<Longrightarrow> (\<And>b x. x \<in> set xs \<Longrightarrow> I b \<Longrightarrow> guards P (f b x) I) \<Longrightarrow> guards P (foldS f b xs) I"
proof (induction xs arbitrary: b)
  case (Cons x xs)
  then show ?case by (auto intro: guards_bind)
qed (simp add: guards_ret)

lemma keeps_bind: "keeps P m \<Longrightarrow> (\<And>x. guards P (f x) R) \<Longrightarrow> guards P (bindS m f) R"
  by (rule guards_bind)

lemma keeps_foldS: "(\<And>b x. keeps P (f b x)) \<Longrightarrow> keeps P (foldS f b xs)"
  by (rule guards_foldS) simp_all

lemma keeps_basic: "keeps P (retS x)" "keeps P (liftS r)" "keeps P (readS f)" "keeps P (failS e)"
  by (simp_all add: guards_ret guards_lift guards_read guards_fail)

lemma keeps_if: "guards P m Q \<Longrightarrow> guards P m' Q \<Longrightarrow> guards P (if c then m else m') Q"
  by simp

lemmas keeps_rules = keeps_bind keeps_foldS keeps_basic keeps_if

lemma mapR_Inr_mem: "mapR f xs = Inr ys \<Longrightarrow> y \<in> set ys \<Longrightarrow> \<exists>x\<in>set xs. f x = Inr y"
  by (induction xs arbitrary: ys) (auto simp: bindR_eq_Inr)

text \<open>What a query may return: records of the type that was asked for, from the interval.\<close>

definition asked :: "MetricType \<Rightarrow> u64 \<Rightarrow> u64 \<Rightarrow> MetricRecord \<Rightarrow> bool" where
  "asked mt s e r \<longleftrightarrow> rec_type r = mt \<and> s \<le> timestamp r \<and> timestamp r \<le> e"

lemma in_range_asked: "in_range mt s' e' r \<Longrightarrow> s \<le> s' \<Longrightarrow> e' \<le> e \<Longrightarrow> asked mt s e r"
  unfolding in_range_def asked_def by (meson order.trans order.strict_implies_order order_refl)

lemma query_sorted:
  assumes "get_metrics_by_type X C clock mt s e w = (Inr records, w')"
  shows "sorted_wrt (\<lambda>a b. timestamp a \<le> timestamp b) records"
proof -
  obtain rs where rs: "records = sort_by (\<lambda>a b. timestamp a \<le> timestamp b) rs"
    using assms by (auto simp: get_metrics_by_type_def Let_def bindS_def retS_def split: prod.splits sum.splits)
  have "total_preorder_on (set rs) (\<lambda>a b. timestamp a \<le> timestamp b)"
    unfolding total_preorder_on_def by (meson linear order_trans)
  then show ?thesis unfolding rs by (rule sorted_sort_by)
qed

section \<open>Libraries that may fail\<close>

definition entry_typed :: "'w ext \<Rightarrow> string \<times> string \<Rightarrow> bool" where
  "entry_typed X = (\<lambda>(k, v). case rec_from_slice X v of Inr r \<Rightarrow> k = rkey r | Inl _ \<Rightarrow> True)"

fun op_typed :: "'w ext \<Rightarrow> batch_op \<Rightarrow> bool" where
  "op_typed X (BInsert k v) = entry_typed X (k, v)"
| "op_typed X (BRemove k) = True"

text \<open>The four trees of metrics; the tree of metadata holds other values.\<close>

definition typed_trees :: "'w ext \<Rightarrow> (string \<Rightarrow> tree) \<Rightarrow> bool" where
  "typed_trees X T \<longleftrightarrow> list_all (\<lambda>t. list_all (entry_typed X) (T t)) tier_names"

lemma upd_mem: "set (upd k v xs) \<subseteq> insert (k, v) (set xs)"
  by (induction k v xs rule: upd.induct) auto

lemma app_ops_typed:
  "list_all (entry_typed X) t \<Longrightarrow> list_all (op_typed X) ops \<Longrightarrow> list_all (entry_typed X) (foldl app_op t ops)"
proof (induction ops arbitrary: t)
  case (Cons op ops)
  have "list_all (entry_typed X) (app_op t op)"
  proof (cases op)
    case (BInsert k v)
    then show ?thesis using Cons.prems upd_mem [of k v t] by (fastforce simp: list_all_iff)
  next
    case (BRemove k)
    then show ?thesis using Cons.prems by (simp add: list_all_iff)
  qed
  then show ?case using Cons by simp
qed simp

lemma typed_update:
  "typed_trees X T \<Longrightarrow> t \<notin> set tier_names \<or> list_all (entry_typed X) x \<Longrightarrow> typed_trees X (T(t := x))"
  by (auto simp: typed_trees_def list_all_iff)

locale fault_store =
  fixes X :: "'w ext" and tr :: "'w \<Rightarrow> string \<Rightarrow> tree"
  assumes open_keeps: "tr (snd (sled_open X p c f w)) = tr w" "tr (snd (open_tree X t w)) = tr w"
    and get_keeps: "tr (snd (tree_get X t k w)) = tr w"
    and insert_atomic: "tr (snd (tree_insert X t k v w)) \<in> {tr w, (tr w)(t := upd k v (tr w t))}"
    and batch_atomic: "tr (snd (apply_batch X t ops w)) \<in> {tr w, (tr w)(t := foldl app_op (tr w t) ops)}"
    and range_sound: "Inr (k, v) \<in> set (tree_range X t lo hi w) \<Longrightarrow> (k, v) \<in> set (tr w t) \<and> lo \<le> k \<and> k \<le> hi"
    and disk_keeps: "tr (snd (size_on_disk X w)) = tr w" "tr (snd (db_flush X w)) = tr w"
    and files_keep: "tr (snd (create_dir_all X p w)) = tr w" "tr (snd (file_create X p w)) = tr w"
      "tr (snd (file_writeln X p l w)) = tr w"
    and codec_keys: "rec_to_vec X r = Inr v \<Longrightarrow> rec_from_slice X v = Inr r' \<Longrightarrow> rkey r' = rkey r"
begin

abbreviation typed :: "'w \<Rightarrow> bool" where
  "typed w \<equiv> typed_trees X (tr w)"

lemma encoded_typed: "rec_to_vec X r = Inr v \<Longrightarrow> entry_typed X (rkey r, v)"
  using codec_keys by (auto simp: entry_typed_def split: sum.split)

lemma keeps_library:
  "keeps typed (sled_open X p c f)" "keeps typed (open_tree X t)" "keeps typed (tree_get X t k)"
  "keeps typed (size_on_disk X)" "keeps typed (db_flush X)" "keeps typed (create_dir_all X p)"
  "keeps typed (file_create X p)" "keeps typed (file_writeln X p l)"
  by (simp_all add: guards_def open_keeps get_keeps disk_keeps files_keep)

lemma keeps_insert:
  assumes "t \<notin> set tier_names \<or> entry_typed X (k, v)"
  shows "keeps typed (tree_insert X t k v)"
proof -
  have "typed_trees X ((tr w)(t := upd k v (tr w t)))" if "typed w" for w
  proof (rule typed_update [OF that])
    show "t \<notin> set tier_names \<or> list_all (entry_typed X) (upd k v (tr w t))"
      using assms that upd_mem [of k v "tr w t"] by (fastforce simp: typed_trees_def list_all_iff)
  qed
  then show ?thesis using insert_atomic [of t k v] unfolding guards_def by (metis empty_iff insert_iff)
qed

lemma keeps_batch:
  assumes "list_all (op_typed X) ops"
  shows "keeps typed (apply_batch X t ops)"
proof -
  have "typed_trees X ((tr w)(t := foldl app_op (tr w t) ops))" if "typed w" for w
  proof (rule typed_update [OF that])
    show "t \<notin> set tier_names \<or> list_all (entry_typed X) (foldl app_op (tr w t) ops)"
      using that app_ops_typed [OF _ assms, of "tr w t"] by (auto simp: typed_trees_def list_all_iff)
  qed
  then show ?thesis using batch_atomic [of t ops] unfolding guards_def by (metis empty_iff insert_iff)
qed

lemma keeps_trees:
  "guards typed (metrics_tree X) (\<lambda>t. t = ''metrics'')" "keeps typed (meta_tree X)"
  "guards typed (metrics_1d_tree X) (\<lambda>t. t = ''metrics_1d'')" "guards typed (metrics_1m_tree X) (\<lambda>t. t = ''metrics_1m'')"
  "guards typed (metrics_1y_tree X) (\<lambda>t. t = ''metrics_1y'')"
  unfolding metrics_tree_def meta_tree_def metrics_1d_tree_def metrics_1m_tree_def metrics_1y_tree_def
  by (rule keeps_bind [OF keeps_library(2)], rule guards_ret, simp)+

text \<open>A scan of a range gives records of that range, or an error.\<close>

lemma items_typed:
  assumes "typed w" and "t \<in> set tier_names" and "Inr (k, v) \<in> set (tree_range X t lo hi w)"
  shows "entry_typed X (k, v) \<and> lo \<le> k \<and> k \<le> hi"
  using assms range_sound [OF assms(3)] by (auto simp: typed_trees_def list_all_iff)

lemma guards_scan:
  assumes "t \<in> set tier_names"
  shows "guards typed (scan_records X t (range_start mt s) (range_end mt e)) (list_all (in_range mt s e))"
  unfolding scan_records_def
proof (rule guards_bind)
  let ?ok = "\<lambda>items. \<forall>k v. Inr (k, v) \<in> set items \<longrightarrow> entry_typed X (k, v) \<and> range_start mt s \<le> k \<and> k \<le> range_end mt e"
  show "guards typed (readS (tree_range X t (range_start mt s) (range_end mt e))) ?ok"
    using items_typed [OF _ assms] by (intro guards_read) blast
  fix items :: "(any_error + string \<times> string) list"
  assume ok: "?ok items"
  have "in_range mt s e r" if mem: "item \<in> set items" and dec: "bindR item (\<lambda>(_, v). rec_from_slice X v) = Inr r"
    for item and r :: MetricRecord
  proof -
    obtain k v where kv: "item = Inr (k, v)" "rec_from_slice X v = Inr r" using dec by (cases item) auto
    have "entry_typed X (k, v)" "range_start mt s \<le> k" "k \<le> range_end mt e" using ok mem kv(1) by blast+
    moreover from this(1) have "k = rkey r" by (simp add: entry_typed_def kv(2))
    ultimately have "range_start mt s \<le> rkey r" "rkey r \<le> range_end mt e" by simp_all
    then show ?thesis using encode_key_in_range [of mt s "rec_type r" "timestamp r" "app_name r" e] by (simp add: in_range_def)
  qed
  then show "guards typed (liftS (mapR (\<lambda>item. bindR item (\<lambda>(_, v). rec_from_slice X v)) items)) (list_all (in_range mt s e))"
    by (intro guards_lift) (auto simp: list_all_iff dest: mapR_Inr_mem)
qed

lemma guards_tier:
  assumes "guards typed T (\<lambda>t. t = name)" and "name \<in> set tier_names" and "list_all Q prev"
    and "\<And>r. in_range mt s e r \<Longrightarrow> Q r"
  shows "guards typed (if c then bindS T (\<lambda>tree. scan_records X tree (range_start mt s) (range_end mt e)) else retS prev) (list_all Q)"
proof (rule keeps_if)
  have "guards typed (scan_records X name (range_start mt s) (range_end mt e)) (list_all Q)"
    by (rule guards_weaken [OF guards_scan [OF assms(2)]]) (use assms(4) in \<open>auto simp: list_all_iff\<close>)
  then show "guards typed (bindS T (\<lambda>tree. scan_records X tree (range_start mt s) (range_end mt e))) (list_all Q)"
    by (intro guards_bind [OF assms(1)]) simp
qed (simp add: guards_ret assms(3))

lemma guards_query_raw: "guards typed (query_raw X mt s e) (list_all (asked mt s e))"
proof -
  have "guards typed (scan_records X ''metrics'' (range_start mt s) (range_end mt e)) (list_all (asked mt s e))"
    by (rule guards_weaken [OF guards_scan]) (auto simp: list_all_iff intro: in_range_asked)
  then show ?thesis
    unfolding query_raw_def by (intro guards_bind [OF keeps_trees(1)]) simp
qed

lemma guards_query_tiers: "guards typed (query_tiers X C now mt s e) (list_all (asked mt s e))"
proof -
  note bind = guards_bind [where Q = "list_all (asked mt s e)" and R = "list_all (asked mt s e)"]
  show ?thesis
    unfolding query_tiers_def Let_def
    by (rule bind, rule guards_tier [OF keeps_trees(3)], simp, simp, erule in_range_asked, simp, simp,
        rule bind, rule guards_tier [OF keeps_trees(4)], simp, assumption, erule in_range_asked, simp, simp,
        rule guards_tier [OF keeps_trees(5)], simp, assumption, erule in_range_asked, simp, simp)
qed

lemma guards_get_metrics_by_type: "guards typed (get_metrics_by_type X C clock mt s e) (list_all (asked mt s e))"
  unfolding get_metrics_by_type_def Let_def
  by (rule guards_bind [OF guards_query_raw], rule guards_bind, rule keeps_if, rule guards_query_tiers,
      erule guards_ret, rule guards_ret, simp add: list_all_iff)

section \<open>Writers\<close>

lemma keeps_insert_metric: "keeps typed (insert_metric X r)"
  unfolding insert_metric_def
proof (rule keeps_bind)
  show "keeps typed (metrics_tree X)" by (rule guards_weaken [OF keeps_trees(1)]) simp
  fix tree
  have "guards typed (liftS (rec_to_vec X r)) (\<lambda>v. entry_typed X (rkey r, v))"
    by (rule guards_lift) (rule encoded_typed)
  then show "keeps typed (bindS (liftS (rec_to_vec X r)) (\<lambda>v. tree_insert X tree (rkey r) v))"
    by (rule guards_bind) (rule keeps_insert, simp)
qed

lemma batch_typed:
  assumes "mapR (\<lambda>r. bindR (rec_to_vec X r) (\<lambda>v. Inr (BInsert (rkey r) v))) rs = Inr batch"
  shows "list_all (op_typed X) batch"
  unfolding list_all_iff
proof
  fix op assume "op \<in> set batch"
  with assms obtain r v where "rec_to_vec X r = Inr v" "op = BInsert (rkey r) v"
    by (auto dest!: mapR_Inr_mem simp: bindR_eq_Inr)
  then show "op_typed X op" using encoded_typed by simp
qed

lemma keeps_insert_metrics_batch: "keeps typed (insert_metrics_batch X rs)"
  unfolding insert_metrics_batch_def
  by (rule keeps_bind, rule guards_weaken [OF keeps_trees(1)], simp, rule guards_bind, rule guards_lift,
      erule batch_typed, erule keeps_batch)

lemma removes_typed: "list_all (op_typed X) (map BRemove ks)"
  by (simp add: list_all_iff)

lemma keeps_collect_all_keys: "keeps typed (collect_all_keys X tree cutoff)"
  unfolding collect_all_keys_def collect_keys_def by (intro keeps_rules)

lemma keeps_cleanup_old_data: "keeps typed (cleanup_old_data X clock days)"
  unfolding cleanup_old_data_def Let_def
  by (intro keeps_rules keeps_collect_all_keys keeps_batch removes_typed guards_weaken [OF keeps_trees(1)] TrueI)

lemma keeps_delete: "keeps typed (delete_from_tree_before X tree cutoff)"
  unfolding delete_from_tree_before_def Let_def
  by (intro keeps_rules keeps_collect_all_keys keeps_batch removes_typed)

lemma keeps_export: "keeps typed (export_type X tree path n mt cutoff)"
  unfolding export_type_def export_item_def by (intro keeps_rules keeps_library)

lemma keeps_set_last_cleanup: "keeps typed (set_last_cleanup_ts X now)"
proof -
  have "guards typed (meta_tree X) (\<lambda>t. t = ''meta'')"
    unfolding meta_tree_def by (rule keeps_bind [OF keeps_library(2)]) (simp add: guards_ret)
  then show ?thesis
    unfolding set_last_cleanup_ts_def
    by (rule guards_bind) (auto intro!: keeps_rules keeps_insert simp: tier_names_def)
qed

lemma keeps_cleanup_with_config: "keeps typed (cleanup_with_config X clock nanos config)"
proof -
  have "keeps typed (export_metrics_to_jsonl X path config now)" for path now
    unfolding export_metrics_to_jsonl_def Let_def
    by (intro keeps_rules keeps_library keeps_export guards_weaken [OF keeps_trees(1)] TrueI)
  moreover have "keeps typed (cleanup_type X tree config now n mt)" for tree now n mt
    unfolding cleanup_type_def collect_keys_def Let_def by (intro keeps_rules keeps_batch removes_typed)
  ultimately show ?thesis
    unfolding cleanup_with_config_def Let_def
    by (intro keeps_bind keeps_basic guards_weaken [OF keeps_trees(1)] TrueI keeps_foldS keeps_set_last_cleanup)
      (auto split: bool.split option.split prod.split intro!: keeps_rules keeps_library keeps_set_last_cleanup)
qed

text \<open>An aggregate is stored under the type, the time and the application of its group, which are those of
  its first record.\<close>

lemma aggregate_groups_typed:
  assumes "\<And>k g. (k, g) \<in> set gs \<Longrightarrow> g \<noteq> [] \<and> rec_type (hd g) = mt \<and> app_name (hd g) = snd k"
    and "list_all (op_typed X) batch" and "aggregate_groups X mt batch tot gs = Inr (batch', tot')"
  shows "list_all (op_typed X) batch'"
  using assms
proof (induction gs arbitrary: batch tot)
  case (Cons kg gs)
  obtain b app g where kg: "kg = ((b, app), g)" by (cases kg) auto
  then obtain r g' where g: "g = r # g'" and r: "rec_type r = mt" "app_name r = app"
    using Cons.prems(1) [of "(b, app)" g] by (cases g) auto
  note IH = Cons.IH [OF Cons.prems(1)]
  show ?case
  proof (cases "aggregate_records g (timestamp (hd g))")
    case None
    then show ?thesis using IH [OF _ Cons.prems(2)] Cons.prems(3) by (simp add: kg)
  next
    case (Some agg)
    then obtain v where v: "rec_to_vec X agg = Inr v"
      and rest: "aggregate_groups X mt (batch @ [BInsert (encode_key mt (timestamp agg) app) v]) (tot + 1) gs = Inr (batch', tot')"
      using Cons.prems(3) by (auto simp: kg bindR_eq_Inr)
    have "rkey agg = encode_key mt (timestamp agg) app"
      using aggregate_meta [OF Some [unfolded g]] r by (simp add: g)
    then have "op_typed X (BInsert (encode_key mt (timestamp agg) app) v)" using encoded_typed [OF v] by simp
    then show ?thesis using IH [OF _ _ rest] Cons.prems(2) by simp
  qed
qed simp

lemma keeps_aggregate_type:
  assumes "source \<in> set tier_names"
  shows "keeps typed (aggregate_type X bucket source dest cutoff tot mt)"
  unfolding aggregate_type_def Let_def
proof (rule guards_bind [OF guards_scan [OF assms]])
  fix records assume rs: "list_all (in_range mt 0 cutoff) records"
  have gs: "g \<noteq> [] \<and> rec_type (hd g) = mt \<and> app_name (hd g) = snd k"
    if "(k, g) \<in> set (groups_of bucket records)" for k g
  proof -
    have "hd g \<in> set (filter (\<lambda>r. group_key bucket r = k) records)"
      using group_mem [OF that] by (metis hd_in_set)
    then have "hd g \<in> set records" "group_key bucket (hd g) = k" by simp_all
    then show ?thesis using rs group_mem(2) [OF that] by (auto simp: list_all_iff in_range_def group_key_def)
  qed
  have "guards typed (liftS (aggregate_groups X mt [] tot (groups_of bucket records))) (\<lambda>(batch, _). list_all (op_typed X) batch)"
    using aggregate_groups_typed [of "groups_of bucket records" mt "[]" tot] gs by (intro guards_lift) auto
  then show "keeps typed (bindS (liftS (aggregate_groups X mt [] tot (groups_of bucket records)))
      (\<lambda>(batch, tot'). bindS (if 0 < tot' then apply_batch X dest batch else retS ()) (\<lambda>_. retS tot')))"
    by (rule guards_bind) (auto intro!: keeps_rules keeps_batch)
qed

lemma keeps_aggregations:
  "keeps typed (aggregate_raw_to_daily X C now config)" "keeps typed (aggregate_daily_to_monthly X C now)"
  "keeps typed (aggregate_monthly_to_yearly X C now config)"
  unfolding aggregate_raw_to_daily_def aggregate_daily_to_monthly_def aggregate_monthly_to_yearly_def Let_def
  by (rule guards_bind, rule keeps_trees, rule guards_bind, rule keeps_trees, rule keeps_foldS, rule keeps_aggregate_type, simp)+

lemma keeps_cleanup_tiered: "keeps typed (cleanup_tiered X C clock nanos config)"
proof -
  have trees: "keeps typed (metrics_tree X)" "keeps typed (metrics_1d_tree X)" "keeps typed (metrics_1m_tree X)"
    "keeps typed (metrics_1y_tree X)"
    by (rule guards_weaken, rule keeps_trees, simp)+
  have "keeps typed (tiered_export X now nanos config)" for now
    unfolding tiered_export_def Let_def
    by (auto split: bool.split option.split intro!: keeps_rules keeps_library keeps_export trees)
  then show ?thesis
    unfolding cleanup_tiered_def Let_def case_prod_unfold
    by (intro keeps_bind keeps_basic trees keeps_aggregations keeps_delete keeps_set_last_cleanup)
qed

lemma keeps_storage_stats: "keeps typed (get_storage_stats X)"
  unfolding get_storage_stats_def Let_def case_prod_unfold
  by (intro keeps_rules keeps_library guards_weaken [OF keeps_trees(1)] TrueI)

section \<open>The daemon\<close>

lemma cleanup_round_typed: "typed w \<Longrightarrow> typed (cleanup_round X C config clock nanos w)"
  using guardsD(1) [OF keeps_cleanup_tiered, of w C clock nanos config] guardsD(1) [OF keeps_storage_stats]
  by (auto simp: cleanup_round_def split: prod.split sum.split)

lemma keeps_persist_event: "keeps typed (persist_event X ev)"
  unfolding persist_event_def by (intro keeps_rules keeps_insert_metric)

lemmas persist_typed = guardsD(1) [OF keeps_persist_event]

lemma daemon_step_typed: "typed (d_world d) \<Longrightarrow> typed (d_world (daemon_step X C config d occ))"
proof (cases occ)
  case (Received ev)
  assume "typed (d_world d)"
  then have "typed (snd (persist_event X ev (d_world d)))" by (rule persist_typed)
  then show ?thesis
    using \<open>typed (d_world d)\<close> by (cases "persist_event X ev (d_world d)") (auto simp: Received split: phase.split sum.split)
qed (auto simp: cleanup_round_typed split: phase.split)

lemma daemon_typed: "typed (d_world d) \<Longrightarrow> typed (d_world (foldl (daemon_step X C config) d occs))"
  by (induction occs arbitrary: d) (simp_all add: daemon_step_typed)

lemma storage_open_typed: "typed w \<Longrightarrow> typed (snd (storage_open X path w))"
  unfolding storage_open_def by (rule guardsD(1) [OF keeps_library(1)])

end

section \<open>Injected faults\<close>

text \<open>Any libraries can be made to fail: the world counts the calls, and \<open>fails\<close> tells which of them fail.\<close>

definition faulty :: "(nat \<Rightarrow> any_error option) \<Rightarrow> ('w, 'a) io \<Rightarrow> (nat \<times> 'w, 'a) io" where
  "faulty fails m = (\<lambda>(n, w). case fails n of
     Some e \<Rightarrow> (Inl e, Suc n, w)
   | None \<Rightarrow> (case m w of (r, w') \<Rightarrow> (r, Suc n, w')))"

definition faulty_ext :: "(nat \<Rightarrow> any_error option) \<Rightarrow> 'w ext \<Rightarrow> (nat \<times> 'w) ext" where
  "faulty_ext fails X = \<lparr>
     sled_open = (\<lambda>p c f. faulty fails (sled_open X p c f)),
     open_tree = (\<lambda>t. faulty fails (open_tree X t)),
     tree_get = (\<lambda>t k. faulty fails (tree_get X t k)),
     tree_insert = (\<lambda>t k v. faulty fails (tree_insert X t k v)),
     tree_range = (\<lambda>t lo hi (n, w). case fails n of Some e \<Rightarrow> [Inl e] | None \<Rightarrow> tree_range X t lo hi w),
     apply_batch = (\<lambda>t ops. faulty fails (apply_batch X t ops)),
     size_on_disk = faulty fails (size_on_disk X),
     db_flush = faulty fails (db_flush X),
     rec_to_vec = rec_to_vec X, rec_from_slice = rec_from_slice X,
     u32_to_vec = u32_to_vec X, u32_from_slice = u32_from_slice X,
     u64_to_vec = u64_to_vec X, opt_u64_from_slice = opt_u64_from_slice X,
     create_dir_all = (\<lambda>p. faulty fails (create_dir_all X p)),
     file_create = (\<lambda>p. faulty fails (file_create X p)),
     file_writeln = (\<lambda>p l. faulty fails (file_writeln X p l)) \<rparr>"

lemma faulty_world: "snd (snd (faulty fails m (n, w))) \<in> {w, snd (m w)}"
  by (simp add: faulty_def split: option.split prod.split)

lemma faulty_keeps: "f (snd (m w)) = f w \<Longrightarrow> f (snd (snd (faulty fails m (n, w)))) = f w"
  using faulty_world [of fails m n w] by auto

lemma faulty_atomic: "f (snd (m w)) \<in> {f w, y} \<Longrightarrow> f (snd (snd (faulty fails m (n, w)))) \<in> {f w, y}"
  using faulty_world [of fails m n w] by auto

lemma fault_store_faulty:
  assumes "fault_store X tr"
  shows "fault_store (faulty_ext fails X) (tr \<circ> snd)"
proof
  fix t k v lo hi and w :: "nat \<times> 'a"
  assume "Inr (k, v) \<in> set (tree_range (faulty_ext fails X) t lo hi w)"
  then have "Inr (k, v) \<in> set (tree_range X t lo hi (snd w))"
    by (cases w) (simp add: faulty_ext_def split: option.splits)
  then show "(k, v) \<in> set ((tr \<circ> snd) w t) \<and> lo \<le> k \<and> k \<le> hi"
    using fault_store.range_sound [OF assms] by simp
next
  fix t k v and w :: "nat \<times> 'a"
  show "(tr \<circ> snd) (snd (tree_insert (faulty_ext fails X) t k v w)) \<in>
      {(tr \<circ> snd) w, ((tr \<circ> snd) w)(t := upd k v ((tr \<circ> snd) w t))}"
    using faulty_atomic [of tr "tree_insert X t k v" "snd w"] fault_store.insert_atomic [OF assms, of t k v "snd w"]
    by (cases w) (simp add: faulty_ext_def)
next
  fix t ops and w :: "nat \<times> 'a"
  show "(tr \<circ> snd) (snd (apply_batch (faulty_ext fails X) t ops w)) \<in>
      {(tr \<circ> snd) w, ((tr \<circ> snd) w)(t := foldl app_op ((tr \<circ> snd) w t) ops)}"
    using faulty_atomic [of tr "apply_batch X t ops" "snd w"] fault_store.batch_atomic [OF assms, of t ops "snd w"]
    by (cases w) (simp add: faulty_ext_def)
qed (auto simp: faulty_ext_def split_paired_all intro!: faulty_keeps
      fault_store.open_keeps [OF assms] fault_store.get_keeps [OF assms] fault_store.disk_keeps [OF assms] fault_store.files_keep [OF assms]
      dest: fault_store.codec_keys [OF assms])

interpretation ref_fault: fault_store "ref_ext tbl" trees for tbl
proof
  fix r r' v
  assume "rec_to_vec (ref_ext tbl) r = Inr v" "rec_from_slice (ref_ext tbl) v = Inr r'"
  then show "rkey r' = rkey r" using position_nth [of r tbl] by (auto simp: ref_ext_def split: option.splits if_splits)
qed (auto simp: ref_ext_def split: option.split)

interpretation faulty: fault_store "faulty_ext fails (ref_ext tbl)" "trees \<circ> snd" for fails tbl
  by (rule fault_store_faulty [OF ref_fault.fault_store_axioms])

section \<open>Properties\<close>

text \<open>C7: The store is well typed whatever fails.  The libraries may fail at any call, before, during or after any event,
  cleanup or shutdown, as long as each operation is atomic and the codec does not change the name, the time
  or the type of a record: after any run of the daemon on a store that is well typed at the start, as an empty one is,
  every entry of the four trees that decodes at all
  lies under the key of its own type, time and application; a query, whether it fails or not, leaves it so, and one that succeeds returns
  only records of the type and the interval that were asked for, in the order of time.\<close>

theorem stored_types_sound:
  assumes "fault_store X tr" and "typed_trees X (tr w0)"
    and "daemon_run X C rd toml platform db_path cp occs w0 = Inr (tasks, d)"
  shows "typed_trees X (tr (d_world d)) \<and>
    (case get_metrics_by_type X C' clock mt start end_t (d_world d) of
       (answer, w') \<Rightarrow> typed_trees X (tr w') \<and>
         (\<forall>records. answer = Inr records \<longrightarrow>
            list_all (\<lambda>r. rec_type r = mt \<and> start \<le> timestamp r \<and> timestamp r \<le> end_t) records \<and>
            sorted_wrt (\<lambda>a b. timestamp a \<le> timestamp b) records))"
proof -
  obtain w1 where w1: "storage_open X db_path w0 = (Inr (), w1)"
    and d: "d = foldl (daemon_step X C (tiered_retention (run_config rd toml cp)))
      \<lparr> d_phase = Looping, d_shutdown = False, d_cleanup = True, d_world = w1 \<rparr> occs"
    using assms(3) by (auto simp: daemon_run_def Let_def split: prod.splits sum.splits)
  have "typed_trees X (tr w1)" using fault_store.storage_open_typed [OF assms(1,2), of db_path] w1 by simp
  then have typed: "typed_trees X (tr (d_world d))" unfolding d by (intro fault_store.daemon_typed [OF assms(1)]) simp
  obtain answer w' where q: "get_metrics_by_type X C' clock mt start end_t (d_world d) = (answer, w')" by fastforce
  have guard: "guards (\<lambda>w. typed_trees X (tr w)) (get_metrics_by_type X C' clock mt start end_t) (list_all (asked mt start end_t))"
    by (rule fault_store.guards_get_metrics_by_type [OF assms(1)])
  have "typed_trees X (tr w')" using guardsD(1) [OF guard typed] unfolding q by simp
  moreover have "list_all (asked mt start end_t) records \<and> sorted_wrt (\<lambda>a b. timestamp a \<le> timestamp b) records"
    if "answer = Inr records" for records
    using guardsD(2) [OF guard typed q [unfolded that]] query_sorted [OF q [unfolded that]] by simp
  ultimately show ?thesis using typed unfolding q by (simp add: asked_def [abs_def])
qed

definition w_fails :: "nat \<Rightarrow> any_error option" where
  "w_fails n = (if n = 3 then Some (SledError ''disk full'') else None)"

definition w_faulty :: "(nat \<times> aworld) ext" where
  "w_faulty = faulty_ext w_fails (ref_ext w_recs)"

definition w_faulty_run :: "any_error + string list \<times> (nat \<times> aworld) daemon" where
  "w_faulty_run = daemon_run w_faulty greg (\<lambda>_. Inl (IoError ''none'')) (\<lambda>_. Inl (IoError ''none''))
     (platform_new (Inl (Foreign ''no'')) None (Inl (Foreign ''no'')) (Inl (Foreign ''no'')) (Inl (Foreign ''no''))
       (Inl (Foreign ''no'')) (Inl (Foreign ''no''))) ''db'' None
     [Received (event_of (net_rec ''ssh'' 100 1 2)), Received (event_of (net_rec ''curl'' 100 5 7)), CtrlC] (0, ref_empty)"

definition w_faulted :: aworld where
  "w_faulted = set_tree ''metrics'' (map (entry (ref_ext w_recs)) [net_rec ''ssh'' 100 1 2]) ref_empty"

lemma w_first_rec: "rec_to_vec (ref_ext w_recs) (net_rec ''ssh'' 100 1 2) = Inr (bytes (ref_ext w_recs) (net_rec ''ssh'' 100 1 2))"
    "rec_from_slice (ref_ext w_recs) (bytes (ref_ext w_recs) (net_rec ''ssh'' 100 1 2)) = Inr (net_rec ''ssh'' 100 1 2)"
proof -
  have "net_rec ''ssh'' 100 1 2 \<in> set w_recs" by (simp add: w_recs_def)
  from ref_rec_roundtrip [OF this] have "roundtrips (ref_ext w_recs) (net_rec ''ssh'' 100 1 2)" by (simp add: roundtrips_def)
  from roundtrips_bytes [OF this]
  show "rec_to_vec (ref_ext w_recs) (net_rec ''ssh'' 100 1 2) = Inr (bytes (ref_ext w_recs) (net_rec ''ssh'' 100 1 2))"
    "rec_from_slice (ref_ext w_recs) (bytes (ref_ext w_recs) (net_rec ''ssh'' 100 1 2)) = Inr (net_rec ''ssh'' 100 1 2)"
    by simp_all
qed

lemma w_faulty_ops:
  "open_tree w_faulty t (n, w) = (case w_fails n of Some e \<Rightarrow> (Inl e, Suc n, w) | None \<Rightarrow> (Inr (), Suc n, w))"
  "tree_insert w_faulty t k v (n, w) =
     (case w_fails n of Some e \<Rightarrow> (Inl e, Suc n, w) | None \<Rightarrow> (Inr (), Suc n, set_tree t (upd k v (trees w t)) w))"
  "sled_open w_faulty p c f (n, w) = (case w_fails n of Some e \<Rightarrow> (Inl e, Suc n, w) | None \<Rightarrow> (Inr (), Suc n, w))"
  "tree_range w_faulty t lo hi (n, w) =
     (case w_fails n of Some e \<Rightarrow> [Inl e] | None \<Rightarrow> map Inr (filter (\<lambda>p. lo \<le> fst p \<and> fst p \<le> hi) (trees w t)))"
  "rec_to_vec w_faulty = rec_to_vec (ref_ext w_recs)" "rec_from_slice w_faulty = rec_from_slice (ref_ext w_recs)"
  by (simp_all add: w_faulty_def faulty_ext_def faulty_def ref_ext_def split: option.split)

theorem stored_types_sound_witness:
  "\<exists>d w'. w_faulty_run = Inr ([], d) \<and> d_phase d = Exited (Inl (SledError ''disk full'')) \<and>
     get_metrics_by_type w_faulty greg (Inl TimeError) Net 0 200 (d_world d) = (Inr [net_rec ''ssh'' 100 1 2], w') \<and>
     typed_trees w_faulty ((trees \<circ> snd) (d_world d))"
proof -
  let ?d = "\<lparr> d_phase = Exited (Inl (SledError ''disk full'')), d_shutdown = False, d_cleanup = True, d_world = (4, w_faulted) \<rparr>"
  have d: "w_faulty_run = Inr ([], ?d)"
    by (simp add: w_faulty_run_def daemon_run_def run_config_def DaemonConfig_default_def platform_new_def spawn_collectors_def
        spawn_one_def take_focus_collector_def take_network_collector_def take_cpu_collector_def take_disk_collector_def
        take_memory_collector_def take_power_collector_def storage_open_def w_faulty_ops w_fails_def persist_event_def
        insert_metric_def metrics_tree_def bindS_def retS_def liftS_def w_first_rec w_faulted_def ref_empty_def)
  have "in_range Net 0 200 (net_rec ''ssh'' 100 1 2)" by (simp add: in_range_def net_rec_def)
  then have q: "get_metrics_by_type w_faulty greg (Inl TimeError) Net 0 200 (d_world ?d) = (Inr [net_rec ''ssh'' 100 1 2], (5, w_faulted))"
    using filter_range [of Net 0 200 "ref_ext w_recs" "[net_rec ''ssh'' 100 1 2]"]
    by (simp add: get_metrics_by_type_def query_raw_def metrics_tree_def scan_records_def bindS_def retS_def readS_def liftS_def
        w_faulty_ops w_fails_def w_faulted_def w_first_rec sort_by_def)
  have "typed_trees w_faulty ((trees \<circ> snd) (0, ref_empty))" by (simp add: typed_trees_def tier_names_def ref_empty_def)
  from stored_types_sound [OF faulty.fault_store_axioms [of w_fails w_recs, folded w_faulty_def] this d [unfolded w_faulty_run_def],
      where C' = greg and clock = "Inl TimeError" and mt = Net and start = 0 and end_t = 200]
  show ?thesis using d q by auto
qed

end
