(* ===== verification/Test_Data.thy ===== *)
theory Test_Data
  imports Storage_Props Rust_Format "HOL-Library.State_Monad"
begin

text \<open>
  \<open>crates/heimwatch-daemon/src/test_data.rs\<close>: the command that fills a database with random records.  The
  random generator of the \<open>rand\<close> crate is a parameter, a record of draws in the state monad; what is
  relied on is the locale \<open>random_source\<close>, which says that a draw lies in the half-open range asked
  for.  The draws and the inserts are interleaved as in the code.
\<close>

section \<open>Random draws\<close>

record 'g rng =
  gen_u64 :: "u64 \<Rightarrow> u64 \<Rightarrow> ('g, u64) state"
  gen_u32 :: "u32 \<Rightarrow> u32 \<Rightarrow> ('g, u32) state"
  gen_i64 :: "i64 \<Rightarrow> i64 \<Rightarrow> ('g, i64) state"
  gen_f32 :: "fl \<Rightarrow> fl \<Rightarrow> ('g, fl) state"
  gen_bool :: "fl \<Rightarrow> ('g, bool) state"

definition fbetween :: "fl \<Rightarrow> fl \<Rightarrow> fl \<Rightarrow> bool" where
  "fbetween lo hi x \<longleftrightarrow> (\<exists>a b q. lo = Num a \<and> hi = Num b \<and> x = Num q \<and> a \<le> q \<and> q < b)"

locale random_source =
  fixes G :: "'g rng"
  assumes draw_u64: "lo < hi \<Longrightarrow> pred_state (\<lambda>x. lo \<le> x \<and> x < hi) (gen_u64 G lo hi)"
    and draw_u32: "lo' < hi' \<Longrightarrow> pred_state (\<lambda>x. lo' \<le> x \<and> x < hi') (gen_u32 G lo' hi')"
    and draw_i64: "sint slo < sint shi \<Longrightarrow> pred_state (\<lambda>x. sint slo \<le> sint x \<and> sint x < sint shi) (gen_i64 G slo shi)"
    and draw_f32: "a < b \<Longrightarrow> fwf F32 (Num a) \<Longrightarrow> fwf F32 (Num b) \<Longrightarrow>
      pred_state (fbetween (Num a) (Num b)) (gen_f32 G (Num a) (Num b))"

definition gen_some :: "('g, 'a) state \<Rightarrow> ('g, 'a option) state" where
  "gen_some m = do { x \<leftarrow> m; State_Monad.return (Some x) }"

section \<open>The records of one application at one time\<close>

definition TEST_APPS :: "string list" where
  "TEST_APPS = [''firefox'', ''vscode'', ''spotify'', ''discord'', ''slack'', ''chrome'', ''terminal'', ''system'']"

definition test_net :: "'g rng \<Rightarrow> ('g, MetricPayload) state" where
  "test_net G = do {
     tx \<leftarrow> gen_u64 G 100000 10000000;
     rx \<leftarrow> gen_u64 G 500000 50000000;
     conns \<leftarrow> gen_u32 G 1 20;
     State_Monad.return (NetP \<lparr> tx_bytes = tx, rx_bytes = rx, connections = conns \<rparr>) }"

definition test_pwr :: "'g rng \<Rightarrow> u32 \<Rightarrow> ('g, MetricPayload) state" where
  "test_pwr G record_idx = do {
     watts \<leftarrow> gen_f32 G (Num (1 / 2)) (Num 15);
     battery \<leftarrow> gen_some (gen_f32 G (Num 20) (Num 100));
     package \<leftarrow> gen_some (gen_f32 G (Num 10) (Num 60));
     core \<leftarrow> gen_some (gen_f32 G (Num 5) (Num 40));
     current \<leftarrow> gen_some (gen_i64 G (- 2000000) 100000);
     voltage \<leftarrow> gen_some (gen_u64 G 11000000 13000000);
     freq \<leftarrow> gen_some (gen_f32 G (Num (1 / 2)) (Num 1));
     brightness \<leftarrow> gen_some (gen_f32 G (lit F32 (3 / 10)) (Num 1));
     wifi \<leftarrow> gen_some (gen_bool G (Num (1 / 2)));
     State_Monad.return (PwrP \<lparr> watt_usage = watts, battery_percent = battery, charging = record_idx mod 3 = 0,
       rapl_package_watts = package, rapl_core_watts = core, battery_current_ua = current,
       battery_voltage_uv = voltage, avg_cpu_freq_ratio = freq, display_brightness = brightness, is_wifi = wifi \<rparr>) }"

definition test_foc :: "'g rng \<Rightarrow> string \<Rightarrow> ('g, MetricPayload) state" where
  "test_foc G app = do {
     focused \<leftarrow> gen_bool G (lit F64 (6 / 10));
     dur \<leftarrow> (if focused then gen_u64 G 120000 300000 else State_Monad.return 0);
     State_Monad.return (FocP \<lparr> app_id = app, duration_ms = dur \<rparr>) }"

definition test_cpu_usage :: "'g rng \<Rightarrow> ('g, fl) state" where
  "test_cpu_usage G = do {
     light \<leftarrow> gen_bool G (lit F64 (7 / 10));
     if light then gen_f32 G fzero (Num 2)
     else do {
       moderate \<leftarrow> gen_bool G (lit F64 (8 / 10));
       if moderate then gen_f32 G (Num 2) (Num 8) else gen_f32 G (Num 8) (Num 25) } }"

definition test_cpu :: "'g rng \<Rightarrow> ('g, MetricPayload) state" where
  "test_cpu G = do {
     usage \<leftarrow> test_cpu_usage G;
     thr \<leftarrow> (if flt (Num 20) usage then gen_u32 G 4 16
             else if flt (Num 5) usage then gen_u32 G 2 8
             else gen_u32 G 1 4);
     State_Monad.return (CpuP
       \<lparr> cpu_time_ns = to_word (fmul F32 (fmul F32 (fdiv F32 usage (Num 100)) (Num 1000000000)) (Num 8)),
         cpu_usage_percent = usage, thread_count = thr \<rparr>) }"

definition test_rss :: "'g rng \<Rightarrow> ('g, u64) state" where
  "test_rss G = do {
     light \<leftarrow> gen_bool G (lit F64 (3 / 10));
     if light then gen_u64 G 50000000 200000000
     else do {
       moderate \<leftarrow> gen_bool G (lit F64 (6 / 10));
       if moderate then gen_u64 G 200000000 600000000 else gen_u64 G 600000000 1500000000 } }"

definition test_mem :: "'g rng \<Rightarrow> ('g, MetricPayload) state" where
  "test_mem G = do {
     rss \<leftarrow> test_rss G;
     extra \<leftarrow> gen_u64 G 100000000 500000000;
     swap \<leftarrow> gen_u64 G 0 100000000;
     procs \<leftarrow> gen_u32 G 1 5;
     State_Monad.return (MemP \<lparr> rss_bytes = rss, vms_bytes = rss + extra, swap_bytes = swap, process_count = procs \<rparr>) }"

definition test_dsk :: "'g rng \<Rightarrow> ('g, MetricPayload) state" where
  "test_dsk G = do {
     rd \<leftarrow> gen_u64 G 1000000 500000000;
     wr \<leftarrow> gen_u64 G 500000 200000000;
     State_Monad.return (DskP \<lparr> read_bytes = rd, write_bytes = wr, mount_point = ''/'' \<rparr>) }"

definition test_gpu :: "'g rng \<Rightarrow> u32 \<Rightarrow> ('g, MetricPayload) state" where
  "test_gpu G record_idx = do {
     usage \<leftarrow> (if record_idx mod 2 = 0 then gen_some (gen_f32 G fzero (Num 100)) else State_Monad.return None);
     vram \<leftarrow> gen_some (gen_u64 G 1000000000 22000000000);
     temp \<leftarrow> gen_some (gen_f32 G (Num 30) (Num 85));
     draw_w \<leftarrow> gen_some (gen_f32 G (Num 50) (Num 450));
     clock \<leftarrow> gen_some (gen_u32 G 1000 2500);
     mclock \<leftarrow> gen_some (gen_u32 G 9000 21000);
     State_Monad.return (GpuP \<lparr> gpu_index = 0, vendor = Nvidia, gpu_name = ''NVIDIA GeForce RTX 4090'',
       usage_percent = usage, vram_used_bytes = vram, vram_total_bytes = Some 24000000000,
       temperature_celsius = temp, power_draw_watts = draw_w, core_clock_mhz = clock, memory_clock_mhz = mclock \<rparr>) }"

definition test_gpu_proc :: "'g rng \<Rightarrow> u32 \<Rightarrow> ('g, MetricPayload) state" where
  "test_gpu_proc G record_idx = do {
     usage \<leftarrow> (if record_idx mod 3 = 0 then gen_some (gen_f32 G fzero (Num 100)) else State_Monad.return None);
     vram \<leftarrow> gen_some (gen_u64 G 100000000 4000000000);
     State_Monad.return (GpuProcP \<lparr> gp_gpu_index = 0, gp_usage_percent = usage, gp_vram_used_bytes = vram \<rparr>) }"

definition test_payloads :: "'g rng \<Rightarrow> string \<Rightarrow> u32 \<Rightarrow> ('g, MetricPayload) state list" where
  "test_payloads G app record_idx =
     [test_net G, test_pwr G record_idx, test_foc G app, test_cpu G, test_mem G, test_dsk G,
      test_gpu G record_idx, test_gpu_proc G record_idx]"

section \<open>Filling the database\<close>

text \<open>The generator runs over the world of the libraries and the state of the random source.\<close>

definition on_store :: "('w, 'a) io \<Rightarrow> ('w \<times> 'g, 'a) io" where
  "on_store m = (\<lambda>(w, g). case m w of (r, w') \<Rightarrow> (r, w', g))"

definition on_rng :: "('g, 'a) state \<Rightarrow> ('w \<times> 'g, 'a) io" where
  "on_rng m = (\<lambda>(w, g). case run_state m g of (x, g') \<Rightarrow> (Inr x, w, g'))"

definition test_insert :: "'w ext \<Rightarrow> string \<Rightarrow> u64 \<Rightarrow> ('g, MetricPayload) state \<Rightarrow> ('w \<times> 'g, unit) io" where
  "test_insert X app ts m =
     bindS (on_rng m) (\<lambda>p. on_store (insert_metric X \<lparr> app_name = app, timestamp = ts, payload = p \<rparr>))"

definition test_interval :: "u32 \<Rightarrow> u32 \<Rightarrow> u64" where
  "test_interval hours_back records_per_app = (ucast hours_back * 3600) div ucast records_per_app"

definition test_time :: "u64 \<Rightarrow> u32 \<Rightarrow> u32 \<Rightarrow> u32 \<Rightarrow> u64" where
  "test_time now hours_back records_per_app record_idx =
     now - ucast hours_back * 3600 + ucast record_idx * test_interval hours_back records_per_app"

definition test_fill :: "'w ext \<Rightarrow> 'g rng \<Rightarrow> u64 \<Rightarrow> u32 \<Rightarrow> u32 \<Rightarrow> ('w \<times> 'g, unit) io" where
  "test_fill X G now hours_back records_per_app =
     bindS (foldS (\<lambda>_ app.
         foldS (\<lambda>_ i.
           foldS (\<lambda>_ m. test_insert X app (test_time now hours_back records_per_app (of_nat i)) m) ()
             (test_payloads G app (of_nat i)))
           () [0..<unat records_per_app])
         () TEST_APPS) (\<lambda>_.
     on_store (flush_db X))"

definition arrow_keys :: string where
  "arrow_keys = map char_of [0xE2 :: nat, 0x86, 0x90] @ '' / '' @ map char_of [0xE2 :: nat, 0x86, 0x92]"

definition test_report :: "string \<Rightarrow> u32 \<Rightarrow> u32 \<Rightarrow> string list" where
  "test_report path hours_back records_per_app =
     [map char_of [0xE2 :: nat, 0x9C, 0x93] @ '' Generated '' @ fmt_u (records_per_app * 8 * 8) @ '' records for '' @
        dec (length TEST_APPS) @ '' apps spanning '' @ fmt_u hours_back @ '' hours'',
      [],
      ''To view the data in the TUI:'',
      ''  1. Run: cargo run -p heimwatch-daemon -- tui --db '' @ path,
      ''  2. Press '' @ [CHR 0x27] @ ''-'' @ [CHR 0x27] @ '' to shrink the time window to '' @ fmt_u hours_back @ '' hours'',
      ''     (TUI defaults to 24 hours, but data spans only '' @ fmt_u hours_back @ '' hours)'',
      ''  3. Navigate tabs with '' @ arrow_keys @ '' arrow keys to explore'',
      ''  4. Power tab will show realistic Display contribution after window adjustment'']"

text \<open>A result \<open>None\<close> is a panic: the \<open>unwrap\<close> of a clock before the epoch, and the division by zero records.\<close>

definition generate_test_data ::
  "'w ext \<Rightarrow> 'g rng \<Rightarrow> unit + u64 \<Rightarrow> string \<Rightarrow> u32 \<Rightarrow> u32 \<Rightarrow> 'w \<times> 'g \<Rightarrow> (any_error + string list) option \<times> 'w \<times> 'g" where
  "generate_test_data X G since_epoch path hours_back records_per_app s =
     (case on_store (storage_open X path) s of
        (Inl e, s1) \<Rightarrow> (Some (Inl e), s1)
      | (Inr _, s1) \<Rightarrow>
          (case since_epoch of
             Inl _ \<Rightarrow> (None, s1)
           | Inr now \<Rightarrow>
               if records_per_app = 0 then (None, s1)
               else (case test_fill X G now hours_back records_per_app s1 of
                   (Inl e, s2) \<Rightarrow> (Some (Inl e), s2)
                 | (Inr _, s2) \<Rightarrow> (Some (Inr (test_report path hours_back records_per_app)), s2))))"

section \<open>What is written\<close>

text \<open>The inserts as one list, and the records that a state of the random source gives.\<close>

type_synonym 'g plan = "(string \<times> u64 \<times> ('g, MetricPayload) state) list"

fun plan_records :: "'g plan \<Rightarrow> 'g \<Rightarrow> MetricRecord list" where
  "plan_records [] g = []"
| "plan_records ((app, ts, m) # ps) g =
     (case run_state m g of (p, g') \<Rightarrow> \<lparr> app_name = app, timestamp = ts, payload = p \<rparr> # plan_records ps g')"

definition test_plan :: "'g rng \<Rightarrow> u64 \<Rightarrow> u32 \<Rightarrow> u32 \<Rightarrow> 'g plan" where
  "test_plan G now hours_back records_per_app =
     concat (map (\<lambda>app. concat (map (\<lambda>i.
       map (\<lambda>m. (app, test_time now hours_back records_per_app (of_nat i), m)) (test_payloads G app (of_nat i)))
       [0..<unat records_per_app])) TEST_APPS)"

definition test_records :: "'g rng \<Rightarrow> u64 \<Rightarrow> u32 \<Rightarrow> u32 \<Rightarrow> 'g \<Rightarrow> MetricRecord list" where
  "test_records G now hours_back records_per_app = plan_records (test_plan G now hours_back records_per_app)"

lemma bindS_assoc: "bindS (bindS m f) g = bindS m (\<lambda>x. bindS (f x) g)"
  by (rule ext) (simp add: bindS_def split: prod.split sum.split)

lemma foldS_append: "foldS f b (xs @ ys) = bindS (foldS f b xs) (\<lambda>c. foldS f c ys)"
proof (induction xs arbitrary: b)
  case Nil
  show ?case by (rule ext) (simp add: bindS_def retS_def)
qed (simp add: bindS_assoc)

lemma foldS_concat: "foldS f b (concat xss) = foldS (\<lambda>c xs. foldS f c xs) b xss"
  by (induction xss arbitrary: b) (simp_all add: foldS_append)

lemma foldS_map: "foldS f b (map g xs) = foldS (\<lambda>c x. f c (g x)) b xs"
  by (induction xs arbitrary: b) simp_all

lemma test_fill_plan:
  "test_fill X G now hours_back n =
     bindS (foldS (\<lambda>_ (app, ts, m). test_insert X app ts m) () (test_plan G now hours_back n)) (\<lambda>_. on_store (flush_db X))"
  by (simp add: test_fill_def test_plan_def foldS_concat foldS_map)

text \<open>Every payload maker makes one type, in the order of \<open>ALL_METRIC_TYPES\<close>.\<close>

abbreviation rec_meta :: "MetricRecord \<Rightarrow> string \<times> u64 \<times> MetricType" where
  "rec_meta r \<equiv> (app_name r, timestamp r, rec_type r)"

definition makes :: "string \<times> u64 \<times> ('g, MetricPayload) state \<Rightarrow> string \<times> u64 \<times> MetricType \<Rightarrow> bool" where
  "makes p k \<longleftrightarrow> fst p = fst k \<and> fst (snd p) = fst (snd k) \<and> (\<forall>g. metric_type (fst (run_state (snd (snd p)) g)) = snd (snd k))"

definition test_metas :: "u64 \<Rightarrow> u32 \<Rightarrow> u32 \<Rightarrow> (string \<times> u64 \<times> MetricType) list" where
  "test_metas now hours_back n =
     concat (map (\<lambda>app. concat (map (\<lambda>i.
       map (\<lambda>mt. (app, test_time now hours_back n (of_nat i), mt)) ALL_METRIC_TYPES) [0..<unat n])) TEST_APPS)"

lemma plan_metas: "list_all2 makes ps ks \<Longrightarrow> map rec_meta (plan_records ps g) = ks"
proof (induction arbitrary: g rule: list_all2_induct)
  case (Cons p ps k ks)
  obtain app ts m where p: "p = (app, ts, m)" by (cases p) auto
  obtain pl g' where m: "run_state m g = (pl, g')" by (cases "run_state m g")
  have "metric_type (fst (run_state m g)) = snd (snd k)" using Cons.hyps(1) by (simp add: makes_def p)
  then have "k = (app, ts, metric_type pl)" using Cons.hyps(1) by (cases k) (simp add: makes_def p m)
  then show ?case by (simp add: p m Cons.IH)
qed simp

lemma concat_all2:
  "(\<And>x. x \<in> set xs \<Longrightarrow> list_all2 P (f x) (g x)) \<Longrightarrow> list_all2 P (concat (map f xs)) (concat (map g xs))"
  by (induction xs) (simp_all add: list_all2_appendI)

lemmas test_payload_defs = test_net_def test_pwr_def test_foc_def test_cpu_def test_mem_def test_dsk_def test_gpu_def
  test_gpu_proc_def

lemma test_payload_types:
  "list_all2 makes (map (\<lambda>m. (app, ts, m)) (test_payloads G app i)) (map (\<lambda>mt. (app, ts, mt)) ALL_METRIC_TYPES)"
  by (simp add: test_payloads_def ALL_METRIC_TYPES_def makes_def test_payload_defs split: prod.split)

lemma test_records_metas: "map rec_meta (test_records G now h n g) = test_metas now h n"
  unfolding test_records_def test_plan_def test_metas_def
  by (intro plan_metas concat_all2 test_payload_types)

section \<open>Times and keys\<close>

lemma test_time_nat:
  assumes "unat h * 3600 \<le> unat now" and "i < unat n"
  shows "unat (test_time now h n (of_nat i)) = unat now - unat h * 3600 + i * (unat h * 3600 div unat n)"
proof -
  have h: "unat h < 2 ^ 32" and n: "unat n < 2 ^ 32" using unsigned_less [of h, where ?'a = nat] unsigned_less [of n, where ?'a = nat] by simp_all
  have H: "unat (ucast h * 3600 :: u64) = unat h * 3600"
    using h by (simp add: unat_word_ariths unat_ucast_u64)
  have I: "unat (test_interval h n) = unat h * 3600 div unat n"
    by (simp add: test_interval_def unat_div H unat_ucast_u64)
  have i: "unat (ucast (of_nat i :: u32) :: u64) = i"
    using assms(2) n by (simp add: unat_ucast_u64 unsigned_of_nat take_bit_nat_eq_self)
  have "i * (unat h * 3600 div unat n) \<le> unat n * (unat h * 3600 div unat n)"
    using assms(2) by (intro mult_le_mono1) simp
  also have "\<dots> \<le> unat h * 3600" by (rule times_div_less_eq_dividend)
  finally have iI: "i * (unat h * 3600 div unat n) \<le> unat h * 3600" .
  then have small: "i * (unat h * 3600 div unat n) < 2 ^ 64" using h by simp
  have base: "unat (now - ucast h * 3600) = unat now - unat h * 3600"
    using assms(1) H by (simp add: unat_sub word_le_nat_alt)
  have prod: "unat (ucast (of_nat i :: u32) * test_interval h n) = i * (unat h * 3600 div unat n)"
    using small by (simp add: unat_word_ariths i I)
  have "unat now - unat h * 3600 + i * (unat h * 3600 div unat n) < 2 ^ 64"
    using iI assms(1) unsigned_less [of now, where ?'a = nat] by simp
  then show ?thesis unfolding test_time_def by (simp add: unat_word_ariths(1) base prod)
qed

text \<open>With a positive interval the times rise with the index and stay in the window that was asked for.\<close>

lemma test_time_window:
  assumes "unat h * 3600 \<le> unat now" and "i < unat n" and "unat n \<le> unat h * 3600"
  shows "now - ucast h * 3600 \<le> test_time now h n (of_nat i)" and "test_time now h n (of_nat i) < now"
    and "j < unat n \<Longrightarrow> test_time now h n (of_nat i) = test_time now h n (of_nat j) \<Longrightarrow> i = j"
proof -
  let ?I = "unat h * 3600 div unat n"
  have I: "0 < ?I" using assms(2,3) by (simp add: div_greater_zero_iff)
  have H: "unat (ucast h * 3600 :: u64) = unat h * 3600"
    using unsigned_less [of h, where ?'a = nat] by (simp add: unat_word_ariths unat_ucast_u64)
  have base: "unat (now - ucast h * 3600) = unat now - unat h * 3600"
    using assms(1) H by (simp add: unat_sub word_le_nat_alt)
  have "i * ?I < unat n * ?I" using assms(2) I by simp
  also have "\<dots> \<le> unat h * 3600" by (rule times_div_less_eq_dividend)
  finally have "i * ?I < unat h * 3600" .
  then show "test_time now h n (of_nat i) < now"
    using assms(1) by (simp add: word_less_nat_alt test_time_nat [OF assms(1,2)])
  show "now - ucast h * 3600 \<le> test_time now h n (of_nat i)"
    by (simp add: word_le_nat_alt test_time_nat [OF assms(1,2)] base)
  assume j: "j < unat n" "test_time now h n (of_nat i) = test_time now h n (of_nat j)"
  then have "j = i \<or> ?I = 0" using test_time_nat [OF assms(1,2)] test_time_nat [OF assms(1) j(1)] by simp
  then show "i = j" using I by simp
qed

text \<open>More records than seconds get the same time, so that each overwrites the one before it.\<close>

lemma test_time_collapses:
  assumes "unat h * 3600 < unat n"
  shows "test_time now h n i = now - ucast h * 3600"
proof -
  have "unat (ucast h * 3600 :: u64) = unat h * 3600"
    using unsigned_less [of h, where ?'a = nat] by (simp add: unat_word_ariths unat_ucast_u64)
  then have "unat (test_interval h n) = 0" using assms by (simp add: test_interval_def unat_div unat_ucast_u64)
  then have "test_interval h n = 0" by (simp only: unat_eq_zero)
  then show ?thesis by (simp add: test_time_def)
qed

lemma distinct_concat_map:
  "distinct xs \<Longrightarrow> (\<And>x. x \<in> set xs \<Longrightarrow> distinct (f x)) \<Longrightarrow>
   (\<And>x y. x \<in> set xs \<Longrightarrow> y \<in> set xs \<Longrightarrow> x \<noteq> y \<Longrightarrow> set (f x) \<inter> set (f y) = {}) \<Longrightarrow> distinct (concat (map f xs))"
  by (induction xs) auto

lemma test_metas_distinct:
  assumes "unat h * 3600 \<le> unat now" and "unat n \<le> unat h * 3600"
  shows "distinct (test_metas now h n)"
  unfolding test_metas_def
proof (intro distinct_concat_map)
  show "distinct TEST_APPS" by (simp add: TEST_APPS_def)
  fix app show "distinct [0..<unat n]" by simp
  fix i assume i: "i \<in> set [0..<unat n]"
  show "distinct (map (\<lambda>mt. (app, test_time now h n (of_nat i), mt)) ALL_METRIC_TYPES)"
    by (simp add: distinct_map inj_on_def)
  fix j assume "j \<in> set [0..<unat n]" "i \<noteq> j"
  then show "set (map (\<lambda>mt. (app, test_time now h n (of_nat i), mt)) ALL_METRIC_TYPES) \<inter>
      set (map (\<lambda>mt. (app, test_time now h n (of_nat j), mt)) ALL_METRIC_TYPES) = {}"
    using test_time_window(3) [OF assms(1) _ assms(2), of i j] i by auto
qed auto

lemma length_test_metas: "length (test_metas now h n) = 64 * unat n"
  by (simp add: test_metas_def length_concat comp_def sum_list_triv TEST_APPS_def ALL_METRIC_TYPES_def)

lemma length_test_metas_type:
  "length (filter (\<lambda>(_, _, mt'). mt' = mt) (test_metas now h n)) = 8 * unat n"
proof -
  have "length (filter (\<lambda>mt'. mt' = mt) ALL_METRIC_TYPES) = 1"
    by (cases mt) (simp_all add: ALL_METRIC_TYPES_def)
  then show ?thesis
    by (simp add: test_metas_def filter_concat length_concat comp_def filter_map sum_list_triv TEST_APPS_def)
qed

section \<open>The store afterwards\<close>

lemma ins_all_mem:
  "key_sorted rs \<Longrightarrow> distinct (map rkey new) \<Longrightarrow>
     key_sorted (ins_all new rs) \<and>
     set (ins_all new rs) = set new \<union> {x \<in> set rs. rkey x \<notin> rkey ` set new}"
proof (induction new arbitrary: rs)
  case (Cons r new)
  note step = Cons.IH [OF ins_rec_sorted [OF Cons.prems(1), of r]]
  have "distinct (map rkey new)" using Cons.prems(2) by simp
  from step [OF this] show ?case using Cons.prems(2) by (auto simp: set_ins_rec [OF Cons.prems(1)])
qed simp

lemma rkeys_distinct: "distinct (map rec_meta rs) \<Longrightarrow> distinct (map rkey rs)"
  by (simp add: distinct_map inj_on_def rkey_inj)

context store
begin

lemma test_insert_step:
  assumes "healthy w" and "holds X (absw w) ''metrics'' rs" and "run_state m g = (p, g')"
    and "roundtrips X \<lparr> app_name = app, timestamp = ts, payload = p \<rparr>"
  obtains w' where "test_insert X app ts m (w, g) = (Inr (), w', g')" and "healthy w'"
    and "holds X (absw w') ''metrics'' (ins_rec \<lparr> app_name = app, timestamp = ts, payload = p \<rparr> rs)"
    and "\<And>u. u \<noteq> ''metrics'' \<Longrightarrow> trees (absw w') u = trees (absw w) u"
proof -
  let ?r = "\<lparr> app_name = app, timestamp = ts, payload = p \<rparr>"
  obtain w' where w': "insert_metric X ?r w = (Inr (), w')" "healthy w'"
      "absw w' = set_tree ''metrics'' (map (entry X) (ins_rec ?r rs)) (absw w)"
    using runsD [OF run_insert_metric [OF assms(2,4)] assms(1)] by blast
  show thesis
    by (rule that [of w']) (use w' holds_ins_rec [OF assms(2,4)] in
      \<open>simp_all add: test_insert_def bindS_def on_rng_def on_store_def assms(3)\<close>)
qed

lemma test_inserts:
  assumes "healthy w" and "holds X (absw w) ''metrics'' rs" and "list_all (roundtrips X) (plan_records ps g)"
  shows "\<exists>w' g'. foldS (\<lambda>_ (app, ts, m). test_insert X app ts m) () ps (w, g) = (Inr (), w', g') \<and> healthy w' \<and>
    holds X (absw w') ''metrics'' (ins_all (plan_records ps g) rs) \<and>
    (\<forall>u. u \<noteq> ''metrics'' \<longrightarrow> trees (absw w') u = trees (absw w) u)"
  using assms
proof (induction ps arbitrary: w g rs)
  case (Cons p ps)
  obtain app ts m where p: "p = (app, ts, m)" by (cases p) auto
  obtain pl g1 where m: "run_state m g = (pl, g1)" by (cases "run_state m g")
  let ?r = "\<lparr> app_name = app, timestamp = ts, payload = pl \<rparr>"
  have rt: "roundtrips X ?r" "list_all (roundtrips X) (plan_records ps g1)" using Cons.prems(3) by (simp_all add: p m)
  obtain w1 where w1: "test_insert X app ts m (w, g) = (Inr (), w1, g1)" "healthy w1"
      "holds X (absw w1) ''metrics'' (ins_rec ?r rs)" "\<And>u. u \<noteq> ''metrics'' \<Longrightarrow> trees (absw w1) u = trees (absw w) u"
    by (rule test_insert_step [OF Cons.prems(1,2) m rt(1)]) blast
  from Cons.IH [OF w1(2,3) rt(2)] w1(4) show ?case by (simp add: p m bindS_def w1(1))
qed (simp add: retS_def)

lemma test_data_filled:
  assumes "healthy w" and "holds_all X (absw w) (\<lambda>_. [])" and "unat h * 3600 \<le> unat now" and "unat n \<le> unat h * 3600"
    and "list_all (roundtrips X) (test_records G now h n g)"
  obtains w' g' rs where "test_fill X G now h n (w, g) = (Inr (), w', g')" and "healthy w'" and "distinct rs"
    and "set rs = set (test_records G now h n g)" and "holds_all X (absw w') ((\<lambda>_. [])(''metrics'' := rs))"
proof -
  let ?new = "test_records G now h n g"
  let ?rs = "ins_all ?new []"
  have h: "holds X (absw w) ''metrics'' []" using holds_allD [OF assms(2), of "''metrics''"] by simp
  obtain w1 g1 where w1: "foldS (\<lambda>_ (app, ts, m). test_insert X app ts m) () (test_plan G now h n) (w, g) = (Inr (), w1, g1)"
      "healthy w1" "holds X (absw w1) ''metrics'' ?rs" "\<And>u. u \<noteq> ''metrics'' \<Longrightarrow> trees (absw w1) u = trees (absw w) u"
    using test_inserts [OF assms(1) h assms(5) [unfolded test_records_def]] unfolding test_records_def by blast
  obtain w2 where w2: "flush_db X w1 = (Inr (), w2)" "healthy w2" "absw w2 = absw w1"
    using runsD [OF do_flush w1(2)] by (auto simp: flush_db_def)
  have "distinct (map rkey ?new)"
    by (rule rkeys_distinct) (simp add: test_records_metas test_metas_distinct [OF assms(3,4)])
  from ins_all_mem [OF _ this, of "[]"] have rs: "key_sorted ?rs" "set ?rs = set ?new" by auto
  have "distinct (map rkey ?rs)" using rs(1) by (simp add: strict_sorted_iff)
  then have "distinct ?rs" by (simp add: distinct_map)
  moreover have "holds_all X (absw w2) ((\<lambda>_. [])(''metrics'' := ?rs))"
    using w1(3,4) assms(2) unfolding holds_all_def by (auto simp: w2(3) holds_def)
  ultimately show thesis
    using that [of w2 g1 ?rs] w1(1) w2 rs(2) by (simp add: test_fill_plan bindS_def on_store_def)
qed

end

section \<open>Plausible values\<close>

fun plausible :: "string \<Rightarrow> MetricPayload \<Rightarrow> bool" where
  "plausible app (NetP d) \<longleftrightarrow> 100000 \<le> tx_bytes d \<and> tx_bytes d < 10000000 \<and> 500000 \<le> rx_bytes d \<and>
     rx_bytes d < 50000000 \<and> 1 \<le> connections d \<and> connections d < 20"
| "plausible app (PwrP d) \<longleftrightarrow> fbetween (Num (1 / 2)) (Num 15) (watt_usage d) \<and>
     pred_option (fbetween (Num 20) (Num 100)) (battery_percent d) \<and>
     pred_option (fbetween (Num (1 / 2)) (Num 1)) (avg_cpu_freq_ratio d) \<and>
     pred_option (fbetween (lit F32 (3 / 10)) (Num 1)) (display_brightness d)"
| "plausible app (FocP d) \<longleftrightarrow> app_id d = app \<and> duration_ms d < 300000"
| "plausible app (CpuP d) \<longleftrightarrow> fbetween fzero (Num 25) (cpu_usage_percent d) \<and> 1 \<le> thread_count d \<and> thread_count d < 16"
| "plausible app (MemP d) \<longleftrightarrow> 50000000 \<le> rss_bytes d \<and> rss_bytes d < vms_bytes d \<and> vms_bytes d < 2000000000 \<and>
     swap_bytes d < 100000000 \<and> 1 \<le> process_count d"
| "plausible app (DskP d) \<longleftrightarrow> 1000000 \<le> read_bytes d \<and> 500000 \<le> write_bytes d \<and> mount_point d = ''/''"
| "plausible app (GpuP d) \<longleftrightarrow> pred_option (fbetween fzero (Num 100)) (usage_percent d) \<and>
     pred_option (\<lambda>v. v < unwrap_or (vram_total_bytes d) 0) (vram_used_bytes d)"
| "plausible app (GpuProcP d) \<longleftrightarrow> pred_option (fbetween fzero (Num 100)) (gp_usage_percent d) \<and>
     pred_option (\<lambda>v. v < 4000000000) (gp_vram_used_bytes d)"

lemma drawn_bind: "pred_state Q m \<Longrightarrow> (\<And>x. Q x \<Longrightarrow> pred_state P (f x)) \<Longrightarrow> pred_state P (State_Monad.bind m f)"
  by (rule pred_stateI) (auto split: prod.splits)

lemma drawn_any: "(\<And>x. pred_state P (f x)) \<Longrightarrow> pred_state P (State_Monad.bind m f)"
  by (rule drawn_bind [where Q = "\<lambda>_. True"]) auto

lemma drawn_return: "P x \<Longrightarrow> pred_state P (State_Monad.return x)"
  by (rule pred_stateI) simp

lemma drawn_some: "pred_state Q m \<Longrightarrow> pred_state (pred_option Q) (gen_some m)"
  unfolding gen_some_def by (erule drawn_bind, rule drawn_return) simp

lemma drawn_weaken: "pred_state Q m \<Longrightarrow> (\<And>x. Q x \<Longrightarrow> P x) \<Longrightarrow> pred_state P m"
  by (rule pred_stateI) auto

lemma drawn_if: "pred_state P m \<Longrightarrow> pred_state P m' \<Longrightarrow> pred_state P (if c then m else m')"
  by simp

lemma fbetween_weaken: "fbetween (Num a) (Num b) x \<Longrightarrow> a' \<le> a \<Longrightarrow> b \<le> b' \<Longrightarrow> fbetween (Num a') (Num b') x"
  by (auto simp: fbetween_def)

lemma f32_numeral: "numeral k < (2 ^ 24 :: nat) \<Longrightarrow> fwf F32 (Num (numeral k))"
proof -
  assume k: "numeral k < (2 ^ 24 :: nat)"
  have "(numeral k :: rat) < 2 powi fexp_max F32"
  proof -
    have "(numeral k :: rat) = of_nat (numeral k)" by simp
    also have "\<dots> < of_nat (2 ^ 24)" using k by (simp only: of_nat_less_iff)
    also have "\<dots> \<le> (2 powi fexp_max F32 :: rat)" by (simp add: power_int_def)
    finally show ?thesis .
  qed
  then show ?thesis using frepr_of_nat [of "numeral k" F32] k by simp
qed

lemma f32_values: "fwf F32 fzero" "fwf F32 (Num 1)" "fwf F32 (Num (1 / 2))" "fwf F32 (lit F32 (3 / 10))"
proof -
  show "fwf F32 (lit F32 (3 / 10))" by (simp add: lit_def)
  have "frepr F32 (1 / 2)" unfolding frepr_def by (rule exI [of _ 1], rule exI [of _ "- 1"]) simp
  then show "fwf F32 (Num (1 / 2))" by (simp add: power_int_def)
qed (simp_all add: power_int_def)

lemma lit_3_10: "lit F32 (3 / 10) = Num (5033165 / 16777216)"
  by code_simp

context random_source
begin

lemma drawn_f32:
  "numeral k < (2 ^ 24 :: nat) \<Longrightarrow> fwf F32 (Num a) \<Longrightarrow> a < numeral k \<Longrightarrow>
     pred_state (fbetween (Num a) (Num (numeral k))) (gen_f32 G (Num a) (Num (numeral k)))"
  by (intro draw_f32 f32_numeral)

lemma drawn_unit:
  "fwf F32 (Num a) \<Longrightarrow> a < 1 \<Longrightarrow> pred_state (fbetween (Num a) (Num 1)) (gen_f32 G (Num a) (Num 1))"
  by (intro draw_f32 f32_values)

lemma net_plausible: "pred_state (plausible app) (test_net G)"
  unfolding test_net_def
  by (rule drawn_bind, rule draw_u64, simp, rule drawn_bind, rule draw_u64, simp, rule drawn_bind, rule draw_u32, simp,
      rule drawn_return, simp)

lemma pwr_plausible: "pred_state (plausible app) (test_pwr G i)"
  unfolding test_pwr_def
  by (rule drawn_bind, rule drawn_f32, simp, rule f32_values, simp,
      rule drawn_bind, rule drawn_some, rule drawn_f32, simp, rule f32_numeral, simp, simp,
      rule drawn_any, rule drawn_any, rule drawn_any, rule drawn_any,
      rule drawn_bind, rule drawn_some, rule drawn_unit, rule f32_values, simp,
      rule drawn_bind, rule drawn_some, unfold lit_3_10, rule drawn_unit, rule f32_values(4) [unfolded lit_3_10], simp,
      rule drawn_any, rule drawn_return, simp add: lit_3_10)

lemma foc_plausible: "pred_state (plausible app) (test_foc G app)"
  unfolding test_foc_def
proof (rule drawn_any)
  fix focused
  have "pred_state (\<lambda>x. x < 300000) (if focused then gen_u64 G 120000 300000 else State_Monad.return 0)"
    by (intro drawn_if drawn_return drawn_weaken [OF draw_u64]) simp_all
  then show "pred_state (plausible app) (do { dur \<leftarrow> (if focused then gen_u64 G 120000 300000 else State_Monad.return 0);
      State_Monad.return (FocP \<lparr> app_id = app, duration_ms = dur \<rparr>) })"
    by (rule drawn_bind) (simp add: drawn_return)
qed

lemma cpu_usage_drawn: "pred_state (fbetween fzero (Num 25)) (test_cpu_usage G)"
proof -
  have "pred_state (fbetween fzero (Num 25)) (gen_f32 G fzero (Num 2))"
    by (rule drawn_weaken [OF drawn_f32 fbetween_weaken]) (auto simp: f32_values)
  moreover have "pred_state (fbetween fzero (Num 25)) (gen_f32 G (Num 2) (Num 8))"
    by (rule drawn_weaken [OF drawn_f32 fbetween_weaken]) (auto intro!: f32_numeral simp del: fwf_simps)
  moreover have "pred_state (fbetween fzero (Num 25)) (gen_f32 G (Num 8) (Num 25))"
    by (rule drawn_weaken [OF drawn_f32 fbetween_weaken]) (auto intro!: f32_numeral simp del: fwf_simps)
  ultimately show ?thesis unfolding test_cpu_usage_def by (intro drawn_any drawn_if)
qed

lemma cpu_plausible: "pred_state (plausible app) (test_cpu G)"
  unfolding test_cpu_def
proof (rule drawn_bind [OF cpu_usage_drawn])
  fix usage assume u: "fbetween fzero (Num 25) usage"
  have "pred_state (\<lambda>t. 1 \<le> t \<and> t < 16)
      (if flt (Num 20) usage then gen_u32 G 4 16 else if flt (Num 5) usage then gen_u32 G 2 8 else gen_u32 G 1 4)"
    by (intro drawn_if; rule drawn_weaken, rule draw_u32, simp, simp add: word_le_nat_alt word_less_nat_alt)
  then show "pred_state (plausible app) (do { thr \<leftarrow> (if flt (Num 20) usage then gen_u32 G 4 16
             else if flt (Num 5) usage then gen_u32 G 2 8 else gen_u32 G 1 4);
     State_Monad.return (CpuP
       \<lparr> cpu_time_ns = to_word (fmul F32 (fmul F32 (fdiv F32 usage (Num 100)) (Num 1000000000)) (Num 8)),
         cpu_usage_percent = usage, thread_count = thr \<rparr>) })"
    by (rule drawn_bind) (simp add: drawn_return u)
qed

lemma rss_drawn: "pred_state (\<lambda>r. 50000000 \<le> r \<and> r < 1500000000) (test_rss G)"
  unfolding test_rss_def
  by (intro drawn_any drawn_if; rule drawn_weaken, rule draw_u64, simp, simp add: word_le_nat_alt word_less_nat_alt)

lemma mem_sum: "50000000 \<le> r \<Longrightarrow> r < 1500000000 \<Longrightarrow> 100000000 \<le> x \<Longrightarrow> x < 500000000 \<Longrightarrow> r < r + x \<and> r + x < 2000000000"
  for r x :: u64
  by (simp add: word_less_nat_alt word_le_nat_alt unat_word_ariths)

lemma mem_plausible: "pred_state (plausible app) (test_mem G)"
  unfolding test_mem_def
  by (rule drawn_bind [OF rss_drawn], rule drawn_bind, rule draw_u64, simp, rule drawn_bind, rule draw_u64, simp,
      rule drawn_bind, rule draw_u32, simp, rule drawn_return, simp add: mem_sum)

lemma dsk_plausible: "pred_state (plausible app) (test_dsk G)"
  unfolding test_dsk_def
  by (rule drawn_bind, rule draw_u64, simp, rule drawn_bind, rule draw_u64, simp, rule drawn_return, simp)

lemma usage_drawn:
  "pred_state (pred_option (fbetween fzero (Num 100)))
     (if c then gen_some (gen_f32 G fzero (Num 100)) else State_Monad.return None)"
  by (intro drawn_if drawn_some drawn_f32 drawn_return) (simp_all add: f32_values)

lemma gpu_plausible: "pred_state (plausible app) (test_gpu G i)"
  unfolding test_gpu_def
  by (rule drawn_bind [OF usage_drawn], rule drawn_bind, rule drawn_some, rule draw_u64, simp, (rule drawn_any)+,
      rule drawn_return, auto intro: order.strict_trans simp: option.pred_set)

lemma gpu_proc_plausible: "pred_state (plausible app) (test_gpu_proc G i)"
  unfolding test_gpu_proc_def
  by (rule drawn_bind [OF usage_drawn], rule drawn_bind, rule drawn_some, rule draw_u64, simp,
      rule drawn_return, auto simp: option.pred_set)

lemmas all_plausible = net_plausible pwr_plausible foc_plausible cpu_plausible mem_plausible dsk_plausible
  gpu_plausible gpu_proc_plausible

lemma plan_plausible:
  "list_all (\<lambda>(app, ts, m). pred_state (plausible app) m) ps \<Longrightarrow>
   list_all (\<lambda>r. plausible (app_name r) (payload r)) (plan_records ps g)"
proof (induction ps arbitrary: g)
  case (Cons p ps)
  obtain app ts m where p: "p = (app, ts, m)" by (cases p) auto
  obtain pl g' where m: "run_state m g = (pl, g')" by (cases "run_state m g")
  then have "plausible app pl" using Cons.prems by (auto simp: p)
  then show ?case using Cons by (simp add: p m)
qed simp

lemma test_records_plausible:
  "list_all (\<lambda>r. plausible (app_name r) (payload r)) (test_records G now h n g)"
  unfolding test_records_def
  by (rule plan_plausible) (simp add: test_plan_def test_payloads_def all_plausible list_all_iff)

end

section \<open>Property\<close>

lemma test_meta_window:
  assumes "unat h * 3600 \<le> unat now" and "unat n \<le> unat h * 3600" and "(app, ts, mt) \<in> set (test_metas now h n)"
  shows "now - ucast h * 3600 \<le> ts \<and> ts < now"
  using assms(3) test_time_window(1,2) [OF assms(1) _ assms(2)] by (auto simp: test_metas_def)

text \<open>The records of one type in the window are all there.\<close>

lemma test_records_type:
  assumes "unat h * 3600 \<le> unat now" and "unat n \<le> unat h * 3600"
    and "distinct rs" and "set rs = set (test_records G now h n g)"
  shows "mset (filter (in_range mt (now - ucast h * 3600) now) rs) = mset (filter (\<lambda>r. rec_type r = mt) (test_records G now h n g))"
    and "length (filter (in_range mt (now - ucast h * 3600) now) rs) = 8 * unat n"
proof -
  let ?new = "test_records G now h n g"
  have metas: "map rec_meta ?new = test_metas now h n" by (rule test_records_metas)
  have "distinct (map rec_meta ?new)" unfolding metas by (rule test_metas_distinct [OF assms(1,2)])
  then have "distinct ?new" by (simp add: distinct_map)
  moreover have "in_range mt (now - ucast h * 3600) now r \<longleftrightarrow> rec_type r = mt" if "r \<in> set ?new" for r
  proof -
    have "rec_meta r \<in> set (test_metas now h n)" using that by (simp flip: metas)
    from test_meta_window [OF assms(1,2) this] show ?thesis by (simp add: in_range_def)
  qed
  ultimately show eq: "mset (filter (in_range mt (now - ucast h * 3600) now) rs) = mset (filter (\<lambda>r. rec_type r = mt) ?new)"
    using assms(3,4) by (intro set_eq_iff_mset_eq_distinct [THEN iffD1]) auto
  have "filter (\<lambda>(_, _, mt'). mt' = mt) (map rec_meta ?new) = map rec_meta (filter (\<lambda>r. rec_type r = mt) ?new)"
    by (simp add: filter_map comp_def)
  then have "length (filter (\<lambda>r. rec_type r = mt) ?new) = 8 * unat n"
    using length_test_metas_type [of mt now h n] unfolding metas [symmetric] by simp
  then show "length (filter (in_range mt (now - ucast h * 3600) now) rs) = 8 * unat n"
    using mset_eq_length [OF eq] by simp
qed

text \<open>C22: The test data.  On an empty store that keeps its promises and can encode the records, with a random source whose draws lie in the ranges asked
  for, a clock past the hours that are generated, at least one record per application and at most one per second, the command
  succeeds and writes 64 records per index, eight types for eight applications, all with plausible
  values; a query for the generated hours then returns, for each type, exactly the records
  of that type, eight per index: none is overwritten and none lies outside the window.\<close>

theorem test_data_complete:
  assumes "store X healthy absw" and "random_source G" and "storage_open X path w0 = (Inr (), w)" and "healthy w"
    and "holds_all X (absw w) (\<lambda>_. [])" and "unat h * 3600 \<le> unat now" and "0 < unat n" and "unat n \<le> unat h * 3600"
    and "list_all (roundtrips X) (test_records G now h n g)"
  shows "\<exists>w' g' rs. generate_test_data X G (Inr now) path h n (w0, g) = (Some (Inr (test_report path h n)), w', g') \<and>
    length (test_records G now h n g) = 64 * unat n \<and>
    list_all (\<lambda>r. plausible (app_name r) (payload r)) (test_records G now h n g) \<and>
    fst (get_metrics_by_type X C clock mt (now - ucast h * 3600) now w') = Inr rs \<and>
    mset rs = mset (filter (\<lambda>r. rec_type r = mt) (test_records G now h n g)) \<and> length rs = 8 * unat n"
proof -
  obtain w' g' all where fill: "test_fill X G now h n (w, g) = (Inr (), w', g')" "healthy w'" "distinct all"
      "set all = set (test_records G now h n g)" "holds_all X (absw w') ((\<lambda>_. [])(''metrics'' := all))"
    by (rule store.test_data_filled [OF assms(1,4,5,6,8,9)])
  let ?rs = "filter (in_range mt (now - ucast h * 3600) now) all"
  have "query_spec C nw mt (now - ucast h * 3600) now ((\<lambda>_. [])(''metrics'' := all)) = ?rs" for nw
    by (simp add: query_spec_def Let_def)
  then have "fst (get_metrics_by_type X C clock mt (now - ucast h * 3600) now w') = Inr ?rs"
    using runsD [OF store.run_get_metrics_by_type [OF assms(1) fill(5)] fill(2), of C clock mt "now - ucast h * 3600" now] by auto
  moreover have "length (test_records G now h n g) = 64 * unat n"
    using length_test_metas [of now h n] arg_cong [OF test_records_metas, of length G now h n g] by simp
  moreover have "n \<noteq> 0" using assms(7) by auto
  ultimately show ?thesis
    using test_records_type [OF assms(6,8) fill(3,4), of mt] random_source.test_records_plausible [OF assms(2)] fill(1) assms(3)
    by (intro exI [of _ w'] exI [of _ g'] exI [of _ ?rs]) (simp add: generate_test_data_def on_store_def)
qed

text \<open>A source that alternates between the ends of the ranges.\<close>

definition w_rng :: "nat rng" where
  "w_rng = \<lparr> gen_u64 = (\<lambda>lo hi. State (\<lambda>s. (if even s then lo else hi - 1, Suc s))),
     gen_u32 = (\<lambda>lo hi. State (\<lambda>s. (if even s then lo else hi - 1, Suc s))),
     gen_i64 = (\<lambda>lo hi. State (\<lambda>s. (lo, Suc s))),
     gen_f32 = (\<lambda>lo hi. State (\<lambda>s. (lo, Suc s))),
     gen_bool = (\<lambda>p. State (\<lambda>s. (even (s div 2), Suc s))) \<rparr>"

lemma below_pred: "lo < hi \<Longrightarrow> lo \<le> hi - 1 \<and> hi - 1 < hi" for lo hi :: "'a::len word"
proof -
  assume "lo < hi"
  then have "unat lo < unat hi" "1 \<le> unat hi" by (simp_all add: word_less_nat_alt)
  then have "unat (hi - 1) = unat hi - 1" by (simp add: unat_sub word_le_nat_alt)
  then show ?thesis using \<open>unat lo < unat hi\<close> by (simp add: word_le_nat_alt word_less_nat_alt)
qed

interpretation alternating: random_source w_rng
  by unfold_locales (auto simp: w_rng_def fbetween_def below_pred)

theorem test_data_complete_witness:
  "\<exists>w' g' rs. generate_test_data (ref_ext (test_records w_rng 10000 1 1 0)) w_rng (Inr 10000) ''test.db'' 1 1 (ref_empty, 0) =
      (Some (Inr (test_report ''test.db'' 1 1)), w', g') \<and>
    fst (get_metrics_by_type (ref_ext (test_records w_rng 10000 1 1 0)) greg (Inr 10000) Mem 6400 10000 w') = Inr rs \<and>
    length (test_records w_rng 10000 1 1 0) = 64 \<and> length rs = 8"
proof -
  let ?new = "test_records w_rng 10000 1 1 0"
  have rt: "list_all (roundtrips (ref_ext ?new)) ?new"
    using ref_rec_roundtrip by (auto simp: list_all_iff roundtrips_def)
  have empty: "holds_all (ref_ext ?new) (id ref_empty) (\<lambda>_. [])" by (simp add: holds_all_def holds_def ref_empty_def)
  have opens: "storage_open (ref_ext ?new) ''test.db'' ref_empty = (Inr (), ref_empty)"
    by (simp add: storage_open_def ref_ext_def)
  show ?thesis
    using test_data_complete [OF ref.store_axioms alternating.random_source_axioms opens ref_healthy_empty empty _ _ _ rt,
        of greg "Inr 10000" Mem] by simp blast
qed

end
