(* ===== verification/Commands.thy ===== *)
theory Commands
  imports Fault_Store Snapshot Tui Test_Data
begin

text \<open>
  \<open>crates/heimwatch-daemon/src/main.rs\<close>: the commands of the binary and their dispatch, with the command
  that lists the contents of a database.  The command-line parser (clap) is a library: its result is
  an argument, and the default values of the source are listed.  The daemon and the terminal
  interface run on, so their commands give the running state; the other commands end.
\<close>

section \<open>Arguments\<close>

datatype SnapshotCommand =
    SnapCpu u64 string
  | SnapNetwork u64 string
  | SnapDisk u64 string
  | SnapMemory u64 string
  | SnapGpu u64 string
  | SnapFocus u64 string string
  | SnapPower u64 string string nat

datatype Command =
    RunDaemon string string
  | RunTui string
  | MakeTestData string u32 u32
  | DebugDb string u32
  | TakeSnapshot SnapshotCommand

record Args =
  arg_log_level :: string
  arg_command :: Command

definition default_log_level :: string where
  "default_log_level = ''info''"

text \<open>What a subcommand means when no option is given; the snapshots of focus and power require a database.\<close>

definition default_commands :: "(string \<times> Command) list" where
  "default_commands =
     [(''daemon'', RunDaemon ''./heimwatch.db'' ''./heimwatch.toml''),
      (''tui'', RunTui ''./heimwatch.db''),
      (''test-data'', MakeTestData ''./heimwatch.db'' 24 20),
      (''debug-db'', DebugDb ''./heimwatch.db'' 24),
      (''snapshot cpu'', TakeSnapshot (SnapCpu 5 ''text'')),
      (''snapshot network'', TakeSnapshot (SnapNetwork 3 ''text'')),
      (''snapshot disk'', TakeSnapshot (SnapDisk 5 ''text'')),
      (''snapshot memory'', TakeSnapshot (SnapMemory 5 ''text'')),
      (''snapshot gpu'', TakeSnapshot (SnapGpu 5 ''text''))]"

definition default_focus :: "string \<Rightarrow> SnapshotCommand" where
  "default_focus db = SnapFocus 30 ''text'' db"

definition default_power :: "string \<Rightarrow> SnapshotCommand" where
  "default_power db = SnapPower 3600 ''text'' db 10"

section \<open>Listing a database\<close>

text \<open>\<open>dbg\<close> is \<open>Debug\<close> for a string, \<open>order\<close> the order in which a hash set is visited.\<close>

primrec type_debug :: "MetricType \<Rightarrow> string" where
  "type_debug Net = ''Net''"
| "type_debug Pwr = ''Pwr''"
| "type_debug Foc = ''Foc''"
| "type_debug Cpu = ''Cpu''"
| "type_debug Mem = ''Mem''"
| "type_debug Dsk = ''Dsk''"
| "type_debug Gpu = ''Gpu''"
| "type_debug GpuProc = ''GpuProc''"

fun commas :: "string list \<Rightarrow> string" where
  "commas [] = []"
| "commas [x] = x"
| "commas (x # xs) = x @ '', '' @ commas xs"

definition debug_lines ::
  "(string \<Rightarrow> string) \<Rightarrow> (string list \<Rightarrow> string list) \<Rightarrow> MetricType \<Rightarrow> MetricRecord list \<Rightarrow> string list" where
  "debug_lines dbg order mt records =
     (type_debug mt @ '': '' @ dec (length records) @ '' records'') #
     (if records \<noteq> []
      then [''  Time range: '' @ fmt_u (timestamp (hd records)) @ '' to '' @ fmt_u (timestamp (last records)),
            ''  Apps: {'' @ commas (map dbg (order (remdups (map app_name records)))) @ ''}'']
      else [])"

fun debug_types ::
  "'w ext \<Rightarrow> 'd chrono \<Rightarrow> (string \<Rightarrow> string) \<Rightarrow> (string list \<Rightarrow> string list) \<Rightarrow> (nat \<Rightarrow> any_error + u64) \<Rightarrow> u64 \<Rightarrow> u64 \<Rightarrow>
   nat \<Rightarrow> MetricType list \<Rightarrow> 'w \<Rightarrow> string list \<times> (any_error + unit) \<times> 'w" where
  "debug_types X C dbg order clock start now i [] w = ([], Inr (), w)"
| "debug_types X C dbg order clock start now i (mt # mts) w =
     (case get_metrics_by_type X C (clock i) mt start now w of
        (Inl e, w') \<Rightarrow> ([], Inl e, w')
      | (Inr records, w') \<Rightarrow>
          (case debug_types X C dbg order clock start now (Suc i) mts w' of
             (ls, r, w'') \<Rightarrow> (debug_lines dbg order mt records @ ls, r, w'')))"

definition debug_head :: "string \<Rightarrow> u64 \<Rightarrow> u64 \<Rightarrow> u32 \<Rightarrow> string list" where
  "debug_head db start now hours =
     [''Database: '' @ db,
      ''Query window: '' @ fmt_u start @ '' to '' @ fmt_u now @ '' ('' @ fmt_u hours @ '' hours)'',
      []]"

definition debug_db ::
  "'w ext \<Rightarrow> 'd chrono \<Rightarrow> (string \<Rightarrow> string) \<Rightarrow> (string list \<Rightarrow> string list) \<Rightarrow> unit + u64 \<Rightarrow> (nat \<Rightarrow> any_error + u64) \<Rightarrow>
   string \<Rightarrow> u32 \<Rightarrow> 'w \<Rightarrow> string list \<times> (any_error + unit) \<times> 'w" where
  "debug_db X C dbg order since_epoch clock db hours w =
     (case storage_open X db w of
        (Inl e, w1) \<Rightarrow> ([], Inl e, w1)
      | (Inr _, w1) \<Rightarrow>
          (case current_unix_timestamp since_epoch of
             Inl e \<Rightarrow> ([], Inl e, w1)
           | Inr now \<Rightarrow>
               (let start = sat_sub now (ucast hours * 3600) in
                case debug_types X C dbg order clock start now 0 ALL_METRIC_TYPES w1 of
                  (ls, r, w2) \<Rightarrow> (debug_head db start now hours @ ls, r, w2))))"

section \<open>Dispatch\<close>

text \<open>Everything the binary meets outside itself; \<open>'h\<close> stands for the collectors, \<open>'n\<close> for the graphics library,
  \<open>'g\<close> for the random source.\<close>

record ('w, 'd, 'h, 'n, 'g) main_env =
  mn_ext :: "'w ext"
  mn_chrono :: "'d chrono"
  mn_lower :: "string \<Rightarrow> string"
  mn_try_init :: "LevelFilter \<Rightarrow> any_error + unit"
  mn_read :: "string \<Rightarrow> any_error + string"
  mn_toml :: "string \<Rightarrow> any_error + DaemonConfig"
  mn_platform :: "'h PlatformCollector"
  mn_occurrences :: "occurrence list"
  mn_now :: "unit + u64"
  mn_clock :: "nat \<Rightarrow> any_error + u64"
  mn_rng :: "'g rng"
  mn_rng_state :: 'g
  mn_snap :: "'n snapshot_env"
  mn_power :: power_snapshot_env
  mn_debug :: "string \<Rightarrow> string"
  mn_order :: "string list \<Rightarrow> string list"

datatype main_error =
    BadLevel string
  | LoggerFailed any_error
  | TuiOpenFailed any_error
  | CommandFailed any_error
  | SnapshotFailed snapshot_error

datatype ('w, 'h, 't) main_result =
    Exits "string list" 'w
  | Errs main_error "string list" 'w
  | Panics 'w
  | DaemonRuns "'h list" "'w daemon"
  | TuiRuns "('w, 't) tui"

definition init_logging :: "(LevelFilter \<Rightarrow> any_error + unit) \<Rightarrow> LogConfig \<Rightarrow> any_error + unit" where
  "init_logging try_init config = try_init (level config)"

text \<open>The word in the start message: it looks at whether asking succeeded, not at the answer.\<close>

definition config_status :: "any_error + bool \<Rightarrow> string" where
  "config_status ex = (if \<not> isl ex then ''loaded from file'' else ''file not found, loading defaults'')"

lemma config_status_missing: "config_status (Inr False) = config_status (Inr True)"
  by (simp add: config_status_def)

definition of_outcome :: "outcome \<times> 'w \<Rightarrow> ('w, 'h, 't) main_result" where
  "of_outcome = (\<lambda>(r, w). case r of
      Printed ls \<Rightarrow> Exits ls w
    | Failed e \<Rightarrow> Errs (SnapshotFailed e) [] w
    | Panicked \<Rightarrow> Panics w)"

fun snapshot_command ::
  "('w, 'd, 'h, 'n, 'g) main_env \<Rightarrow> SnapshotCommand \<Rightarrow> 'w \<Rightarrow> outcome \<times> 'w" where
  "snapshot_command E (SnapCpu window fmt) w =
     run_snapshot (mn_ext E) (mn_chrono E) (mn_snap E) (mn_now E) (mn_clock E 0) window fmt ''cpu'' None w"
| "snapshot_command E (SnapNetwork window fmt) w =
     run_snapshot (mn_ext E) (mn_chrono E) (mn_snap E) (mn_now E) (mn_clock E 0) window fmt ''network'' None w"
| "snapshot_command E (SnapDisk window fmt) w =
     run_snapshot (mn_ext E) (mn_chrono E) (mn_snap E) (mn_now E) (mn_clock E 0) window fmt ''disk'' None w"
| "snapshot_command E (SnapMemory window fmt) w =
     run_snapshot (mn_ext E) (mn_chrono E) (mn_snap E) (mn_now E) (mn_clock E 0) window fmt ''memory'' None w"
| "snapshot_command E (SnapGpu window fmt) w =
     run_snapshot (mn_ext E) (mn_chrono E) (mn_snap E) (mn_now E) (mn_clock E 0) window fmt ''gpu'' None w"
| "snapshot_command E (SnapFocus window fmt db) w =
     run_snapshot (mn_ext E) (mn_chrono E) (mn_snap E) (mn_now E) (mn_clock E 0) window fmt ''focus'' (Some db) w"
| "snapshot_command E (SnapPower window fmt db limit) w =
     run_power_snapshot (mn_ext E) (mn_chrono E) (mn_power E) window fmt db limit w"

fun dispatch :: "('w, 'd, 'h, 'n, 'g) main_env \<Rightarrow> Command \<Rightarrow> 'w \<Rightarrow> ('w, 'h, 't) main_result" where
  "dispatch E (RunDaemon db config) w =
     (case daemon_run (mn_ext E) (mn_chrono E) (mn_read E) (mn_toml E) (mn_platform E) db (Some config) (mn_occurrences E) w of
        Inl e \<Rightarrow> Errs (CommandFailed e) [] (snd (storage_open (mn_ext E) db w))
      | Inr (tasks, d) \<Rightarrow>
          (case d_phase d of
             Exited (Inl e) \<Rightarrow> Errs (CommandFailed e) [] (d_world d)
           | Exited (Inr _) \<Rightarrow> Exits [] (d_world d)
           | _ \<Rightarrow> DaemonRuns tasks d))"
| "dispatch E (RunTui db) w =
     (case storage_open (mn_ext E) db w of
        (Inl e, w1) \<Rightarrow> Errs (TuiOpenFailed e) [] w1
      | (Inr _, w1) \<Rightarrow> TuiRuns (tui_start db w1))"
| "dispatch E (MakeTestData db hours records) w =
     (case generate_test_data (mn_ext E) (mn_rng E) (mn_now E) db hours records (w, mn_rng_state E) of
        (None, w1, _) \<Rightarrow> Panics w1
      | (Some (Inl e), w1, _) \<Rightarrow> Errs (CommandFailed e) [] w1
      | (Some (Inr ls), w1, _) \<Rightarrow>
          Exits (ls @ [''Test database created at: '' @ db,
            ''Run `cargo run -p heimwatch-daemon -- tui --db '' @ db @ ''` to view it'']) w1)"
| "dispatch E (DebugDb db hours) w =
     (case debug_db (mn_ext E) (mn_chrono E) (mn_debug E) (mn_order E) (mn_now E) (mn_clock E) db hours w of
        (ls, Inl e, w1) \<Rightarrow> Errs (CommandFailed e) ls w1
      | (ls, Inr _, w1) \<Rightarrow> Exits ls w1)"
| "dispatch E (TakeSnapshot snapshot_cmd) w = of_outcome (snapshot_command E snapshot_cmd w)"

definition heimwatch_main :: "('w, 'd, 'h, 'n, 'g) main_env \<Rightarrow> Args \<Rightarrow> 'w \<Rightarrow> ('w, 'h, 't) main_result" where
  "heimwatch_main E args w =
     (case parse_level (mn_lower E) (arg_log_level args) of
        Inl e \<Rightarrow> Errs (BadLevel e) [] w
      | Inr log_lvl \<Rightarrow>
          (case init_logging (mn_try_init E) (log_config_new log_lvl) of
             Inl e \<Rightarrow> Errs (LoggerFailed e) [] w
           | Inr _ \<Rightarrow> dispatch E (arg_command args) w))"

fun main_world :: "('w, 'h, 't) main_result \<Rightarrow> 'w" where
  "main_world (Exits ls w) = w"
| "main_world (Errs e ls w) = w"
| "main_world (Panics w) = w"
| "main_world (DaemonRuns tasks d) = d_world d"
| "main_world (TuiRuns s) = t_world s"

section \<open>Commands that only read\<close>

primrec only_reads :: "Command \<Rightarrow> bool" where
  "only_reads (RunDaemon db config) = False"
| "only_reads (RunTui db) = True"
| "only_reads (MakeTestData db hours records) = False"
| "only_reads (DebugDb db hours) = True"
| "only_reads (TakeSnapshot snapshot_cmd) = True"

text \<open>\<open>still tr m\<close>: the computation leaves every tree alone, whatever its result.\<close>

abbreviation still :: "('w \<Rightarrow> string \<Rightarrow> tree) \<Rightarrow> ('w, 'a) io \<Rightarrow> bool" where
  "still tr m \<equiv> \<forall>T. keeps (\<lambda>w. tr w = T) m"

lemma stillD:
  assumes "still tr m"
  shows "tr (snd (m w)) = tr w" and "m w = (r, w') \<Longrightarrow> tr w' = tr w"
proof -
  show *: "tr (snd (m w)) = tr w" using guardsD(1) [OF assms [THEN spec, of "tr w"]] by simp
  show "m w = (r, w') \<Longrightarrow> tr w' = tr w" using * by simp
qed

context fault_store
begin

lemma still_library: "still tr (open_tree X t)" "still tr (sled_open X p c f)"
  by (simp_all add: guards_def open_keeps)

lemma still_trees:
  "still tr (metrics_tree X)" "still tr (metrics_1d_tree X)" "still tr (metrics_1m_tree X)" "still tr (metrics_1y_tree X)"
  unfolding metrics_tree_def metrics_1d_tree_def metrics_1m_tree_def metrics_1y_tree_def
  by (intro allI keeps_rules still_library [THEN spec])+

lemma still_query: "still tr (get_metrics_by_type X C clock mt s e)"
  unfolding get_metrics_by_type_def query_raw_def query_tiers_def scan_records_def Let_def
  by (intro allI keeps_rules still_trees [THEN spec])

lemma still_rankings:
  "still tr (get_top_apps_by_network X C it clock s e n)" "still tr (get_top_apps_by_focus X C it' clock s e n)"
  "still tr (get_top_apps_by_power X C it'' lg clocks s e ob n)" "still tr (get_system_power_history X C clock s e)"
  unfolding get_top_apps_by_network_def get_top_apps_by_focus_def get_top_apps_by_power_def get_power_stats_def
    get_system_power_history_def Let_def
  by (intro allI keeps_rules still_query [THEN spec])+

lemma still_open: "still tr (storage_open X path)"
  unfolding storage_open_def by (rule still_library)

lemma still_load: "still tr (load_snapshot X C env window)"
  unfolding load_snapshot_def Let_def
  by (intro allI keeps_rules still_query [THEN spec] still_rankings [THEN spec])

lemma still_debug_types: "tr (snd (snd (debug_types X C dbg order clock start now i mts w))) = tr w"
proof (induction mts arbitrary: i w)
  case (Cons mt mts)
  have "tr (snd (get_metrics_by_type X C (clock i) mt start now w)) = tr w" by (rule stillD(1) [OF still_query])
  then show ?case using Cons by (simp add: case_prod_unfold split: sum.split)
qed simp

lemmas stills = stillD(1) [OF still_open] stillD(1) [OF still_query] still_rankings [THEN stillD(1)] still_debug_types

lemma still_debug_db: "tr (snd (snd (debug_db X C dbg order since_epoch clock db hours w))) = tr w"
  by (simp add: debug_db_def Let_def case_prod_unfold stills split: sum.split)

lemma still_run_snapshot: "tr (snd (run_snapshot X C E nc cl window fmt kind db w)) = tr w"
  by (simp add: run_snapshot_def run_focus_snapshot_def Let_def case_prod_unfold stills split: sum.split option.split)

lemma still_power_snapshot: "tr (snd (run_power_snapshot X C E window fmt db limit w)) = tr w"
  by (simp add: run_power_snapshot_def Let_def case_prod_unfold stills split: sum.split)

lemma still_tui_step: "tui_step X C fmt s s' \<Longrightarrow> tr (t_world s') = tr (t_world s)"
proof (induction rule: tui_step.induct)
  case (loaded s before window after e ev w)
  then show ?case
    using stillD(1) [OF still_load, of C e window "t_world s"]
    by (auto simp: load_message_def split: prod.splits sum.splits)
qed (auto simp: draw_def send_def receive_def Let_def split: sum.split prod.split)

lemma still_tui: "(tui_step X C fmt)\<^sup>*\<^sup>* s s' \<Longrightarrow> tr (t_world s') = tr (t_world s)"
  by (induction rule: rtranclp_induct) (auto dest: still_tui_step)

lemma still_snapshot_command: "mn_ext E = X \<Longrightarrow> tr (snd (snapshot_command E c w)) = tr w"
  by (cases c) (simp_all add: still_run_snapshot still_power_snapshot)

lemma world_of_outcome: "main_world (of_outcome r) = snd r"
  by (cases r; cases "fst r") (simp_all add: of_outcome_def)

lemma still_dispatch:
  assumes "mn_ext E = X" and "only_reads c"
  shows "tr (main_world (dispatch E c w)) = tr w"
proof (cases c)
  case (RunTui db)
  then show ?thesis using assms(1) by (simp add: case_prod_unfold tui_start_def stills split: sum.split)
next
  case (DebugDb db hours)
  then show ?thesis
    using assms(1) still_debug_db [of C "mn_debug E" "mn_order E" "mn_now E" "mn_clock E" db hours w for C]
    by (auto simp: case_prod_unfold split: sum.split)
next
  case (TakeSnapshot snap)
  then show ?thesis using assms(1) by (simp add: world_of_outcome still_snapshot_command)
qed (use assms(2) in simp_all)

end

section \<open>Listing a healthy database\<close>

text \<open>What the command prints for the types \<open>mts\<close> when the store holds the record lists \<open>D\<close>.\<close>

definition listing ::
  "'d chrono \<Rightarrow> (string \<Rightarrow> string) \<Rightarrow> (string list \<Rightarrow> string list) \<Rightarrow> (nat \<Rightarrow> any_error + u64) \<Rightarrow> u64 \<Rightarrow> u64 \<Rightarrow>
   (string \<Rightarrow> MetricRecord list) \<Rightarrow> (nat \<times> MetricType) list \<Rightarrow> string list" where
  "listing C dbg order clock start now D imts =
     concat (map (\<lambda>(i, mt). debug_lines dbg order mt (query_spec C (unwrap_or (ok_opt (clock i)) (- 1)) mt start now D)) imts)"

lemma debug_types_store:
  assumes st: "store X healthy absw"
  shows "healthy w \<Longrightarrow> holds_all X (absw w) D \<Longrightarrow>
    \<exists>w'. debug_types X C dbg order clock start now i mts w =
        (listing C dbg order clock start now D (zip [i..<i + length mts] mts), Inr (), w') \<and>
      healthy w' \<and> absw w' = absw w"
proof (induction mts arbitrary: i w)
  case (Cons mt mts)
  let ?rs = "query_spec C (unwrap_or (ok_opt (clock i)) (- 1)) mt start now D"
  obtain w1 where q: "get_metrics_by_type X C (clock i) mt start now w = (Inr ?rs, w1)" and h: "healthy w1" "absw w1 = absw w"
    using runsD [OF store.run_get_metrics_by_type [OF st Cons.prems(2)] Cons.prems(1)] by blast
  have "holds_all X (absw w1) D" using Cons.prems(2) h(2) by simp
  from Cons.IH [OF h(1) this, of "Suc i"] obtain w2 where
    "debug_types X C dbg order clock start now (Suc i) mts w1 =
       (listing C dbg order clock start now D (zip [Suc i..<Suc i + length mts] mts), Inr (), w2)"
    "healthy w2" "absw w2 = absw w1" by blast
  moreover have "zip [i..<i + length (mt # mts)] (mt # mts) = (i, mt) # zip [Suc i..<Suc i + length mts] mts"
    by (simp only: upt_conv_Cons list.size) simp
  ultimately show ?case using h by (simp add: q listing_def)
qed (simp add: listing_def)

lemma sorted_ends:
  assumes "sorted_wrt R xs" and "\<And>x. R x x"
  shows "list_all (\<lambda>x. R (hd xs) x \<and> R x (last xs)) xs"
proof (cases xs rule: rev_cases)
  case (snoc ys y)
  then show ?thesis using assms by (cases ys) (auto simp: list_all_iff sorted_wrt_append)
qed simp

section \<open>Properties\<close>

text \<open>C12: The commands that only read.  The terminal interface, the listing of a database and every
  snapshot leave every tree of the database as it is, whatever fails in the libraries meanwhile and whatever
  they end with; so does every state that the terminal interface reaches afterwards.\<close>

theorem commands_read_only:
  assumes "fault_store (mn_ext E) tr" and "only_reads (arg_command args)" and "heimwatch_main E args w = res"
  shows "tr (main_world res) = tr w \<and>
    (\<forall>s s'. res = TuiRuns s \<and> (tui_step (mn_ext E) (mn_chrono E) fmt)\<^sup>*\<^sup>* s s' \<longrightarrow> tr (t_world s') = tr w)"
proof -
  have "tr (main_world res) = tr w"
    using fault_store.still_dispatch [OF assms(1) refl assms(2), of w] assms(3)
    by (auto simp: heimwatch_main_def fault_store.still_dispatch [OF assms(1) refl assms(2)] split: sum.splits)
  then show ?thesis using fault_store.still_tui [OF assms(1), where fmt = fmt] by fastforce
qed

definition w_no_gpus :: gpu_sys where
  "w_no_gpus = \<lparr> gs_fs = \<lparr> fs_read = (\<lambda>_. Inl (Foreign ''no'')), fs_read_dir = (\<lambda>_. Inl (Foreign ''no'')), fs_exists = (\<lambda>_. False),
     fs_is_dir = (\<lambda>_. False) \<rparr>, gs_read_link = (\<lambda>_. Inl (Foreign ''no'')) \<rparr>"

definition w_empty_poll :: gpu_poll where
  "w_empty_poll = \<lparr> gq_sys = w_no_gpus, gq_clock = Inr 100, gq_pdev_iter = id, gq_app_iter = rev \<rparr>"

definition w_poll_env :: "nat snapshot_env" where
  "w_poll_env = \<lparr> sn_object = Inl (Foreign ''no''), sn_cores = Inl (), sn_clock = Inl (Foreign ''no''), sn_net = None,
     sn_cpu = None, sn_disk = None, sn_files = (\<lambda>_. Inl (Foreign ''no'')), sn_proc = Inr [], sn_mem_iter = rev,
     sn_focus_iter = rev, sn_nvml = None, sn_drm = w_no_gpus, sn_baseline = w_empty_poll, sn_poll = w_empty_poll,
     sn_pretty = (\<lambda>_. Inl TimeError) \<rparr>"

definition w_main_env :: "(aworld, _, string, nat, nat) main_env" where
  "w_main_env = \<lparr> mn_ext = ref_ext w_recs, mn_chrono = greg, mn_lower = id, mn_try_init = (\<lambda>_. Inr ()),
     mn_read = (\<lambda>_. Inl (IoError ''none'')), mn_toml = (\<lambda>_. Inl (IoError ''none'')),
     mn_platform = platform_new (Inr ''net'') None (Inr ''cpu'') (Inr ''dsk'') (Inr ''mem'') (Inr ''gpu'') (Inr ''pwr''),
     mn_occurrences = [], mn_now = Inr 1000, mn_clock = (\<lambda>_. Inr 1000), mn_rng = w_rng, mn_rng_state = 0,
     mn_snap = w_poll_env,
     mn_power = \<lparr> pn_now = Inr 1000, pn_clock = (\<lambda>_. Inr 1000), pn_iter = rev, pn_log2 = id, pn_json = (\<lambda>_ _ _ _. Inl TimeError) \<rparr>,
     mn_debug = id, mn_order = rev \<rparr>"

theorem commands_read_only_witness:
  "heimwatch_main w_main_env \<lparr> arg_log_level = ''warn'', arg_command = RunTui ''db'' \<rparr> w_world = TuiRuns (tui_start ''db'' w_world) \<and>
   t_loads w_tui = [86400, 86400] \<and> trees (t_world w_tui) = trees w_world"
proof -
  let ?args = "\<lparr> arg_log_level = ''warn'', arg_command = RunTui ''db'' \<rparr>"
  have main: "heimwatch_main w_main_env ?args w_world = TuiRuns (tui_start ''db'' w_world :: (aworld, unit) tui)"
    by (simp add: heimwatch_main_def w_main_env_def parse_level_def init_logging_def storage_open_def ref_ext_def)
  have env: "mn_ext w_main_env = ref_ext w_recs" "mn_chrono w_main_env = greg" by (simp_all add: w_main_env_def)
  have "fault_store (mn_ext w_main_env) trees" unfolding env by (rule ref_fault.fault_store_axioms)
  from commands_read_only [OF this _ main, where fmt = "\<lambda>_. []"] w_tui_reached
  have "trees (t_world w_tui) = trees w_world" by (auto simp: env)
  moreover have "t_loads w_tui = [86400, 86400]"
    by (simp add: w_tui_def receive_def load_unless_loading_def load_initial_data_def tui_start_def App_new_def
      draw_def send_def CHANNEL_SIZE_def Let_def)
  moreover have "heimwatch_main w_main_env ?args w_world = TuiRuns (tui_start ''db'' w_world)"
    by (simp add: heimwatch_main_def w_main_env_def parse_level_def init_logging_def storage_open_def ref_ext_def)
  ultimately show ?thesis by simp
qed

text \<open>C23: The listing is exact.  On a healthy store that opens and holds the record lists \<open>D\<close>, the command that lists
  a database prints its head and then, for each type in the fixed order, the number of records that
  the query returns, the first and the last time among them and the applications; it ends without an error and leaves
  the store as it is.  The two times printed bound the times of all records of the type.\<close>

theorem debug_db_exact:
  assumes "store X healthy absw" and "storage_open X db w = (Inr (), w1)" and "healthy w1" and "holds_all X (absw w1) D"
  shows "let start = sat_sub now (ucast hours * 3600) in
    (\<exists>w2. debug_db X C dbg order (Inr now) clock db hours w =
        (debug_head db start now hours @ listing C dbg order clock start now D (zip [0..<8] ALL_METRIC_TYPES), Inr (), w2) \<and>
      healthy w2 \<and> absw w2 = absw w1) \<and>
    list_all (\<lambda>r. timestamp (hd (query_spec C n mt start now D)) \<le> timestamp r \<and>
        timestamp r \<le> timestamp (last (query_spec C n mt start now D))) (query_spec C n mt start now D)"
proof -
  let ?start = "sat_sub now (ucast hours * 3600)"
  have len: "length ALL_METRIC_TYPES = 8" by (simp add: ALL_METRIC_TYPES_def)
  have "sorted_wrt (\<lambda>a b. timestamp a \<le> timestamp b) (query_spec C n mt ?start now D)"
    using query_spec_sorted [of D] holds_allD [OF assms(4)] unfolding holds_def by blast
  from sorted_ends [OF this] have "list_all (\<lambda>r. timestamp (hd (query_spec C n mt ?start now D)) \<le> timestamp r \<and>
        timestamp r \<le> timestamp (last (query_spec C n mt ?start now D))) (query_spec C n mt ?start now D)" by simp
  with debug_types_store [OF assms(1,3,4), of C dbg order clock ?start now 0 ALL_METRIC_TYPES, unfolded len]
  show ?thesis by (auto simp: debug_db_def assms(2) current_unix_timestamp_def Let_def)
qed

theorem debug_db_exact_witness:
  "\<exists>ls w2. debug_db (ref_ext w_recs) greg id rev (Inr 1000) (\<lambda>_. Inr 1000) ''db'' 1 w_world = (ls, Inr (), w2) \<and>
     list_all (\<lambda>l. l \<in> set ls) [''Net: 3 records'', ''  Time range: 100 to 200'', ''  Apps: {curl, ssh}'', ''Cpu: 0 records'']"
proof -
  have opens: "storage_open (ref_ext w_recs) ''db'' w_world = (Inr (), w_world)" by (simp add: storage_open_def ref_ext_def)
  have h: "holds_all (ref_ext w_recs) (id w_world) w_db" using w_world_holds_all .
  have "list_all (\<lambda>l. l \<in> set (listing greg id rev (\<lambda>_. Inr 1000) 0 1000 w_db (zip [0..<8] ALL_METRIC_TYPES)))
      [''Net: 3 records'', ''  Time range: 100 to 200'', ''  Apps: {curl, ssh}'', ''Cpu: 0 records'']"
    by code_simp
  moreover have "sat_sub 1000 (ucast (1 :: u32) * 3600) = (0 :: u64)" by code_simp
  ultimately show ?thesis
    using debug_db_exact [OF ref.store_axioms opens w_world_healthy h, of 1000 1 greg id rev "\<lambda>_. Inr 1000"]
    by (auto simp: Let_def)
qed

end
