(* ===== verification/Shutdown.thy ===== *)
theory Shutdown
  imports Daemon Collector_Props
begin

text \<open>
  The shutdown of the daemon as a whole (\<open>crates/heimwatch-daemon/src/lib.rs\<close>): the collectors, the
  bounded channel and the daemon run side by side.  A collector is the list of events that it still
  sends before it sees the shutdown signal and returns; one step is one send, one receive, one
  return, one wake-up of the cleanup task, or the closing of the channel.  After Ctrl+C every
  execution ends, and it ends well.
\<close>

section \<open>The system\<close>

definition EVENT_CHANNEL_SIZE :: nat where
  "EVENT_CHANNEL_SIZE = 256"

record 'w system =
  sy_daemon :: "'w daemon"
  sy_queue :: "CollectorEvent list"
  sy_tasks :: "CollectorEvent list list"

definition exited :: "'w daemon \<Rightarrow> bool" where
  "exited d \<longleftrightarrow> (case d_phase d of Exited _ \<Rightarrow> True | _ \<Rightarrow> False)"

text \<open>A send waits for room; when the daemon has dropped the receiver it fails, which is logged.  The
  channel is found closed when it is empty and the last sender is gone.\<close>

inductive sys_step :: "'w ext \<Rightarrow> 'd chrono \<Rightarrow> TieredRetentionConfig \<Rightarrow> 'w system \<Rightarrow> 'w system \<Rightarrow> bool"
  for X C config where
  sent: "sy_tasks s = before @ (e # es) # after \<Longrightarrow> \<not> exited (sy_daemon s) \<Longrightarrow> length (sy_queue s) < EVENT_CHANNEL_SIZE \<Longrightarrow>
    sys_step X C config s (s\<lparr> sy_tasks := before @ es # after, sy_queue := sy_queue s @ [e] \<rparr>)"
| send_failed: "sy_tasks s = before @ (e # es) # after \<Longrightarrow> exited (sy_daemon s) \<Longrightarrow>
    sys_step X C config s (s\<lparr> sy_tasks := before @ es # after \<rparr>)"
| returned: "sy_tasks s = before @ [] # after \<Longrightarrow> sys_step X C config s (s\<lparr> sy_tasks := before @ after \<rparr>)"
| received: "sy_queue s = e # q \<Longrightarrow> \<not> exited (sy_daemon s) \<Longrightarrow>
    sys_step X C config s (s\<lparr> sy_queue := q, sy_daemon := daemon_step X C config (sy_daemon s) (Received e) \<rparr>)"
| closed: "sy_queue s = [] \<Longrightarrow> sy_tasks s = [] \<Longrightarrow> d_phase (sy_daemon s) = Draining \<Longrightarrow>
    sys_step X C config s (s\<lparr> sy_daemon := daemon_step X C config (sy_daemon s) Closed \<rparr>)"
| interrupted: "d_phase (sy_daemon s) = Looping \<Longrightarrow>
    sys_step X C config s (s\<lparr> sy_daemon := daemon_step X C config (sy_daemon s) CtrlC \<rparr>)"
| cleanup_due: "d_cleanup (sy_daemon s) \<Longrightarrow> \<not> exited (sy_daemon s) \<Longrightarrow>
    sys_step X C config s (s\<lparr> sy_daemon := daemon_step X C config (sy_daemon s) (CleanupDue clock nanos) \<rparr>)"

inductive_cases sys_stepE: "sys_step X C config s s'"

text \<open>The daemon of the system is the daemon of the theory \<open>Daemon\<close>, fed with some occurrences.\<close>

lemma sys_daemon_step:
  "sys_step X C config s s' \<Longrightarrow>
   sy_daemon s' = sy_daemon s \<or> (\<exists>occ. sy_daemon s' = daemon_step X C config (sy_daemon s) occ)"
  by (induction rule: sys_step.induct) (auto simp del: daemon_step.simps)

lemma sys_daemon:
  "(sys_step X C config)\<^sup>*\<^sup>* s s' \<Longrightarrow> \<exists>occs. sy_daemon s' = foldl (daemon_step X C config) (sy_daemon s) occs"
proof (induction rule: rtranclp_induct)
  case base
  have "sy_daemon s = foldl (daemon_step X C config) (sy_daemon s) []" by simp
  then show ?case by blast
next
  case (step s1 s2)
  then obtain occs where occs: "sy_daemon s1 = foldl (daemon_step X C config) (sy_daemon s) occs" by blast
  from sys_daemon_step [OF step(2)] show ?case
  proof (elim disjE exE)
    fix occ assume "sy_daemon s2 = daemon_step X C config (sy_daemon s1) occ"
    then have "sy_daemon s2 = foldl (daemon_step X C config) (sy_daemon s) (occs @ [occ])" by (simp add: occs)
    then show ?thesis by blast
  qed (use occs in auto)
qed

text \<open>The task that a polling collector leaves when the signal is set: it may still take some ticks before it
  sees the signal, and what it sends then is the task.\<close>

definition loop_task ::
  "('c \<Rightarrow> 'i \<Rightarrow> ('e + MetricRecord list) \<times> 'c) \<Rightarrow> (MetricPayload \<Rightarrow> bool) \<Rightarrow> 'c \<Rightarrow> 'i list \<Rightarrow> CollectorEvent list" where
  "loop_task collect check c ticks = map event_of (filter (check \<circ> payload) (loop_records collect c ticks))"

lemma loop_task_sent:
  "run_collector_loop collect check (\<lambda>_. True) c [] 0 (map Tick ticks @ Shutdown # bs) =
   Returned (Inr ()) (loop_task collect check c ticks)"
  by (simp add: loop_sends loop_task_def)

section \<open>Draining\<close>

text \<open>The state after Ctrl+C: the daemon drains, or has drained.\<close>

definition shutting_down :: "'w system \<Rightarrow> bool" where
  "shutting_down s \<longleftrightarrow> d_shutdown (sy_daemon s) \<and>
     (d_phase (sy_daemon s) = Draining \<or>
      d_phase (sy_daemon s) = Exited (Inr ()) \<and> sy_queue s = [] \<and> sy_tasks s = [])"

text \<open>An upper bound of the steps that are left: each event is sent and received, each task returns, the
  cleanup task wakes up once, the channel closes once.\<close>

definition budget :: "'w system \<Rightarrow> nat" where
  "budget s = 2 * length (concat (sy_tasks s)) + length (sy_tasks s) + length (sy_queue s) +
     of_bool (d_cleanup (sy_daemon s)) + of_bool (d_phase (sy_daemon s) = Draining)"

definition persist_all :: "'w ext \<Rightarrow> 'w \<Rightarrow> CollectorEvent list \<Rightarrow> 'w" where
  "persist_all X w evs = foldl (\<lambda>w ev. snd (persist_event X ev w)) w evs"

lemma draining_step:
  assumes "sys_step X C config s s'" and "shutting_down s"
  shows "shutting_down s'" and "budget s' < budget s"
    and "\<exists>evs. d_world (sy_daemon s') = persist_all X (d_world (sy_daemon s)) evs \<and>
      mset (sy_queue s @ concat (sy_tasks s)) = mset evs + mset (sy_queue s' @ concat (sy_tasks s'))"
  using assms
  by (auto elim!: sys_stepE simp: shutting_down_def budget_def exited_def persist_all_def)

lemma draining_steps:
  assumes "(sys_step X C config ^^ n) s s'" and "shutting_down s"
  shows "shutting_down s' \<and> n + budget s' \<le> budget s \<and>
    (\<exists>evs. d_world (sy_daemon s') = persist_all X (d_world (sy_daemon s)) evs \<and>
      mset (sy_queue s @ concat (sy_tasks s)) = mset evs + mset (sy_queue s' @ concat (sy_tasks s')))"
  using assms(1)
proof (induction n arbitrary: s')
  case 0
  then show ?case using assms(2) by (auto simp: persist_all_def intro: exI [of _ "[]"])
next
  case (Suc n)
  then obtain t where t: "(sys_step X C config ^^ n) s t" "sys_step X C config t s'" by auto
  from Suc.IH [OF t(1)] obtain evs where IH: "shutting_down t" "n + budget t \<le> budget s"
    "d_world (sy_daemon t) = persist_all X (d_world (sy_daemon s)) evs"
    "mset (sy_queue s @ concat (sy_tasks s)) = mset evs + mset (sy_queue t @ concat (sy_tasks t))" by blast
  obtain evs' where "d_world (sy_daemon s') = persist_all X (d_world (sy_daemon t)) evs'"
    "mset (sy_queue t @ concat (sy_tasks t)) = mset evs' + mset (sy_queue s' @ concat (sy_tasks s'))"
    using draining_step(3) [OF t(2) IH(1)] by blast
  then have "d_world (sy_daemon s') = persist_all X (d_world (sy_daemon s)) (evs @ evs')"
    "mset (sy_queue s @ concat (sy_tasks s)) = mset (evs @ evs') + mset (sy_queue s' @ concat (sy_tasks s'))"
    using IH(3,4) by (simp_all add: persist_all_def)
  then show ?case using draining_step(1,2) [OF t(2) IH(1)] IH(2) by (intro conjI exI [of _ "evs @ evs'"]) simp_all
qed

text \<open>There is no deadlock: while the daemon drains, something can happen.\<close>

lemma draining_progress:
  assumes "d_phase (sy_daemon s) = Draining"
  shows "\<exists>s'. sys_step X C config s s'"
proof (cases "sy_queue s")
  case (Cons e q)
  then show ?thesis using received [of s e q X C config] assms by (auto simp: exited_def)
next
  case Nil
  show ?thesis
  proof (cases "sy_tasks s")
    case Nil
    then show ?thesis using closed [of s X C config] assms \<open>sy_queue s = []\<close> by blast
  next
    case (Cons task tasks)
    show ?thesis
    proof (cases task)
      case Nil
      then show ?thesis using returned [of s "[]" tasks X C config] Cons by auto
    next
      case (Cons e es)
      then show ?thesis
        using sent [of s "[]" e es tasks X C config] \<open>sy_tasks s = task # tasks\<close> \<open>sy_queue s = []\<close> assms
        by (auto simp: exited_def EVENT_CHANNEL_SIZE_def)
    qed
  qed
qed

lemma draining_ends:
  assumes "shutting_down s"
  shows "\<exists>t. (sys_step X C config)\<^sup>*\<^sup>* s t \<and> (\<forall>u. \<not> sys_step X C config t u)"
  using assms
proof (induction "budget s" arbitrary: s rule: less_induct)
  case less
  show ?case
  proof (cases "\<exists>u. sys_step X C config s u")
    case True
    then obtain u where u: "sys_step X C config s u" by blast
    obtain t where "(sys_step X C config)\<^sup>*\<^sup>* u t" "\<forall>v. \<not> sys_step X C config t v"
      using less.hyps [OF draining_step(2,1) [OF u less.prems]] by blast
    then show ?thesis using converse_rtranclp_into_rtranclp [of "sys_step X C config" s u, OF u] by blast
  qed auto
qed

section \<open>Property\<close>

text \<open>C8: Shutdown terminates.  After Ctrl+C, with any collectors that each still send finitely many events, any content of
  the channel, any interleaving and any store: there is no execution of more than \<open>budget\<close> steps and no
  deadlock.  Where an execution ends, the daemon has exited without an error, every collector has
  returned, the channel is empty, and each event that was in the channel or still to be sent was
  given to the store exactly once, while the cleanup no longer touched the store.\<close>

theorem shutdown_terminates:
  assumes "d_shutdown (sy_daemon s)" and "d_phase (sy_daemon s) = Draining"
  shows "((sys_step X C config ^^ n) s s' \<longrightarrow> n \<le> budget s) \<and>
    (\<exists>t. (sys_step X C config)\<^sup>*\<^sup>* s t \<and> (\<forall>u. \<not> sys_step X C config t u)) \<and>
    ((sys_step X C config)\<^sup>*\<^sup>* s t \<and> (\<forall>u. \<not> sys_step X C config t u) \<longrightarrow>
      d_phase (sy_daemon t) = Exited (Inr ()) \<and> sy_queue t = [] \<and> sy_tasks t = [] \<and>
      (\<exists>evs. mset evs = mset (sy_queue s @ concat (sy_tasks s)) \<and>
        d_world (sy_daemon t) = persist_all X (d_world (sy_daemon s)) evs))"
proof (intro conjI impI)
  have s: "shutting_down s" using assms by (simp add: shutting_down_def)
  show "n \<le> budget s" if "(sys_step X C config ^^ n) s s'" using draining_steps [OF that s] by simp
  show "\<exists>t. (sys_step X C config)\<^sup>*\<^sup>* s t \<and> (\<forall>u. \<not> sys_step X C config t u)" by (rule draining_ends [OF s])
  assume t: "(sys_step X C config)\<^sup>*\<^sup>* s t \<and> (\<forall>u. \<not> sys_step X C config t u)"
  then obtain m where "(sys_step X C config ^^ m) s t" by (metis rtranclp_imp_relpowp)
  from draining_steps [OF this s] obtain evs where st: "shutting_down t"
    and evs: "d_world (sy_daemon t) = persist_all X (d_world (sy_daemon s)) evs"
      "mset (sy_queue s @ concat (sy_tasks s)) = mset evs + mset (sy_queue t @ concat (sy_tasks t))" by blast
  have "d_phase (sy_daemon t) \<noteq> Draining" using draining_progress t by blast
  then show end_state: "d_phase (sy_daemon t) = Exited (Inr ())" "sy_queue t = []" "sy_tasks t = []"
    using st by (auto simp: shutting_down_def)
  show "\<exists>evs. mset evs = mset (sy_queue s @ concat (sy_tasks s)) \<and>
      d_world (sy_daemon t) = persist_all X (d_world (sy_daemon s)) evs"
    using evs end_state by (intro exI [of _ evs]) simp
qed

definition w_system :: "aworld system" where
  "w_system = \<lparr> sy_daemon = \<lparr> d_phase = Draining, d_shutdown = True, d_cleanup = True, d_world = ref_empty \<rparr>,
     sy_queue = [event_of (net_rec ''ssh'' 100 1 2)],
     sy_tasks = [[event_of (net_rec ''curl'' 100 5 7), event_of (net_rec ''curl'' 200 6 8)], []] \<rparr>"

theorem shutdown_terminates_witness:
  "budget w_system = 9 \<and>
   (\<exists>t. (sys_step (ref_ext w_recs) greg TieredRetentionConfig_default)\<^sup>*\<^sup>* w_system t \<and>
      d_phase (sy_daemon t) = Exited (Inr ()))"
proof -
  let ?step = "sys_step (ref_ext w_recs) greg TieredRetentionConfig_default"
  have "d_shutdown (sy_daemon w_system)" "d_phase (sy_daemon w_system) = Draining" by (simp_all add: w_system_def)
  note ends = shutdown_terminates [OF this, where X = "ref_ext w_recs" and C = greg and config = TieredRetentionConfig_default]
  obtain t where "?step\<^sup>*\<^sup>* w_system t" "\<forall>u. \<not> ?step t u" using ends by blast
  then show ?thesis using ends [where t = t] by (auto simp: w_system_def budget_def)
qed

end
