(* ===== verification/Platforms.thy ===== *)
theory Platforms
  imports Shutdown Memory_Collector
begin

text \<open>
  The other operating systems: the stubs that take the place of the Linux collectors on macOS and
  Windows (\<open>crates/heimwatch-collector/src/*/macos.rs\<close>, \<open>windows.rs\<close>, \<open>gpu/stub.rs\<close>, \<open>focus/stub.rs\<close>), the
  lookup of process names there (\<open>crates/heimwatch-core/src/process.rs\<close>), and the placeholder of the
  \<open>web\<close> crate.  What the daemon does with such collectors is the property.
\<close>

section \<open>Process names\<close>

datatype other_os = MacOS | Windows

datatype platform = Linux | Other other_os

text \<open>\<open>ps\<close> is the outcome of running \<open>ps -p PID -o comm=\<close>: whether it succeeded, and its output.\<close>

definition get_process_name_macos :: "(string \<Rightarrow> col_error + bool \<times> string) \<Rightarrow> u32 \<Rightarrow> col_error + string" where
  "get_process_name_macos ps pid =
     bindR (ps (dec (unat pid))) (\<lambda>(success, stdout).
     if success then
       if utf8_valid stdout then
         (let trimmed = trim stdout in
          case extract_process_name trimmed of Some process_name \<Rightarrow> Inr process_name | None \<Rightarrow> Inr trimmed)
       else Inl (Foreign ''invalid utf-8'')
     else Inl (Foreign (''Process '' @ dec (unat pid) @ '' not found'')))"

definition get_process_name_on ::
  "platform \<Rightarrow> reader \<Rightarrow> (string \<Rightarrow> col_error + bool \<times> string) \<Rightarrow> u32 \<Rightarrow> col_error + string" where
  "get_process_name_on p rf ps pid =
     (case p of
        Linux \<Rightarrow> get_process_name rf pid
      | Other MacOS \<Rightarrow> get_process_name_macos ps pid
      | Other Windows \<Rightarrow> Inl (Foreign ''Process name lookup not implemented for this platform''))"

text \<open>A path that names a file gives its last component on both systems, also when \<open>ps\<close> ends it with a
  newline.\<close>

lemma macos_name:
  assumes "ps (dec (unat pid)) = Inr (True, out)" and "utf8_valid out" and "file_name (trim out) = Some name"
  shows "get_process_name_on (Other MacOS) rf ps pid = Inr name"
  using assms by (simp add: get_process_name_on_def get_process_name_macos_def Let_def extract_process_name_def)

section \<open>Stub collectors\<close>

text \<open>A stub has no state.  A call of it gives a result, does not exist, or is unreachable and panics.\<close>

datatype 'a call = Gives "col_error + 'a" | Absent | Unreachable

record stub =
  st_new :: "col_error + unit"
  st_collect :: "MetricRecord list call"
  st_run :: "unit call"

definition not_on :: "string \<Rightarrow> string \<Rightarrow> col_error" where
  "not_on what os = Foreign (what @ '' not yet implemented on '' @ os)"

definition cpu_macos :: stub where
  "cpu_macos = \<lparr> st_new = Inl (not_on ''CPU tracking'' ''macOS''), st_collect = Gives (Inr []),
     st_run = Gives (Inl (not_on ''CPU tracking'' ''macOS'')) \<rparr>"

definition cpu_windows :: stub where
  "cpu_windows = \<lparr> st_new = Inl (not_on ''CPU tracking'' ''Windows''), st_collect = Gives (Inr []),
     st_run = Gives (Inl (not_on ''CPU tracking'' ''Windows'')) \<rparr>"

definition disk_macos :: stub where
  "disk_macos = \<lparr> st_new = Inl (not_on ''Disk tracking'' ''macOS''), st_collect = Gives (Inr []),
     st_run = Gives (Inl (not_on ''Disk tracking'' ''macOS'')) \<rparr>"

definition disk_windows :: stub where
  "disk_windows = \<lparr> st_new = Inl (not_on ''Disk tracking'' ''Windows''), st_collect = Gives (Inr []),
     st_run = Gives (Inl (not_on ''Disk tracking'' ''Windows'')) \<rparr>"

definition memory_macos :: stub where
  "memory_macos = \<lparr> st_new = Inl (Foreign ''not yet implemented on this platform''),
     st_collect = Gives (Inl (Foreign ''not yet implemented on this platform'')), st_run = Gives (Inr ()) \<rparr>"

definition memory_windows :: stub where
  "memory_windows = \<lparr> st_new = Inl (Foreign ''not yet implemented on this platform''),
     st_collect = Gives (Inl (Foreign ''not yet implemented on this platform'')), st_run = Gives (Inr ()) \<rparr>"

definition network_macos :: stub where
  "network_macos = \<lparr> st_new = Inl (Coll (PlatformNotSupported ''macOS network collection not yet implemented'')),
     st_collect = Gives (Inr []), st_run = Gives (Inr ()) \<rparr>"

definition network_windows :: stub where
  "network_windows = \<lparr> st_new = Inl (Coll (PlatformNotSupported ''Windows network collection not yet implemented'')),
     st_collect = Gives (Inr []), st_run = Gives (Inr ()) \<rparr>"

definition power_macos :: stub where
  "power_macos = \<lparr> st_new = Inl (not_on ''Power collection'' ''macOS''), st_collect = Absent, st_run = Gives (Inr ()) \<rparr>"

definition power_windows :: stub where
  "power_windows = \<lparr> st_new = Inl (not_on ''Power collection'' ''Windows''), st_collect = Absent, st_run = Gives (Inr ()) \<rparr>"

definition gpu_stub :: stub where
  "gpu_stub = \<lparr> st_new = Inl (not_on ''GPU collection'' ''this platform''), st_collect = Unreachable, st_run = Unreachable \<rparr>"

definition focus_stub_try_new :: "unit option" where
  "focus_stub_try_new = None"

definition focus_stub_run :: "unit call" where
  "focus_stub_run = Gives (Inl (Foreign ''Not yet implemented''))"

section \<open>The factory\<close>

text \<open>\<open>Display\<close> of the errors, and the log level that \<open>PlatformCollector::new\<close> chooses for a failed
  constructor.\<close>

fun collector_error_text :: "CollectorError \<Rightarrow> string" where
  "collector_error_text (ProgramNotFound s) = ''eBPF program not found: '' @ s"
| "collector_error_text (ProgramTypeMismatch s) = ''eBPF program type mismatch: '' @ s"
| "collector_error_text (MapNotFound s) = ''eBPF map not found: '' @ s"
| "collector_error_text (EbpfError s) = ''eBPF error: '' @ s"
| "collector_error_text (PlatformNotSupported s) = ''network monitoring not yet implemented on '' @ s"
| "collector_error_text SystemTimeError = ''system time error''"
| "collector_error_text WlrToplevelUnavailable = ''wlr-foreign-toplevel protocol unavailable''"
| "collector_error_text (DbusError s) = ''D-Bus connection failed: '' @ s"
| "collector_error_text FocusUnavailable = ''focus tracking unavailable: no supported compositor found''"
| "collector_error_text (NetworkInitializationFailed s) = ''network collector initialization failed: '' @ s"
| "collector_error_text (CpuInitializationFailed s) = ''CPU collector initialization failed: '' @ s"
| "collector_error_text (DiskInitializationFailed s) = ''disk collector initialization failed: '' @ s"

fun col_error_text :: "col_error \<Rightarrow> string" where
  "col_error_text (Coll e) = collector_error_text e"
| "col_error_text (Foreign s) = s"

text \<open>\<open>str::contains\<close>\<close>

fun contains_str :: "string \<Rightarrow> string \<Rightarrow> bool" where
  "contains_str pat s = (take (length pat) s = pat \<or> (case s of [] \<Rightarrow> False | _ # t \<Rightarrow> contains_str pat t))"

definition init_log_level :: "col_error \<Rightarrow> LevelFilter" where
  "init_log_level e = (if contains_str ''not yet implemented'' (col_error_text e) then Debug else Warn)"

fun stubs_of :: "other_os \<Rightarrow> stub list" where
  "stubs_of MacOS = [network_macos, cpu_macos, disk_macos, memory_macos, gpu_stub, power_macos]"
| "stubs_of Windows = [network_windows, cpu_windows, disk_windows, memory_windows, gpu_stub, power_windows]"

fun stub_platform :: "other_os \<Rightarrow> unit PlatformCollector" where
  "stub_platform MacOS = platform_new (st_new network_macos) focus_stub_try_new (st_new cpu_macos) (st_new disk_macos)
     (st_new memory_macos) (st_new gpu_stub) (st_new power_macos)"
| "stub_platform Windows = platform_new (st_new network_windows) focus_stub_try_new (st_new cpu_windows) (st_new disk_windows)
     (st_new memory_windows) (st_new gpu_stub) (st_new power_windows)"

lemmas stub_defs = cpu_macos_def cpu_windows_def disk_macos_def disk_windows_def memory_macos_def memory_windows_def
  network_macos_def network_windows_def power_macos_def power_windows_def gpu_stub_def focus_stub_try_new_def

lemma stub_errors: "list_all (\<lambda>st. \<exists>e. st_new st = Inl e \<and> init_log_level e = Debug) (stubs_of os)"
  by (cases os) (simp_all add: stub_defs not_on_def init_log_level_def)

lemma stub_platform_empty:
  "stub_platform os = \<lparr> pc_network = None, pc_focus_collector = None, pc_cpu = None, pc_disk = None, pc_memory = None,
     pc_gpu = None, pc_power = None \<rparr>"
  by (cases os) (simp_all add: stub_defs platform_new_def)

lemma stub_spawned: "fst (spawn_collectors (stub_platform os)) = []"
  by (simp add: stub_platform_empty spawn_collectors_def spawn_one_def take_focus_collector_def take_network_collector_def
      take_cpu_collector_def take_disk_collector_def take_memory_collector_def take_power_collector_def)

section \<open>A daemon without collectors\<close>

definition after_rounds ::
  "'w ext \<Rightarrow> 'd chrono \<Rightarrow> TieredRetentionConfig \<Rightarrow> ((any_error + u64) \<times> nat option) list \<Rightarrow> 'w \<Rightarrow> 'w" where
  "after_rounds X C config rounds w = foldl (\<lambda>w (clock, nanos). cleanup_round X C config clock nanos w) w rounds"

definition idle :: "'w ext \<Rightarrow> 'd chrono \<Rightarrow> TieredRetentionConfig \<Rightarrow> 'w \<Rightarrow> 'w system \<Rightarrow> bool" where
  "idle X C config w s \<longleftrightarrow> sy_queue s = [] \<and> sy_tasks s = [] \<and> (\<forall>e. d_phase (sy_daemon s) \<noteq> Exited (Inl e)) \<and>
     (\<exists>rounds. d_world (sy_daemon s) = after_rounds X C config rounds w)"

lemma after_rounds_snoc: "cleanup_round X C config clock nanos (after_rounds X C config rounds w) = after_rounds X C config (rounds @ [(clock, nanos)]) w"
  by (simp add: after_rounds_def)

lemma idle_step: "sys_step X C config s s' \<Longrightarrow> idle X C config w s \<Longrightarrow> idle X C config w s'"
proof (induction rule: sys_step.induct)
  case (cleanup_due s clock nanos)
  then obtain rounds where "d_world (sy_daemon s) = after_rounds X C config rounds w" by (auto simp: idle_def)
  then have "cleanup_round X C config clock nanos (d_world (sy_daemon s)) = after_rounds X C config (rounds @ [(clock, nanos)]) w"
    by (simp add: after_rounds_snoc)
  then show ?case using cleanup_due unfolding idle_def by (auto split: phase.split)
qed (auto simp: idle_def split: phase.split)

text \<open>The other platforms.  On macOS and Windows every constructor fails with an error that the factory takes for an
  unsupported platform, so the daemon starts without any collector; whatever happens then, no event is ever
  in the channel, the store is changed by rounds of the background cleanup only, and the daemon
  does not end with an error.\<close>

theorem unsupported_platform_idle:
  assumes "daemon_run X C rd toml (stub_platform os) db_path cp [] w0 = Inr (tasks, d)"
    and "(sys_step X C (tiered_retention (run_config rd toml cp)))\<^sup>*\<^sup>*
      \<lparr> sy_daemon = d, sy_queue = [], sy_tasks = map (events :: unit \<Rightarrow> CollectorEvent list) tasks \<rparr> s"
  shows "list_all (\<lambda>st. \<exists>e. st_new st = Inl e \<and> init_log_level e = Debug) (stubs_of os) \<and> tasks = [] \<and>
    sy_queue s = [] \<and> sy_tasks s = [] \<and> (\<forall>e. d_phase (sy_daemon s) \<noteq> Exited (Inl e)) \<and>
    (\<exists>rounds. d_world (sy_daemon s) =
       after_rounds X C (tiered_retention (run_config rd toml cp)) rounds (snd (storage_open X db_path w0)))"
proof -
  let ?c = "tiered_retention (run_config rd toml cp)"
  obtain w1 where w1: "storage_open X db_path w0 = (Inr (), w1)"
    and d: "d = \<lparr> d_phase = Looping, d_shutdown = False, d_cleanup = True, d_world = w1 \<rparr>" and t: "tasks = []"
    using assms(1) stub_spawned [of os] by (auto simp: daemon_run_def Let_def split: prod.splits sum.splits)
  have "w1 = after_rounds X C ?c [] w1" by (simp add: after_rounds_def)
  then have "idle X C ?c w1 \<lparr> sy_daemon = d, sy_queue = [], sy_tasks = map events tasks \<rparr>"
    unfolding idle_def by (auto simp: d t)
  with assms(2) have "idle X C ?c w1 s" by (induction rule: rtranclp_induct) (auto intro: idle_step)
  then show ?thesis using stub_errors t by (simp add: idle_def w1)
qed

theorem unsupported_platform_idle_witness:
  "\<exists>d s. daemon_run (ref_ext []) greg (\<lambda>_. Inl (IoError ''none'')) (\<lambda>_. Inl (IoError ''none'')) (stub_platform MacOS) ''db'' None [] ref_empty = Inr ([], d) \<and>
     (sys_step (ref_ext []) greg TieredRetentionConfig_default)\<^sup>*\<^sup>* \<lparr> sy_daemon = d, sy_queue = [], sy_tasks = [] \<rparr> s \<and>
     d_phase (sy_daemon s) = Draining \<and>
     (\<exists>rounds. d_world (sy_daemon s) = after_rounds (ref_ext []) greg TieredRetentionConfig_default rounds ref_empty)"
proof -
  let ?rd = "\<lambda>_. Inl (IoError ''none'')"
  let ?d = "\<lparr> d_phase = Looping, d_shutdown = False, d_cleanup = True, d_world = ref_empty \<rparr>"
  let ?s = "\<lparr> sy_daemon = ?d, sy_queue = [], sy_tasks = map (\<lambda>_ :: unit. []) [] \<rparr>"
  let ?e = "?s\<lparr> sy_daemon := daemon_step (ref_ext []) greg TieredRetentionConfig_default ?d CtrlC \<rparr>"
  have opens: "storage_open (ref_ext []) ''db'' ref_empty = (Inr (), ref_empty)" by (simp add: storage_open_def ref_ext_def)
  have run: "daemon_run (ref_ext []) greg ?rd ?rd (stub_platform MacOS) ''db'' None [] ref_empty = Inr ([], ?d)"
    using stub_spawned [of MacOS] by (simp add: daemon_run_def opens)
  have c: "tiered_retention (run_config ?rd ?rd None) = TieredRetentionConfig_default"
    by (simp add: run_config_def DaemonConfig_default_def)
  have step: "(sys_step (ref_ext []) greg TieredRetentionConfig_default)\<^sup>*\<^sup>* ?s ?e"
    using interrupted [of ?s "ref_ext []" greg TieredRetentionConfig_default] by auto
  from unsupported_platform_idle [OF run step [folded c]] show ?thesis
    using run step unfolding c opens by (intro exI [of _ ?d] exI [of _ ?e]) simp
qed

section \<open>The web crate\<close>

definition web_add :: "u64 \<Rightarrow> u64 \<Rightarrow> u64" where
  "web_add left right = left + right"

end
