(* ===== verification/Cleanup_Query.thy ===== *)
theory Cleanup_Query
  imports Tiered_Cleanup Gregorian
begin

text \<open>
  The tiered cleanup as a query sees it: over whole days the totals of an application are the same
  before and after, although the raw records are gone.  The second part shows the one day that a
  query loses: an aggregate of the first second of the month.
\<close>

section \<open>Filters that respect the key of a record\<close>

text \<open>A filter that depends on type, time and application only, such as \<open>in_range\<close>.\<close>

definition key_filter :: "(MetricRecord \<Rightarrow> bool) \<Rightarrow> bool" where
  "key_filter P \<longleftrightarrow> (\<forall>a b. rkey a = rkey b \<longrightarrow> P a = P b)"

lemma key_filter_in_range: "key_filter (in_range mt s e)"
  by (simp add: key_filter_def rkey_inj in_range_def)

lemma filter_ins_rec:
  assumes "key_filter P" and "key_sorted D"
  shows "filter P (ins_rec r D) = (if P r then ins_rec r (filter P D) else filter P D)"
  using assms(2)
proof (induction D)
  case (Cons x D)
  have same: "rkey r = rkey x \<Longrightarrow> P r = P x" using assms(1) unfolding key_filter_def by blast
  have ahead: "ins_rec r (filter P D) = r # filter P D" if "rkey r < rkey x"
  proof (cases "filter P D")
    case (Cons y ys)
    then have "y \<in> set (filter P D)" by simp
    then have "y \<in> set D" by simp
    then have "rkey r < rkey y" using Cons.prems that less_trans [of "rkey r" "rkey x" "rkey y"] by auto
    then show ?thesis using Cons by simp
  qed simp
  show ?case using Cons same ahead by auto
qed simp

lemma key_sorted_filter: "key_sorted D \<Longrightarrow> key_sorted (filter P D)"
  by (induction D) auto

lemma key_sorted_ins_all: "key_sorted D \<Longrightarrow> key_sorted (ins_all ws D)"
  by (induction ws arbitrary: D) (simp_all add: ins_rec_sorted)

lemma filter_ins_all:
  assumes "key_filter P"
  shows "key_sorted D \<Longrightarrow> filter P (ins_all ws D) = ins_all (filter P ws) (filter P D)"
proof (induction ws arbitrary: D)
  case (Cons w ws)
  then show ?case using Cons.IH [OF ins_rec_sorted [OF Cons.prems]] by (simp add: filter_ins_rec [OF assms Cons.prems])
qed simp

lemma filter_ins_all_new:
  assumes "key_filter P" and "key_sorted D" and "filter P D = []" and "distinct (map rkey ws)"
  shows "mset (filter P (ins_all ws D)) = mset (filter P ws)"
proof -
  have "distinct (map rkey (filter P ws))" using assms(4) by (rule distinct_map_filter)
  then have "mset (ins_all (filter P ws) []) = mset (filter P ws)"
    using mset_ins_all [of "filter P ws" "[]"] by (simp add: fresh_def)
  then show ?thesis using filter_ins_all [OF assms(1,2), of ws] assms(3) by simp
qed

section \<open>Totals over whole buckets\<close>

lemma field_total_ascii:
  "n \<le> ''~'' \<Longrightarrow> field_total i mt n (filter (in_range mt s e) rs) =
     field_total i mt n (filter (\<lambda>r. s \<le> timestamp r \<and> timestamp r \<le> e) rs)"
  by (induction rs) (auto simp: field_total_def in_range_def)

lemma field_total_filter_aggs:
  assumes types: "\<And>r. r \<in> set rs \<Longrightarrow> rec_type r = mt'" and "i < arity mt"
    and Q: "\<And>r. r \<in> set rs \<Longrightarrow> Q (timestamp r) = W (bucket (timestamp r))"
  shows "field_total i mt n (filter (\<lambda>r. Q (timestamp r)) (aggs bucket rs)) =
    field_total i mt n (filter (\<lambda>r. Q (timestamp r)) rs)"
proof -
  let ?gs = "groups_of bucket rs" and ?F = "filter (\<lambda>r. Q (timestamp r))"
  have group: "field_total i mt n (?F [agg_of g]) = field_total i mt n (?F g)" if kg: "(k, g) \<in> set ?gs" for k g
  proof -
    note g = group_mem [OF kg] and a = group_agg [OF kg types]
    have mem: "Q (timestamp r) = W (fst k)" if "r \<in> set g" for r
      using that g(1) Q by (auto simp: group_key_def)
    have "hd g \<in> set g" using g(2) by simp
    then have "Q (timestamp (agg_of g)) = W (fst k)" using mem a(3) by simp
    moreover have "?F g = (if W (fst k) then g else [])" using mem by (simp add: filter_id_conv filter_empty_conv)
    ultimately show ?thesis using field_total_agg [OF kg types assms(2)] by simp
  qed
  have "aggs bucket rs = concat (map (\<lambda>(_, g). [agg_of g]) ?gs)"
    by (simp add: aggs_def case_prod_unfold comp_def concat_map_singleton)
  then have "field_total i mt n (?F (aggs bucket rs)) = wsum (map (\<lambda>(k, g). field_total i mt n (?F [agg_of g])) ?gs)"
    by (simp only: filter_concat field_total_concat map_map comp_def case_prod_unfold)
  also have "\<dots> = wsum (map (\<lambda>(k, g). field_total i mt n (?F g)) ?gs)"
    using group by (intro arg_cong [of _ _ wsum] map_cong) auto
  also have "\<dots> = field_total i mt n (?F (concat (map snd ?gs)))"
    by (simp only: filter_concat field_total_concat map_map comp_def case_prod_unfold)
  also have "\<dots> = field_total i mt n (?F rs)"
    using mset_groups [of "[]" bucket rs] by (intro field_total_mset) (simp add: mset_filter)
  finally show ?thesis .
qed

text \<open>One aggregate for each bucket and application.\<close>

lemma aggs_group_keys:
  assumes "\<And>r. r \<in> set rs \<Longrightarrow> rec_type r = mt"
  shows "map (group_key bucket) (aggs bucket rs) = map fst (groups_of bucket rs)"
proof -
  have "group_key bucket (agg_of g) = k" if kg: "(k, g) \<in> set (groups_of bucket rs)" for k g
    using group_agg [OF kg assms] by (auto simp: group_key_def prod_eq_iff)
  then show ?thesis by (auto simp: aggs_def)
qed

lemma aggs_buckets_distinct:
  assumes "\<And>r. r \<in> set rs \<Longrightarrow> rec_type r = mt"
  shows "distinct (map (group_key bucket) (aggs bucket rs))"
  using groups_sorted [of "[]" bucket rs] aggs_group_keys [of rs mt bucket] assms by (simp add: strict_sorted_iff)

text \<open>Of what a tier writes, a query of one type sees the aggregates of that type.\<close>

lemma filter_writes:
  fixes mt s e
  defines "P \<equiv> in_range mt s e"
  shows "filter P (tier_writes bucket c rs ALL_METRIC_TYPES) = filter P (aggs bucket (filter (in_range mt 0 c) rs))"
proof -
  have none: "filter P (aggs bucket (filter (in_range mt' 0 c) rs)) = []" if "mt' \<noteq> mt" for mt'
  proof -
    have t: "rec_type r = mt'" if "r \<in> set (aggs bucket (filter (in_range mt' 0 c) rs))" for r
      using tier_writes_types [of r bucket c rs "[mt']"] that by (simp add: tier_writes_def)
    have "\<not> P r" if "r \<in> set (aggs bucket (filter (in_range mt' 0 c) rs))" for r
      using t [OF that] \<open>mt' \<noteq> mt\<close> unfolding P_def in_range_def by blast
    then show ?thesis by (simp add: filter_empty_conv)
  qed
  show ?thesis
    unfolding tier_writes_def ALL_METRIC_TYPES_def list.map concat.simps filter_append by (cases mt) (simp_all only: none MetricType.distinct not_False_eq_True append_Nil append_Nil2 filter.simps)
qed

section \<open>Whole days\<close>

definition whole_days :: "u64 \<Rightarrow> u64 \<Rightarrow> bool" where
  "whole_days s e \<longleftrightarrow> s mod 86400 = 0 \<and> e mod 86400 = 86399"

lemma multiple_le_iff: "a mod k = 0 \<Longrightarrow> 0 < k \<Longrightarrow> a \<le> b \<longleftrightarrow> a div k \<le> b div k" for a b k :: nat
  using less_eq_div_iff_mult_less_eq [of k "a div k" b] div_mult_mod_eq [of a k] by simp

lemma le_last_iff:
  fixes a b k :: nat
  assumes "Suc (b mod k) = k"
  shows "a \<le> b \<longleftrightarrow> a div k \<le> b div k"
proof -
  have "Suc b = b div k * k + Suc (b mod k)" by simp
  then have "Suc b = Suc (b div k) * k" unfolding assms by simp
  then have "a \<le> b \<longleftrightarrow> a < Suc (b div k) * k" by (simp add: less_Suc_eq_le [symmetric])
  also have "\<dots> \<longleftrightarrow> a div k < Suc (b div k)" using assms by (intro div_less_iff_less_mult [symmetric]) simp
  finally show ?thesis by (simp add: less_Suc_eq_le)
qed

lemma whole_days_nat:
  assumes "whole_days s e"
  shows "s \<le> t \<and> t \<le> e \<longleftrightarrow> s div 86400 \<le> t div 86400 \<and> t div 86400 \<le> e div 86400"
proof -
  have "unat (s mod 86400) = unat (0 :: u64)" "unat (e mod 86400) = unat (86399 :: u64)"
    using assms by (simp_all only: whole_days_def)
  then have s: "unat s mod 86400 = 0" and e: "unat e mod 86400 = 86399" unfolding unat_mod by simp_all
  have "unat s \<le> unat t \<longleftrightarrow> unat s div 86400 \<le> unat t div 86400" using s by (rule multiple_le_iff) simp
  moreover have "unat t \<le> unat e \<longleftrightarrow> unat t div 86400 \<le> unat e div 86400" using e by (intro le_last_iff) simp
  ultimately show ?thesis by (simp add: word_le_nat_alt unat_div)
qed

lemma whole_days_bucket:
  assumes "calendar C day_no max_day" and "whole_days s e" and "uint t < 2 ^ 63"
  shows "s \<le> t \<and> t \<le> e \<longleftrightarrow> s \<le> day_bucket C t \<and> day_bucket C t \<le> e"
proof -
  have "uint (day_bucket C t) < 2 ^ 63"
    using calendar.day_bucket_le [OF assms(1,3)] assms(3) by (simp add: word_le_def)
  have "day_bucket C t div 86400 = t div 86400"
  proof -
    have "day_bucket C t = (t div 86400) * 86400" by (rule calendar.day_bucket_eq [OF assms(1,3)])
    then have "unat (day_bucket C t) = unat t div 86400 * 86400"
      using unsigned_less [of t, where ?'a = nat] by (simp add: unat_word_ariths unat_div)
    then show ?thesis by (simp add: word_unat_eq_iff unat_div)
  qed
  then show ?thesis using whole_days_nat [OF assms(2), of t] whole_days_nat [OF assms(2), of "day_bucket C t"] by simp
qed

section \<open>Before and after\<close>

lemma after_tiered_raw:
  assumes "e < raw_cut now config"
  shows "filter (in_range mt s e) (after_tiered C now config D ''metrics'') = []"
proof -
  have "after_tiered C now config D ''metrics'' = filter (\<lambda>r. \<not> expired (raw_cut now config) r) (D ''metrics'')"
    by (simp add: after_tiered_def after_monthly_def after_daily_def after_raw_def tier_step_def)
  then show ?thesis using assms by (auto simp: filter_empty_conv in_range_def expired_def)
qed

lemma after_tiered_daily:
  assumes "month_bucket C now < s"
  shows "filter (in_range mt s e) (after_tiered C now config D ''metrics_1d'') =
    filter (in_range mt s e) (ins_all (writes_raw C now config D) (D ''metrics_1d''))"
proof -
  have "after_tiered C now config D ''metrics_1d'' =
      filter (\<lambda>r. \<not> expired (month_bucket C now) r) (ins_all (writes_raw C now config D) (D ''metrics_1d''))"
    by (simp add: after_tiered_def after_monthly_def after_daily_def after_raw_def tier_step_def writes_raw_def)
  moreover have "in_range mt s e r \<and> \<not> expired (month_bucket C now) r \<longleftrightarrow> in_range mt s e r" for r
    using assms by (auto simp: in_range_def expired_def)
  ultimately show ?thesis by (simp add: conj_commute)
qed

lemma query_spec_daily:
  assumes "filter (in_range mt s e) (D ''metrics'') = []" and "filter (in_range mt s e) (D ''metrics_1d'') \<noteq> []"
    and "month_bucket C now \<le> s" and "s \<le> e" and "e < sat_sub now 86400"
  shows "query_spec C now mt s e D = filter (in_range mt s e) (D ''metrics_1d'')"
proof -
  define rb where "rb = (sat_sub now 86400 :: u64)"
  have e: "e < rb" using assms(5) by (simp add: rb_def)
  then have "e \<le> sat_sub rb 1" by (simp add: word_le_nat_alt word_less_nat_alt unat_sat_sub)
  then have "min e (sat_sub rb 1) = e" "max s (month_bucket C now) = s" "s < rb"
    using assms(3,4) e by (simp_all add: min_def max_def)
  then show ?thesis using assms(1,2) by (simp add: query_spec_def Let_def rb_def)
qed

lemma expired_days:
  assumes "calendar C day_no max_day" and "uint now < 2 ^ 63" and "whole_days s e"
    and "r \<in> set (filter (in_range mt 0 (raw_cut now config)) (D ''metrics''))"
  shows "(s \<le> timestamp r \<and> timestamp r \<le> e) = (s \<le> day_bucket C (timestamp r) \<and> day_bucket C (timestamp r) \<le> e)"
proof -
  have "raw_cut now config \<le> now" by (simp add: raw_cut_def sat_sub_le)
  then have "timestamp r \<le> now" using assms(4) by (auto simp: in_range_def)
  then have "uint (timestamp r) < 2 ^ 63" using assms(2) by (simp add: word_le_def)
  then show ?thesis by (rule whole_days_bucket [OF assms(1,3)])
qed

lemma writes_raw_visible:
  assumes "calendar C day_no max_day" and "uint now < 2 ^ 63" and "whole_days s e" and "e < raw_cut now config"
    and "key_sorted (D ''metrics'')" and "filter (in_range mt s e) (D ''metrics'') \<noteq> []"
  shows "filter (in_range mt s e) (writes_raw C now config D) \<noteq> []"
proof -
  let ?old = "filter (in_range mt 0 (raw_cut now config)) (D ''metrics'')" and ?b = "day_bucket C"
  note days = expired_days [OF assms(1-3), where D = D and mt = mt and config = config]
  obtain r where r: "r \<in> set (D ''metrics'')" "in_range mt s e r" using assms(6) by (auto simp: filter_empty_conv)
  then have old: "r \<in> set ?old" using assms(4) by (auto simp: in_range_def)
  define g where "g = filter (\<lambda>x. group_key ?b x = group_key ?b r) ?old"
  have "map_of (groups_of ?b ?old) (group_key ?b r) = Some g"
    using old by (auto simp: map_of_groups g_def)
  then have kg: "(group_key ?b r, g) \<in> set (groups_of ?b ?old)" by (rule map_of_SomeD)
  have types: "\<And>x. x \<in> set ?old \<Longrightarrow> rec_type x = mt" by (simp add: in_range_def)
  note a = group_agg [OF kg types]
  have "sorted_wrt (\<lambda>a b. timestamp a \<le> timestamp b) g"
    unfolding g_def by (rule sorted_wrt_filter [OF in_range_sorted [OF assms(5)]])
  moreover have "r \<in> set g" using old by (simp add: g_def)
  ultimately have "timestamp (hd g) \<le> timestamp r" by (cases g) auto
  moreover have "s \<le> timestamp (hd g)"
    using days [OF a(5)] days [OF old] a(6) r(2) by (auto simp: group_key_def in_range_def)
  ultimately have "in_range mt s e (agg_of g)"
    using r(2) a(2-4) by (auto simp: in_range_def group_key_def)
  moreover have "agg_of g \<in> set (aggs ?b ?old)" using kg by (force simp: aggs_def)
  ultimately show ?thesis unfolding writes_raw_def filter_writes by (auto simp: filter_empty_conv)
qed

text \<open>What the cleanup writes for the days of the interval adds up to the raw records of the interval.\<close>

lemma writes_raw_total:
  assumes "calendar C day_no max_day" and "uint now < 2 ^ 63" and "whole_days s e" and "e < raw_cut now config"
    and "i < arity mt" and "n \<le> ''~''"
  shows "field_total i mt n (filter (in_range mt s e) (writes_raw C now config D)) =
    field_total i mt n (filter (in_range mt s e) (D ''metrics''))"
proof -
  let ?c = "raw_cut now config" and ?in = "\<lambda>t. s \<le> t \<and> t \<le> e"
  let ?old = "filter (in_range mt 0 ?c) (D ''metrics'')"
  note days = expired_days [OF assms(1-3), where D = D and mt = mt and config = config]
  have "field_total i mt n (filter (in_range mt s e) (writes_raw C now config D)) =
      field_total i mt n (filter (in_range mt s e) (aggs (day_bucket C) ?old))"
    by (simp add: writes_raw_def filter_writes)
  also have "\<dots> = field_total i mt n (filter (\<lambda>r. ?in (timestamp r)) (aggs (day_bucket C) ?old))"
    by (rule field_total_ascii [OF assms(6)])
  also have "\<dots> = field_total i mt n (filter (\<lambda>r. ?in (timestamp r)) ?old)"
    by (rule field_total_filter_aggs [where mt' = mt and Q = ?in and W = ?in and bucket = "day_bucket C", OF _ assms(5) days])
      (simp add: in_range_def)
  also have "\<dots> = field_total i mt n (filter (in_range mt s e) ?old)"
    by (rule field_total_ascii [OF assms(6), symmetric])
  also have "filter (in_range mt s e) ?old = filter (in_range mt s e) (D ''metrics'')"
    using assms(4) by (auto intro!: filter_cong simp: in_range_def)
  finally show ?thesis .
qed

section \<open>The first second of the month\<close>

text \<open>Both ends of a range of keys are included, so the monthly step takes the aggregates of the first second of
  the current month too, and no query that starts in this month looks into the monthly tree.\<close>

lemma month_start_hidden:
  assumes "month_bucket C now < raw_cut now config" and "month_bucket C now \<le> s" and "subtract_months C now 12 \<le> s"
    and "r \<in> set (query_spec C now mt s e (after_tiered C now config D))" and "app_name r \<le> ''~''"
  shows "timestamp r \<noteq> month_bucket C now"
proof -
  have "r \<in> set (after_tiered C now config D ''metrics'') \<or> r \<in> set (after_tiered C now config D ''metrics_1d'')"
    using assms(2-4) by (auto simp: query_spec_def Let_def split: if_splits)
  then have "\<not> expired (raw_cut now config) r \<or> \<not> expired (month_bucket C now) r"
    by (auto simp: after_tiered_def after_monthly_def after_daily_def after_raw_def tier_step_def)
  then show ?thesis using assms(1,5) by (auto simp: expired_def)
qed

section \<open>Properties\<close>

text \<open>C6: The cleanup keeps what a query adds up to.  For an interval of whole days that starts after the first instant of
  the current month (whose first day the cleanup hides: \<open>month_start_hidden\<close>), ends before the retention of raw records and more
  than 24 hours ago, and holds raw records but no daily ones, on a healthy store
  that can encode the aggregates, with no export configured and a clock below $2^{63}$: the query before the tiered cleanup
  returns the raw records, the query after it returns at most one aggregate for each day and application, and every
  additive field of every application whose name is at most \<open>''~''\<close> in byte order (the names that the key range covers
  to the end) has the same total (modulo $2^{64}$) in both answers.\<close>

theorem cleanup_keeps_query_totals:
  assumes "store X healthy absw" and "healthy w" and "holds_all X (absw w) D" and "db_size D < 2 ^ 64"
    and "u64_to_vec X now = Inr v"
    and "\<And>r. r \<in> set (writes_raw C now config D @ writes_daily C now config D @ writes_monthly C now config D)
      \<Longrightarrow> roundtrips X r"
    and "\<not> (t_export_before_delete config \<and> t_export_dir config \<noteq> None)"
    and cal: "calendar C day_no max_day" "uint now < 2 ^ 63"
    and int: "whole_days s e" "s \<le> e" "month_bucket C now < s" "e < raw_cut now config" "e < sat_sub now 86400"
    and raw: "filter (in_range mt s e) (D ''metrics'') \<noteq> []" "filter (in_range mt s e) (D ''metrics_1d'') = []"
  shows "\<exists>w0 rep w1 rs' w2. get_metrics_by_type X C (Inr now) mt s e w = (Inr (filter (in_range mt s e) (D ''metrics'')), w0) \<and>
    cleanup_tiered X C (Inr now) nanos config w0 = (Inr rep, w1) \<and>
    get_metrics_by_type X C (Inr now) mt s e w1 = (Inr rs', w2) \<and>
    distinct (map (group_key (day_bucket C)) rs') \<and>
    (\<forall>i n. i < arity mt \<and> n \<le> ''~'' \<longrightarrow> 
      field_total i mt n rs' = field_total i mt n (filter (in_range mt s e) (D ''metrics'')))"
proof -
  let ?raw = "filter (in_range mt s e) (D ''metrics'')" and ?A = "after_tiered C now config D"
  let ?day = "filter (in_range mt s e) (?A ''metrics_1d'')"
  note q = store.run_get_metrics_by_type [OF assms(1), where C = C and clock = "Inr now" and mt = mt and s = s and e = e]
  obtain w0 where w0: "get_metrics_by_type X C (Inr now) mt s e w = (Inr ?raw, w0)" "healthy w0" "absw w0 = absw w"
    using runsD [OF q [OF assms(3)] assms(2)] query_spec_raw [of mt s e D C now] raw(1) by auto
  obtain b rep where b: "runs healthy absw (cleanup_tiered X C (Inr now) nanos config) (absw w) rep b" "holds_all X b ?A"
    using store.run_cleanup_tiered [OF assms(1,3-7), where C = C and nanos = nanos] by auto
  obtain w1 where w1: "cleanup_tiered X C (Inr now) nanos config w0 = (Inr rep, w1)" "healthy w1" "absw w1 = b"
    by (rule runsE [OF b(1) w0(2,3)])
  obtain w2 where w2: "get_metrics_by_type X C (Inr now) mt s e w1 = (Inr (query_spec C now mt s e ?A), w2)"
    using runsD [OF q [OF b(2) [folded w1(3)]] w1(2)] by auto
  have sorted: "key_sorted (D t)" if "t \<in> set tier_names" for t
    using holds_allD [OF assms(3) that] by (simp add: holds_def)
  have day: "mset ?day = mset (filter (in_range mt s e) (writes_raw C now config D))"
    unfolding after_tiered_daily [OF int(3)]
    by (rule filter_ins_all_new [OF key_filter_in_range sorted [OF tier_names_mem(2)] raw(2)]) (simp_all add: writes_raw_def tier_writes_distinct)
  have "?day \<noteq> []"
    using mset_eq_length [OF day] writes_raw_visible [where D = D, OF cal int(1,4) sorted [OF tier_names_mem(1)] raw(1)]
    unfolding length_0_conv [symmetric] by argo
  then have rs': "query_spec C now mt s e ?A = ?day"
    by (intro query_spec_daily) (use int in \<open>simp_all add: after_tiered_raw\<close>)
  have "distinct (map (group_key (day_bucket C)) (filter (in_range mt s e) (writes_raw C now config D)))"
    unfolding writes_raw_def filter_writes
    by (intro distinct_map_filter aggs_buckets_distinct [of _ mt]) (simp add: in_range_def)
  then have "distinct (map (group_key (day_bucket C)) ?day)"
    by (rule mset_eq_imp_distinct_iff [THEN iffD2, rotated]) (simp only: mset_map day)
  moreover have "field_total i mt n ?day = field_total i mt n ?raw" if "i < arity mt" "n \<le> ''~''" for i n
    using field_total_mset [OF day] writes_raw_total [OF cal int(1,4) that] by simp
  ultimately show ?thesis using w0(1) w1(1) w2 unfolding rs' by blast
qed

text \<open>Two records of 2 January 1972, cleaned up on 6 January.\<close>

definition q_recs :: "MetricRecord list" where
  "q_recs = [dsk_rec ''curl'' 63158500 5 7, dsk_rec ''curl'' 63160000 6 8]"

definition q_agg :: MetricRecord where
  "q_agg = dsk_rec ''curl'' 63158500 11 15"

definition q_db :: tier_db where
  "q_db t = (if t = ''metrics'' then q_recs else [])"

definition q_world :: aworld where
  "q_world = \<lparr> trees = (\<lambda>t. map (entry (ref_ext (q_agg # q_recs))) (q_db t)), files = (\<lambda>_. None) \<rparr>"

lemma q_world_facts:
  "ref_healthy q_world" "holds_all (ref_ext (q_agg # q_recs)) (id q_world) q_db" "db_size q_db < 2 ^ 64"
proof -
  have s: "key_sorted q_recs" by (simp add: q_recs_def dsk_rec_def encode_key_less)
  then show "ref_healthy q_world" by (simp add: ref_healthy_def q_world_def q_db_def comp_def)
  show "holds_all (ref_ext (q_agg # q_recs)) (id q_world) q_db"
    using s ref_rec_roundtrip [of _ "q_agg # q_recs"] by (auto simp: holds_all_def holds_def q_world_def roundtrips_def q_db_def)
  show "db_size q_db < 2 ^ 64" by (simp add: db_size_unfold q_db_def q_recs_def)
qed

lemma q_cuts:
  "raw_cut 63504000 t_config = 63417600" "month_bucket greg 63504000 = 63072000"
  "month_cut greg 63504000 t_config = 31968000"
  by code_simp+

lemma q_writes:
  "writes_raw greg 63504000 t_config q_db = [q_agg]" "writes_daily greg 63504000 t_config q_db = []"
  "writes_monthly greg 63504000 t_config q_db = []"
proof -
  have agg: "tier_writes (day_bucket greg) 63417600 q_recs ALL_METRIC_TYPES = [q_agg]"
    and none: "tier_writes (month_bucket greg) 63072000 [q_agg] ALL_METRIC_TYPES = []"
      "tier_writes (year_bucket greg) 31968000 [] ALL_METRIC_TYPES = []"
    by code_simp+
  show raw: "writes_raw greg 63504000 t_config q_db = [q_agg]" by (simp add: writes_raw_def q_cuts q_db_def agg)
  have "after_raw greg 63504000 t_config q_db ''metrics_1d'' = [q_agg]"
    by (simp add: after_raw_def tier_step_def q_cuts q_db_def agg)
  then show "writes_daily greg 63504000 t_config q_db = []" by (simp add: writes_daily_def q_cuts none)
  have "after_daily greg 63504000 t_config q_db ''metrics_1m'' = []"
    by (simp add: after_daily_def after_raw_def tier_step_def q_cuts q_db_def agg none)
  then show "writes_monthly greg 63504000 t_config q_db = []" by (simp add: writes_monthly_def q_cuts none)
qed

theorem cleanup_keeps_query_totals_witness:
  "\<exists>w0 rep w1 rs' w2. cleanup_tiered (ref_ext (q_agg # q_recs)) greg (Inr 63504000) None t_config w0 = (Inr rep, w1) \<and>
     get_metrics_by_type (ref_ext (q_agg # q_recs)) greg (Inr 63504000) Dsk 63158400 63244799 w1 = (Inr rs', w2) \<and>
     field_total 0 Dsk ''curl'' rs' = 11 \<and> field_total 1 Dsk ''curl'' rs' = 15"
proof -
  let ?X = "ref_ext (q_agg # q_recs)"
  obtain v where v: "u64_to_vec ?X 63504000 = Inr v" using ref_u64_roundtrip by blast
  have rt: "roundtrips ?X q_agg" using ref_rec_roundtrip [of q_agg "q_agg # q_recs"] by (simp add: roundtrips_def)
  have n: "''curl'' \<le> ''~''" by code_simp
  have raw: "filter (in_range Dsk 63158400 63244799) (q_db ''metrics'') = q_recs"
    "filter (in_range Dsk 63158400 63244799) (q_db ''metrics_1d'') = []" "q_recs \<noteq> []" by code_simp+
  have tot: "field_total 0 Dsk ''curl'' q_recs = 11" "field_total 1 Dsk ''curl'' q_recs = 15" by code_simp+
  have int: "whole_days 63158400 63244799" "(63158400 :: u64) \<le> 63244799" "month_bucket greg 63504000 < 63158400"
    "63244799 < raw_cut 63504000 t_config" "63244799 < sat_sub 63504000 (86400 :: u64)" "uint (63504000 :: u64) < 2 ^ 63"
    by (simp_all add: q_cuts whole_days_def sat_sub_def)
  obtain w0 rep w1 rs' w2 where run: "cleanup_tiered ?X greg (Inr 63504000) None t_config w0 = (Inr rep, w1)"
      "get_metrics_by_type ?X greg (Inr 63504000) Dsk 63158400 63244799 w1 = (Inr rs', w2)"
    and totals: "\<forall>i n. i < arity Dsk \<and> n \<le> ''~'' \<longrightarrow> field_total i Dsk n rs' = field_total i Dsk n q_recs"
    using cleanup_keeps_query_totals [OF ref.store_axioms q_world_facts v _ t_world_facts(4) greg.calendar_axioms int(6,1-5),
        of Dsk None] raw rt by (simp add: q_writes) blast
  have "field_total 0 Dsk ''curl'' rs' = 11" "field_total 1 Dsk ''curl'' rs' = 15"
    using totals [rule_format, of 0 "''curl''"] totals [rule_format, of 1 "''curl''"] n tot by simp_all
  with run show ?thesis by blast
qed

end
