(* ===== verification/Test_Support.thy ===== *)
theory Test_Support
  imports Floats "HOL-Library.Code_Target_Nat"
begin

text \<open>
  What the unit tests of the source need to be run on the model: the subtraction and the absolute value of
  floats, the comparison of a float with an expected value, and lemmas by which one
  rounding is evaluated from its exponent and mantissa.  Natural numbers are evaluated in binary
  from here on.
\<close>

primrec fnegate :: "fl \<Rightarrow> fl" where
  "fnegate NaN = NaN"
| "fnegate PInf = NInf"
| "fnegate NInf = PInf"
| "fnegate NZero = fzero"
| "fnegate (Num q) = (if q = 0 then NZero else Num (- q))"

primrec fabs :: "fl \<Rightarrow> fl" where
  "fabs NaN = NaN"
| "fabs PInf = PInf"
| "fabs NInf = PInf"
| "fabs NZero = fzero"
| "fabs (Num q) = Num \<bar>q\<bar>"

text \<open>\<open>(x - y).abs() < eps\<close>.\<close>

definition near :: "ffmt \<Rightarrow> fl \<Rightarrow> fl \<Rightarrow> fl \<Rightarrow> bool" where
  "near f eps x y = flt (fabs (fadd f x (fnegate y))) eps"

section \<open>Evaluating a rounding\<close>

lemma ilog2_unique:
  assumes "2 powi e \<le> q" and "q < 2 powi (e + 1)"
  shows "ilog2 q = e"
proof -
  have "0 < q" using assms(1) zero_less_power_int [of "2 :: rat" e] by linarith
  note b = ilog2_bounds [OF this]
  have "\<not> 2 powi (ilog2 q + 1) \<le> (2 powi e :: rat)" "\<not> 2 powi (e + 1) \<le> (2 powi ilog2 q :: rat)"
    using assms b by linarith+
  then show ?thesis unfolding powi2_le_iff by linarith
qed

lemma round_even_unique:
  assumes "\<bar>x - of_int m\<bar> < 1 / 2 \<or> \<bar>x - of_int m\<bar> = 1 / 2 \<and> even m"
  shows "round_even x = m"
proof -
  consider "\<lfloor>x\<rfloor> = m" | "\<lfloor>x\<rfloor> = m - 1" using assms by linarith
  then show ?thesis
  proof cases
    case 1
    then show ?thesis using assms by (auto simp: round_even_def Let_def)
  next
    case 2
    moreover from 2 have "of_int m - 1 \<le> x \<and> x < of_int m" by linarith
    ultimately show ?thesis using assms by (auto simp: round_even_def Let_def)
  qed
qed

lemma rnd_eval:
  assumes "2 powi e \<le> q" and "q < 2 powi (e + 1)" and "e - (int (fprec f) - 1) = k" and "fulp_min f \<le> k"
    and "\<bar>q - v\<bar> * 2 < u \<or> \<bar>q - v\<bar> * 2 = u \<and> even m"
    and "2 powi k = u" and "of_int m * u = v" and "0 < v" and "v < 2 powi fexp_max f"
  shows "rnd f neg q = Num v" and "rnd f neg (- q) = Num (- v)"
proof -
  have "0 < q" using assms(1) zero_less_power_int [of "2 :: rat" e] by linarith
  have u: "0 < u" using assms(6) by (simp flip: assms(6))
  have "q / u - of_int m = (q - v) / u" using u by (simp add: field_simps flip: assms(7))
  then have "\<bar>q / u - of_int m\<bar> = \<bar>q - v\<bar> / u" using u by simp
  then have "round_even (q / u) = m" using assms(5) u by (intro round_even_unique) (auto simp: field_simps)
  moreover have "ulp_exp f q = k" using ilog2_unique [OF assms(1,2)] assms(3,4) by (simp add: ulp_exp_def)
  ultimately have "rnd_mag f q = v" using assms(6,7) \<open>0 < q\<close> by (simp add: rnd_mag_unfold)
  then show "rnd f neg q = Num v" "rnd f neg (- q) = Num (- v)"
    using assms(8,9) \<open>0 < q\<close> by (simp_all add: rnd_def Let_def)
qed

lemma rnd_F32:
  assumes "2 powi e \<le> q" and "q < 2 powi (e + 1)" and "of_int m * 2 powi (e - 23) = v"
    and "\<bar>q - v\<bar> * 2 < 2 powi (e - 23) \<or> \<bar>q - v\<bar> * 2 = 2 powi (e - 23) \<and> even m"
    and "- 126 \<le> e" and "0 < v" and "v < 2 powi 128"
  shows "rnd F32 neg q = Num v" and "rnd F32 neg (- q) = Num (- v)"
  by (rule rnd_eval [OF assms(1,2) refl _ assms(4) _ assms(3)]; use assms in simp)+

lemma rnd_F64:
  assumes "2 powi e \<le> q" and "q < 2 powi (e + 1)" and "of_int m * 2 powi (e - 52) = v"
    and "\<bar>q - v\<bar> * 2 < 2 powi (e - 52) \<or> \<bar>q - v\<bar> * 2 = 2 powi (e - 52) \<and> even m"
    and "- 1022 \<le> e" and "0 < v" and "v < 2 powi 1024"
  shows "rnd F64 neg q = Num v" and "rnd F64 neg (- q) = Num (- v)"
  by (rule rnd_eval [OF assms(1,2) refl _ assms(4) _ assms(3)]; use assms in simp)+

lemma rnd_zero: "rnd f neg 0 = (if neg then NZero else fzero)"
  by (simp add: rnd_def)

text \<open>Integers below the precision are exact.\<close>

lemma rnd_int:
  "numeral n < (2 :: nat) ^ fprec f \<Longrightarrow> rnd f neg (numeral n) = Num (numeral n)"
  "numeral n < (2 :: nat) ^ fprec f \<Longrightarrow> rnd f neg (- numeral n) = Num (- numeral n)"
  "rnd f neg 1 = Num 1" "rnd f neg (- 1) = Num (- 1)"
proof -
  have e: "rnd_mag f (of_nat m) = of_nat m \<and> of_nat m < (2 :: rat) powi fexp_max f" if "m < 2 ^ fprec f" for m
  proof
    show "rnd_mag f (of_nat m) = of_nat m" by (rule rnd_mag_exact [OF _ frepr_of_nat [OF that]]) simp
    have "(of_nat m :: rat) < of_nat (2 ^ fprec f)" using that by (simp only: of_nat_less_iff)
    also have "\<dots> \<le> 2 powi fexp_max f" by (cases f) simp_all
    finally show "of_nat m < (2 :: rat) powi fexp_max f" .
  qed
  show "numeral n < (2 :: nat) ^ fprec f \<Longrightarrow> rnd f neg (numeral n) = Num (numeral n)"
    "numeral n < (2 :: nat) ^ fprec f \<Longrightarrow> rnd f neg (- numeral n) = Num (- numeral n)"
    using e [of "numeral n"] by (auto simp: rnd_def Let_def)
  have "1 < (2 :: nat) ^ fprec f" by (cases f) simp_all
  from e [OF this] show "rnd f neg 1 = Num 1" "rnd f neg (- 1) = Num (- 1)" by (cases f; auto simp: rnd_def Let_def)+
qed

lemma floor_ratio: "\<lfloor>(numeral a / numeral b :: rat)\<rfloor> = numeral a div numeral b"
  using floor_divide_of_int_eq [where ?'a = rat, of "numeral a" "numeral b"] by simp

text \<open>The operations on numbers, so that terms that are not evaluated yet stay as they are.\<close>

lemma fmul_num:
  "fmul f (Num a) (Num b) = rnd f ((a < 0) \<noteq> (b < 0)) (a * b)"
  "fmul f NZero (Num b) = rnd f (\<not> b < 0) 0" "fmul f (Num a) NZero = rnd f (\<not> a < 0) 0" "fmul f NZero NZero = rnd f False 0"
  by (simp_all add: fmul_def is_inf_def)

lemma fdiv_num:
  "b \<noteq> 0 \<Longrightarrow> fdiv f (Num a) (Num b) = rnd f ((a < 0) \<noteq> (b < 0)) (a / b)"
  "b \<noteq> 0 \<Longrightarrow> fdiv f NZero (Num b) = rnd f (\<not> b < 0) 0"
  by (simp_all add: fdiv_def is_inf_def)

lemma flt_num: "flt (Num a) (Num b) \<longleftrightarrow> a < b" "flt NZero (Num b) \<longleftrightarrow> 0 < b" "flt (Num a) NZero \<longleftrightarrow> a < 0" "\<not> flt NZero NZero"
  by (simp_all add: flt_def)

lemma fle_num: "fle (Num a) (Num b) \<longleftrightarrow> a \<le> b" "fle NZero (Num b) \<longleftrightarrow> 0 \<le> b" "fle (Num a) NZero \<longleftrightarrow> a \<le> 0" "fle NZero NZero"
  by (simp_all add: fle_def)

lemma fmax_num: "fmax (Num a) (Num b) = (if a < b then Num b else Num a)"
  by (simp add: fmax_def flt_num)

lemma fclamp_num: "fclamp (Num a) (Num b) (Num c) = (if c < a then Num a else if b < c then Num b else Num c)"
  by (simp add: fclamp_def flt_num)

named_theorems evals

lemmas [evals] = rnd_zero rnd_int lit_def fmul_num fdiv_num fsum_def of_word_def of_len_def flt_num fle_num fmax_num
  fclamp_num near_def Let_def floor_ratio

end
