(* ===== verification/Gpu_Scan.thy ===== *)
theory Gpu_Scan
  imports Gpu_Collector Test_Support
begin

text \<open>
  What \<open>scan_proc_fdinfo\<close> of \<open>gpu/linux/fdinfo.rs\<close> finds, described without its hash map: for every process of \<open>/proc\<close> and
  every known device, the totals over the DRM files that the process has open on the device.  And what a poll of the collector in
  \<open>gpu/linux/mod.rs\<close> makes of two such readings of a process: its use of the device since the previous one.
\<close>

section \<open>Files, processes and totals\<close>

text \<open>The DRM files of a process that can be read.\<close>

definition drm_files :: "gpu_sys \<Rightarrow> u32 \<Rightarrow> DrmFdStats list" where
  "drm_files g pid =
     (let dir = ''/proc/'' @ dec (unat pid) @ ''/fdinfo'' in
      case fs_read_dir (gs_fs g) dir of
        Inl _ \<Rightarrow> []
      | Inr entries \<Rightarrow> List.map_filter (\<lambda>e. case e of
            Inr fd \<Rightarrow> (case fs_read (gs_fs g) (join dir fd) of Inr text \<Rightarrow> parse_drm_fdinfo text | Inl _ \<Rightarrow> None)
          | Inl _ \<Rightarrow> None) entries)"

text \<open>The entries of \<open>/proc\<close> that are numbers.\<close>

definition proc_pids :: "gpu_sys \<Rightarrow> u32 list" where
  "proc_pids g = (case fs_read_dir (gs_fs g) ''/proc'' of
      Inl _ \<Rightarrow> []
    | Inr entries \<Rightarrow> List.map_filter (\<lambda>e. case e of
          Inr name \<Rightarrow> if list_all is_digit (utf8_lossy name) then ok_opt (parse_u32 (utf8_lossy name)) else None
        | Inl _ \<Rightarrow> None) entries)"

definition file_time :: "DrmFdStats \<Rightarrow> nat" where
  "file_time s = (case engine_gfx_ns s of Some n \<Rightarrow> unat n
     | None \<Rightarrow> (case cycles_gfx s of Some n \<Rightarrow> unat n | None \<Rightarrow> 0))"

definition file_vram :: "DrmFdStats \<Rightarrow> nat" where
  "file_vram s = (case memory_vram_bytes s of Some n \<Rightarrow> unat n | None \<Rightarrow> 0)"

definition capped :: "nat \<Rightarrow> u64" where
  "capped n = of_nat (min n (2 ^ 64 - 1))"

definition device_total :: "DrmFdStats list \<Rightarrow> ProcessGpuStats" where
  "device_total ss =
     \<lparr> ps_pdev = fd_pdev (hd ss), engine_time = capped (\<Sum>s\<leftarrow>ss. file_time s),
       total_cycles = Max (set (0 # List.map_filter total_cycles_gfx ss)),
       is_cycles_schema = (cycles_gfx (hd ss) \<noteq> None), ps_vram_bytes = capped (\<Sum>s\<leftarrow>ss. file_vram s) \<rparr>"

definition devices :: "string list \<Rightarrow> DrmFdStats list \<Rightarrow> string list" where
  "devices known ss = remdups (filter (\<lambda>d. d \<in> set known) (map fd_pdev ss))"

definition process_readings :: "gpu_sys \<Rightarrow> string list \<Rightarrow> u32 \<Rightarrow> (u32 \<times> string \<times> ProcessGpuStats) list" where
  "process_readings g known pid =
     map (\<lambda>d. (pid, fdinfo_app_name g pid, device_total (filter (\<lambda>s. fd_pdev s = d) (drm_files g pid))))
       (devices known (drm_files g pid))"

section \<open>The fold over the files\<close>

lemma fold_entry_first:
  assumes "distinct (map fst m)"
  shows "distinct (map fst (foldl (\<lambda>m r. entry_mod (k r) (d r) (f r) m) m rs))"
    and "map_of (foldl (\<lambda>m r. entry_mod (k r) (d r) (f r) m) m rs) a =
      (case filter (\<lambda>r. k r = a) rs of
         [] \<Rightarrow> map_of m a
       | r # rs' \<Rightarrow> Some (foldl (\<lambda>v r. f r v) (case map_of m a of None \<Rightarrow> d r | Some v \<Rightarrow> v) (r # rs')))"
proof -
  show "distinct (map fst (foldl (\<lambda>m r. entry_mod (k r) (d r) (f r) m) m rs))"
    using assms by (induction rs arbitrary: m) (auto simp: entry_mod_distinct)
  show "map_of (foldl (\<lambda>m r. entry_mod (k r) (d r) (f r) m) m rs) a =
      (case filter (\<lambda>r. k r = a) rs of
         [] \<Rightarrow> map_of m a
       | r # rs' \<Rightarrow> Some (foldl (\<lambda>v r. f r v) (case map_of m a of None \<Rightarrow> d r | Some v \<Rightarrow> v) (r # rs')))"
    by (induction rs arbitrary: m) (auto simp: map_of_entry_mod split: list.split)
qed

definition fd_first :: "DrmFdStats \<Rightarrow> ProcessGpuStats" where
  "fd_first s = \<lparr> ps_pdev = fd_pdev s, engine_time = 0, total_cycles = 0, is_cycles_schema = (cycles_gfx s \<noteq> None), ps_vram_bytes = 0 \<rparr>"

lemma fd_steps:
  "foldl (fd_step known) m cs = foldl (\<lambda>m s. entry_mod (fd_pdev s) (fd_first s) (add_fd s) m) m
     (filter (\<lambda>s. fd_pdev s \<in> set known) (List.map_filter (\<lambda>c. Option.bind (ok_opt c) parse_drm_fdinfo) cs))"
  by (induction cs arbitrary: m) (auto simp: fd_step_def fd_first_def map_filter_simps split: option.split)

lemma add_fd_fields:
  "engine_time (foldl (\<lambda>e s. add_fd s e) e ss) = foldl (\<lambda>a s. sat_add a (of_nat (file_time s))) (engine_time e) ss"
  "ps_vram_bytes (foldl (\<lambda>e s. add_fd s e) e ss) = foldl (\<lambda>a s. sat_add a (of_nat (file_vram s))) (ps_vram_bytes e) ss"
  "total_cycles (foldl (\<lambda>e s. add_fd s e) e ss) = fold max (List.map_filter total_cycles_gfx ss) (total_cycles e)"
  "ps_pdev (foldl (\<lambda>e s. add_fd s e) e ss) = ps_pdev e"
  "is_cycles_schema (foldl (\<lambda>e s. add_fd s e) e ss) = is_cycles_schema e"
proof -
  have z: "sat_add a 0 = a" for a :: u64 using unsigned_less [of a, where ?'a = nat] by (simp add: word_unat_eq_iff unat_sat_add)
  show "engine_time (foldl (\<lambda>e s. add_fd s e) e ss) = foldl (\<lambda>a s. sat_add a (of_nat (file_time s))) (engine_time e) ss"
    by (induction ss arbitrary: e) (simp_all add: add_fd_def file_time_def unwrap_or_def split: option.split)
  show "ps_vram_bytes (foldl (\<lambda>e s. add_fd s e) e ss) = foldl (\<lambda>a s. sat_add a (of_nat (file_vram s))) (ps_vram_bytes e) ss"
    by (induction ss arbitrary: e) (simp_all add: add_fd_def file_vram_def z split: option.split)
  show "total_cycles (foldl (\<lambda>e s. add_fd s e) e ss) = fold max (List.map_filter total_cycles_gfx ss) (total_cycles e)"
    by (induction ss arbitrary: e) (simp_all add: add_fd_def map_filter_simps max.commute split: option.split)
  show "ps_pdev (foldl (\<lambda>e s. add_fd s e) e ss) = ps_pdev e" "is_cycles_schema (foldl (\<lambda>e s. add_fd s e) e ss) = is_cycles_schema e"
    by (induction ss arbitrary: e) (simp_all add: add_fd_def)
qed

lemma foldl_capped:
  assumes "\<And>s. f s < 2 ^ 64"
  shows "foldl (\<lambda>a s. sat_add a (of_nat (f s))) 0 ss = capped (\<Sum>s\<leftarrow>ss. f s)"
proof -
  have "unat (of_nat (f s) :: u64) = f s" for s using assms [of s] by (simp add: unat_of_nat)
  then have "unat (foldl (\<lambda>a s. sat_add a (of_nat (f s))) (0 :: u64) ss) = min (\<Sum>s\<leftarrow>ss. f s) (2 ^ 64 - 1)"
    unfolding unat_foldl_sat_add by simp
  from this [symmetric] show ?thesis by (simp add: capped_def)
qed

lemma file_bounds: "file_time s < 2 ^ 64" "file_vram s < 2 ^ 64"
  using unsigned_less [where ?'a = nat and ?'b = 64] by (auto simp: file_time_def file_vram_def split: option.split)

lemma fd_fold_total: "foldl (\<lambda>e s. add_fd s e) (fd_first s) (s # ss) = device_total (s # ss)"
proof -
  have m: "fold max xs 0 = Max (set (0 # xs))" for xs :: "u64 list" by (simp only: Max.set_eq_fold)
  show ?thesis
    by (rule ProcessGpuStats.equality)
      (simp_all only: add_fd_fields device_total_def fd_first_def ProcessGpuStats.simps foldl_capped [OF file_bounds(1)]
        foldl_capped [OF file_bounds(2)] m list.sel, simp)
qed

section \<open>The scan\<close>

text \<open>An association list with given keys and values.\<close>

lemma mset_of_keys:
  assumes "distinct (map fst m)" and "distinct ks" and "\<And>k. map_of m k = (if k \<in> set ks then Some (g k) else None)"
  shows "mset m = mset (map (\<lambda>k. (k, g k)) ks)"
proof -
  have "set m = set (map (\<lambda>k. (k, g k)) ks)"
  proof (intro set_eqI)
    fix p :: "'a \<times> 'b"
    show "p \<in> set m \<longleftrightarrow> p \<in> set (map (\<lambda>k. (k, g k)) ks)"
      using assms(3) [of "fst p"] map_of_eq_Some_iff [OF assms(1), of "fst p" "snd p"] by (cases p) (auto split: if_splits)
  qed
  moreover have "distinct m" using assms(1) by (simp add: distinct_map)
  moreover have "distinct (map (\<lambda>k. (k, g k)) ks)" using assms(2) by (simp add: distinct_map inj_on_def)
  ultimately show ?thesis by (simp only: set_eq_iff_mset_eq_distinct)
qed

lemma device_map:
  "map_of (foldl (\<lambda>m s. entry_mod (fd_pdev s) (fd_first s) (add_fd s) m) [] (filter (\<lambda>s. fd_pdev s \<in> set known) ss)) d =
     (if d \<in> set (devices known ss) then Some (device_total (filter (\<lambda>s. fd_pdev s = d) ss)) else None)"
proof -
  have f: "filter (\<lambda>s. fd_pdev s = d) (filter (\<lambda>s. fd_pdev s \<in> set known) ss) =
      (if d \<in> set known then filter (\<lambda>s. fd_pdev s = d) ss else [])"
    by (induction ss) auto
  have mem: "d \<in> fd_pdev ` set ss \<longleftrightarrow> filter (\<lambda>s. fd_pdev s = d) ss \<noteq> []" by (auto simp: filter_empty_conv)
  show ?thesis
    unfolding fold_entry_first(2) [of "[]", simplified] f
    by (cases "filter (\<lambda>s. fd_pdev s = d) ss") (auto simp: devices_def mem fd_fold_total simp del: foldl_Cons)
qed

lemma proc_fdinfo_readings:
  assumes "hash_order iter" and "list_all is_digit (utf8_lossy name)" and "parse_u32 (utf8_lossy name) = Inr pid"
  shows "mset (proc_fdinfo g iter known name) = mset (process_readings g known pid)"
proof (cases "fs_read_dir (gs_fs g) (''/proc/'' @ dec (unat pid) @ ''/fdinfo'')")
  case (Inr es)
  let ?dir = "''/proc/'' @ dec (unat pid) @ ''/fdinfo''" and ?ss = "drm_files g pid"
  let ?m = "foldl (\<lambda>m s. entry_mod (fd_pdev s) (fd_first s) (add_fd s) m) [] (filter (\<lambda>s. fd_pdev s \<in> set known) ?ss)"
  let ?g = "\<lambda>d. device_total (filter (\<lambda>s. fd_pdev s = d) ?ss)"
  have files: "List.map_filter (\<lambda>c. Option.bind (ok_opt c) parse_drm_fdinfo)
      (map (\<lambda>fd. fs_read (gs_fs g) (join ?dir fd)) (List.map_filter ok_opt es)) = ?ss"
    unfolding drm_files_def Let_def Inr sum.case
    by (induction es) (auto simp: map_filter_simps ok_opt_def split: sum.split option.split)
  have "mset ?m = mset (map (\<lambda>d. (d, ?g d)) (devices known ?ss))"
    by (rule mset_of_keys [OF fold_entry_first(1) _ device_map]) (simp_all add: devices_def)
  then have "mset (iter ?m) = mset (map (\<lambda>d. (d, ?g d)) (devices known ?ss))"
    by (simp only: hash_order.iter_perm [OF assms(1)])
  then have "mset (map (\<lambda>(_, st). (pid, fdinfo_app_name g pid, st)) (iter ?m)) =
      mset (map (\<lambda>(_, st). (pid, fdinfo_app_name g pid, st)) (map (\<lambda>d. (d, ?g d)) (devices known ?ss)))"
    by (simp only: mset_map)
  then show ?thesis
    using assms(2,3) by (simp add: proc_fdinfo_def process_readings_def Let_def Inr [simplified] fd_steps files [simplified] comp_def del: utf8_lossy.simps)
next
  case (Inl e)
  then show ?thesis
    using assms(2,3) by (simp add: proc_fdinfo_def process_readings_def drm_files_def devices_def Let_def del: utf8_lossy.simps)
qed

lemma proc_fdinfo_no_pid:
  "\<not> list_all is_digit (utf8_lossy name) \<or> isl (parse_u32 (utf8_lossy name)) \<Longrightarrow> proc_fdinfo g iter known name = []"
  by (auto simp: proc_fdinfo_def Let_def isl_def simp del: utf8_lossy.simps)

section \<open>Properties\<close>

text \<open>C40: The scan of the processes.  For any orders of the hash maps it returns, as a multiset, one reading for each numeric
  entry of \<open>/proc\<close> and each known device on which that process has a readable DRM file: the process, its name, and
  over its files of this device the sums of engine time (in nanoseconds, or in cycles where a file has no such line) and of memory, cut off at
  the largest 64-bit value, the largest counter of total cycles, and the unit of the first file.\<close>

theorem gpu_scan_exact:
  assumes "hash_order iter"
  shows "mset (scan_proc_fdinfo g iter known) = mset (concat (map (process_readings g known) (proc_pids g)))"
proof (cases "fs_read_dir (gs_fs g) ''/proc''")
  case (Inr es)
  have "mset (concat (map (proc_fdinfo g iter known) (List.map_filter ok_opt es))) =
      mset (concat (map (process_readings g known) (List.map_filter (\<lambda>e. case e of
          Inr name \<Rightarrow> if list_all is_digit (utf8_lossy name) then ok_opt (parse_u32 (utf8_lossy name)) else None
        | Inl _ \<Rightarrow> None) es)))"
  proof (induction es)
    case (Cons e es)
    show ?case
    proof (cases e)
      case (Inr name)
      then show ?thesis
        using Cons proc_fdinfo_readings [OF assms, of name] proc_fdinfo_no_pid [of name g iter known]
        by (cases "list_all is_digit (utf8_lossy name)"; cases "parse_u32 (utf8_lossy name)")
          (simp_all add: map_filter_simps ok_opt_def del: utf8_lossy.simps)
    qed (use Cons in \<open>simp add: map_filter_simps ok_opt_def\<close>)
  qed (simp add: map_filter_simps)
  then show ?thesis by (simp add: scan_proc_fdinfo_def proc_pids_def Inr)
qed (simp add: scan_proc_fdinfo_def proc_pids_def)

text \<open>What a process used since the previous reading: the growth of its engine time, in percent of the growth of the total
  cycles where the device counts cycles, and of the polling interval where it counts nanoseconds.  A process
  without a previous reading is measured from zero; a counter that fell has not grown.\<close>

definition use_since ::
  "u64 \<Rightarrow> ((u32 \<times> string) \<rightharpoonup> FdinfoSnapshot) \<Rightarrow> u32 \<times> string \<times> ProcessGpuStats \<Rightarrow> fl option" where
  "use_since interval_ns before = (\<lambda>(pid, _, now).
     let (time0, cycles0) = (case before (pid, ps_pdev now) of
             Some f \<Rightarrow> (unat (fi_engine_time f), unat (fi_total_cycles f)) | None \<Rightarrow> (0, 0));
         used = unat (engine_time now) - time0;
         whole = (if is_cycles_schema now then unat (total_cycles now) - cycles0 else unat interval_ns)
     in if whole = 0 \<or> \<not> is_cycles_schema now \<and> used = 0 then None
        else Some (fcast F32 (fmul F64 (fdiv F64 (rnd F64 False (of_nat used)) (rnd F64 False (of_nat whole))) (Num 100))))"

lemma usage_of_use: "usage_of = use_since"
proof -
  have pos: "0 < w \<longleftrightarrow> unat w \<noteq> 0" for w :: u64 by (simp add: word_less_nat_alt)
  show ?thesis
    by (intro ext) (auto simp: usage_of_def use_since_def process_usage_def percent_of_def of_word_def unat_sat_sub pos
        unwrap_or_def FdinfoSnapshot_default_def Let_def split: option.split)
qed

text \<open>The base of the next poll: the last reading of each process and device.\<close>

definition last_reading :: "(u32 \<times> string \<times> ProcessGpuStats) list \<Rightarrow> (u32 \<times> string) \<rightharpoonup> FdinfoSnapshot" where
  "last_reading ps k =
     (let rs = filter (\<lambda>(pid, _, st). (pid, ps_pdev st) = k) ps in
      if rs = [] then None
      else case last rs of (_, _, st) \<Rightarrow>
        Some \<lparr> fi_engine_time = engine_time st, fi_total_cycles = total_cycles st, fi_is_cycles_schema = is_cycles_schema st \<rparr>)"

lemma snapshot_of_last: "snapshot_of ps = last_reading ps"
proof (intro ext)
  show "snapshot_of ps k = last_reading ps k" for k
    by (induction ps rule: rev_induct) (auto simp: snapshot_of_def last_reading_def Let_def split: prod.split)
qed

text \<open>C21: One poll of the GPU collector, when some card has a PCI address and the scan has fewer than $2^{32}$ readings.  After the records of the cards it emits exactly one record per pair of
  application and device among the readings of its scan of the processes, at the time of the clock: with the
  index of the device's card, the memory of the application's processes added up (cut off at the largest
  64-bit value, absent when zero), and the sum of their use since the previous poll (absent when no
  process has a value): growth of the engine time over growth of the total cycles or over the interval.  The last reading
  of each process and device, and nothing else, becomes the base of the next poll.\<close>

theorem gpu_process_totals:
  assumes "hash_order (gq_app_iter q)" and "hash_order (gq_pdev_iter q)" and "known_addrs c \<noteq> []"
    and "ps = scan_proc_fdinfo (gq_sys q) (gq_pdev_iter q) (map fst (known_addrs c))" and "length ps < 2 ^ 32"
  shows "\<exists>cards keys c'. distinct keys \<and> set keys = app_pdev ` set ps \<and> list_all (\<lambda>r. rec_type r = Gpu) cards \<and>
    collect_gpus N interval_ns c q =
      (Inr (cards @ map (proc_total (util_timestamp (gq_clock q)) (map_of (rev (known_addrs c)))
         (use_since interval_ns (prev_fdinfo c)) ps) keys), c') \<and>
    backends c' = backends c \<and> prev_fdinfo c' = last_reading ps"
  using collect_gpus_records [OF assms, of N interval_ns] unfolding usage_of_use snapshot_of_last by fastforce

text \<open>A card, and a process that holds it with two files and was read before: two and a half of five seconds are half.\<close>

definition w_gpu_text :: "string \<Rightarrow> string" where
  "w_gpu_text ns = ''drm-pdev:'' @ [CHR 0x09] @ ''0000:03:00.0'' @ [CHR 0x0A] @
     ''drm-engine-gfx:'' @ [CHR 0x09] @ ns @ '' ns'' @ [CHR 0x0A] @ ''drm-memory-vram:'' @ [CHR 0x09] @ ''512 KiB'' @ [CHR 0x0A]"

definition w_gpu_fs :: file_sys where
  "w_gpu_fs = \<lparr>
     fs_read = (\<lambda>p. if p = ''/proc/7/comm'' then Inr (''game'' @ [CHR 0x0A])
        else if p = ''/proc/7/fdinfo/3'' then Inr (w_gpu_text ''3000000000'')
        else if p = ''/proc/7/fdinfo/4'' then Inr (w_gpu_text ''500000000'')
        else Inl (Foreign ''not found'')),
     fs_read_dir = (\<lambda>d. if d = ''/proc'' then Inr [Inr ''self'', Inr ''7'', Inr ''8'']
        else if d = ''/proc/7/fdinfo'' then Inr [Inr ''0'', Inr ''3'', Inr ''4''] else Inl (Foreign ''not found'')),
     fs_exists = (\<lambda>_. False),
     fs_is_dir = (\<lambda>_. False) \<rparr>"

definition w_gpu_poll :: gpu_poll where
  "w_gpu_poll = \<lparr> gq_sys = \<lparr> gs_fs = w_gpu_fs, gs_read_link = (\<lambda>_. Inl (Foreign ''not found'')) \<rparr>,
     gq_clock = Inr 100, gq_pdev_iter = id, gq_app_iter = rev \<rparr>"

definition w_gpu :: "unit GpuCollector" where
  "w_gpu = \<lparr> backends = [AmdBackend \<lparr> b_gpu_index = 2, b_device_path = ''/sys/class/drm/card2/device'',
       b_pci_address = ''0000:03:00.0'', b_hwmon_path = None, b_name = ''AMD GPU 2'' \<rparr>],
     prev_fdinfo = [(7, ''0000:03:00.0'') \<mapsto> \<lparr> fi_engine_time = 1000000000, fi_total_cycles = 0, fi_is_cycles_schema = False \<rparr>] \<rparr>"

definition w_gpu_reading :: ProcessGpuStats where
  "w_gpu_reading = \<lparr> ps_pdev = ''0000:03:00.0'', engine_time = 3500000000, total_cycles = 0,
     is_cycles_schema = False, ps_vram_bytes = 1048576 \<rparr>"

theorem gpu_scan_exact_witness:
  "mset (scan_proc_fdinfo (gq_sys w_gpu_poll) rev [''0000:03:00.0'', ''0000:04:00.0'']) = {#(7, ''game'', w_gpu_reading)#}"
proof -
  have "concat (map (process_readings (gq_sys w_gpu_poll) [''0000:03:00.0'', ''0000:04:00.0'']) (proc_pids (gq_sys w_gpu_poll))) =
      [(7, ''game'', w_gpu_reading)]"
    by code_simp
  then show ?thesis using gpu_scan_exact [OF hash_rev.hash_order_axioms] by simp
qed

lemma w_gpu_use: "use_since 5000000000 (prev_fdinfo w_gpu) (7, ''game'', w_gpu_reading) = Some (Num 50)"
proof -
  have "rnd F64 False (1 / 2) = Num (1 / 2)" by (rule rnd_F64(1) [of "- 1" _ "2 ^ 52"]) (simp_all add: power_int_minus)
  then show ?thesis by (simp add: use_since_def w_gpu_def w_gpu_reading_def rnd_int fdiv_num fmul_num fcast_def)
qed

theorem gpu_process_totals_witness:
  "\<exists>cards c'. collect_gpus None 5000000000 w_gpu w_gpu_poll =
     (Inr (cards @ [\<lparr> app_name = ''game'', timestamp = 100, payload = GpuProcP
        \<lparr> gp_gpu_index = 2, gp_usage_percent = Some (Num 50), gp_vram_used_bytes = Some 1048576 \<rparr> \<rparr>]), c') \<and>
     prev_fdinfo c' (7, ''0000:03:00.0'') =
       Some \<lparr> fi_engine_time = 3500000000, fi_total_cycles = 0, fi_is_cycles_schema = False \<rparr>"
proof -
  let ?p = "(7, ''game'', w_gpu_reading)" and ?k = "(''game'', ''0000:03:00.0'')"
  have k: "known_addrs w_gpu = [(''0000:03:00.0'', 2)]" by (simp add: known_addrs_def w_gpu_def)
  have q: "gq_pdev_iter w_gpu_poll = id" "util_timestamp (gq_clock w_gpu_poll) = 100"
    and h: "hash_order (gq_app_iter w_gpu_poll)" "hash_order (gq_pdev_iter w_gpu_poll)"
    using hash_rev.hash_order_axioms hash_id.hash_order_axioms by (simp_all add: w_gpu_poll_def util_timestamp_def)
  have scan: "[?p] = scan_proc_fdinfo (gq_sys w_gpu_poll) (gq_pdev_iter w_gpu_poll) (map fst (known_addrs w_gpu))" by code_simp
  have pd: "app_pdev ?p = ?k" by (simp add: app_pdev_def w_gpu_reading_def)
  have v: "vram_of ?p = 1048576" by (simp add: vram_of_def w_gpu_reading_def)
  have total: "proc_total 100 [''0000:03:00.0'' \<mapsto> 2] (use_since 5000000000 (prev_fdinfo w_gpu)) [?p] ?k =
      \<lparr> app_name = ''game'', timestamp = 100, payload = GpuProcP
        \<lparr> gp_gpu_index = 2, gp_usage_percent = Some (Num 50), gp_vram_used_bytes = Some 1048576 \<rparr> \<rparr>"
    by (simp add: proc_total_def pd w_gpu_use map_filter_simps v rnd_int)
  have base: "last_reading [?p] (7, ''0000:03:00.0'') =
      Some \<lparr> fi_engine_time = 3500000000, fi_total_cycles = 0, fi_is_cycles_schema = False \<rparr>"
    by (simp add: last_reading_def w_gpu_reading_def)
  obtain cards keys c' where r: "distinct keys" "set keys = {?k}"
      "collect_gpus None 5000000000 w_gpu w_gpu_poll =
        (Inr (cards @ map (proc_total 100 [''0000:03:00.0'' \<mapsto> 2] (use_since 5000000000 (prev_fdinfo w_gpu)) [?p]) keys), c')"
      "prev_fdinfo c' = last_reading [?p]"
    using gpu_process_totals [OF h _ scan, of None 5000000000] unfolding k q by (auto simp: pd)
  have "keys = [?k]" using r(1,2) by (cases keys; cases "tl keys") auto
  then show ?thesis using r(3) total base r(4) by auto
qed

end
