(* ===== verification/Storage_Tests.thy ===== *)
theory Storage_Tests
  imports Keys Gregorian Aggregation Power_Calc Test_Support
begin

text \<open>
  The unit tests of \<open>storage/keys.rs\<close>, \<open>aggregation.rs\<close> and \<open>power_calc.rs\<close>, translated one by one and run on
  the model: a test is a Boolean value, false where an assertion fails or an \<open>unwrap\<close> panics.  Dates
  are those of the calendar of \<open>Gregorian\<close>.
\<close>

section \<open>Keys\<close>

definition test_encode_decode_roundtrip :: bool where
  "test_encode_decode_roundtrip =
     (let mt = Cpu; ts = 1711890000; app = ''firefox'' in
      case decode_key (encode_key mt ts app) of
        Inr (decoded_type, decoded_ts, decoded_app) \<Rightarrow> decoded_type = mt \<and> decoded_ts = ts \<and> decoded_app = app
      | Inl _ \<Rightarrow> False)"

definition test_key_lexicographic_order :: bool where
  "test_key_lexicographic_order =
     (let key1 = encode_key Net 1000 ''app1''; key2 = encode_key Net 2000 ''app2''; key3 = encode_key Net 10000 ''app3'' in
      key1 < key2 \<and> key2 < key3)"

definition test_range_bounds :: bool where
  "test_range_bounds =
     (let start = range_start Pwr 1000; end_k = range_end Pwr 1000; record_key = encode_key Pwr 1000 ''myapp'' in
      start < end_k \<and> start \<le> record_key \<and> record_key \<le> end_k)"

section \<open>Buckets\<close>

definition test_day_bucket :: bool where
  "test_day_bucket \<longleftrightarrow> day_bucket greg 1711890000 = 1711843200"

definition test_month_bucket :: bool where
  "test_month_bucket \<longleftrightarrow> month_bucket greg 1711890000 = 1709251200"

definition test_year_bucket :: bool where
  "test_year_bucket \<longleftrightarrow> year_bucket greg 1711890000 = 1704067200"

definition test_subtract_months_basic :: bool where
  "test_subtract_months_basic =
     (let now = 1717334400; one_month_ago = subtract_months greg now 1; two_months_ago = subtract_months greg now 2 in
      one_month_ago < now \<and> two_months_ago < one_month_ago)"

definition test_bucket_functions_monotonic :: bool where
  "test_bucket_functions_monotonic =
     (let ts1 = 1000000; ts2 = 2000000; ts3 = 3000000 in
      day_bucket greg ts1 \<le> day_bucket greg ts2 \<and> day_bucket greg ts2 \<le> day_bucket greg ts3 \<and>
      month_bucket greg ts1 \<le> month_bucket greg ts2 \<and> month_bucket greg ts2 \<le> month_bucket greg ts3 \<and>
      year_bucket greg ts1 \<le> year_bucket greg ts2 \<and> year_bucket greg ts2 \<le> year_bucket greg ts3)"

definition test_day_bucket_midnight_boundary :: bool where
  "test_day_bucket_midnight_boundary =
     (let day_start = 1704067200; day_end = 1704153599; next_day = 1704153600 in
      day_bucket greg day_start = day_start \<and> day_bucket greg day_end = day_start \<and>
      day_bucket greg next_day > day_bucket greg day_start)"

section \<open>Aggregation\<close>

definition test_aggregate_network :: bool where
  "test_aggregate_network =
     (let records =
        [\<lparr> app_name = ''app1'', timestamp = 1000, payload = NetP \<lparr> tx_bytes = 100, rx_bytes = 200, connections = 5 \<rparr> \<rparr>,
         \<lparr> app_name = ''app1'', timestamp = 2000, payload = NetP \<lparr> tx_bytes = 150, rx_bytes = 250, connections = 7 \<rparr> \<rparr>] in
      case aggregate_records records 3000 of
        Some res \<Rightarrow> app_name res = ''app1'' \<and> timestamp res = 3000 \<and>
          (case payload res of
             NetP d \<Rightarrow> tx_bytes d = 250 \<and> rx_bytes d = 450 \<and> connections d = 6
           | _ \<Rightarrow> False)
      | None \<Rightarrow> False)"

definition test_aggregate_empty :: bool where
  "test_aggregate_empty \<longleftrightarrow> aggregate_records [] 1000 = None"

definition test_aggregate_cpu_sums_time_averages_usage :: bool where
  "test_aggregate_cpu_sums_time_averages_usage =
     (let records =
        [\<lparr> app_name = ''app'', timestamp = 1000,
           payload = CpuP \<lparr> cpu_time_ns = 1000000000, cpu_usage_percent = Num 10, thread_count = 1 \<rparr> \<rparr>,
         \<lparr> app_name = ''app'', timestamp = 2000,
           payload = CpuP \<lparr> cpu_time_ns = 3000000000, cpu_usage_percent = Num 30, thread_count = 1 \<rparr> \<rparr>] in
      case aggregate_records records 3000 of
        Some res \<Rightarrow>
          (case payload res of
             CpuP d \<Rightarrow> cpu_time_ns d = 4000000000 \<and> near F32 (lit F32 0.01) (cpu_usage_percent d) (Num 20)
           | _ \<Rightarrow> False)
      | None \<Rightarrow> False)"

definition test_aggregate_memory_averages_counts :: bool where
  "test_aggregate_memory_averages_counts =
     (let records =
        [\<lparr> app_name = ''app'', timestamp = 1000,
           payload = MemP \<lparr> rss_bytes = 1000000, vms_bytes = 2000000, swap_bytes = 100000, process_count = 5 \<rparr> \<rparr>,
         \<lparr> app_name = ''app'', timestamp = 2000,
           payload = MemP \<lparr> rss_bytes = 3000000, vms_bytes = 4000000, swap_bytes = 300000, process_count = 7 \<rparr> \<rparr>] in
      case aggregate_records records 3000 of
        Some res \<Rightarrow>
          (case payload res of
             MemP d \<Rightarrow> rss_bytes d = 2000000 \<and> vms_bytes d = 3000000 \<and> swap_bytes d = 200000 \<and> process_count d = 6
           | _ \<Rightarrow> False)
      | None \<Rightarrow> False)"

definition test_aggregate_disk_sums_bytes_takes_last_mount :: bool where
  "test_aggregate_disk_sums_bytes_takes_last_mount =
     (let records =
        [\<lparr> app_name = ''app'', timestamp = 1000,
           payload = DskP \<lparr> read_bytes = 1000, write_bytes = 2000, mount_point = ''/mnt/old'' \<rparr> \<rparr>,
         \<lparr> app_name = ''app'', timestamp = 2000,
           payload = DskP \<lparr> read_bytes = 3000, write_bytes = 4000, mount_point = ''/mnt/new'' \<rparr> \<rparr>] in
      case aggregate_records records 3000 of
        Some res \<Rightarrow>
          (case payload res of
             DskP d \<Rightarrow> read_bytes d = 4000 \<and> write_bytes d = 6000 \<and> mount_point d = ''/mnt/new''
           | _ \<Rightarrow> False)
      | None \<Rightarrow> False)"

definition is_near :: "fl \<Rightarrow> fl option \<Rightarrow> fl \<Rightarrow> bool" where
  "is_near eps x y = (case x of Some v \<Rightarrow> near F32 eps v y | None \<Rightarrow> False)"

definition test_aggregate_power_averages_options :: bool where
  "test_aggregate_power_averages_options =
     (let records =
        [\<lparr> app_name = ''app'', timestamp = 1000, payload = PwrP
           \<lparr> watt_usage = Num 10, battery_percent = Some (Num 80), charging = False, rapl_package_watts = Some (Num 5),
             rapl_core_watts = None, battery_current_ua = None, battery_voltage_uv = None, avg_cpu_freq_ratio = None,
             display_brightness = Some (lit F32 0.5), is_wifi = Some True \<rparr> \<rparr>,
         \<lparr> app_name = ''app'', timestamp = 2000, payload = PwrP
           \<lparr> watt_usage = Num 20, battery_percent = Some (Num 70), charging = True, rapl_package_watts = Some (Num 15),
             rapl_core_watts = Some (Num 8), battery_current_ua = Some 1000, battery_voltage_uv = Some 5000000,
             avg_cpu_freq_ratio = Some (lit F32 0.8), display_brightness = Some (lit F32 0.7), is_wifi = Some False \<rparr> \<rparr>] in
      case aggregate_records records 3000 of
        Some res \<Rightarrow>
          (case payload res of
             PwrP d \<Rightarrow> near F32 (lit F32 0.01) (watt_usage d) (Num 15) \<and>
               is_near (lit F32 0.01) (battery_percent d) (Num 75) \<and> charging d \<and>
               is_near (lit F32 0.01) (rapl_package_watts d) (Num 10) \<and> rapl_core_watts d \<noteq> None \<and>
               battery_current_ua d \<noteq> None \<and> is_wifi d = Some False
           | _ \<Rightarrow> False)
      | None \<Rightarrow> False)"

section \<open>Power attribution\<close>

text \<open>\<open>compute_power_stats\<close> with the arguments of the source; \<open>order\<close> is the order in which the hash map is visited.\<close>

definition stats_of ::
  "(fl \<Rightarrow> fl) \<Rightarrow> (string \<times> AppMetrics) list \<Rightarrow> u64 \<Rightarrow> fl option \<Rightarrow> fl option \<Rightarrow> fl option \<Rightarrow> bool option \<Rightarrow> AppPowerStats list" where
  "stats_of log2 ams window rapl freq bright wifi =
     compute_power_stats \<lparr> pe_log2 = log2, pe_window_ms = window, pe_rapl = rapl, pe_freq_ratio = freq,
       pe_brightness = bright, pe_wifi = wifi \<rparr> ams"

type_synonym order = "(string \<times> AppMetrics) list \<Rightarrow> (string \<times> AppMetrics) list"

definition test_compute_power_stats_equal_cpu :: "(fl \<Rightarrow> fl) \<Rightarrow> order \<Rightarrow> bool" where
  "test_compute_power_stats_equal_cpu log2 order =
     (let app_metrics = order
        [(''app1'', \<lparr> cpu_pcts = [Num 50], gpu_pcts = [], focus_ms = 0, disk_bytes = 0, net_bytes = 0, mem_rss = [] \<rparr>),
         (''app2'', \<lparr> cpu_pcts = [Num 50], gpu_pcts = [], focus_ms = 0, disk_bytes = 0, net_bytes = 0, mem_rss = [] \<rparr>)];
        stats = stats_of log2 app_metrics 1000 None None None None in
      length stats = 2 \<and>
      near F32 (lit F32 0.1) (fsum F32 (map power_pct stats)) (Num 100) \<and>
      near F32 (Num 1) (power_pct (stats ! 0)) (Num 50) \<and> near F32 (Num 1) (power_pct (stats ! 1)) (Num 50))"

definition test_compute_power_stats_contributions :: "(fl \<Rightarrow> fl) \<Rightarrow> bool" where
  "test_compute_power_stats_contributions log2 =
     (let stats = stats_of log2
        [(''game'', \<lparr> cpu_pcts = [Num 40], gpu_pcts = [Num 60], focus_ms = 0, disk_bytes = 0, net_bytes = 0, mem_rss = [] \<rparr>)] 1000 None None None None;
        game = stats ! 0; eps = lit F32 0.01 in
      length stats = 1 \<and>
      near F32 eps (cpu_contribution game) (fdiv F32 (Num 16) (Num 28)) \<and>
      near F32 eps (gpu_contribution game) (fdiv F32 (Num 12) (Num 28)) \<and> flt (display_contribution game) eps)"

definition test_compute_power_stats_empty :: "(fl \<Rightarrow> fl) \<Rightarrow> bool" where
  "test_compute_power_stats_empty log2 =
     (length (stats_of log2 [] 1000 None None None None) = 0)"

definition test_compute_power_stats_zero_window :: "(fl \<Rightarrow> fl) \<Rightarrow> bool" where
  "test_compute_power_stats_zero_window log2 =
     (length (stats_of log2
        [(''app'', \<lparr> cpu_pcts = [Num 50], gpu_pcts = [], focus_ms = 0, disk_bytes = 0, net_bytes = 0, mem_rss = [] \<rparr>)] 0 None None None None) = 0)"

definition test_compute_power_stats_rapl_approach_b :: "(fl \<Rightarrow> fl) \<Rightarrow> bool" where
  "test_compute_power_stats_rapl_approach_b log2 =
     (let app_metrics =
        [(''app'', \<lparr> cpu_pcts = [Num 50], gpu_pcts = [], focus_ms = 0, disk_bytes = 0, net_bytes = 0, mem_rss = [] \<rparr>)];
        stats_a = stats_of log2 app_metrics 1000 None None None None; score_a = power_score (stats_a ! 0);
        stats_b = stats_of log2 app_metrics 1000 (Some (Num 10)) None None None; score_b = power_score (stats_b ! 0) in
      length stats_a = 1 \<and> near F32 (lit F32 0.1) score_a (Num 20) \<and>
      length stats_b = 1 \<and> near F32 (lit F32 0.1) score_b (Num 10) \<and> flt score_b score_a)"

definition test_compute_power_stats_rapl_fallback_when_zero_cpu :: "(fl \<Rightarrow> fl) \<Rightarrow> bool" where
  "test_compute_power_stats_rapl_fallback_when_zero_cpu log2 =
     (let stats = stats_of log2
        [(''app'', \<lparr> cpu_pcts = [], gpu_pcts = [Num 10], focus_ms = 1000, disk_bytes = 0, net_bytes = 0, mem_rss = [] \<rparr>)]
        1000 (Some (Num 20)) None None None;
        expected_gpu = fmul F32 (lit F32 0.2) (Num 10); expected_display = fmul F32 (lit F32 0.15) (Num 100);
        expected_cpu = fmul F32 (lit F32 0.4) (Num 0);
        expected_total = fadd F32 (fadd F32 expected_gpu expected_display) expected_cpu in
      length stats = 1 \<and> near F32 (lit F32 0.1) (power_score (stats ! 0)) expected_total)"

definition test_compute_power_stats_rapl_attribution :: "(fl \<Rightarrow> fl) \<Rightarrow> order \<Rightarrow> bool" where
  "test_compute_power_stats_rapl_attribution log2 order =
     (let app_metrics = order
        [(''app1'', \<lparr> cpu_pcts = [Num 60], gpu_pcts = [], focus_ms = 0, disk_bytes = 0, net_bytes = 0, mem_rss = [] \<rparr>),
         (''app2'', \<lparr> cpu_pcts = [Num 40], gpu_pcts = [], focus_ms = 0, disk_bytes = 0, net_bytes = 0, mem_rss = [] \<rparr>)];
        stats = stats_of log2 app_metrics 1000 (Some (Num 10)) None None None in
      length stats = 2 \<and>
      (case (List.find (\<lambda>s. aps_app_name s = ''app1'') stats, List.find (\<lambda>s. aps_app_name s = ''app2'') stats) of
         (Some app1, Some app2) \<Rightarrow>
           near F32 (lit F32 0.1) (power_score app1) (Num 6) \<and> near F32 (lit F32 0.1) (power_score app2) (Num 4) \<and>
           near F32 (lit F32 0.1) (fadd F32 (power_score app1) (power_score app2)) (Num 10) \<and>
           near F32 (Num 1) (power_pct app1) (Num 60) \<and> near F32 (Num 1) (power_pct app2) (Num 40)
       | _ \<Rightarrow> False))"

text \<open>\<open>stats[0].power_score\<close>, which panics when there is no entry.\<close>

definition first_score :: "AppPowerStats list \<Rightarrow> (fl \<Rightarrow> bool) \<Rightarrow> bool" where
  "first_score stats check = (case stats of [] \<Rightarrow> False | s # _ \<Rightarrow> check (power_score s))"

definition test_compute_power_stats_freq_scaling :: "(fl \<Rightarrow> fl) \<Rightarrow> bool" where
  "test_compute_power_stats_freq_scaling log2 =
     (let app_metrics =
        [(''app'', \<lparr> cpu_pcts = [Num 40], gpu_pcts = [], focus_ms = 0, disk_bytes = 0, net_bytes = 0, mem_rss = [] \<rparr>)];
        stats_no_freq = stats_of log2 app_metrics 1000 None None None None;
        stats_with_freq = stats_of log2 app_metrics 1000 None (Some (lit F32 0.5)) None None in
      first_score stats_no_freq (\<lambda>score_no_freq. first_score stats_with_freq (\<lambda>score_with_freq.
      near F32 (lit F32 0.1) score_no_freq (Num 16) \<and> near F32 (lit F32 0.1) score_with_freq (Num 4) \<and>
      near F32 (lit F32 0.01) score_with_freq (fmul F32 score_no_freq (lit F32 0.25)))))"

definition test_compute_power_stats_rapl_ignores_freq :: "(fl \<Rightarrow> fl) \<Rightarrow> bool" where
  "test_compute_power_stats_rapl_ignores_freq log2 =
     (let app_metrics =
        [(''app'', \<lparr> cpu_pcts = [Num 50], gpu_pcts = [], focus_ms = 0, disk_bytes = 0, net_bytes = 0, mem_rss = [] \<rparr>)];
        stats_rapl_no_freq = stats_of log2 app_metrics 1000 (Some (Num 10)) None None None;
        stats_rapl_with_freq = stats_of log2 app_metrics 1000 (Some (Num 10)) (Some (lit F32 0.5)) None None in
      first_score stats_rapl_no_freq (\<lambda>score_rapl_no_freq. first_score stats_rapl_with_freq (\<lambda>score_rapl_with_freq.
      near F32 (lit F32 0.1) score_rapl_no_freq (Num 10) \<and> near F32 (lit F32 0.1) score_rapl_with_freq (Num 10) \<and>
      near F32 (lit F32 0.01) score_rapl_no_freq score_rapl_with_freq)))"

definition test_compute_power_stats_display_brightness_scaling :: "(fl \<Rightarrow> fl) \<Rightarrow> bool" where
  "test_compute_power_stats_display_brightness_scaling log2 =
     (let app_metrics =
        [(''app'', \<lparr> cpu_pcts = [], gpu_pcts = [], focus_ms = 500, disk_bytes = 0, net_bytes = 0, mem_rss = [] \<rparr>)];
        stats_no_bright = stats_of log2 app_metrics 1000 None None None None;
        stats_with_bright = stats_of log2 app_metrics 1000 None None (Some (lit F32 0.5)) None in
      first_score stats_no_bright (\<lambda>score_no_bright. first_score stats_with_bright (\<lambda>score_with_bright.
      near F32 (lit F32 0.1) score_no_bright (lit F32 7.5) \<and> near F32 (lit F32 0.1) score_with_bright (lit F32 3.75) \<and>
      near F32 (lit F32 0.01) score_with_bright (fmul F32 score_no_bright (lit F32 0.5)))))"

definition test_compute_power_stats_display_brightness_none_defaults_full :: "(fl \<Rightarrow> fl) \<Rightarrow> bool" where
  "test_compute_power_stats_display_brightness_none_defaults_full log2 =
     (let app_metrics =
        [(''app'', \<lparr> cpu_pcts = [], gpu_pcts = [], focus_ms = 600, disk_bytes = 0, net_bytes = 0, mem_rss = [] \<rparr>)];
        stats_none = stats_of log2 app_metrics 1000 None None None None;
        stats_one = stats_of log2 app_metrics 1000 None None (Some (Num 1)) None in
      first_score stats_none (\<lambda>score_none. first_score stats_one (\<lambda>score_one.
      near F32 (lit F32 0.01) score_none score_one)))"

definition test_compute_power_stats_wifi_higher_net_weight :: "(fl \<Rightarrow> fl) \<Rightarrow> bool" where
  "test_compute_power_stats_wifi_higher_net_weight log2 =
     (let app_metrics =
        [(''app'', \<lparr> cpu_pcts = [], gpu_pcts = [], focus_ms = 0, disk_bytes = 0, net_bytes = 1024, mem_rss = [] \<rparr>)];
        stats_wifi = stats_of log2 app_metrics 1000 None None None (Some True);
        stats_eth = stats_of log2 app_metrics 1000 None None None (Some False) in
      first_score stats_wifi (\<lambda>score_wifi. first_score stats_eth (\<lambda>score_eth.
      near F32 (lit F32 0.01) score_wifi (fmul F32 score_eth (Num 3)))))"

definition test_compute_power_stats_ethernet_lower_net_weight :: "(fl \<Rightarrow> fl) \<Rightarrow> bool" where
  "test_compute_power_stats_ethernet_lower_net_weight log2 =
     (let app_metrics =
        [(''app'', \<lparr> cpu_pcts = [], gpu_pcts = [], focus_ms = 0, disk_bytes = 0, net_bytes = 1024, mem_rss = [] \<rparr>)];
        stats_eth = stats_of log2 app_metrics 1000 None None None (Some False);
        stats_unknown = stats_of log2 app_metrics 1000 None None None None in
      first_score stats_eth (\<lambda>score_eth. first_score stats_unknown (\<lambda>score_unknown.
      near F32 (lit F32 0.01) score_eth (fmul F32 score_unknown (lit F32 0.5)))))"

definition test_compute_power_stats_unknown_interface_uses_baseline :: "(fl \<Rightarrow> fl) \<Rightarrow> bool" where
  "test_compute_power_stats_unknown_interface_uses_baseline log2 =
     (let stats_none = stats_of log2
        [(''app'', \<lparr> cpu_pcts = [], gpu_pcts = [], focus_ms = 0, disk_bytes = 0, net_bytes = 1024, mem_rss = [] \<rparr>)]
        1000 None None None None in
      first_score stats_none (\<lambda>score_none. flt (Num 0) score_none))"

section \<open>Running the tests\<close>

lemma key_and_bucket_tests:
  "test_encode_decode_roundtrip"
  "test_key_lexicographic_order"
  "test_range_bounds"
  "test_day_bucket"
  "test_month_bucket"
  "test_year_bucket"
  "test_subtract_months_basic"
  "test_bucket_functions_monotonic"
  "test_day_bucket_midnight_boundary"
  by code_simp+

text \<open>The roundings that the tests meet.\<close>

lemma power_rnds [evals]:
  "rnd F32 neg (1 / 4194304) = Num (1 / 4194304)"
  "rnd F32 neg (1 / 2097152) = Num (1 / 2097152)"
  "rnd F32 neg (1 / 1048576) = Num (1 / 1048576)"
  "rnd F32 neg (1 / 262144) = Num (1 / 262144)"
  "rnd F32 neg (1 / 100) = Num (5368709 / 536870912)"
  "rnd F32 neg (1 / 20) = Num (13421773 / 268435456)"
  "rnd F32 neg (1 / 10) = Num (13421773 / 134217728)"
  "rnd F32 neg (2 / 17) = Num (15790321 / 134217728)"
  "rnd F32 neg (3 / 20) = Num (5033165 / 33554432)"
  "rnd F32 neg (1 / 5) = Num (13421773 / 67108864)"
  "rnd F32 neg (1 / 4) = Num (1 / 4)"
  "rnd F32 neg (2 / 5) = Num (13421773 / 33554432)"
  "rnd F32 neg (3 / 7) = Num (14380471 / 33554432)"
  "rnd F32 neg (1 / 2) = Num (1 / 2)"
  "rnd F32 neg (4 / 7) = Num (9586981 / 16777216)"
  "rnd F32 neg (3 / 5) = Num (5033165 / 8388608)"
  "rnd F32 neg (15728641 / 17825792) = Num (14803427 / 16777216)"
  "rnd F32 neg (67108865 / 33554432) = Num (2)"
  "rnd F32 neg (15 / 4) = Num (15 / 4)"
  "rnd F32 neg (15728641 / 4194304) = Num (15728641 / 4194304)"
  "rnd F32 neg (67108865 / 16777216) = Num (4)"
  "rnd F32 neg (335544325 / 67108864) = Num (5)"
  "rnd F32 neg (25165825 / 4194304) = Num (6)"
  "rnd F32 neg (15 / 2) = Num (15 / 2)"
  "rnd F32 neg (125829125 / 16777216) = Num (15728641 / 2097152)"
  "rnd F32 neg (15728641 / 2097152) = Num (15728641 / 2097152)"
  "rnd F32 neg (79164845378765 / 8796093022208) = Num (9437185 / 1048576)"
  "rnd F32 neg (9437185 / 1048576) = Num (9437185 / 1048576)"
  "rnd F32 neg (335544325 / 33554432) = Num (10)"
  "rnd F32 neg (201326595 / 16777216) = Num (12)"
  "rnd F32 neg (125829125 / 8388608) = Num (15728641 / 1048576)"
  "rnd F32 neg (15728641 / 1048576) = Num (15728641 / 1048576)"
  "rnd F32 neg (67108865 / 4194304) = Num (16)"
  "rnd F32 neg (17825793 / 1048576) = Num (17)"
  "rnd F32 neg (335544325 / 16777216) = Num (20)"
  "rnd F32 neg (335544325 / 8388608) = Num (40)"
  "rnd F32 neg (125829125 / 2097152) = Num (15728641 / 262144)"
  subgoal by (rule rnd_F32(1) [of "-22" _ 8388608]) simp_all
  subgoal by (rule rnd_F32(1) [of "-21" _ 8388608]) simp_all
  subgoal by (rule rnd_F32(1) [of "-20" _ 8388608]) simp_all
  subgoal by (rule rnd_F32(1) [of "-18" _ 8388608]) simp_all
  subgoal by (rule rnd_F32(1) [of "-7" _ 10737418]) simp_all
  subgoal by (rule rnd_F32(1) [of "-5" _ 13421773]) simp_all
  subgoal by (rule rnd_F32(1) [of "-4" _ 13421773]) simp_all
  subgoal by (rule rnd_F32(1) [of "-4" _ 15790321]) simp_all
  subgoal by (rule rnd_F32(1) [of "-3" _ 10066330]) simp_all
  subgoal by (rule rnd_F32(1) [of "-3" _ 13421773]) simp_all
  subgoal by (rule rnd_F32(1) [of "-2" _ 8388608]) simp_all
  subgoal by (rule rnd_F32(1) [of "-2" _ 13421773]) simp_all
  subgoal by (rule rnd_F32(1) [of "-2" _ 14380471]) simp_all
  subgoal by (rule rnd_F32(1) [of "-1" _ 8388608]) simp_all
  subgoal by (rule rnd_F32(1) [of "-1" _ 9586981]) simp_all
  subgoal by (rule rnd_F32(1) [of "-1" _ 10066330]) simp_all
  subgoal by (rule rnd_F32(1) [of "-1" _ 14803427]) simp_all
  subgoal by (rule rnd_F32(1) [of "1" _ 8388608]) simp_all
  subgoal by (rule rnd_F32(1) [of "1" _ 15728640]) simp_all
  subgoal by (rule rnd_F32(1) [of "1" _ 15728641]) simp_all
  subgoal by (rule rnd_F32(1) [of "2" _ 8388608]) simp_all
  subgoal by (rule rnd_F32(1) [of "2" _ 10485760]) simp_all
  subgoal by (rule rnd_F32(1) [of "2" _ 12582912]) simp_all
  subgoal by (rule rnd_F32(1) [of "2" _ 15728640]) simp_all
  subgoal by (rule rnd_F32(1) [of "2" _ 15728641]) simp_all
  subgoal by (rule rnd_F32(1) [of "2" _ 15728641]) simp_all
  subgoal by (rule rnd_F32(1) [of "3" _ 9437185]) simp_all
  subgoal by (rule rnd_F32(1) [of "3" _ 9437185]) simp_all
  subgoal by (rule rnd_F32(1) [of "3" _ 10485760]) simp_all
  subgoal by (rule rnd_F32(1) [of "3" _ 12582912]) simp_all
  subgoal by (rule rnd_F32(1) [of "3" _ 15728641]) simp_all
  subgoal by (rule rnd_F32(1) [of "3" _ 15728641]) simp_all
  subgoal by (rule rnd_F32(1) [of "4" _ 8388608]) simp_all
  subgoal by (rule rnd_F32(1) [of "4" _ 8912896]) simp_all
  subgoal by (rule rnd_F32(1) [of "4" _ 10485760]) simp_all
  subgoal by (rule rnd_F32(1) [of "5" _ 10485760]) simp_all
  subgoal by (rule rnd_F32(1) [of "5" _ 15728641]) simp_all
  done

lemmas aggregate_evals = evals aggregate_records_def agg_net_def agg_net_step_def agg_mem_def agg_mem_step_def agg_cpu_def
  agg_cpu_step_def agg_dsk_def agg_dsk_step_def agg_pwr_def agg_pwr_step_def pwr_acc0_def push_opt_def avg_f32_def
  mean64_def avg_word_def is_near_def

lemma aggregate_tests:
  "test_aggregate_network"
  "test_aggregate_empty"
  "test_aggregate_cpu_sums_time_averages_usage"
  "test_aggregate_memory_averages_counts"
  "test_aggregate_disk_sums_bytes_takes_last_mount"
  "test_aggregate_power_averages_options"
  by (simp_all add: aggregate_evals test_aggregate_network_def test_aggregate_empty_def test_aggregate_cpu_sums_time_averages_usage_def
    test_aggregate_memory_averages_counts_def test_aggregate_disk_sums_bytes_takes_last_mount_def
    test_aggregate_power_averages_options_def)

lemmas power_evals = evals first_score_def stats_of_def compute_power_stats_def power_stats_def totals_of_def cpu_avg_def max_or_one_def
  score_components_def cpu_score_def net_weight_def log_share_def focus_share_def mem_share_def score_sum_def
  initial_stat_def normalise_def total_score_def weight_defs sort_by_def

lemma power_tests:
  "test_compute_power_stats_equal_cpu log2 id"
  "test_compute_power_stats_equal_cpu log2 rev"
  "test_compute_power_stats_contributions log2"
  "test_compute_power_stats_empty log2"
  "test_compute_power_stats_zero_window log2"
  "test_compute_power_stats_rapl_approach_b log2"
  "test_compute_power_stats_rapl_fallback_when_zero_cpu log2"
  "test_compute_power_stats_rapl_attribution log2 id"
  "test_compute_power_stats_rapl_attribution log2 rev"
  "test_compute_power_stats_freq_scaling log2"
  "test_compute_power_stats_rapl_ignores_freq log2"
  "test_compute_power_stats_display_brightness_scaling log2"
  "test_compute_power_stats_display_brightness_none_defaults_full log2"
  by (simp_all add: power_evals test_compute_power_stats_equal_cpu_def test_compute_power_stats_contributions_def test_compute_power_stats_empty_def
    test_compute_power_stats_zero_window_def test_compute_power_stats_rapl_approach_b_def
    test_compute_power_stats_rapl_fallback_when_zero_cpu_def test_compute_power_stats_rapl_attribution_def
    test_compute_power_stats_freq_scaling_def test_compute_power_stats_rapl_ignores_freq_def
    test_compute_power_stats_display_brightness_scaling_def
    test_compute_power_stats_display_brightness_none_defaults_full_def)

lemma network_weight_tests:
  assumes "log2 (Num 1025) = Num q" and "0 < q"
  shows "test_compute_power_stats_wifi_higher_net_weight log2" and "test_compute_power_stats_ethernet_lower_net_weight log2" and "test_compute_power_stats_unknown_interface_uses_baseline log2"
  using assms by (simp_all add: power_evals test_compute_power_stats_wifi_higher_net_weight_def test_compute_power_stats_ethernet_lower_net_weight_def
    test_compute_power_stats_unknown_interface_uses_baseline_def)

section \<open>Properties\<close>

text \<open>The model passes the unit tests of \<open>keys.rs\<close> and \<open>aggregation.rs\<close>.  Each test function of the two files, translated
  assertion by assertion, is true of the model.\<close>

theorem storage_unit_tests:
  "list_all (\<lambda>passed. passed)
    [test_encode_decode_roundtrip, test_key_lexicographic_order, test_range_bounds, test_day_bucket, test_month_bucket,
     test_year_bucket, test_subtract_months_basic, test_bucket_functions_monotonic, test_day_bucket_midnight_boundary,
     test_aggregate_network, test_aggregate_empty, test_aggregate_cpu_sums_time_averages_usage,
     test_aggregate_memory_averages_counts, test_aggregate_disk_sums_bytes_takes_last_mount,
     test_aggregate_power_averages_options]"
  by (simp add: key_and_bucket_tests aggregate_tests)

text \<open>The model passes the unit tests of \<open>power_calc.rs\<close>, in exact single-precision arithmetic, for every base-2
  logarithm whose value at 1025 is a positive number and for both orders in which a map of two applications can be
  visited.\<close>

theorem power_unit_tests:
  assumes "log2 (Num 1025) = Num q" and "0 < q"
  shows "list_all (\<lambda>passed. passed)
    [test_compute_power_stats_equal_cpu log2 id, test_compute_power_stats_equal_cpu log2 rev,
     test_compute_power_stats_contributions log2, test_compute_power_stats_empty log2,
     test_compute_power_stats_zero_window log2, test_compute_power_stats_rapl_approach_b log2,
     test_compute_power_stats_rapl_fallback_when_zero_cpu log2, test_compute_power_stats_rapl_attribution log2 id,
     test_compute_power_stats_rapl_attribution log2 rev, test_compute_power_stats_freq_scaling log2,
     test_compute_power_stats_rapl_ignores_freq log2, test_compute_power_stats_display_brightness_scaling log2,
     test_compute_power_stats_display_brightness_none_defaults_full log2,
     test_compute_power_stats_wifi_higher_net_weight log2, test_compute_power_stats_ethernet_lower_net_weight log2,
     test_compute_power_stats_unknown_interface_uses_baseline log2]"
  using network_weight_tests [of log2 q, OF assms] by (simp add: power_tests)

theorem power_unit_tests_witness:
  "test_compute_power_stats_wifi_higher_net_weight (\<lambda>_. Num 10) \<and> test_compute_power_stats_equal_cpu (\<lambda>_. Num 10) rev"
  using power_unit_tests [of "\<lambda>_. Num 10" 10] by simp

end
