(* ===== verification/Db_Tests.thy ===== *)
theory Db_Tests
  imports Storage_Props Power_Stats Storage_Tests
begin

text \<open>
  The unit tests of \<open>storage/db.rs\<close> on the model.  A test fills a fresh database and makes its queries; it is
  run on every store that keeps the promises of the locale \<open>store\<close>, holds nothing yet and encodes the records of the test.
  Three tests of the file are about \<open>serde_json\<close> only, which is a parameter here; they are left out.
\<close>

section \<open>The tests\<close>

text \<open>The insertions, one by one, and what is asserted afterwards.\<close>

definition db_test :: "'w ext \<Rightarrow> MetricRecord list \<Rightarrow> ('w, bool) io \<Rightarrow> 'w \<Rightarrow> bool" where
  "db_test X records check w =
     (case bindS (foldS (\<lambda>_ r. insert_metric X r) () records) (\<lambda>_. check) w of
        (Inr passed, _) \<Rightarrow> passed
      | (Inl _, _) \<Rightarrow> False)"

text \<open>The records of the tests: the fields that a test does not set are \<open>None\<close>.\<close>

definition pwr_record :: "u64 \<Rightarrow> fl \<Rightarrow> fl \<Rightarrow> bool \<Rightarrow> fl option \<Rightarrow> MetricRecord" where
  "pwr_record ts watt batt charge rapl =
     \<lparr> app_name = ''system'', timestamp = ts, payload = PwrP
        \<lparr> watt_usage = watt, battery_percent = Some batt, charging = charge, rapl_package_watts = rapl,
          rapl_core_watts = None, battery_current_ua = None, battery_voltage_uv = None, avg_cpu_freq_ratio = None,
          display_brightness = None, is_wifi = None \<rparr> \<rparr>"

definition cpu_record :: "string \<Rightarrow> u64 \<Rightarrow> fl \<Rightarrow> MetricRecord" where
  "cpu_record app ts pct =
     \<lparr> app_name = app, timestamp = ts,
       payload = CpuP \<lparr> cpu_time_ns = 1000000000, cpu_usage_percent = pct, thread_count = 1 \<rparr> \<rparr>"

definition newest_records :: "MetricRecord list" where
  "newest_records =
     [pwr_record 1000 (Num 10) (Num 80) False (Some (Num 10)), pwr_record 2000 (Num 15) (Num 70) True (Some (Num 15)),
      pwr_record 3000 (Num 20) (Num 60) False (Some (Num 20))]"

definition test_get_power_state_at_returns_most_recent :: "'w ext \<Rightarrow> 'w \<Rightarrow> bool" where
  "test_get_power_state_at_returns_most_recent X = db_test X newest_records
     (bindS (get_power_state_at X 2500) (\<lambda>power1.
      bindS (get_power_state_at X 3500) (\<lambda>power2.
      retS (case (power1, power2) of
              (Some d1, Some d2) \<Rightarrow>
                battery_percent d1 = Some (Num 70) \<and> charging d1 \<and> battery_percent d2 = Some (Num 60) \<and> \<not> charging d2
            | _ \<Rightarrow> False))))"

definition before_records :: "MetricRecord list" where
  "before_records = [pwr_record 2000 (Num 10) (Num 80) False None]"

definition test_get_power_state_at_no_records_before :: "'w ext \<Rightarrow> 'w \<Rightarrow> bool" where
  "test_get_power_state_at_no_records_before X = db_test X before_records
     (bindS (get_power_state_at X 1000) (\<lambda>power. retS (power = None)))"

definition exact_records :: "MetricRecord list" where
  "exact_records =
     [\<lparr> app_name = ''system'', timestamp = 1000, payload = PwrP
        \<lparr> watt_usage = Num 10, battery_percent = Some (Num 50), charging = True, rapl_package_watts = Some (Num 10),
          rapl_core_watts = None, battery_current_ua = Some (- 100), battery_voltage_uv = Some 12000000,
          avg_cpu_freq_ratio = None, display_brightness = None, is_wifi = None \<rparr> \<rparr>]"

definition test_get_power_state_at_exact_timestamp :: "'w ext \<Rightarrow> 'w \<Rightarrow> bool" where
  "test_get_power_state_at_exact_timestamp X = db_test X exact_records
     (bindS (get_power_state_at X 1000) (\<lambda>power.
      retS (case power of
              Some d \<Rightarrow> battery_percent d = Some (Num 50) \<and> charging d \<and> battery_current_ua d = Some (- 100) \<and>
                battery_voltage_uv d = Some 12000000
            | None \<Rightarrow> False)))"

definition history_records :: "MetricRecord list" where
  "history_records =
     [pwr_record 1000 (Num 10) (Num 80) False None, pwr_record 2000 (Num 15) (Num 70) True None,
      pwr_record 3000 (Num 20) (Num 60) False None]"

definition test_get_system_power_history :: "'w ext \<Rightarrow> 'd chrono \<Rightarrow> (nat \<Rightarrow> any_error + u64) \<Rightarrow> 'w \<Rightarrow> bool" where
  "test_get_system_power_history X C clock = db_test X history_records
     (bindS (get_system_power_history X C (clock 0) 1000 3000) (\<lambda>history.
      bindS (get_system_power_history X C (clock 1) 1500 2500) (\<lambda>partial.
      retS (map timestamp history = [1000, 2000, 3000] \<and> map timestamp partial = [2000]))))"

text \<open>The tests of power attribution; \<open>order\<close> is the order in which the hash map of the applications is visited.\<close>

definition limit_records :: "MetricRecord list" where
  "limit_records = map (\<lambda>i. cpu_record (''app'' @ dec i) (1000 + of_nat i)
     (fadd F32 (Num 100) (fnegate (fmul F32 (of_len F32 i) (Num 10))))) [0, 1, 2, 3, 4]"

definition test_get_top_apps_by_power_limit ::
  "'w ext \<Rightarrow> 'd chrono \<Rightarrow> order \<Rightarrow> (fl \<Rightarrow> fl) \<Rightarrow> (nat \<Rightarrow> any_error + u64) \<Rightarrow> 'w \<Rightarrow> bool" where
  "test_get_top_apps_by_power_limit X C order log2 clock = db_test X limit_records
     (bindS (get_top_apps_by_power X C order log2 clock 1000 1004 None 2) (\<lambda>stats.
      retS (length stats = 2 \<and> fle (power_pct (stats ! 1)) (power_pct (stats ! 0)))))"

definition filter_records :: "MetricRecord list" where
  "filter_records =
     [pwr_record 1000 (Num 10) (Num 80) False None, pwr_record 2000 (Num 10) (Num 70) True None,
      cpu_record ''firefox'' 1000 (Num 50), cpu_record ''firefox'' 2000 (Num 50)]"

definition test_get_top_apps_by_power_battery_filter ::
  "'w ext \<Rightarrow> 'd chrono \<Rightarrow> order \<Rightarrow> (fl \<Rightarrow> fl) \<Rightarrow> (nat \<Rightarrow> any_error + u64) \<Rightarrow> 'w \<Rightarrow> bool" where
  "test_get_top_apps_by_power_battery_filter X C order log2 clock = db_test X filter_records
     (bindS (get_top_apps_by_power X C order log2 clock 1000 2000 (Some True) 10) (\<lambda>stats_battery.
      bindS (get_top_apps_by_power X C order log2 (\<lambda>i. clock (7 + i)) 1000 2000 (Some False) 10) (\<lambda>stats_plugged.
      retS (length stats_battery = 1 \<and> on_battery (stats_battery ! 0) \<and>
        length stats_plugged = 1 \<and> \<not> on_battery (stats_plugged ! 0)))))"

definition equal_records :: "MetricRecord list" where
  "equal_records = [cpu_record ''app1'' 1000 (Num 50), cpu_record ''app2'' 1000 (Num 50)]"

definition test_get_power_stats_normalization ::
  "'w ext \<Rightarrow> 'd chrono \<Rightarrow> order \<Rightarrow> (fl \<Rightarrow> fl) \<Rightarrow> (nat \<Rightarrow> any_error + u64) \<Rightarrow> 'w \<Rightarrow> bool" where
  "test_get_power_stats_normalization X C order log2 clock = db_test X equal_records
     (bindS (get_power_stats X C order log2 clock 1000 1001 None) (\<lambda>stats.
      retS (length stats = 2 \<and> near F32 (lit F32 0.1) (fsum F32 (map power_pct stats)) (Num 100) \<and>
        near F32 (Num 1) (power_pct (stats ! 0)) (Num 50) \<and> near F32 (Num 1) (power_pct (stats ! 1)) (Num 50))))"

definition game_records :: "MetricRecord list" where
  "game_records =
     [cpu_record ''game'' 1000 (Num 40),
      \<lparr> app_name = ''game'', timestamp = 1000,
        payload = GpuProcP \<lparr> gp_gpu_index = 0, gp_usage_percent = Some (Num 60), gp_vram_used_bytes = None \<rparr> \<rparr>]"

definition TEST_EPSILON :: fl where
  "TEST_EPSILON = lit F32 0.01"

definition test_get_power_stats_contributions ::
  "'w ext \<Rightarrow> 'd chrono \<Rightarrow> order \<Rightarrow> (fl \<Rightarrow> fl) \<Rightarrow> (nat \<Rightarrow> any_error + u64) \<Rightarrow> 'w \<Rightarrow> bool" where
  "test_get_power_stats_contributions X C order log2 clock = db_test X game_records
     (bindS (get_power_stats X C order log2 clock 1000 1001 None) (\<lambda>stats.
      retS (let game = stats ! 0 in length stats = 1 \<and> aps_app_name game = ''game'' \<and>
        near F32 TEST_EPSILON (cpu_contribution game) (fdiv F32 (Num 16) (Num 28)) \<and>
        near F32 TEST_EPSILON (gpu_contribution game) (fdiv F32 (Num 12) (Num 28)) \<and>
        flt (display_contribution game) TEST_EPSILON \<and> flt (disk_contribution game) TEST_EPSILON \<and>
        flt (net_contribution game) TEST_EPSILON \<and> flt (mem_contribution game) TEST_EPSILON)))"

definition test_get_power_stats_empty_range ::
  "'w ext \<Rightarrow> 'd chrono \<Rightarrow> order \<Rightarrow> (fl \<Rightarrow> fl) \<Rightarrow> (nat \<Rightarrow> any_error + u64) \<Rightarrow> 'w \<Rightarrow> bool" where
  "test_get_power_stats_empty_range X C order log2 clock = db_test X []
     (bindS (get_power_stats X C order log2 clock 1000 2000 None) (\<lambda>stats. retS (length stats = 0)))"

definition single_records :: "MetricRecord list" where
  "single_records = [cpu_record ''app'' 1000 (Num 50)]"

definition test_get_power_stats_zero_window ::
  "'w ext \<Rightarrow> 'd chrono \<Rightarrow> order \<Rightarrow> (fl \<Rightarrow> fl) \<Rightarrow> (nat \<Rightarrow> any_error + u64) \<Rightarrow> 'w \<Rightarrow> bool" where
  "test_get_power_stats_zero_window X C order log2 clock = db_test X single_records
     (bindS (get_power_stats X C order log2 clock 1000 1000 None) (\<lambda>stats. retS (length stats = 0)))"

definition display_records :: "MetricRecord list" where
  "display_records =
     [\<lparr> app_name = ''app1'', timestamp = 1000, payload = FocP \<lparr> app_id = ''app1'', duration_ms = 3600 * 1000 \<rparr> \<rparr>,
      cpu_record ''app2'' 1000 (Num 50)]"

definition test_get_power_stats_display_contribution ::
  "'w ext \<Rightarrow> 'd chrono \<Rightarrow> order \<Rightarrow> (fl \<Rightarrow> fl) \<Rightarrow> (nat \<Rightarrow> any_error + u64) \<Rightarrow> 'w \<Rightarrow> bool" where
  "test_get_power_stats_display_contribution X C order log2 clock = db_test X display_records
     (bindS (get_power_stats X C order log2 clock 1000 (1000 + 3600) None) (\<lambda>stats.
      retS (case List.find (\<lambda>s. aps_app_name s = ''app1'') stats of
              Some app1 \<Rightarrow> flt (lit F32 0.5) (display_contribution app1)
            | None \<Rightarrow> False)))"

definition rapl_records :: "MetricRecord list" where
  "rapl_records =
     [pwr_record 1000 (Num 20) (Num 80) False (Some (Num 20)), cpu_record ''app_a'' 1000 (Num 50),
      cpu_record ''app_b'' 1000 (Num 50)]"

definition test_get_power_stats_rapl_approach_b ::
  "'w ext \<Rightarrow> 'd chrono \<Rightarrow> order \<Rightarrow> (fl \<Rightarrow> fl) \<Rightarrow> (nat \<Rightarrow> any_error + u64) \<Rightarrow> 'w \<Rightarrow> bool" where
  "test_get_power_stats_rapl_approach_b X C order log2 clock = db_test X rapl_records
     (bindS (get_power_stats X C order log2 clock 1000 1001 None) (\<lambda>stats.
      retS (length stats = 2 \<and>
        (case (List.find (\<lambda>s. aps_app_name s = ''app_a'') stats, List.find (\<lambda>s. aps_app_name s = ''app_b'') stats) of
           (Some app_a, Some app_b) \<Rightarrow> near F32 (Num 1) (power_pct app_a) (Num 50) \<and> near F32 (Num 1) (power_pct app_b) (Num 50)
         | _ \<Rightarrow> False))))"

definition share_records :: "MetricRecord list" where
  "share_records =
     [pwr_record 1000 (Num 0) (Num 80) False None, cpu_record ''heavy'' 1000 (Num 60), cpu_record ''light'' 1000 (Num 40)]"

definition test_get_power_stats_without_rapl_uses_approach_a ::
  "'w ext \<Rightarrow> 'd chrono \<Rightarrow> order \<Rightarrow> (fl \<Rightarrow> fl) \<Rightarrow> (nat \<Rightarrow> any_error + u64) \<Rightarrow> 'w \<Rightarrow> bool" where
  "test_get_power_stats_without_rapl_uses_approach_a X C order log2 clock = db_test X share_records
     (bindS (get_power_stats X C order log2 clock 1000 1001 None) (\<lambda>stats.
      retS (length stats = 2 \<and>
        (case (List.find (\<lambda>s. aps_app_name s = ''heavy'') stats, List.find (\<lambda>s. aps_app_name s = ''light'') stats) of
           (Some heavy, Some light) \<Rightarrow> near F32 (Num 1) (power_pct heavy) (Num 60) \<and> near F32 (Num 1) (power_pct light) (Num 40)
         | _ \<Rightarrow> False))))"

section \<open>Running them on a store\<close>

text \<open>A store that holds nothing but the records of the test.\<close>

abbreviation only_raw :: "MetricRecord list \<Rightarrow> string \<Rightarrow> MetricRecord list" where
  "only_raw rs \<equiv> (\<lambda>_. [])(''metrics'' := rs)"

lemma query_only_raw: "query_spec C now mt s e (only_raw rs) = filter (in_range mt s e) rs"
  by (simp add: query_spec_def Let_def)

lemma power_records_only_raw: "power_records C clock s e (only_raw rs) = (\<lambda>mt. filter (in_range mt s e) rs)"
  by (rule ext) (simp add: power_records_def query_only_raw)

lemma first_power_entries:
  assumes "list_all (roundtrips X) rs" and "list_all (\<lambda>r. rec_type r = Pwr) rs"
  shows "first_power X (map (\<lambda>r. Inr (entry X r)) rs) =
    Inr (case rs of [] \<Rightarrow> None | r # _ \<Rightarrow> (case payload r of PwrP d \<Rightarrow> Some d | _ \<Rightarrow> None))"
proof (cases rs)
  case (Cons r rs')
  then have "rec_from_slice X (bytes X r) = Inr r" using assms(1) roundtrips_bytes [of X r] by auto
  then show ?thesis using Cons assms(2) by (cases "payload r") simp_all
qed simp

context store
begin

lemma run_db_test:
  assumes "healthy w" and "holds_all X (absw w) (\<lambda>_. [])" and "ins_all records [] = rs" and "list_all (roundtrips X) records"
    and "\<And>a. holds_all X a (only_raw rs) \<Longrightarrow> run check a True a"
  shows "db_test X records check w"
proof -
  let ?a = "set_tree ''metrics'' (map (entry X) rs) (absw w)"
  have rt: "\<And>r. r \<in> set records \<Longrightarrow> roundtrips X r" using assms(4) by (simp add: list_all_iff)
  have empty: "holds X (absw w) ''metrics'' []" using holds_allD [OF assms(2)] by simp
  have "holds_all X ?a (only_raw rs)"
    unfolding assms(3) [symmetric] by (rule holds_all_update [OF assms(2) holds_ins_all [OF empty rt]])
  from run_bind [OF run_insert_each [where rs = records, OF empty rt, unfolded assms(3)] assms(5) [OF this]]
  have "run (bindS (foldS (\<lambda>_ r. insert_metric X r) () records) (\<lambda>_. check)) (absw w) True ?a" .
  from runsD [OF this assms(1)] show ?thesis by (auto simp: db_test_def)
qed

lemma run_power_at:
  assumes "holds_all X a (only_raw rs)"
  shows "run (get_power_state_at X ts) a
    (case rev (filter (in_range Pwr 0 ts) rs) of [] \<Rightarrow> None | r # _ \<Rightarrow> (case payload r of PwrP d \<Rightarrow> Some d | _ \<Rightarrow> None)) a"
proof (rule run_power_state)
  show h: "holds X a ''metrics'' rs" using holds_allD [OF assms, of "''metrics''"] by simp
  then have "list_all (roundtrips X) (rev (filter (in_range Pwr 0 ts) rs))"
    "list_all (\<lambda>r. rec_type r = Pwr) (rev (filter (in_range Pwr 0 ts) rs))"
    by (auto simp: list_all_iff in_range_def holds_def)
  from first_power_entries [OF this]
  show "first_power X (rev (map (\<lambda>r. Inr (entry X r)) (filter (in_range Pwr 0 ts) rs))) =
      Inr (case rev (filter (in_range Pwr 0 ts) rs) of [] \<Rightarrow> None | r # _ \<Rightarrow> (case payload r of PwrP d \<Rightarrow> Some d | _ \<Rightarrow> None))"
    by (simp only: rev_map)
qed

lemma run_history_raw:
  assumes "holds_all X a (only_raw rs)"
  shows "run (get_system_power_history X C clock s e) a (filter (in_range Pwr s e) rs) a"
  using run_get_metrics_by_type [OF assms, of C clock Pwr s e] by (simp add: get_system_power_history_def query_only_raw)

lemma run_power_raw:
  assumes "holds_all X a (only_raw rs)"
  shows "run (get_power_stats X C iter log2 clock s e ob) a (power_query iter log2 s e ob (\<lambda>mt. filter (in_range mt s e) rs)) a"
    and "run (get_top_apps_by_power X C iter log2 clock s e ob n) a
      (take n (power_query iter log2 s e ob (\<lambda>mt. filter (in_range mt s e) rs))) a"
  using run_get_power_stats [OF assms, of C iter log2 clock s e ob] run_top_power [OF assms, of C iter log2 clock s e ob n]
  by (simp_all only: power_records_only_raw)

end

text \<open>The roundings beyond those of \<open>Storage_Tests\<close>.\<close>

lemma db_rnds [evals]:
  "rnd F32 neg (7 / 40) = Num (11744051 / 67108864)"
  "rnd F32 neg (9 / 40) = Num (7549747 / 33554432)"
  "rnd F32 neg (15728641 / 36700160) = Num (1797559 / 4194304)"
  "rnd F32 neg (293601275 / 16777216) = Num (35 / 2)"
  "rnd F32 neg (188743675 / 8388608) = Num (45 / 2)"
  "rnd F32 neg (201326595 / 8388608) = Num (24)"
  "rnd F32 neg (469762055 / 16777216) = Num (28)"
  "rnd F32 neg (67108865 / 2097152) = Num (32)"
  "rnd F32 neg (36700161 / 1048576) = Num (35)"
  "rnd F32 neg (603979785 / 16777216) = Num (36)"
  "rnd F32 neg (44938975 / 1048576) = Num (1404343 / 32768)"
  "rnd F32 neg (239674525 / 4194304) = Num (7489829 / 131072)"
  subgoal by (rule rnd_F32(1) [of "-3" _ 11744051]) simp_all
  subgoal by (rule rnd_F32(1) [of "-3" _ 15099494]) simp_all
  subgoal by (rule rnd_F32(1) [of "-2" _ 14380472]) simp_all
  subgoal by (rule rnd_F32(1) [of "4" _ 9175040]) simp_all
  subgoal by (rule rnd_F32(1) [of "4" _ 11796480]) simp_all
  subgoal by (rule rnd_F32(1) [of "4" _ 12582912]) simp_all
  subgoal by (rule rnd_F32(1) [of "4" _ 14680064]) simp_all
  subgoal by (rule rnd_F32(1) [of "5" _ 8388608]) simp_all
  subgoal by (rule rnd_F32(1) [of "5" _ 9175040]) simp_all
  subgoal by (rule rnd_F32(1) [of "5" _ 9437184]) simp_all
  subgoal by (rule rnd_F32(1) [of "5" _ 11234744]) simp_all
  subgoal by (rule rnd_F32(1) [of "5" _ 14979658]) simp_all
  done

lemma app_digits: "dec 0 = ''0''" "dec (Suc 0) = ''1''" "dec 2 = ''2''" "dec 3 = ''3''" "dec 4 = ''4''"
  by code_simp+

lemma limit_list:
  "limit_records = [cpu_record ''app0'' 1000 (Num 100), cpu_record ''app1'' 1001 (Num 90), cpu_record ''app2'' 1002 (Num 80),
     cpu_record ''app3'' 1003 (Num 70), cpu_record ''app4'' 1004 (Num 60)]"
  by (simp add: limit_records_def app_digits power_evals of_len_def)

lemmas db_record_defs = newest_records_def before_records_def exact_records_def single_records_def history_records_def limit_list filter_records_def
  equal_records_def game_records_def display_records_def rapl_records_def share_records_def pwr_record_def cpu_record_def

lemma inserted:
  "ins_all newest_records [] = newest_records" "ins_all before_records [] = before_records"
  "ins_all exact_records [] = exact_records" "ins_all history_records [] = history_records"
  "ins_all limit_records [] = limit_records" "ins_all equal_records [] = equal_records"
  "ins_all game_records [] = game_records" "ins_all single_records [] = single_records"
  "ins_all [] [] = []" "ins_all display_records [] = rev display_records"
  "ins_all rapl_records [] = drop 1 rapl_records @ take 1 rapl_records"
  "ins_all share_records [] = drop 1 share_records @ take 1 share_records"
  "ins_all filter_records [] = drop 2 filter_records @ take 2 filter_records"
  by (simp_all add: db_record_defs encode_key_less encode_key_inj app_digits)

lemmas query_evals = power_evals db_rnds power_query_def power_env_of_def collect_app_metrics_def add_sample_def passes_filter_def
  on_battery_set_def extract_rapl_average_def extract_freq_ratio_average_def extract_display_brightness_average_def
  extract_is_wifi_last_def pwr_values_def mean32_def in_range_def AppMetrics_default_def map_filter_simps TEST_EPSILON_def

context store
begin

lemma run_check: "run m a x a \<Longrightarrow> P x \<Longrightarrow> run (bindS m (\<lambda>x. retS (P x))) a True a"
  by (erule run_bind) (simp add: run_ret)

lemma run_check2:
  "run m a x a \<Longrightarrow> run m' a y a \<Longrightarrow> P x y \<Longrightarrow> run (bindS m (\<lambda>x. bindS m' (\<lambda>y. retS (P x y)))) a True a"
  by (erule run_bind, erule run_bind) (simp add: run_ret)

lemma power_state_tests:
  assumes "healthy w" and "holds_all X (absw w) (\<lambda>_. [])"
  shows "list_all (roundtrips X) newest_records \<Longrightarrow> test_get_power_state_at_returns_most_recent X w"
    and "list_all (roundtrips X) before_records \<Longrightarrow> test_get_power_state_at_no_records_before X w"
    and "list_all (roundtrips X) exact_records \<Longrightarrow> test_get_power_state_at_exact_timestamp X w"
  unfolding test_get_power_state_at_returns_most_recent_def test_get_power_state_at_no_records_before_def
    test_get_power_state_at_exact_timestamp_def
  by (rule run_db_test [OF assms inserted(1)], assumption, rule run_check2, erule run_power_at, erule run_power_at,
      simp (no_asm) add: db_record_defs in_range_def)
    (rule run_db_test [OF assms inserted(2)], assumption, rule run_check, erule run_power_at, simp (no_asm) add: db_record_defs in_range_def,
      rule run_db_test [OF assms inserted(3)], assumption, rule run_check, erule run_power_at, simp (no_asm) add: db_record_defs in_range_def)

lemma history_test:
  assumes "healthy w" and "holds_all X (absw w) (\<lambda>_. [])" and "list_all (roundtrips X) history_records"
  shows "test_get_system_power_history X C clock w"
  unfolding test_get_system_power_history_def
  by (rule run_db_test [OF assms(1,2) inserted(4) assms(3)], rule run_check2, erule run_history_raw, erule run_history_raw)
    (simp (no_asm) add: db_record_defs in_range_def)

lemma passes_get_power_stats_normalization:
  assumes "healthy w" and "holds_all X (absw w) (\<lambda>_. [])" and "order = id \<or> order = rev" and "list_all (roundtrips X) equal_records"
  shows "test_get_power_stats_normalization X C order log2 clock w"
  unfolding test_get_power_stats_normalization_def
  by (rule run_db_test [OF assms(1,2) inserted(6) assms(4)], rule run_check, erule run_power_raw)
    (use assms(3) in \<open>elim disjE; simp (no_asm_simp) add: db_record_defs query_evals\<close>)

lemma passes_get_power_stats_contributions:
  assumes "healthy w" and "holds_all X (absw w) (\<lambda>_. [])" and "order = id \<or> order = rev" and "list_all (roundtrips X) game_records"
  shows "test_get_power_stats_contributions X C order log2 clock w"
  unfolding test_get_power_stats_contributions_def
  by (rule run_db_test [OF assms(1,2) inserted(7) assms(4)], rule run_check, erule run_power_raw)
    (use assms(3) in \<open>elim disjE; simp (no_asm_simp) add: db_record_defs query_evals\<close>)

lemma passes_get_power_stats_empty_range:
  assumes "healthy w" and "holds_all X (absw w) (\<lambda>_. [])" and "order = id \<or> order = rev"
  shows "test_get_power_stats_empty_range X C order log2 clock w"
  unfolding test_get_power_stats_empty_range_def
  by (rule run_db_test [OF assms(1,2) inserted(9)], simp, rule run_check, erule run_power_raw)
    (use assms(3) in \<open>elim disjE; simp (no_asm_simp) add: db_record_defs query_evals\<close>)

lemma passes_get_power_stats_zero_window:
  assumes "healthy w" and "holds_all X (absw w) (\<lambda>_. [])" and "order = id \<or> order = rev" and "list_all (roundtrips X) single_records"
  shows "test_get_power_stats_zero_window X C order log2 clock w"
  unfolding test_get_power_stats_zero_window_def
  by (rule run_db_test [OF assms(1,2) inserted(8) assms(4)], rule run_check, erule run_power_raw)
    (use assms(3) in \<open>elim disjE; simp (no_asm_simp) add: db_record_defs query_evals\<close>)

lemma passes_get_power_stats_display_contribution:
  assumes "healthy w" and "holds_all X (absw w) (\<lambda>_. [])" and "order = id \<or> order = rev" and "list_all (roundtrips X) display_records"
  shows "test_get_power_stats_display_contribution X C order log2 clock w"
  unfolding test_get_power_stats_display_contribution_def
  by (rule run_db_test [OF assms(1,2) inserted(10) assms(4)], rule run_check, erule run_power_raw)
    (use assms(3) in \<open>elim disjE; simp (no_asm_simp) add: db_record_defs query_evals\<close>)

lemma passes_get_power_stats_rapl_approach_b:
  assumes "healthy w" and "holds_all X (absw w) (\<lambda>_. [])" and "order = id \<or> order = rev" and "list_all (roundtrips X) rapl_records"
  shows "test_get_power_stats_rapl_approach_b X C order log2 clock w"
  unfolding test_get_power_stats_rapl_approach_b_def
  by (rule run_db_test [OF assms(1,2) inserted(11) assms(4)], rule run_check, erule run_power_raw)
    (use assms(3) in \<open>elim disjE; simp (no_asm_simp) add: db_record_defs query_evals\<close>)

lemma passes_get_power_stats_without_rapl_uses_approach_a:
  assumes "healthy w" and "holds_all X (absw w) (\<lambda>_. [])" and "order = id \<or> order = rev" and "list_all (roundtrips X) share_records"
  shows "test_get_power_stats_without_rapl_uses_approach_a X C order log2 clock w"
  unfolding test_get_power_stats_without_rapl_uses_approach_a_def
  by (rule run_db_test [OF assms(1,2) inserted(12) assms(4)], rule run_check, erule run_power_raw)
    (use assms(3) in \<open>elim disjE; simp (no_asm_simp) add: db_record_defs query_evals\<close>)

lemma passes_get_top_apps_by_power_limit:
  assumes "healthy w" and "holds_all X (absw w) (\<lambda>_. [])" and "order = id \<or> order = rev" and "list_all (roundtrips X) limit_records"
  shows "test_get_top_apps_by_power_limit X C order log2 clock w"
  unfolding test_get_top_apps_by_power_limit_def
  by (rule run_db_test [OF assms(1,2) inserted(5) assms(4)], rule run_check, erule run_power_raw)
    (use assms(3) in \<open>elim disjE; simp (no_asm_simp) add: db_record_defs query_evals\<close>)

lemma passes_get_top_apps_by_power_battery_filter:
  assumes "healthy w" and "holds_all X (absw w) (\<lambda>_. [])" and "order = id \<or> order = rev" and "list_all (roundtrips X) filter_records"
  shows "test_get_top_apps_by_power_battery_filter X C order log2 clock w"
  unfolding test_get_top_apps_by_power_battery_filter_def
  by (rule run_db_test [OF assms(1,2) inserted(13) assms(4)], rule run_check2, erule run_power_raw, erule run_power_raw)
    (use assms(3) in \<open>elim disjE; simp (no_asm_simp) add: db_record_defs query_evals\<close>)

end

section \<open>Property\<close>

definition all_records :: "MetricRecord list" where
  "all_records = newest_records @ before_records @ exact_records @ history_records @ limit_records @ filter_records @
     equal_records @ game_records @ single_records @ display_records @ rapl_records @ share_records"

text \<open>The model of the database passes the unit tests of \<open>storage/db.rs\<close>, but for three that are about \<open>serde_json\<close> alone.  On every store that keeps its
  promises, that is empty and encodes the records of the tests, each test fills the store with its records and its assertions hold
  of what the queries return, whatever the clock says during the test, whether the applications are visited in the order in which they were met or in reverse.
  The power queries run through range scans, aggregation, attribution in single precision, sorting and the
  limit.\<close>

theorem db_unit_tests:
  assumes "store X healthy absw" and "healthy w" and "holds_all X (absw w) (\<lambda>_. [])" and "list_all (roundtrips X) all_records"
    and "order = id \<or> order = rev"
  shows "list_all (\<lambda>test. test w)
    [test_get_power_state_at_returns_most_recent X, test_get_power_state_at_no_records_before X,
     test_get_power_state_at_exact_timestamp X, test_get_system_power_history X C clock,
     test_get_top_apps_by_power_limit X C order log2 clock, test_get_top_apps_by_power_battery_filter X C order log2 clock,
     test_get_power_stats_normalization X C order log2 clock, test_get_power_stats_contributions X C order log2 clock,
     test_get_power_stats_empty_range X C order log2 clock, test_get_power_stats_zero_window X C order log2 clock,
     test_get_power_stats_display_contribution X C order log2 clock, test_get_power_stats_rapl_approach_b X C order log2 clock,
     test_get_power_stats_without_rapl_uses_approach_a X C order log2 clock]"
proof -
  note empty = assms(2,3) and encoded = assms(4) [unfolded all_records_def list_all_append]
  note states = store.power_state_tests [OF assms(1) empty] store.history_test [OF assms(1) empty]
  note powers = store.passes_get_top_apps_by_power_limit [OF assms(1) empty assms(5)]
    store.passes_get_top_apps_by_power_battery_filter [OF assms(1) empty assms(5)]
    store.passes_get_power_stats_normalization [OF assms(1) empty assms(5)]
    store.passes_get_power_stats_contributions [OF assms(1) empty assms(5)]
    store.passes_get_power_stats_empty_range [OF assms(1) empty assms(5)]
    store.passes_get_power_stats_zero_window [OF assms(1) empty assms(5)]
    store.passes_get_power_stats_display_contribution [OF assms(1) empty assms(5)]
    store.passes_get_power_stats_rapl_approach_b [OF assms(1) empty assms(5)]
    store.passes_get_power_stats_without_rapl_uses_approach_a [OF assms(1) empty assms(5)]
  show ?thesis using encoded by (simp add: states powers)
qed

theorem db_unit_tests_witness:
  "test_get_top_apps_by_power_limit (ref_ext all_records) greg rev (\<lambda>_. Num 10) (\<lambda>_. Inr 5000) ref_empty \<and>
   test_get_power_stats_rapl_approach_b (ref_ext all_records) greg rev (\<lambda>_. Num 10) (\<lambda>_. Inr 5000) ref_empty"
proof -
  have encoded: "list_all (roundtrips (ref_ext all_records)) all_records"
    using ref_rec_roundtrip by (auto simp: list_all_iff roundtrips_def)
  have empty: "holds_all (ref_ext all_records) (id ref_empty) (\<lambda>_. [])" by (simp add: holds_all_def holds_def ref_empty_def)
  show ?thesis using db_unit_tests [OF ref.store_axioms ref_healthy_empty empty encoded, of rev greg "\<lambda>_. Inr 5000" "\<lambda>_. Num 10"] by simp
qed

end
