(* ===== verification/Integration_Tests.thy ===== *)
theory Integration_Tests
  imports Db_Tests Tiered_Cleanup
begin

text \<open>
  The integration tests of the storage crate, \<open>tests/integration_test.rs\<close> with \<open>tests/common\<close>, on the model, again on
  every store that keeps its promises.  Left out are the tests of exported files, which look at the file system beside the
  store, and those of the tiered cleanup, which \<open>Tiered_Cleanup\<close> treats in general.
\<close>

section \<open>Building records\<close>

record CpuMetricBuilder =
  cb_app_name :: string
  cb_timestamp :: u64
  cb_cpu_time_ns :: u64
  cb_cpu_usage_percent :: fl

definition cpu_builder_new :: "string \<Rightarrow> u64 \<Rightarrow> u64 \<Rightarrow> CpuMetricBuilder" where
  "cpu_builder_new app ts ns =
     \<lparr> cb_app_name = app, cb_timestamp = ts, cb_cpu_time_ns = ns, cb_cpu_usage_percent = fzero \<rparr>"

definition with_usage_percent :: "CpuMetricBuilder \<Rightarrow> fl \<Rightarrow> CpuMetricBuilder" where
  "with_usage_percent b percent = b\<lparr> cb_cpu_usage_percent := percent \<rparr>"

definition cpu_build :: "CpuMetricBuilder \<Rightarrow> MetricRecord" where
  "cpu_build b =
     \<lparr> app_name = cb_app_name b, timestamp = cb_timestamp b, payload = CpuP
        \<lparr> cpu_time_ns = cb_cpu_time_ns b, cpu_usage_percent = cb_cpu_usage_percent b, thread_count = 1 \<rparr> \<rparr>"

record NetworkMetricBuilder =
  nb_app_name :: string
  nb_timestamp :: u64
  nb_tx_bytes :: u64
  nb_rx_bytes :: u64
  nb_connections :: u32

definition network_builder_new :: "string \<Rightarrow> u64 \<Rightarrow> u64 \<Rightarrow> u64 \<Rightarrow> NetworkMetricBuilder" where
  "network_builder_new app ts tx rx =
     \<lparr> nb_app_name = app, nb_timestamp = ts, nb_tx_bytes = tx, nb_rx_bytes = rx, nb_connections = 1 \<rparr>"

definition with_connections :: "NetworkMetricBuilder \<Rightarrow> u32 \<Rightarrow> NetworkMetricBuilder" where
  "with_connections b n = b\<lparr> nb_connections := n \<rparr>"

definition network_build :: "NetworkMetricBuilder \<Rightarrow> MetricRecord" where
  "network_build b =
     \<lparr> app_name = nb_app_name b, timestamp = nb_timestamp b, payload = NetP
        \<lparr> tx_bytes = nb_tx_bytes b, rx_bytes = nb_rx_bytes b, connections = nb_connections b \<rparr> \<rparr>"

record FocusMetricBuilder =
  fb_app_name :: string
  fb_timestamp :: u64
  fb_duration_ms :: u64

definition focus_builder_new :: "string \<Rightarrow> u64 \<Rightarrow> u64 \<Rightarrow> FocusMetricBuilder" where
  "focus_builder_new app ts ms = \<lparr> fb_app_name = app, fb_timestamp = ts, fb_duration_ms = ms \<rparr>"

definition focus_build :: "FocusMetricBuilder \<Rightarrow> MetricRecord" where
  "focus_build b =
     \<lparr> app_name = fb_app_name b, timestamp = fb_timestamp b,
       payload = FocP \<lparr> app_id = fb_app_name b, duration_ms = fb_duration_ms b \<rparr> \<rparr>"

definition make_cpu_record :: "string \<Rightarrow> u64 \<Rightarrow> u64 \<Rightarrow> MetricRecord" where
  "make_cpu_record app ts ns = cpu_build (cpu_builder_new app ts ns)"

definition make_network_record :: "string \<Rightarrow> u64 \<Rightarrow> u64 \<Rightarrow> u64 \<Rightarrow> MetricRecord" where
  "make_network_record app ts tx rx = network_build (network_builder_new app ts tx rx)"

definition make_focus_record :: "string \<Rightarrow> u64 \<Rightarrow> u64 \<Rightarrow> MetricRecord" where
  "make_focus_record app ts ms = focus_build (focus_builder_new app ts ms)"

section \<open>Tests of inserts and queries\<close>

text \<open>Each clock read takes its value from \<open>clock\<close>; \<open>get_metrics_by_app\<close> reads it once for each of the eight types.\<close>

type_synonym clocks = "nat \<Rightarrow> any_error + u64"

definition only_one :: "'a list \<Rightarrow> ('a \<Rightarrow> bool) \<Rightarrow> bool" where
  "only_one results check = (case results of [r] \<Rightarrow> check r | _ \<Rightarrow> False)"

definition test_insert_and_read_back :: "'w ext \<Rightarrow> 'd chrono \<Rightarrow> clocks \<Rightarrow> 'w \<Rightarrow> bool" where
  "test_insert_and_read_back X C clock = db_test X [make_cpu_record ''firefox'' 1000 25500000]
     (bindS (get_metrics_by_type X C (clock 0) Cpu 0 2000) (\<lambda>results.
      retS (only_one results (\<lambda>r. app_name r = ''firefox'' \<and> timestamp r = 1000 \<and>
        (case payload r of CpuP d \<Rightarrow> cpu_time_ns d = 25500000 | _ \<Rightarrow> False)))))"

definition test_time_range_filtering :: "'w ext \<Rightarrow> 'd chrono \<Rightarrow> clocks \<Rightarrow> 'w \<Rightarrow> bool" where
  "test_time_range_filtering X C clock = db_test X
     [make_cpu_record ''app'' 1000 10000000, make_cpu_record ''app'' 2000 20000000, make_cpu_record ''app'' 3000 30000000]
     (bindS (get_metrics_by_type X C (clock 0) Cpu 1500 2500) (\<lambda>results.
      retS (only_one results (\<lambda>r. timestamp r = 2000))))"

definition test_get_metrics_by_app :: "'w ext \<Rightarrow> 'd chrono \<Rightarrow> clocks \<Rightarrow> 'w \<Rightarrow> bool" where
  "test_get_metrics_by_app X C clock = db_test X
     [make_cpu_record ''firefox'' 1000 10000000, make_cpu_record ''code'' 1000 20000000, make_cpu_record ''firefox'' 2000 15000000]
     (bindS (get_metrics_by_app X C clock ''firefox'' 0 3000) (\<lambda>results1.
      bindS (get_metrics_by_app X C (\<lambda>i. clock (8 + i)) ''code'' 0 3000) (\<lambda>results2.
      retS (length results1 = 2 \<and> list_all (\<lambda>r. app_name r = ''firefox'') results1 \<and>
        only_one results2 (\<lambda>r. app_name r = ''code'')))))"

definition test_aggregated_cpu :: "'w ext \<Rightarrow> 'd chrono \<Rightarrow> clocks \<Rightarrow> 'w \<Rightarrow> bool" where
  "test_aggregated_cpu X C clock = db_test X
     [make_cpu_record ''app'' 1000 10000000, make_cpu_record ''app'' 1001 20000000, make_cpu_record ''app'' 1002 30000000]
     (bindS (get_aggregated_cpu X C clock ''app'' 0 2000) (\<lambda>mean. retS (mean = Num 20000000)))"

definition test_top_apps_by_network ::
  "'w ext \<Rightarrow> 'd chrono \<Rightarrow> (string, u64 \<times> u64) hash_iter \<Rightarrow> clocks \<Rightarrow> 'w \<Rightarrow> bool" where
  "test_top_apps_by_network X C iter clock = db_test X
     [make_network_record ''firefox'' 1000 100 200, make_network_record ''code'' 1000 400 100, make_network_record ''slack'' 1000 50 50]
     (bindS (get_top_apps_by_network X C iter (clock 0) 0 2000 3) (\<lambda>top.
      retS (case top of
              [a, b, c] \<Rightarrow> ans_app_name a = ''code'' \<and> ans_tx_bytes a + ans_rx_bytes a = 500 \<and>
                ans_app_name b = ''firefox'' \<and> ans_tx_bytes b + ans_rx_bytes b = 300 \<and>
                ans_app_name c = ''slack'' \<and> ans_tx_bytes c + ans_rx_bytes c = 100
            | _ \<Rightarrow> False)))"

definition batch_records :: "MetricRecord list" where
  "batch_records = map (\<lambda>i. make_cpu_record ''app'' (1000 + of_nat i) (10000000 + of_nat i * 1000000)) [0..<100]"

definition test_batch_insert :: "'w ext \<Rightarrow> 'd chrono \<Rightarrow> clocks \<Rightarrow> 'w \<Rightarrow> bool" where
  "test_batch_insert X C clock = db_test X []
     (bindS (insert_metrics_batch X batch_records) (\<lambda>_.
      bindS (get_metrics_by_type X C (clock 0) Cpu 0 2000) (\<lambda>results.
      retS (length results = 100))))"

definition test_metadata_operations :: "'w ext \<Rightarrow> 'w \<Rightarrow> bool" where
  "test_metadata_operations X = db_test X []
     (bindS (get_retention_days X) (\<lambda>retention1.
      bindS (set_retention_days X 14) (\<lambda>_.
      bindS (get_retention_days X) (\<lambda>retention2.
      bindS (get_last_cleanup_ts X) (\<lambda>ts1.
      bindS (set_last_cleanup_ts X 1000) (\<lambda>_.
      bindS (get_last_cleanup_ts X) (\<lambda>ts2.
      retS (retention1 = 7 \<and> retention2 = 14 \<and> ts1 = None \<and> ts2 = Some 1000))))))))"

definition test_key_collision_overwrites :: "'w ext \<Rightarrow> 'd chrono \<Rightarrow> clocks \<Rightarrow> 'w \<Rightarrow> bool" where
  "test_key_collision_overwrites X C clock = db_test X
     [make_cpu_record ''app'' 1000 10000000, make_cpu_record ''app'' 1000 20000000]
     (bindS (get_metrics_by_type X C (clock 0) Cpu 0 2000) (\<lambda>results.
      retS (only_one results (\<lambda>r. case payload r of CpuP d \<Rightarrow> cpu_time_ns d = 20000000 | _ \<Rightarrow> False))))"

text \<open>Ten threads insert ten records each; \<open>schedule\<close> is the order in which the inserts take effect.\<close>

definition thread_records :: "nat \<Rightarrow> MetricRecord list" where
  "thread_records i = map (\<lambda>j. make_cpu_record ''app'' (1000 + of_nat (i * 10 + j)) 10000000) [0..<10]"

definition test_concurrent_inserts :: "'w ext \<Rightarrow> 'd chrono \<Rightarrow> clocks \<Rightarrow> MetricRecord list \<Rightarrow> 'w \<Rightarrow> bool" where
  "test_concurrent_inserts X C clock schedule = db_test X schedule
     (bindS (get_metrics_by_type X C (clock 0) Cpu 0 2000) (\<lambda>results. retS (length results = 100)))"

definition test_aggregated_cpu_not_found :: "'w ext \<Rightarrow> 'd chrono \<Rightarrow> clocks \<Rightarrow> 'w \<Rightarrow> bool" where
  "test_aggregated_cpu_not_found X C clock = db_test X []
     (\<lambda>w. case get_aggregated_cpu X C clock ''nonexistent'' 0 1000 w of (r, w') \<Rightarrow> (Inr (r = Inl (StorageErr NotFound)), w'))"

definition test_focus_event_insert_and_read_back :: "'w ext \<Rightarrow> 'd chrono \<Rightarrow> clocks \<Rightarrow> 'w \<Rightarrow> bool" where
  "test_focus_event_insert_and_read_back X C clock = db_test X []
     (bindS (insert_focus_event X ''firefox'' 5000 1000) (\<lambda>_.
      bindS (get_metrics_by_type X C (clock 0) Foc 0 2000) (\<lambda>results.
      retS (only_one results (\<lambda>r. app_name r = ''firefox'' \<and>
        (case payload r of FocP d \<Rightarrow> app_id d = ''firefox'' \<and> duration_ms d = 5000 | _ \<Rightarrow> False))))))"

definition test_get_top_apps_by_focus_sorted ::
  "'w ext \<Rightarrow> 'd chrono \<Rightarrow> (string, u64) hash_iter \<Rightarrow> clocks \<Rightarrow> 'w \<Rightarrow> bool" where
  "test_get_top_apps_by_focus_sorted X C iter clock = db_test X
     [make_focus_record ''firefox'' 1000 10000, make_focus_record ''code'' 1000 5000, make_focus_record ''firefox'' 2000 15000]
     (bindS (get_top_apps_by_focus X C iter (clock 0) 0 3000 10) (\<lambda>stats.
      retS (case stats of
              [a, b] \<Rightarrow> afs_app_name a = ''firefox'' \<and> total_duration_ms a = 25000 \<and>
                afs_app_name b = ''code'' \<and> total_duration_ms b = 5000
            | _ \<Rightarrow> False)))"

definition test_get_top_apps_by_focus_time_range ::
  "'w ext \<Rightarrow> 'd chrono \<Rightarrow> (string, u64) hash_iter \<Rightarrow> clocks \<Rightarrow> 'w \<Rightarrow> bool" where
  "test_get_top_apps_by_focus_time_range X C iter clock = db_test X
     [make_focus_record ''app1'' 500 1000, make_focus_record ''app1'' 1500 2000, make_focus_record ''app1'' 2500 3000]
     (bindS (get_top_apps_by_focus X C iter (clock 0) 1000 2000 10) (\<lambda>stats.
      retS (only_one stats (\<lambda>a. total_duration_ms a = 2000))))"

definition test_get_top_apps_by_focus_limit ::
  "'w ext \<Rightarrow> 'd chrono \<Rightarrow> (string, u64) hash_iter \<Rightarrow> clocks \<Rightarrow> 'w \<Rightarrow> bool" where
  "test_get_top_apps_by_focus_limit X C iter clock = db_test X
     (map (\<lambda>i. make_focus_record (''app'' @ dec i) 1000 (1000 * (of_nat i + 1))) [0, 1, 2, 3, 4])
     (bindS (get_top_apps_by_focus X C iter (clock 0) 0 2000 3) (\<lambda>stats.
      retS (case stats of
              [a, b, c] \<Rightarrow> afs_app_name a = ''app4'' \<and> total_duration_ms a = 5000 \<and>
                afs_app_name b = ''app3'' \<and> total_duration_ms b = 4000 \<and>
                afs_app_name c = ''app2'' \<and> total_duration_ms c = 3000
            | _ \<Rightarrow> False)))"

definition test_get_storage_stats :: "'w ext \<Rightarrow> 'w \<Rightarrow> bool" where
  "test_get_storage_stats X = db_test X
     [make_cpu_record ''app1'' 1000 10000000, make_cpu_record ''app2'' 2000 20000000, make_network_record ''app3'' 3000 100 200]
     (bindS (get_storage_stats X) (\<lambda>stats.
      retS (total_records stats = 3 \<and> map_of (record_counts stats) Cpu = Some 2 \<and> map_of (record_counts stats) Net = Some 1)))"

text \<open>\<open>now\<close> is the clock read at the start of a test.\<close>

definition test_query_boundary_exactly_24h_ago :: "'w ext \<Rightarrow> 'd chrono \<Rightarrow> clocks \<Rightarrow> u64 \<Rightarrow> 'w \<Rightarrow> bool" where
  "test_query_boundary_exactly_24h_ago X C clock now =
     (let exactly_24h_ago = now - (24 * 3600); just_before_24h = exactly_24h_ago + 1; just_after_24h = exactly_24h_ago - 1 in
      db_test X [make_cpu_record ''app'' exactly_24h_ago 1000, make_cpu_record ''app'' just_before_24h 2000,
          make_cpu_record ''app'' just_after_24h 3000]
       (bindS (get_metrics_by_type X C (clock 0) Cpu just_after_24h now) (\<lambda>results.
        bindS (get_metrics_by_type X C (clock 1) Cpu exactly_24h_ago now) (\<lambda>results_after.
        retS (length results = 3 \<and> length results_after = 2)))))"

section \<open>Tests of cleanups\<close>

text \<open>A cleanup reads the clock again: \<open>later\<close>, and \<open>later2\<close> in a second cleanup.\<close>

definition test_cleanup_old_data :: "'w ext \<Rightarrow> 'd chrono \<Rightarrow> clocks \<Rightarrow> u64 \<Rightarrow> u64 \<Rightarrow> 'w \<Rightarrow> bool" where
  "test_cleanup_old_data X C clock now later = db_test X
     [make_cpu_record ''app'' now 10000000, make_cpu_record ''app'' (now - 8 * 86400) 10000000]
     (bindS (cleanup_old_data X (Inr later) 7) (\<lambda>deleted.
      bindS (get_metrics_by_type X C (clock 0) Cpu 0 (now - 7 * 86400)) (\<lambda>old.
      bindS (get_metrics_by_type X C (clock 1) Cpu 0 now) (\<lambda>recent.
      retS (deleted = 1 \<and> length old = 0 \<and> length recent = 1)))))"

definition test_cleanup_with_config_per_type ::
  "'w ext \<Rightarrow> 'd chrono \<Rightarrow> clocks \<Rightarrow> nat option \<Rightarrow> u64 \<Rightarrow> u64 \<Rightarrow> 'w \<Rightarrow> bool" where
  "test_cleanup_with_config_per_type X C clock nanos now later =
     (let eight_days_ago = now - (8 * 86400); three_days_ago = now - (3 * 86400);
          config = RetentionConfig_default\<lparr> cpu_days := 7, net_days := 30 \<rparr> in
      db_test X [make_cpu_record ''app'' eight_days_ago 10000000, make_network_record ''app'' three_days_ago 100 200]
       (bindS (get_metrics_by_type X C (clock 0) Cpu 0 now) (\<lambda>cpu_before.
        bindS (get_metrics_by_type X C (clock 1) Net 0 now) (\<lambda>net_before.
        bindS (cleanup_with_config X (Inr later) nanos config) (\<lambda>report.
        bindS (get_metrics_by_type X C (clock 2) Cpu 0 now) (\<lambda>cpu_after.
        bindS (get_metrics_by_type X C (clock 3) Net 0 now) (\<lambda>net_after.
        retS (length cpu_before = 1 \<and> length net_before = 1 \<and> deleted_count report = 1 \<and>
          length cpu_after = 0 \<and> length net_after = 1))))))))"

definition test_cleanup_with_config_net_longer_retention ::
  "'w ext \<Rightarrow> 'd chrono \<Rightarrow> clocks \<Rightarrow> nat option \<Rightarrow> u64 \<Rightarrow> u64 \<Rightarrow> 'w \<Rightarrow> bool" where
  "test_cleanup_with_config_net_longer_retention X C clock nanos now later =
     (let eight_days_ago = now - (8 * 86400);
          config = RetentionConfig_default\<lparr> cpu_days := 7, net_days := 30 \<rparr> in
      db_test X [make_cpu_record ''app'' eight_days_ago 10000000, make_network_record ''app'' eight_days_ago 100 200]
       (bindS (cleanup_with_config X (Inr later) nanos config) (\<lambda>report.
        bindS (get_metrics_by_type X C (clock 0) Cpu 0 now) (\<lambda>cpu_after.
        bindS (get_metrics_by_type X C (clock 1) Net 0 now) (\<lambda>net_after.
        retS (deleted_count report = 1 \<and> length cpu_after = 0 \<and> length net_after = 1))))))"

definition test_cleanup_with_config_updates_last_cleanup_ts :: "'w ext \<Rightarrow> nat option \<Rightarrow> u64 \<Rightarrow> 'w \<Rightarrow> bool" where
  "test_cleanup_with_config_updates_last_cleanup_ts X nanos later = db_test X []
     (bindS (get_last_cleanup_ts X) (\<lambda>ts_before.
      bindS (cleanup_with_config X (Inr later) nanos RetentionConfig_default) (\<lambda>_.
      bindS (get_last_cleanup_ts X) (\<lambda>ts_after.
      retS (ts_before = None \<and> (case ts_after of Some ts \<Rightarrow> 0 < ts | None \<Rightarrow> False))))))"

definition test_cleanup_idempotency :: "'w ext \<Rightarrow> nat option \<Rightarrow> nat option \<Rightarrow> u64 \<Rightarrow> u64 \<Rightarrow> u64 \<Rightarrow> 'w \<Rightarrow> bool" where
  "test_cleanup_idempotency X nanos nanos2 now later later2 = db_test X [make_cpu_record ''app'' (now - (8 * 86400)) 10000000]
     (bindS (cleanup_with_config X (Inr later) nanos RetentionConfig_default) (\<lambda>report1.
      bindS (cleanup_with_config X (Inr later2) nanos2 RetentionConfig_default) (\<lambda>report2.
      bindS (get_last_cleanup_ts X) (\<lambda>ts_after.
      retS (deleted_count report1 = 1 \<and> deleted_count report2 = 0 \<and> ts_after \<noteq> None)))))"

definition chunks :: "nat \<Rightarrow> 'a list \<Rightarrow> 'a list list" where
  "chunks n xs = map (\<lambda>k. take n (drop (n * k) xs)) [0..<(length xs + n - 1) div n]"

definition large_record :: "u64 \<Rightarrow> nat \<Rightarrow> MetricRecord" where
  "large_record eight_days_ago i =
     (case ALL_METRIC_TYPES ! (i mod length ALL_METRIC_TYPES) of
        Cpu \<Rightarrow> make_cpu_record (''app'' @ dec i) eight_days_ago 10000000
      | Net \<Rightarrow> make_network_record (''app'' @ dec i) eight_days_ago 100 200
      | Foc \<Rightarrow> make_focus_record (''app'' @ dec i) eight_days_ago 5000
      | _ \<Rightarrow> make_cpu_record (''app'' @ dec i) eight_days_ago 10000000)"

definition test_large_cleanup_operation :: "'w ext \<Rightarrow> nat option \<Rightarrow> u64 \<Rightarrow> u64 \<Rightarrow> 'w \<Rightarrow> bool" where
  "test_large_cleanup_operation X nanos now later =
     (let records = map (large_record (now - (8 * 86400))) [0..<1000] in
      db_test X []
       (bindS (foldS (\<lambda>_ chunk. insert_metrics_batch X chunk) () (chunks 100 records)) (\<lambda>_.
        bindS (get_storage_stats X) (\<lambda>stats_before.
        bindS (cleanup_with_config X (Inr later) nanos RetentionConfig_default) (\<lambda>report.
        bindS (get_storage_stats X) (\<lambda>stats_after.
        retS (total_records stats_before = 1000 \<and> deleted_count report = 1000 \<and> total_records stats_after = 0)))))))"

section \<open>Running them\<close>

context store
begin

lemma run_test:
  assumes "healthy w" and "holds_all X (absw w) (\<lambda>_. [])" and "list_all (roundtrips X) records"
    and "\<And>a. holds_all X a (only_raw (ins_all records [])) \<Longrightarrow> trees a ''meta'' = trees (absw w) ''meta'' \<Longrightarrow> \<exists>b. run check a True b"
  shows "db_test X records check w"
proof -
  let ?a = "set_tree ''metrics'' (map (entry X) (ins_all records [])) (absw w)"
  have rt: "\<And>r. r \<in> set records \<Longrightarrow> roundtrips X r" using assms(3) by (simp add: list_all_iff)
  have empty: "holds X (absw w) ''metrics'' []" using holds_allD [OF assms(2)] by simp
  have a: "holds_all X ?a (only_raw (ins_all records []))" by (rule holds_all_update [OF assms(2) holds_ins_all [OF empty rt]])
  then obtain b where b: "run check ?a True b" using assms(4) [OF a] by auto
  have "run (bindS (foldS (\<lambda>_ r. insert_metric X r) () records) (\<lambda>_. check)) (absw w) True b"
    by (rule run_bind [OF run_insert_each [where rs = records, OF empty rt]]) (assumption, rule b)
  from runsD [OF this assms(1)] show ?thesis by (auto simp: db_test_def)
qed

lemma run_type:
  assumes "holds_all X a (only_raw rs)"
  shows "run (get_metrics_by_type X C clock mt s e) a (filter (in_range mt s e) rs) a"
  using run_get_metrics_by_type [OF assms, of C clock mt s e] by (simp add: query_only_raw)

lemma run_by_app:
  assumes "holds_all X a (only_raw rs)"
  shows "run (get_metrics_by_app X C clock app s e) a
    (concat (map (\<lambda>mt. filter (\<lambda>r. app_name r = app) (filter (in_range mt s e) rs)) ALL_METRIC_TYPES)) a"
proof -
  let ?f = "\<lambda>results (i, mt). bindS (get_metrics_by_type X C (clock i) mt s e) (\<lambda>records. retS (results @ filter (\<lambda>r. app_name r = app) records))"
  have "run (foldS ?f acc (List.enumerate n mts)) a
      (acc @ concat (map (\<lambda>mt. filter (\<lambda>r. app_name r = app) (filter (in_range mt s e) rs)) mts)) a" for acc n mts
  proof (induction mts arbitrary: acc n)
    case Nil
    then show ?case by (simp add: run_ret)
  next
    case (Cons mt mts)
    have "run (?f acc (n, mt)) a (acc @ filter (\<lambda>r. app_name r = app) (filter (in_range mt s e) rs)) a"
      unfolding prod.case by (rule run_bind, rule run_type [OF assms], rule run_ret)
    from run_bind [OF this Cons.IH [of _ "Suc n"]]
    have "run (foldS ?f acc ((n, mt) # List.enumerate (Suc n) mts)) a
        ((acc @ filter (\<lambda>r. app_name r = app) (filter (in_range mt s e) rs)) @
          concat (map (\<lambda>mt. filter (\<lambda>r. app_name r = app) (filter (in_range mt s e) rs)) mts)) a"
      unfolding foldS.simps .
    then show ?case by (simp del: filter_filter foldS.simps)
  qed
  from this [of "[]" 0 ALL_METRIC_TYPES] show ?thesis unfolding get_metrics_by_app_def by simp
qed

lemma run_aggregated_cpu:
  assumes "holds_all X a (only_raw rs)"
    and "found = List.map_filter (cpu_time_of \<circ> payload)
      (concat (map (\<lambda>mt. filter (\<lambda>r. app_name r = app) (filter (in_range mt s e) rs)) ALL_METRIC_TYPES))"
  shows "found \<noteq> [] \<Longrightarrow> run (get_aggregated_cpu X C clock app s e) a (fdiv F32 (of_word F32 (wsum found)) (of_len F32 (length found))) a"
    and "found = [] \<Longrightarrow> run (\<lambda>w. case get_aggregated_cpu X C clock app s e w of (r, w') \<Rightarrow> (Inr (r = Inl (StorageErr NotFound)), w')) a True a"
proof -
  note by_app = run_by_app [OF assms(1), of C clock app s e]
  show "run (get_aggregated_cpu X C clock app s e) a (fdiv F32 (of_word F32 (wsum found)) (of_len F32 (length found))) a" if "found \<noteq> []"
    unfolding get_aggregated_cpu_def using that
    by (intro run_bind [OF by_app]) (simp add: assms(2) [symmetric] run_ret del: filter_filter)
  show "run (\<lambda>w. case get_aggregated_cpu X C clock app s e w of (r, w') \<Rightarrow> (Inr (r = Inl (StorageErr NotFound)), w')) a True a" if "found = []"
    unfolding runs_def
  proof (intro allI impI)
    fix w assume "healthy w" "absw w = a"
    with by_app obtain w' where "get_metrics_by_app X C clock app s e w =
        (Inr (concat (map (\<lambda>mt. filter (\<lambda>r. app_name r = app) (filter (in_range mt s e) rs)) ALL_METRIC_TYPES)), w')"
      "healthy w'" "absw w' = a" by (auto elim!: runsE)
    then show "\<exists>w'. (case get_aggregated_cpu X C clock app s e w of (r, w') \<Rightarrow> (Inr (r = Inl (StorageErr NotFound)), w')) = (Inr True, w') \<and>
        healthy w' \<and> absw w' = a"
      using that unfolding assms(2) by (simp add: get_aggregated_cpu_def bindS_def failS_def del: filter_filter)
  qed
qed

lemma run_network_raw:
  assumes "holds_all X a (only_raw rs)"
  shows "run (get_top_apps_by_network X C iter clock s e n) a
    (take n (sort_by (\<lambda>a b. net_total b \<le> net_total a) (map (\<lambda>(app, tx, rx). \<lparr> ans_app_name = app, ans_tx_bytes = tx, ans_rx_bytes = rx \<rparr>)
      (iter (foldl net_totals_step [] (filter (in_range Net s e) rs)))))) a"
  unfolding get_top_apps_by_network_def Let_def by (rule run_bind, rule run_type [OF assms], rule run_ret)

lemma run_focus_raw:
  assumes "holds_all X a (only_raw rs)"
  shows "run (get_top_apps_by_focus X C iter clock s e n) a
    (take n (sort_by (\<lambda>a b. total_duration_ms b \<le> total_duration_ms a) (map (\<lambda>(app, t). \<lparr> afs_app_name = app, total_duration_ms = t \<rparr>)
      (iter (foldl focus_totals_step [] (filter (in_range Foc s e) rs)))))) a"
  unfolding get_top_apps_by_focus_def Let_def by (rule run_bind, rule run_type [OF assms], rule run_ret)

end

lemmas make_defs = make_cpu_record_def cpu_build_def cpu_builder_new_def make_network_record_def network_build_def
  network_builder_new_def make_focus_record_def focus_build_def focus_builder_new_def

lemmas scan_evals = make_defs only_one_def in_range_def encode_key_less encode_key_inj ALL_METRIC_TYPES_def map_filter_simps
  net_totals_step_def focus_totals_step_def net_total_def app_digits sort_by_def

lemma cpu_mean: "fdiv F32 (of_word F32 (60000000 :: u64)) (of_len F32 (Suc (Suc (Suc 0)))) = Num 20000000"
proof -
  have "rnd F32 neg 60000000 = Num 60000000" for neg by (rule rnd_F32(1) [of "25" _ 15000000]) simp_all
  moreover have "rnd F32 neg 20000000 = Num 20000000" for neg by (rule rnd_F32(1) [of "24" _ 10000000]) simp_all
  ultimately show ?thesis by (simp add: evals of_word_def of_len_def)
qed

text \<open>Insertions under different keys keep every record.\<close>

lemma count_inserted:
  assumes "distinct (map rkey ws)" and "list_all P ws"
  shows "length (filter P (ins_all ws [])) = length ws"
proof -
  have m: "mset (ins_all ws []) = mset ws" using mset_ins_all [OF assms(1), of "[]"] by (simp add: fresh_def)
  then have "set (ins_all ws []) = set ws" by (metis set_mset_mset)
  then have "filter P (ins_all ws []) = ins_all ws []" using assms(2) by (simp add: list_all_iff)
  then show ?thesis using mset_eq_length [OF m] by simp
qed

lemma stamp_nat: "i < 1000 \<Longrightarrow> unat (1000 + of_nat i :: u64) = 1000 + i"
  by (simp add: unat_word_ariths unat_of_nat)

lemma stamped_records:
  assumes "mset rs = mset (map (\<lambda>i. make_cpu_record app (1000 + of_nat i) (g i)) [0..<n])" and "n \<le> 1000"
  shows "distinct (map rkey rs)" and "list_all (in_range Cpu 0 2000) rs" and "length rs = n"
proof -
  let ?rs = "map (\<lambda>i. make_cpu_record app (1000 + of_nat i) (g i)) [0..<n]"
  have "i = j" if "(1000 + of_nat i :: u64) = 1000 + of_nat j" "i < n" "j < n" for i j
    using arg_cong [OF that(1), of unat] that(2,3) assms(2) by (simp add: stamp_nat)
  then have "inj_on (\<lambda>i. rkey (make_cpu_record app (1000 + of_nat i) (g i))) (set [0..<n])"
    by (auto simp: inj_on_def make_defs encode_key_inj)
  then have "distinct (map rkey ?rs)" by (simp add: distinct_map comp_def inj_on_def)
  moreover have "mset (map rkey rs) = mset (map rkey ?rs)" using assms(1) by (simp only: mset_map)
  ultimately show "distinct (map rkey rs)" using mset_eq_imp_distinct_iff by blast
  have "list_all (in_range Cpu 0 2000) ?rs"
    using assms(2) by (auto simp: list_all_iff in_range_def make_defs word_less_nat_alt stamp_nat)
  moreover have "set rs = set ?rs" using assms(1) by (metis set_mset_mset)
  ultimately show "list_all (in_range Cpu 0 2000) rs" by (simp only: list_all_iff)
  show "length rs = n" using mset_eq_length [OF assms(1)] by simp
qed

lemma count_stamped:
  assumes "mset rs = mset (map (\<lambda>i. make_cpu_record app (1000 + of_nat i) (g i)) [0..<n])" and "n \<le> 1000"
  shows "length (filter (in_range Cpu 0 2000) (ins_all rs [])) = n"
  using count_inserted [OF stamped_records(1,2) [OF assms]] stamped_records(3) [OF assms] by (rule trans)

context store
begin

lemma query_tests:
  assumes "healthy w" and "holds_all X (absw w) (\<lambda>_. [])"
  shows "list_all (roundtrips X) [make_cpu_record ''firefox'' 1000 25500000] \<Longrightarrow> test_insert_and_read_back X C clock w"
    and "list_all (roundtrips X)
      [make_cpu_record ''app'' 1000 10000000, make_cpu_record ''app'' 2000 20000000, make_cpu_record ''app'' 3000 30000000] \<Longrightarrow>
      test_time_range_filtering X C clock w"
    and "list_all (roundtrips X) [make_cpu_record ''app'' 1000 10000000, make_cpu_record ''app'' 1000 20000000] \<Longrightarrow>
      test_key_collision_overwrites X C clock w"
proof -
  note test = run_test [OF assms]
  have check: "holds_all X a (only_raw rs) \<Longrightarrow> P (filter (in_range mt s e) rs) \<Longrightarrow>
      \<exists>b. run (bindS (get_metrics_by_type X C k mt s e) (\<lambda>results. retS (P results))) a True b" for a rs k mt s e P
    by (rule exI, rule run_check, erule run_type)
  show "list_all (roundtrips X) [make_cpu_record ''firefox'' 1000 25500000] \<Longrightarrow> test_insert_and_read_back X C clock w"
    unfolding test_insert_and_read_back_def by (rule test, assumption, erule check) (simp (no_asm) add: scan_evals)
  show "list_all (roundtrips X)
      [make_cpu_record ''app'' 1000 10000000, make_cpu_record ''app'' 2000 20000000, make_cpu_record ''app'' 3000 30000000] \<Longrightarrow>
      test_time_range_filtering X C clock w"
    unfolding test_time_range_filtering_def by (rule test, assumption, erule check) (simp (no_asm) add: scan_evals)
  show "list_all (roundtrips X) [make_cpu_record ''app'' 1000 10000000, make_cpu_record ''app'' 1000 20000000] \<Longrightarrow>
      test_key_collision_overwrites X C clock w"
    unfolding test_key_collision_overwrites_def by (rule test, assumption, erule check) (simp (no_asm) add: scan_evals)
qed

lemma app_tests:
  assumes "healthy w" and "holds_all X (absw w) (\<lambda>_. [])"
  shows "list_all (roundtrips X)
      [make_cpu_record ''firefox'' 1000 10000000, make_cpu_record ''code'' 1000 20000000, make_cpu_record ''firefox'' 2000 15000000] \<Longrightarrow>
      test_get_metrics_by_app X C clock w"
    and "list_all (roundtrips X)
      [make_cpu_record ''app'' 1000 10000000, make_cpu_record ''app'' 1001 20000000, make_cpu_record ''app'' 1002 30000000] \<Longrightarrow>
      test_aggregated_cpu X C clock w"
    and "test_aggregated_cpu_not_found X C clock w"
proof -
  note test = run_test [OF assms]
  show "list_all (roundtrips X)
      [make_cpu_record ''firefox'' 1000 10000000, make_cpu_record ''code'' 1000 20000000, make_cpu_record ''firefox'' 2000 15000000] \<Longrightarrow>
      test_get_metrics_by_app X C clock w"
    unfolding test_get_metrics_by_app_def
    by (rule test, assumption, rule exI, rule run_check2, erule run_by_app, erule run_by_app) (simp (no_asm) add: scan_evals)
  show "list_all (roundtrips X)
      [make_cpu_record ''app'' 1000 10000000, make_cpu_record ''app'' 1001 20000000, make_cpu_record ''app'' 1002 30000000] \<Longrightarrow>
      test_aggregated_cpu X C clock w"
    unfolding test_aggregated_cpu_def
    by (rule test, assumption, rule exI, rule run_check, erule run_aggregated_cpu(1) [OF _ refl])
      (simp_all (no_asm) add: scan_evals wsum_simps cpu_mean)
  show "test_aggregated_cpu_not_found X C clock w"
    unfolding test_aggregated_cpu_not_found_def
    by (rule test, simp, rule exI, erule run_aggregated_cpu(2) [OF _ refl]) (simp (no_asm) add: scan_evals)
qed

lemma ranking_tests:
  assumes "healthy w" and "holds_all X (absw w) (\<lambda>_. [])"
  shows "iter = id \<or> iter = rev \<Longrightarrow> list_all (roundtrips X)
      [make_network_record ''firefox'' 1000 100 200, make_network_record ''code'' 1000 400 100, make_network_record ''slack'' 1000 50 50] \<Longrightarrow>
      test_top_apps_by_network X C iter clock w"
    and "iter' = id \<or> iter' = rev \<Longrightarrow> list_all (roundtrips X)
      [make_focus_record ''firefox'' 1000 10000, make_focus_record ''code'' 1000 5000, make_focus_record ''firefox'' 2000 15000] \<Longrightarrow>
      test_get_top_apps_by_focus_sorted X C iter' clock w"
    and "iter' = id \<or> iter' = rev \<Longrightarrow> list_all (roundtrips X)
      [make_focus_record ''app1'' 500 1000, make_focus_record ''app1'' 1500 2000, make_focus_record ''app1'' 2500 3000] \<Longrightarrow>
      test_get_top_apps_by_focus_time_range X C iter' clock w"
    and "iter' = id \<or> iter' = rev \<Longrightarrow> list_all (roundtrips X)
      (map (\<lambda>i. make_focus_record (''app'' @ dec i) 1000 (1000 * (of_nat i + 1))) [0, 1, 2, 3, 4]) \<Longrightarrow>
      test_get_top_apps_by_focus_limit X C iter' clock w"
proof -
  note test = run_test [OF assms]
  show "list_all (roundtrips X)
      [make_network_record ''firefox'' 1000 100 200, make_network_record ''code'' 1000 400 100, make_network_record ''slack'' 1000 50 50] \<Longrightarrow>
      test_top_apps_by_network X C iter clock w" if "iter = id \<or> iter = rev"
    unfolding test_top_apps_by_network_def
    by (rule test, assumption, rule exI, rule run_check, erule run_network_raw)
      (use that in \<open>elim disjE; simp (no_asm_simp) add: scan_evals\<close>)
  show "list_all (roundtrips X)
      [make_focus_record ''firefox'' 1000 10000, make_focus_record ''code'' 1000 5000, make_focus_record ''firefox'' 2000 15000] \<Longrightarrow>
      test_get_top_apps_by_focus_sorted X C iter' clock w" if "iter' = id \<or> iter' = rev"
    unfolding test_get_top_apps_by_focus_sorted_def
    by (rule test, assumption, rule exI, rule run_check, erule run_focus_raw)
      (use that in \<open>elim disjE; simp (no_asm_simp) add: scan_evals\<close>)
  show "list_all (roundtrips X)
      [make_focus_record ''app1'' 500 1000, make_focus_record ''app1'' 1500 2000, make_focus_record ''app1'' 2500 3000] \<Longrightarrow>
      test_get_top_apps_by_focus_time_range X C iter' clock w" if "iter' = id \<or> iter' = rev"
    unfolding test_get_top_apps_by_focus_time_range_def
    by (rule test, assumption, rule exI, rule run_check, erule run_focus_raw)
      (use that in \<open>elim disjE; simp (no_asm_simp) add: scan_evals\<close>)
  show "list_all (roundtrips X)
      (map (\<lambda>i. make_focus_record (''app'' @ dec i) 1000 (1000 * (of_nat i + 1))) [0, 1, 2, 3, 4]) \<Longrightarrow>
      test_get_top_apps_by_focus_limit X C iter' clock w" if "iter' = id \<or> iter' = rev"
    unfolding test_get_top_apps_by_focus_limit_def
    by (rule test, assumption, rule exI, rule run_check, erule run_focus_raw)
      (use that in \<open>elim disjE; simp (no_asm_simp) add: scan_evals\<close>)
qed

lemma run_batch_raw:
  assumes "holds_all X a (only_raw rs)" and "\<And>r. r \<in> set new \<Longrightarrow> roundtrips X r"
  shows "\<exists>b. run (insert_metrics_batch X new) a () b \<and> holds_all X b (only_raw (ins_all new rs))"
proof -
  have h: "holds X a ''metrics'' rs" using holds_allD [OF assms(1), of "''metrics''"] by simp
  have "holds_all X (set_tree ''metrics'' (map (entry X) (ins_all new rs)) a) ((only_raw rs)(''metrics'' := ins_all new rs))"
    by (rule holds_all_update [OF assms(1) holds_ins_all [OF h assms(2)]])
  with run_insert_batch [OF h assms(2)] show ?thesis by auto
qed

lemma many_tests:
  assumes "healthy w" and "holds_all X (absw w) (\<lambda>_. [])"
  shows "list_all (roundtrips X) batch_records \<Longrightarrow> test_batch_insert X C clock w"
    and "list_all (roundtrips X) (concat (map thread_records [0..<10])) \<Longrightarrow> mset schedule = mset (concat (map thread_records [0..<10])) \<Longrightarrow>
      test_concurrent_inserts X C clock schedule w"
proof -
  note test = run_test [OF assms]
  show "test_batch_insert X C clock w" if "list_all (roundtrips X) batch_records"
    unfolding test_batch_insert_def
  proof (rule test, simp)
    fix a assume a: "holds_all X a (only_raw (ins_all [] []))"
    have "\<And>r. r \<in> set batch_records \<Longrightarrow> roundtrips X r" using that by (simp add: list_all_iff)
    from run_batch_raw [OF a this]
    obtain b where b: "run (insert_metrics_batch X batch_records) a () b" "holds_all X b (only_raw (ins_all batch_records []))"
      by auto
    have n: "length (filter (in_range Cpu 0 2000) (ins_all batch_records [])) = 100"
      unfolding batch_records_def by (rule count_stamped [OF refl]) simp
    show "\<exists>b. run (bindS (insert_metrics_batch X batch_records) (\<lambda>_. bindS (get_metrics_by_type X C (clock 0) Cpu 0 2000)
        (\<lambda>results. retS (length results = 100)))) a True b"
      by (rule exI, rule run_bind, rule b(1), rule run_check, rule run_type [OF b(2)], rule n)
  qed
  have threads: "concat (map thread_records [0..<10]) = map (\<lambda>k. make_cpu_record ''app'' (1000 + of_nat k) 10000000) [0..<100]"
  proof -
    have "concat (map (\<lambda>i. map (\<lambda>j. i * 10 + j) [0..<10]) [0..<10]) = [0..<100 :: nat]" by code_simp
    then have "map (\<lambda>k. make_cpu_record ''app'' (1000 + of_nat k) 10000000) (concat (map (\<lambda>i. map (\<lambda>j. i * 10 + j) [0..<10]) [0..<10])) =
        map (\<lambda>k. make_cpu_record ''app'' (1000 + of_nat k) 10000000) [0..<100]" by (simp only:)
    then show ?thesis unfolding thread_records_def by (simp only: map_concat map_map comp_def)
  qed
  show "test_concurrent_inserts X C clock schedule w"
    if "list_all (roundtrips X) (concat (map thread_records [0..<10]))" and m: "mset schedule = mset (concat (map thread_records [0..<10]))"
    unfolding test_concurrent_inserts_def
  proof (rule test)
    have "set schedule = set (concat (map thread_records [0..<10]))" using m by (metis set_mset_mset)
    then show "list_all (roundtrips X) schedule" using that(1) by (simp only: list_all_iff)
    fix a assume "holds_all X a (only_raw (ins_all schedule []))"
    moreover have "length (filter (in_range Cpu 0 2000) (ins_all schedule [])) = 100"
      by (rule count_stamped [OF m [unfolded threads]]) simp
    ultimately show "\<exists>b. run (bindS (get_metrics_by_type X C (clock 0) Cpu 0 2000) (\<lambda>results. retS (length results = 100))) a True b"
      by (intro exI) (rule run_check, erule run_type)
  qed
qed

lemma focus_event_test:
  assumes "healthy w" and "holds_all X (absw w) (\<lambda>_. [])" and "roundtrips X (make_focus_record ''firefox'' 1000 5000)"
  shows "test_focus_event_insert_and_read_back X C clock w"
  unfolding test_focus_event_insert_and_read_back_def
proof (rule run_test [OF assms(1,2)], simp)
  fix a assume "holds_all X a (only_raw (ins_all [] []))"
  then have a: "holds_all X a (only_raw [])" by simp
  have h: "holds X a ''metrics'' []" using holds_allD [OF a, of "''metrics''"] by simp
  let ?r = "make_focus_record ''firefox'' 1000 5000"
  let ?b = "set_tree ''metrics'' (map (entry X) (ins_rec ?r [])) a"
  have ins: "run (insert_focus_event X ''firefox'' 5000 1000) a () ?b"
    using run_insert_metric [OF h assms(3)] by (simp add: insert_focus_event_def make_defs)
  have "holds_all X ?b ((only_raw [])(''metrics'' := ins_rec ?r []))" by (rule holds_all_update [OF a holds_ins_rec [OF h assms(3)]])
  then have b: "holds_all X ?b (only_raw [?r])" by simp
  show "\<exists>b. run (bindS (insert_focus_event X ''firefox'' 5000 1000) (\<lambda>_. bindS (get_metrics_by_type X C (clock 0) Foc 0 2000) (\<lambda>results.
      retS (only_one results (\<lambda>r. app_name r = ''firefox'' \<and>
        (case payload r of FocP d \<Rightarrow> app_id d = ''firefox'' \<and> duration_ms d = 5000 | _ \<Rightarrow> False)))))) a True b"
    by (rule exI, rule run_bind, rule ins, rule run_check, rule run_type [OF b]) (simp add: scan_evals)
qed

text \<open>Metadata and statistics.\<close>

lemma run_metadata_read:
  assumes "case map_of (trees a ''meta'') CONFIG_RETENTION_DAYS of Some b \<Rightarrow> u32_from_slice X b = Inr days | None \<Rightarrow> 7 = days"
  shows "run (get_retention_days X) a days a"
  unfolding get_retention_days_def by (rule run_bind, rule run_tree(2), rule run_get_metadata, rule assms)

lemma run_cleanup_ts_read:
  assumes "case map_of (trees a ''meta'') META_LAST_CLEANUP of Some b \<Rightarrow> opt_u64_from_slice X b = Inr ts | None \<Rightarrow> None = ts"
  shows "run (get_last_cleanup_ts X) a ts a"
  unfolding get_last_cleanup_ts_def by (rule run_bind, rule run_tree(2), rule run_get_metadata, rule assms)

lemma run_set_retention:
  assumes "u32_to_vec X days = Inr v"
  shows "run (set_retention_days X days) a () (set_tree ''meta'' (upd CONFIG_RETENTION_DAYS v (trees a ''meta'')) a)"
  unfolding set_retention_days_def
  by (rule run_bind, rule run_tree(2), rule run_bind, rule run_lift, rule assms, rule do_insert)

lemma metadata_test:
  assumes "healthy w" and "holds_all X (absw w) (\<lambda>_. [])" and "trees (absw w) ''meta'' = []"
    and "u32_to_vec X 14 = Inr v" and "u32_from_slice X v = Inr 14" and "u64_to_vec X 1000 = Inr v'" and "opt_u64_from_slice X v' = Inr (Some 1000)"
  shows "test_metadata_operations X w"
  unfolding test_metadata_operations_def
proof (rule run_test [OF assms(1,2)], simp)
  fix a :: aworld assume meta: "trees a ''meta'' = trees (absw w) ''meta''"
  let ?b = "set_tree ''meta'' (upd CONFIG_RETENTION_DAYS v (trees a ''meta'')) a"
  let ?c = "set_tree ''meta'' (upd META_LAST_CLEANUP v' (trees ?b ''meta'')) ?b"
  have steps: "run (get_retention_days X) a 7 a" "run (get_retention_days X) ?b 14 ?b" "run (get_last_cleanup_ts X) ?b None ?b"
      "run (get_last_cleanup_ts X) ?c (Some 1000) ?c"
    by (rule run_metadata_read run_cleanup_ts_read, simp add: meta assms(3,5,7) CONFIG_RETENTION_DAYS_def META_LAST_CLEANUP_def)+
  have "run (bindS (get_retention_days X) (\<lambda>retention1. bindS (set_retention_days X 14) (\<lambda>_.
      bindS (get_retention_days X) (\<lambda>retention2. bindS (get_last_cleanup_ts X) (\<lambda>ts1. bindS (set_last_cleanup_ts X 1000) (\<lambda>_.
      bindS (get_last_cleanup_ts X) (\<lambda>ts2.
      retS (retention1 = 7 \<and> retention2 = 14 \<and> ts1 = None \<and> ts2 = Some 1000)))))))) a True ?c"
    by (rule run_bind, rule steps(1), rule run_bind, rule run_set_retention [OF assms(4)], rule run_bind, rule steps(2),
        rule run_bind, rule steps(3), rule run_bind, rule run_set_last_cleanup [OF assms(6)], rule run_bind, rule steps(4))
      (simp add: run_ret)
  then show "\<exists>b. run (bindS (get_retention_days X) (\<lambda>retention1. bindS (set_retention_days X 14) (\<lambda>_.
      bindS (get_retention_days X) (\<lambda>retention2. bindS (get_last_cleanup_ts X) (\<lambda>ts1. bindS (set_last_cleanup_ts X 1000) (\<lambda>_.
      bindS (get_last_cleanup_ts X) (\<lambda>ts2.
      retS (retention1 = 7 \<and> retention2 = 14 \<and> ts1 = None \<and> ts2 = Some 1000)))))))) a True b" by blast
qed

lemma run_stats_then:
  assumes "holds_all X a (only_raw rs)" and "\<And>n. run (f \<lparr> db_size_bytes = n,
    record_counts = map (\<lambda>mt. (mt, of_nat (length (filter (in_range mt 0 (- 1)) rs)))) ALL_METRIC_TYPES,
    total_records = (\<Sum>mt\<leftarrow>ALL_METRIC_TYPES. of_nat (length (filter (in_range mt 0 (- 1)) rs))) \<rparr>) a y c"
  shows "run (bindS (get_storage_stats X) f) a y c"
proof -
  have h: "holds X a ''metrics'' rs" using holds_allD [OF assms(1), of "''metrics''"] by simp
  let ?n = "\<lambda>mt. of_nat (length (filter (in_range mt 0 (- 1)) rs)) :: u64"
  let ?f = "\<lambda>(counts, tot) mt. bindS (readS (tree_range X ''metrics'' (range_start mt 0) (range_end mt (- 1)))) (\<lambda>items.
      let cnt = of_nat (length items) in retS (counts @ [(mt, cnt)], tot + cnt))"
  have loop: "run (foldS ?f (cs, tot) mts) a (cs @ map (\<lambda>mt. (mt, ?n mt)) mts, tot + (\<Sum>mt\<leftarrow>mts. ?n mt)) a" for cs tot mts
  proof (induction mts arbitrary: cs tot)
    case Nil
    then show ?case by (simp add: run_ret)
  next
    case (Cons mt mts)
    have "run (?f (cs, tot) mt) a (cs @ [(mt, ?n mt)], tot + ?n mt) a"
      unfolding prod.case Let_def by (rule run_bind, rule run_items [OF h]) (simp add: run_ret)
    then have "run (foldS ?f (cs, tot) (mt # mts)) a
        ((cs @ [(mt, ?n mt)]) @ map (\<lambda>mt. (mt, ?n mt)) mts, tot + ?n mt + (\<Sum>mt\<leftarrow>mts. ?n mt)) a"
      unfolding foldS.simps by (rule run_bind) (rule Cons.IH)
    then show ?case by (simp add: add.assoc del: foldS.simps)
  qed
  show ?thesis
    unfolding runs_def
  proof (intro allI impI)
    fix w assume w: "healthy w" "absw w = a"
    obtain w1 where w1: "metrics_tree X w = (Inr ''metrics'', w1)" "healthy w1" "absw w1 = a"
      using run_tree(1) w by (rule runsE)
    obtain n w2 where w2: "size_on_disk X w1 = (Inr n, w2)" "healthy w2" "absw w2 = a" using do_size [OF w1(2)] w1(3) by auto
    obtain w3 where "foldS ?f ([], 0) ALL_METRIC_TYPES w2 =
        (Inr ([] @ map (\<lambda>mt. (mt, ?n mt)) ALL_METRIC_TYPES, 0 + (\<Sum>mt\<leftarrow>ALL_METRIC_TYPES. ?n mt)), w3)" "healthy w3" "absw w3 = a"
      using loop w2(2,3) by (rule runsE)
    note w3 = this
    obtain w' where w': "f \<lparr> db_size_bytes = n, record_counts = map (\<lambda>mt. (mt, ?n mt)) ALL_METRIC_TYPES,
        total_records = (\<Sum>mt\<leftarrow>ALL_METRIC_TYPES. ?n mt) \<rparr> w3 = (Inr y, w')" "healthy w'" "absw w' = c"
      using assms(2) w3(2,3) by (rule runsE)
    from w3(1) w' show "\<exists>w'. bindS (get_storage_stats X) f w = (Inr y, w') \<and> healthy w' \<and> absw w' = c"
      using w1(1) w2(1) by (simp add: get_storage_stats_def bindS_def retS_def)
  qed
qed

lemma run_stats:
  assumes "holds_all X a (only_raw rs)" and "\<And>n. P \<lparr> db_size_bytes = n,
    record_counts = map (\<lambda>mt. (mt, of_nat (length (filter (in_range mt 0 (- 1)) rs)))) ALL_METRIC_TYPES,
    total_records = (\<Sum>mt\<leftarrow>ALL_METRIC_TYPES. of_nat (length (filter (in_range mt 0 (- 1)) rs))) \<rparr>"
  shows "run (bindS (get_storage_stats X) (\<lambda>stats. retS (P stats))) a True a"
  by (rule run_stats_then, rule assms(1)) (simp only: assms(2) run_ret)

lemma stats_test:
  assumes "healthy w" and "holds_all X (absw w) (\<lambda>_. [])" and "list_all (roundtrips X)
     [make_cpu_record ''app1'' 1000 10000000, make_cpu_record ''app2'' 2000 20000000, make_network_record ''app3'' 3000 100 200]"
  shows "test_get_storage_stats X w"
  unfolding test_get_storage_stats_def
  by (rule run_test [OF assms(1,2)], rule assms(3), rule exI, erule run_stats) (simp (no_asm) add: scan_evals)

text \<open>Records near a boundary.\<close>

lemma boundary_test:
  assumes "healthy w" and "holds_all X (absw w) (\<lambda>_. [])" and "86401 \<le> unat now" and "list_all (roundtrips X)
    [make_cpu_record ''app'' (now - 24 * 3600) 1000, make_cpu_record ''app'' (now - 24 * 3600 + 1) 2000, make_cpu_record ''app'' (now - 24 * 3600 - 1) 3000]"
  shows "test_query_boundary_exactly_24h_ago X C clock now w"
proof -
  define t where "t = now - 24 * 3600"
  have now: "now = t + 86400" by (simp add: t_def)
  have "unat t = unat now - 86400" using assms(3) by (simp add: t_def unat_sub word_le_nat_alt)
  then have t: "1 \<le> unat t" "unat t + 86400 < 2 ^ 64" using assms(3) unsigned_less [of now] by auto
  then have order: "unat (t + 1) = unat t + 1" "unat (t - 1) = unat t - 1" "unat (t + 86400) = unat t + 86400"
    by (simp_all add: unat_word_ariths unat_sub word_le_nat_alt)
  then have less: "t - 1 < t" "t < t + 1" "t - 1 < t + 1" "t + 1 < t + 86400" "t < t + 86400" "t - 1 < t + 86400"
    using t by (simp_all add: word_less_nat_alt)
  have keys: "ins_all [make_cpu_record ''app'' t 1000, make_cpu_record ''app'' (t + 1) 2000, make_cpu_record ''app'' (t - 1) 3000] [] =
      [make_cpu_record ''app'' (t - 1) 3000, make_cpu_record ''app'' t 1000, make_cpu_record ''app'' (t + 1) 2000]"
    using less less_imp_not_less [OF less(1)] less_imp_not_less [OF less(2)] less_imp_not_less [OF less(3)]
    by (simp add: make_defs encode_key_less encode_key_inj)
  have scans: "in_range Cpu (t - 1) now (make_cpu_record ''app'' (t - 1) 3000)" "in_range Cpu (t - 1) now (make_cpu_record ''app'' t 1000)"
      "in_range Cpu (t - 1) now (make_cpu_record ''app'' (t + 1) 2000)" "\<not> in_range Cpu t now (make_cpu_record ''app'' (t - 1) 3000)"
      "in_range Cpu t now (make_cpu_record ''app'' t 1000)" "in_range Cpu t now (make_cpu_record ''app'' (t + 1) 2000)"
    using less by (simp_all add: now make_defs in_range_def less_imp_le not_le)
  show ?thesis
    unfolding test_query_boundary_exactly_24h_ago_def Let_def t_def [symmetric]
    by (rule run_test [OF assms(1,2) assms(4) [folded t_def]], unfold keys, rule exI, rule run_check2, erule run_type, erule run_type)
      (simp (no_asm) add: scans)
qed

text \<open>Cleanups.\<close>

lemma run_config_raw:
  assumes "holds_all X a (only_raw rs)" and "length rs < 2 ^ 64" and "u64_to_vec X later = Inr v"
    and "\<not> (export_before_delete config \<and> export_dir config \<noteq> None)"
    and ex: "ex = (\<lambda>r. expired (retention_cutoff (retention_days_for config (rec_type r)) later) r)"
  obtains b where "run (cleanup_with_config X (Inr later) nanos config) a
      \<lparr> deleted_count = of_nat (length (filter ex rs)), exported_count = 0, export_path = None \<rparr> b"
    and "holds_all X b (only_raw (filter (\<lambda>r. \<not> ex r) rs))" and "trees b ''meta'' = upd META_LAST_CLEANUP v (trees a ''meta'')"
proof
  have h: "holds X a ''metrics'' rs" using holds_allD [OF assms(1), of "''metrics''"] by simp
  let ?m = "set_tree ''metrics'' (map (entry X) (filter (\<lambda>r. \<not> ex r) rs)) a"
  show "run (cleanup_with_config X (Inr later) nanos config) a
      \<lparr> deleted_count = of_nat (length (filter ex rs)), exported_count = 0, export_path = None \<rparr>
      (set_tree ''meta'' (upd META_LAST_CLEANUP v (trees a ''meta'')) ?m)"
    by (rule run_cleanup_with_config [OF h assms(2,3) ex assms(4)])
  have "holds_all X ?m ((only_raw rs)(''metrics'' := filter (\<lambda>r. \<not> ex r) rs))"
    by (rule holds_all_update [OF assms(1) holds_filter [OF h]])
  then show "holds_all X (set_tree ''meta'' (upd META_LAST_CLEANUP v (trees a ''meta'')) ?m) (only_raw (filter (\<lambda>r. \<not> ex r) rs))"
    by (subst holds_all_other) (simp_all add: tier_names_def)
qed simp

end

text \<open>The times of the tests: the cleanup runs within a day after the test has read the clock.\<close>

definition soon_after :: "u64 \<Rightarrow> u64 \<Rightarrow> bool" where
  "soon_after now later \<longleftrightarrow> 8 * 86400 < unat now \<and> unat now \<le> unat later \<and> unat later < unat now + 86400"

lemma days_ago_nat:
  assumes "soon_after now later"
  shows "unat (now - 8 * 86400) = unat now - 691200" and "unat (now - 7 * 86400) = unat now - 604800" and "unat (now - 3 * 86400) = unat now - 259200"
  using assms by (simp_all add: soon_after_def unat_sub word_le_nat_alt)

lemma cutoff_nat:
  "unat (retention_cutoff 7 later) = unat later - 604800" "unat (retention_cutoff 30 later) = unat later - 2592000"
  by (simp_all add: retention_cutoff_def unat_sat_sub)

lemma expiry:
  assumes "soon_after now later"
  shows "expired (retention_cutoff 7 later) (make_cpu_record app (now - 8 * 86400) ns)"
    and "\<not> expired (retention_cutoff 7 later) (make_cpu_record app now ns)"
    and "\<not> expired (retention_cutoff 30 later) (make_network_record app (now - 3 * 86400) tx rx)"
    and "\<not> expired (retention_cutoff 30 later) (make_network_record app (now - 8 * 86400) tx rx)"
  using assms days_ago_nat [OF assms] cutoff_nat [of later]
  by (auto simp: expired_def make_defs soon_after_def word_less_nat_alt word_unat_eq_iff simp del: unat_eq_zero)

context store
begin

lemma old_data_test:
  assumes "healthy w" and "holds_all X (absw w) (\<lambda>_. [])" and "soon_after now later"
    and "list_all (roundtrips X) [make_cpu_record ''app'' now 10000000, make_cpu_record ''app'' (now - 8 * 86400) 10000000]"
  shows "test_cleanup_old_data X C clock now later w"
  unfolding test_cleanup_old_data_def
proof (rule run_test [OF assms(1,2,4)])
  let ?recent = "make_cpu_record ''app'' now 10000000" and ?old = "make_cpu_record ''app'' (now - 8 * 86400) 10000000"
  let ?c = "retention_cutoff 7 later"
  fix a assume a: "holds_all X a (only_raw (ins_all [?recent, ?old] []))"
  have less: "now - 8 * 86400 < now" "now - 7 * 86400 < now"
    using days_ago_nat [OF assms(3)] assms(3) by (simp_all add: soon_after_def word_less_nat_alt)
  then have rs: "ins_all [?recent, ?old] [] = [?old, ?recent]" by (simp add: make_defs encode_key_less encode_key_inj)
  have h: "holds X a ''metrics'' [?old, ?recent]" using holds_allD [OF a [unfolded rs], of "''metrics''"] by simp
  let ?b = "set_tree ''metrics'' (map (entry X) (filter (\<lambda>r. \<not> expired ?c r) [?old, ?recent])) a"
  have keep: "filter (expired ?c) [?old, ?recent] = [?old]" "filter (\<lambda>r. \<not> expired ?c r) [?old, ?recent] = [?recent]"
    by (simp_all only: filter.simps expiry [OF assms(3)] if_True if_False not_True_eq_False not_False_eq_True)
  have "holds_all X ?b ((only_raw [?old, ?recent])(''metrics'' := filter (\<lambda>r. \<not> expired ?c r) [?old, ?recent]))"
    by (rule holds_all_update [OF a [unfolded rs] holds_filter [OF h]])
  then have b: "holds_all X ?b (only_raw [?recent])" by (simp only: keep fun_upd_upd)
  have clean: "run (cleanup_old_data X (Inr later) 7) a 1 ?b"
    using run_cleanup_old_data [OF h refl, where days = 7 and now = later] by (simp only: keep) simp
  have "in_range Cpu 0 now ?recent" "\<not> in_range Cpu 0 (now - 7 * 86400) ?recent"
    using less by (auto simp: in_range_def make_defs)
  then show "\<exists>b. run (bindS (cleanup_old_data X (Inr later) 7) (\<lambda>deleted. bindS (get_metrics_by_type X C (clock 0) Cpu 0 (now - 7 * 86400)) (\<lambda>old.
      bindS (get_metrics_by_type X C (clock 1) Cpu 0 now) (\<lambda>recent. retS (deleted = 1 \<and> length old = 0 \<and> length recent = 1))))) a True b"
    by (intro exI [of _ ?b]) (rule run_bind, rule clean, rule run_check2, rule run_type [OF b], rule run_type [OF b], simp)
qed

lemma updates_ts_test:
  assumes "healthy w" and "holds_all X (absw w) (\<lambda>_. [])" and "trees (absw w) ''meta'' = []"
    and "u64_to_vec X later = Inr v" and "opt_u64_from_slice X v = Inr (Some later)" and "0 < later"
  shows "test_cleanup_with_config_updates_last_cleanup_ts X nanos later w"
  unfolding test_cleanup_with_config_updates_last_cleanup_ts_def
proof (rule run_test [OF assms(1,2)], simp)
  fix a assume a: "holds_all X a (only_raw (ins_all [] []))" and meta: "trees a ''meta'' = trees (absw w) ''meta''"
  obtain b where b: "run (cleanup_with_config X (Inr later) nanos RetentionConfig_default) a
      \<lparr> deleted_count = 0, exported_count = 0, export_path = None \<rparr> b" "trees b ''meta'' = upd META_LAST_CLEANUP v (trees a ''meta'')"
    by (rule run_config_raw [OF a _ assms(4) _ refl, where config = RetentionConfig_default and nanos = nanos])
      (simp_all add: RetentionConfig_default_def)
  have ts: "run (get_last_cleanup_ts X) a None a" "run (get_last_cleanup_ts X) b (Some later) b"
    by (rule run_cleanup_ts_read, simp add: meta b(2) assms(3,5))+
  show "\<exists>b. run (bindS (get_last_cleanup_ts X) (\<lambda>ts_before. bindS (cleanup_with_config X (Inr later) nanos RetentionConfig_default) (\<lambda>_.
      bindS (get_last_cleanup_ts X) (\<lambda>ts_after. retS (ts_before = None \<and> (case ts_after of Some ts \<Rightarrow> 0 < ts | None \<Rightarrow> False)))))) a True b"
    by (intro exI [of _ b]) (rule run_bind, rule ts(1), rule run_bind, rule b(1), rule run_check, rule ts(2), simp add: assms(6))
qed

lemma config_tests:
  assumes "healthy w" and "holds_all X (absw w) (\<lambda>_. [])" and "soon_after now later" and "u64_to_vec X later = Inr v"
  shows "list_all (roundtrips X) [make_cpu_record ''app'' (now - 8 * 86400) 10000000, make_network_record ''app'' (now - 3 * 86400) 100 200] \<Longrightarrow>
      test_cleanup_with_config_per_type X C clock nanos now later w"
    and "list_all (roundtrips X) [make_cpu_record ''app'' (now - 8 * 86400) 10000000, make_network_record ''app'' (now - 8 * 86400) 100 200] \<Longrightarrow>
      test_cleanup_with_config_net_longer_retention X C clock nanos now later w"
proof -
  let ?cpu = "make_cpu_record ''app'' (now - 8 * 86400) 10000000" and ?config = "RetentionConfig_default\<lparr> cpu_days := 7, net_days := 30 \<rparr>"
  let ?ex = "\<lambda>r. expired (retention_cutoff (retention_days_for ?config (rec_type r)) later) r"
  have less: "now - 8 * 86400 < now" "now - 3 * 86400 < now"
    using days_ago_nat [OF assms(3)] assms(3) by (simp_all add: soon_after_def word_less_nat_alt)
  have types: "rec_type (make_cpu_record app ts ns) = Cpu" "rec_type (make_network_record app ts tx rx) = Net" for app ts ns tx rx
    by (simp_all add: make_defs)
  have clean: "\<exists>b. run (cleanup_with_config X (Inr later) nanos ?config) a \<lparr> deleted_count = 1, exported_count = 0, export_path = None \<rparr> b \<and>
      holds_all X b (only_raw [net])"
    if "holds_all X a (only_raw [?cpu, net])" "rec_type net = Net" "\<not> expired (retention_cutoff 30 later) net" for a net
  proof -
    note held = that(1)
    have "?ex ?cpu" "\<not> ?ex net" using expiry(1) [OF assms(3)] that(2,3) by (simp_all add: types)
    then have keep: "filter ?ex [?cpu, net] = [?cpu]" "filter (\<lambda>r. \<not> ?ex r) [?cpu, net] = [net]" by simp_all
    obtain b where "run (cleanup_with_config X (Inr later) nanos ?config) a
        \<lparr> deleted_count = of_nat (length (filter ?ex [?cpu, net])), exported_count = 0, export_path = None \<rparr> b"
      "holds_all X b (only_raw (filter (\<lambda>r. \<not> ?ex r) [?cpu, net]))"
      by (rule run_config_raw [OF held _ assms(4) _ refl, where config = ?config and nanos = nanos]) (simp_all add: RetentionConfig_default_def)
    then show ?thesis unfolding keep by auto
  qed
  have order: "ins_all [?cpu, make_network_record ''app'' ts 100 200] [] = [?cpu, make_network_record ''app'' ts 100 200]" for ts
    by (simp add: make_defs encode_key_less encode_key_inj)
  have scans: "ts < now \<Longrightarrow> in_range Cpu 0 now (make_cpu_record ''app'' ts ns)" "\<not> in_range Net 0 now (make_cpu_record ''app'' ts ns)" "ts < now \<Longrightarrow> in_range Net 0 now (make_network_record ''app'' ts 100 200)"
      "\<not> in_range Cpu 0 now (make_network_record ''app'' ts 100 200)" for ts ns
    by (simp_all add: in_range_def make_defs)
  show "test_cleanup_with_config_per_type X C clock nanos now later w"
    if "list_all (roundtrips X) [?cpu, make_network_record ''app'' (now - 3 * 86400) 100 200]"
    unfolding test_cleanup_with_config_per_type_def Let_def
  proof (rule run_test [OF assms(1,2) that], unfold order)
    let ?net = "make_network_record ''app'' (now - 3 * 86400) 100 200"
    fix a assume a: "holds_all X a (only_raw [?cpu, ?net])"
    obtain b where b: "run (cleanup_with_config X (Inr later) nanos ?config) a \<lparr> deleted_count = 1, exported_count = 0, export_path = None \<rparr> b"
      "holds_all X b (only_raw [?net])"
      using clean [OF a types(2) expiry(3) [OF assms(3)]] by blast
    show "\<exists>b. run (bindS (get_metrics_by_type X C (clock 0) Cpu 0 now) (\<lambda>cpu_before. bindS (get_metrics_by_type X C (clock 1) Net 0 now) (\<lambda>net_before.
        bindS (cleanup_with_config X (Inr later) nanos ?config) (\<lambda>report. bindS (get_metrics_by_type X C (clock 2) Cpu 0 now) (\<lambda>cpu_after.
        bindS (get_metrics_by_type X C (clock 3) Net 0 now) (\<lambda>net_after. retS (length cpu_before = 1 \<and> length net_before = 1 \<and>
        deleted_count report = 1 \<and> length cpu_after = 0 \<and> length net_after = 1))))))) a True b"
      by (intro exI [of _ b]) (rule run_bind, rule run_type [OF a], rule run_bind, rule run_type [OF a], rule run_bind, rule b(1),
          rule run_check2, rule run_type [OF b(2)], rule run_type [OF b(2)], simp add: scans less [simplified])
  qed
  show "test_cleanup_with_config_net_longer_retention X C clock nanos now later w"
    if "list_all (roundtrips X) [?cpu, make_network_record ''app'' (now - 8 * 86400) 100 200]"
    unfolding test_cleanup_with_config_net_longer_retention_def Let_def
  proof (rule run_test [OF assms(1,2) that], unfold order)
    let ?net = "make_network_record ''app'' (now - 8 * 86400) 100 200"
    fix a assume a: "holds_all X a (only_raw [?cpu, ?net])"
    obtain b where b: "run (cleanup_with_config X (Inr later) nanos ?config) a \<lparr> deleted_count = 1, exported_count = 0, export_path = None \<rparr> b"
      "holds_all X b (only_raw [?net])"
      using clean [OF a types(2) expiry(4) [OF assms(3)]] by blast
    show "\<exists>b. run (bindS (cleanup_with_config X (Inr later) nanos ?config) (\<lambda>report. bindS (get_metrics_by_type X C (clock 0) Cpu 0 now) (\<lambda>cpu_after.
        bindS (get_metrics_by_type X C (clock 1) Net 0 now) (\<lambda>net_after. retS (
        deleted_count report = 1 \<and> length cpu_after = 0 \<and> length net_after = 1))))) a True b"
      by (intro exI [of _ b]) (rule run_bind, rule b(1),
          rule run_check2, rule run_type [OF b(2)], rule run_type [OF b(2)], simp add: scans less [simplified])
  qed
qed

lemma idempotency_test:
  assumes "healthy w" and "holds_all X (absw w) (\<lambda>_. [])" and "trees (absw w) ''meta'' = []" and "soon_after now later"
    and "u64_to_vec X later = Inr v" and "u64_to_vec X later2 = Inr v2" and "opt_u64_from_slice X v2 = Inr (Some later2)"
    and "list_all (roundtrips X) [make_cpu_record ''app'' (now - (8 * 86400)) 10000000]"
  shows "test_cleanup_idempotency X nanos nanos2 now later later2 w"
  unfolding test_cleanup_idempotency_def
proof (rule run_test [OF assms(1,2,8)])
  let ?old = "make_cpu_record ''app'' (now - (8 * 86400)) 10000000"
  fix a assume a: "holds_all X a (only_raw (ins_all [?old] []))" and meta: "trees a ''meta'' = trees (absw w) ''meta''"
  have a: "holds_all X a (only_raw [?old])" using a by simp
  let ?ex = "\<lambda>r. expired (retention_cutoff (retention_days_for RetentionConfig_default (rec_type r)) later) r"
  have "retention_days_for RetentionConfig_default (rec_type ?old) = 7" by (simp add: make_defs RetentionConfig_default_def)
  then have "?ex ?old" by (simp only: expiry(1) [OF assms(4)])
  then have keep: "filter ?ex [?old] = [?old]" "filter (\<lambda>r. \<not> ?ex r) [?old] = []"
    by (simp_all only: filter.simps if_True if_False not_True_eq_False)
  obtain b where b: "run (cleanup_with_config X (Inr later) nanos RetentionConfig_default) a
      \<lparr> deleted_count = of_nat (length (filter ?ex [?old])), exported_count = 0, export_path = None \<rparr> b"
    "holds_all X b (only_raw (filter (\<lambda>r. \<not> ?ex r) [?old]))" "trees b ''meta'' = upd META_LAST_CLEANUP v (trees a ''meta'')"
    by (rule run_config_raw [OF a _ assms(5) _ refl, where config = RetentionConfig_default and nanos = nanos])
      (simp_all add: RetentionConfig_default_def)
  obtain c where c: "run (cleanup_with_config X (Inr later2) nanos2 RetentionConfig_default) b
      \<lparr> deleted_count = 0, exported_count = 0, export_path = None \<rparr> c" "trees c ''meta'' = upd META_LAST_CLEANUP v2 (trees b ''meta'')"
    by (rule run_config_raw [OF b(2) [unfolded keep] _ assms(6) _ refl, where config = RetentionConfig_default and nanos = nanos2])
      (simp_all add: RetentionConfig_default_def)
  have ts: "run (get_last_cleanup_ts X) c (Some later2) c"
    by (rule run_cleanup_ts_read) (simp add: meta b(3) c(2) assms(3,7))
  show "\<exists>b. run (bindS (cleanup_with_config X (Inr later) nanos RetentionConfig_default) (\<lambda>report1.
      bindS (cleanup_with_config X (Inr later2) nanos2 RetentionConfig_default) (\<lambda>report2. bindS (get_last_cleanup_ts X) (\<lambda>ts_after.
      retS (deleted_count report1 = 1 \<and> deleted_count report2 = 0 \<and> ts_after \<noteq> None))))) a True b"
    by (intro exI [of _ c]) (rule run_bind, rule b(1) [unfolded keep], rule run_bind, rule c(1), rule run_check, rule ts, simp)
qed

lemma run_batches:
  assumes "holds_all X a (only_raw rs)" and "\<And>r. r \<in> set (concat cs) \<Longrightarrow> roundtrips X r"
  shows "\<exists>b. run (foldS (\<lambda>_ chunk. insert_metrics_batch X chunk) () cs) a () b \<and> holds_all X b (only_raw (ins_all (concat cs) rs))"
  using assms
proof (induction cs arbitrary: a rs)
  case Nil
  then show ?case by (auto intro: run_ret)
next
  case (Cons c cs)
  obtain b where b: "run (insert_metrics_batch X c) a () b" "holds_all X b (only_raw (ins_all c rs))"
    using run_batch_raw [OF Cons.prems(1), of c] Cons.prems(2) by auto
  have "\<And>r. r \<in> set (concat cs) \<Longrightarrow> roundtrips X r" using Cons.prems(2) by simp
  from Cons.IH [OF b(2) this]
  obtain d where d: "run (foldS (\<lambda>_ chunk. insert_metrics_batch X chunk) () cs) b () d"
      "holds_all X d (only_raw (ins_all (concat cs) (ins_all c rs)))" by blast
  have "run (foldS (\<lambda>_ chunk. insert_metrics_batch X chunk) () (c # cs)) a () d"
    unfolding foldS.simps by (rule run_bind, rule b(1), rule d(1))
  moreover have "ins_all (concat (c # cs)) rs = ins_all (concat cs) (ins_all c rs)" by simp
  ultimately show ?case using d(2) by metis
qed

end

lemma concat_chunks: "concat (map (\<lambda>k. take n (drop (n * k) xs)) [0..<m]) = take (n * m) xs"
proof (induction m)
  case (Suc m)
  have "take (n * m) xs @ take n (drop (n * m) xs) = take (n * m + n) xs" by (simp only: take_add)
  then show ?case using Suc by (simp add: add.commute)
qed simp

lemma all_counted:
  assumes "list_all (\<lambda>r. timestamp r < - 1) rs"
  shows "(\<Sum>mt\<leftarrow>ALL_METRIC_TYPES. of_nat (length (filter (in_range mt 0 (- 1)) rs))) = (of_nat (length rs) :: u64)"
proof -
  have eq: "filter (in_range mt 0 (- 1)) rs = filter (\<lambda>r. rec_type r = mt \<and> True) rs" for mt
    by (rule filter_cong) (use assms in \<open>auto simp: in_range_def list_all_iff\<close>)
  have "(\<Sum>mt\<leftarrow>mts. of_nat (f mt)) = (of_nat (\<Sum>mt\<leftarrow>mts. f mt) :: u64)" for mts :: "MetricType list" and f
    by (induction mts) simp_all
  then show ?thesis
    using length_by_type [OF distinct_ALL_METRIC_TYPES, of "\<lambda>_. True" rs] by (simp only: eq) (simp add: set_ALL_METRIC_TYPES)
qed

lemma large_meta:
  "timestamp (large_record e i) = e" "app_name (large_record e i) = ''app'' @ dec i"
  by (simp_all add: large_record_def make_defs split: MetricType.split)

lemma large_records:
  assumes "soon_after now later"
  defines "rs \<equiv> map (large_record (now - 8 * 86400)) [0..<1000]"
  shows "distinct (map rkey rs)" and "list_all (\<lambda>r. timestamp r < - 1) rs" and "length rs = 1000"
    and "list_all (\<lambda>r. expired (retention_cutoff (retention_days_for RetentionConfig_default (rec_type r)) later) r) rs"
proof -
  have "inj_on (\<lambda>i. rkey (large_record (now - 8 * 86400) i)) (set [0..<1000])"
  proof (rule inj_onI)
    fix i j assume ij: "i \<in> set [0..<1000]" "j \<in> set [0..<1000]"
      and "rkey (large_record (now - 8 * 86400) i) = rkey (large_record (now - 8 * 86400) j)"
    then have "dec i = dec j" by (simp add: encode_key_inj large_meta del: set_upt upt_rec_numeral)
    have u: "unat (of_nat i :: u64) = i" "unat (of_nat j :: u64) = j" using ij by (simp_all add: unat_of_nat del: upt_rec_numeral)
    have "Inr (of_nat i) = (Inr (of_nat j) :: parse_error + u64)"
      using parse_u64_dec [of "of_nat i"] parse_u64_dec [of "of_nat j"] \<open>dec i = dec j\<close> unfolding u by (simp only:)
    then have "(of_nat i :: u64) = of_nat j" by (simp only: sum.inject)
    then have "unat (of_nat i :: u64) = unat (of_nat j :: u64)" by (rule arg_cong)
    then show "i = j" unfolding u .
  qed
  then show "distinct (map rkey rs)" by (simp only: rs_def map_map comp_def distinct_map [of _ "[0..<1000]"] distinct_upt)
  have "now - 8 * 86400 < - 1"
    using days_ago_nat(1) [OF assms(1)] assms(1) unsigned_less [of now, where ?'a = nat] by (simp add: soon_after_def word_less_nat_alt unat_minus_one_word)
  then show "list_all (\<lambda>r. timestamp r < - 1) rs" by (simp add: rs_def list_all_iff large_meta del: upt_rec_numeral)
  show "length rs = 1000" by (simp add: rs_def del: upt_rec_numeral)
  have "retention_days_for RetentionConfig_default mt = 7" for mt by (cases mt) (simp_all add: RetentionConfig_default_def)
  moreover have "now - 8 * 86400 < retention_cutoff 7 later"
    using assms(1) days_ago_nat(1) [OF assms(1)] cutoff_nat(1) [of later] unfolding soon_after_def word_less_nat_alt by linarith
  ultimately show "list_all (\<lambda>r. expired (retention_cutoff (retention_days_for RetentionConfig_default (rec_type r)) later) r) rs"
    by (simp add: rs_def list_all_iff large_meta expired_def del: upt_rec_numeral)
qed

context store
begin

lemma bulk_cleanup:
  assumes "holds_all X a (only_raw [])" and "u64_to_vec X later = Inr v"
    and large: "distinct (map rkey rs)" "list_all (\<lambda>r. timestamp r < - 1) rs" "length rs = 1000"
      "list_all (\<lambda>r. expired (retention_cutoff (retention_days_for RetentionConfig_default (rec_type r)) later) r) rs"
    and "list_all (roundtrips X) rs"
  shows "\<exists>b. run (bindS (foldS (\<lambda>_ chunk. insert_metrics_batch X chunk) () (chunks 100 rs)) (\<lambda>_.
      bindS (get_storage_stats X) (\<lambda>stats_before. bindS (cleanup_with_config X (Inr later) nanos RetentionConfig_default) (\<lambda>report.
      bindS (get_storage_stats X) (\<lambda>stats_after.
      retS (total_records stats_before = 1000 \<and> deleted_count report = 1000 \<and> total_records stats_after = 0)))))) a True b"
proof -
  let ?ex = "\<lambda>r. expired (retention_cutoff (retention_days_for RetentionConfig_default (rec_type r)) later) r"
  have "concat (chunks 100 rs) = take (100 * ((length rs + 100 - 1) div 100)) rs" by (simp only: chunks_def concat_chunks)
  then have whole: "concat (chunks 100 rs) = rs" by (simp add: large(3))
  have "roundtrips X r" if "r \<in> set rs" for r using assms(7) that by (simp only: list_all_iff)
  then obtain b
    where b: "run (foldS (\<lambda>_ chunk. insert_metrics_batch X chunk) () (chunks 100 rs)) a () b" "holds_all X b (only_raw (ins_all rs []))"
    using run_batches [OF assms(1), of "chunks 100 rs"] unfolding whole by blast
  have m: "mset (ins_all rs []) = mset rs" using mset_ins_all [OF large(1), of "[]"] by (simp add: fresh_def)
  have same: "set (ins_all rs []) = set rs" using arg_cong [OF m, of set_mset] by simp
  have n: "length (ins_all rs []) = 1000" using mset_eq_length [OF m] large(3) by simp
  have keep: "filter ?ex (ins_all rs []) = ins_all rs []" "filter (\<lambda>r. \<not> ?ex r) (ins_all rs []) = []"
    using large(4) by (simp_all only: list_all_iff same filter_id_conv filter_empty_conv not_not)
  obtain c where c: "run (cleanup_with_config X (Inr later) nanos RetentionConfig_default) b
      \<lparr> deleted_count = of_nat (length (filter ?ex (ins_all rs []))), exported_count = 0, export_path = None \<rparr> c"
    "holds_all X c (only_raw (filter (\<lambda>r. \<not> ?ex r) (ins_all rs [])))"
    by (rule run_config_raw [OF b(2) _ assms(2) _ refl, where config = RetentionConfig_default and nanos = nanos])
      (simp_all add: n RetentionConfig_default_def)
  have "list_all (\<lambda>r. timestamp r < - 1) (ins_all rs [])" using large(2) by (simp only: list_all_iff same)
  note counted = all_counted [OF this, unfolded n]
  show ?thesis
    by (rule exI, rule run_bind, rule b(1), rule run_stats_then, rule b(2), rule run_bind, rule c(1) [unfolded keep n],
        rule run_stats, rule c(2) [unfolded keep]) (simp add: counted del: sum_list_simps)
qed

lemma large_test:
  assumes "healthy w" and "holds_all X (absw w) (\<lambda>_. [])" and "soon_after now later" and "u64_to_vec X later = Inr v"
    and "list_all (roundtrips X) (map (large_record (now - 8 * 86400)) [0..<1000])"
  shows "test_large_cleanup_operation X nanos now later w"
  unfolding test_large_cleanup_operation_def Let_def
proof (rule run_test [OF assms(1,2)], simp)
  fix a assume "holds_all X a (only_raw (ins_all [] []))"
  then have "holds_all X a (only_raw [])" by simp
  from bulk_cleanup [OF this assms(4) large_records [OF assms(3)] assms(5)]
  show "\<exists>b. run (bindS (foldS (\<lambda>_ chunk. insert_metrics_batch X chunk) () (chunks 100 (map (large_record (now - (8 * 86400))) [0..<1000]))) (\<lambda>_.
      bindS (get_storage_stats X) (\<lambda>stats_before. bindS (cleanup_with_config X (Inr later) nanos RetentionConfig_default) (\<lambda>report.
      bindS (get_storage_stats X) (\<lambda>stats_after.
      retS (total_records stats_before = 1000 \<and> deleted_count report = 1000 \<and> total_records stats_after = 0)))))) a True b" .
qed

end

section \<open>The tests together\<close>

definition integration_records :: "u64 \<Rightarrow> MetricRecord list" where
  "integration_records now =
     [make_focus_record ''firefox'' 1000 5000, make_cpu_record ''firefox'' 1000 25500000, make_cpu_record ''app'' 1000 10000000, make_cpu_record ''app'' 2000 20000000,
      make_cpu_record ''app'' 3000 30000000, make_cpu_record ''app'' 1000 20000000, make_cpu_record ''firefox'' 1000 10000000,
      make_cpu_record ''code'' 1000 20000000, make_cpu_record ''firefox'' 2000 15000000, make_cpu_record ''app'' 1001 20000000,
      make_cpu_record ''app'' 1002 30000000, make_network_record ''firefox'' 1000 100 200, make_network_record ''code'' 1000 400 100,
      make_network_record ''slack'' 1000 50 50, make_focus_record ''firefox'' 1000 10000, make_focus_record ''code'' 1000 5000,
      make_focus_record ''firefox'' 2000 15000, make_focus_record ''app1'' 500 1000, make_focus_record ''app1'' 1500 2000,
      make_focus_record ''app1'' 2500 3000, make_cpu_record ''app1'' 1000 10000000, make_cpu_record ''app2'' 2000 20000000,
      make_network_record ''app3'' 3000 100 200, make_cpu_record ''app'' now 10000000, make_cpu_record ''app'' (now - 8 * 86400) 10000000,
      make_network_record ''app'' (now - 3 * 86400) 100 200, make_network_record ''app'' (now - 8 * 86400) 100 200,
      make_cpu_record ''app'' (now - 24 * 3600) 1000, make_cpu_record ''app'' (now - 24 * 3600 + 1) 2000,
      make_cpu_record ''app'' (now - 24 * 3600 - 1) 3000] @
     map (\<lambda>i. make_focus_record (''app'' @ dec i) 1000 (1000 * (of_nat i + 1))) [0, 1, 2, 3, 4] @
     batch_records @ concat (map thread_records [0..<10]) @ map (large_record (now - 8 * 86400)) [0..<1000]"

text \<open>On every store that keeps its promises, is empty and encodes what the tests store, the model passes the
  integration tests: inserts, queries, rankings, metadata and statistics; ten threads that insert at the same time, in whatever order their
  inserts take effect; and the cleanups, which may run up to a day after the test has read the clock.\<close>

theorem storage_integration_tests:
  assumes "store X healthy absw" and "healthy w" and "holds_all X (absw w) (\<lambda>_. [])" and "trees (absw w) ''meta'' = []"
    and "list_all (roundtrips X) (integration_records now)" and "soon_after now later"
    and "u32_to_vec X 14 = Inr v32" and "u32_from_slice X v32 = Inr 14" and "u64_to_vec X 1000 = Inr v64"
    and "opt_u64_from_slice X v64 = Inr (Some 1000)"
    and "u64_to_vec X later = Inr v" and "opt_u64_from_slice X v = Inr (Some later)"
    and "u64_to_vec X later2 = Inr v2" and "opt_u64_from_slice X v2 = Inr (Some later2)"
    and "iter = id \<or> iter = rev" and "iter' = id \<or> iter' = rev"
    and "mset schedule = mset (concat (map thread_records [0..<10]))"
  shows "list_all (\<lambda>test. test w)
    [test_insert_and_read_back X C clock, test_time_range_filtering X C clock, test_get_metrics_by_app X C clock,
     test_aggregated_cpu X C clock, test_top_apps_by_network X C iter clock, test_cleanup_old_data X C clock now later,
     test_batch_insert X C clock, test_metadata_operations X, test_key_collision_overwrites X C clock,
     test_concurrent_inserts X C clock schedule, test_aggregated_cpu_not_found X C clock,
     test_focus_event_insert_and_read_back X C clock, test_get_top_apps_by_focus_sorted X C iter' clock,
     test_get_top_apps_by_focus_time_range X C iter' clock, test_get_top_apps_by_focus_limit X C iter' clock,
     test_cleanup_with_config_per_type X C clock nanos now later,
     test_cleanup_with_config_net_longer_retention X C clock nanos now later,
     test_cleanup_with_config_updates_last_cleanup_ts X nanos later, test_get_storage_stats X,
     test_large_cleanup_operation X nanos now later, test_cleanup_idempotency X nanos nanos2 now later later2,
     test_query_boundary_exactly_24h_ago X C clock now]"
proof -
  have times: "0 < later" "86401 \<le> unat now" using assms(6) by (auto simp: soon_after_def word_less_nat_alt)
  note empty = assms(2,3) and encoded = assms(5) [unfolded integration_records_def list_all_append list.pred_inject]
  note queries = store.query_tests [OF assms(1) empty] store.app_tests [OF assms(1) empty] store.boundary_test [OF assms(1) empty times(2)]
    store.ranking_tests(1) [OF assms(1) empty assms(15)] store.ranking_tests(2-4) [OF assms(1) empty assms(16)]
  note inserts = store.many_tests(1) [OF assms(1) empty] store.many_tests(2) [OF assms(1) empty _ assms(17)] store.focus_event_test [OF assms(1) empty]
    store.metadata_test [OF assms(1) empty assms(4,7-10)] store.stats_test [OF assms(1) empty]
  note cleanups = store.old_data_test [OF assms(1) empty assms(6)] store.config_tests [OF assms(1) empty assms(6,11)]
    store.updates_ts_test [OF assms(1) empty assms(4,11,12) times(1)] store.large_test [OF assms(1) empty assms(6,11)]
    store.idempotency_test [OF assms(1) empty assms(4,6,11,13,14)]
  show ?thesis unfolding list.pred_inject using encoded by (intro conjI queries inserts cleanups) (simp_all only: list.pred_inject simp_thms)
qed

text \<open>The reference store is such a store.\<close>

lemma reference_store_passes:
  assumes "soon_after now later" and "mset schedule = mset (concat (map thread_records [0..<10]))" and "X = ref_ext (integration_records now)"
  shows "test_concurrent_inserts X greg clock schedule ref_empty \<and> test_large_cleanup_operation X nanos now later ref_empty"
proof -
  have encoded: "list_all (roundtrips X) (integration_records now)"
    using ref_rec_roundtrip [of _ "integration_records now"] unfolding assms(3) roundtrips_def list_all_iff by blast
  have empty: "holds_all X (id ref_empty) (\<lambda>_. [])" "trees (id ref_empty) ''meta'' = []" by (simp_all add: holds_all_def holds_def ref_empty_def)
  obtain v32 where v32: "u32_to_vec X 14 = Inr v32" "u32_from_slice X v32 = Inr 14" using ref_u32_roundtrip unfolding assms(3) by blast
  obtain v64 where v64: "u64_to_vec X 1000 = Inr v64" "opt_u64_from_slice X v64 = Inr (Some 1000)" using ref_u64_roundtrip unfolding assms(3) by blast
  obtain v where v: "u64_to_vec X later = Inr v" "opt_u64_from_slice X v = Inr (Some later)" using ref_u64_roundtrip unfolding assms(3) by blast
  have store: "store X ref_healthy id" unfolding assms(3) by (rule ref.store_axioms)
  from storage_integration_tests [OF store ref_healthy_empty empty encoded assms(1) v32 v64 v v disjI1 [OF refl] disjI1 [OF refl] assms(2),
      of greg clock nanos nanos]
  show ?thesis by (simp only: list.pred_inject)
qed

lemma reference_store_example:
  "test_concurrent_inserts (ref_ext (integration_records 700000)) greg clock (rev (concat (map thread_records [0..<10]))) ref_empty"
  by (rule conjunct1, rule reference_store_passes [OF _ _ refl, of 700000 700000]) (simp_all only: soon_after_def mset_rev, simp)

end
