(* ===== verification/Power_Tests.thy ===== *)
theory Power_Tests
  imports Power_Collector Platforms Test_Support
begin

text \<open>
  The unit tests of \<open>power/linux.rs\<close> on the model.  The tests build directories below a temporary one; here such a directory
  is a list of paths, each a directory or a file with its content, and \<open>order\<close> is the order in which a directory is listed.
\<close>

section \<open>Temporary directories\<close>

text \<open>The newest entry of a path comes first.\<close>

type_synonym mock = "(string \<times> string option) list"

definition child_of :: "string \<Rightarrow> string \<Rightarrow> string option" where
  "child_of dir path =
     (case strip_prefix (dir @ ''/'') path of
        Some name \<Rightarrow> if name \<noteq> [] \<and> CHR ''/'' \<notin> set name then Some name else None
      | None \<Rightarrow> None)"

definition temp_fs :: "(string list \<Rightarrow> string list) \<Rightarrow> mock \<Rightarrow> file_sys" where
  "temp_fs order m =
     \<lparr> fs_read = (\<lambda>p. case map_of m p of Some (Some content) \<Rightarrow> Inr content | _ \<Rightarrow> Inl (Foreign ''not a file'')),
       fs_read_dir = (\<lambda>d. case map_of m d of
           Some None \<Rightarrow> Inr (map Inr (order (List.map_filter (child_of d) (map fst m))))
         | _ \<Rightarrow> Inl (Foreign ''not a directory'')),
       fs_exists = (\<lambda>p. map_of m p \<noteq> None),
       fs_is_dir = (\<lambda>p. map_of m p = Some None) \<rparr>"

definition tmpdir :: string where
  "tmpdir = ''/tmp/test''"

definition empty_dir :: mock where
  "empty_dir = [(tmpdir, None)]"

definition mock_file :: "string \<Rightarrow> string \<Rightarrow> mock" where
  "mock_file path content = [(path, Some content)]"

definition setup_mock_power_supply :: "string \<Rightarrow> string \<Rightarrow> mock" where
  "setup_mock_power_supply device dev_type =
     (let device_path = join tmpdir device in mock_file (join device_path ''type'') dev_type @ [(device_path, None)])"

definition setup_mock_cpufreq_policy :: "string \<Rightarrow> nat \<Rightarrow> nat \<Rightarrow> mock" where
  "setup_mock_cpufreq_policy policy_name cur_khz max_khz =
     (let policy_path = join tmpdir policy_name in
      mock_file (join policy_path ''scaling_cur_freq'') (dec cur_khz) @
      mock_file (join policy_path ''cpuinfo_max_freq'') (dec max_khz) @ [(policy_path, None)])"

definition setup_mock_backlight_device :: "string \<Rightarrow> nat \<Rightarrow> nat \<Rightarrow> mock" where
  "setup_mock_backlight_device device_name brightness max_brightness =
     (let device_path = join tmpdir device_name in
      mock_file (join device_path ''brightness'') (dec brightness) @
      mock_file (join device_path ''max_brightness'') (dec max_brightness) @ [(device_path, None)])"

definition tabbed :: "string list \<Rightarrow> string" where
  "tabbed columns = concat (map (\<lambda>c. c @ [CHR 0x09]) (butlast columns)) @ last columns @ [CHR 0x0A]"

definition route_header :: string where
  "route_header = tabbed [''Iface'', ''Destination'', ''Gateway'', ''Flags'', ''RefCnt'', ''Use'', ''Metric'', ''Mask'', ''MTU'', ''Window'', ''IRTT'']"

definition route_row :: "string \<Rightarrow> string \<Rightarrow> string \<Rightarrow> string" where
  "route_row iface gateway metric_hex =
     tabbed [iface, ''00000000'', gateway, ''0003'', ''0'', ''0'', metric_hex, ''FFFFFF00'', ''0'', ''0'', ''0'']"

definition setup_mock_route_file :: "string \<Rightarrow> string \<Rightarrow> mock" where
  "setup_mock_route_file iface metric_hex =
     mock_file (join tmpdir ''route'') (route_header @ route_row iface ''01010101'' metric_hex)"

definition setup_mock_net_interface_wifi :: "string \<Rightarrow> mock" where
  "setup_mock_net_interface_wifi iface =
     (let iface_path = join (join tmpdir ''net_class'') iface in [(join iface_path ''wireless'', None), (iface_path, None)])"

definition setup_mock_net_interface_ethernet :: "string \<Rightarrow> mock" where
  "setup_mock_net_interface_ethernet iface = [(join (join tmpdir ''net_class'') iface, None)]"

section \<open>Devices\<close>

definition found_with :: "string list \<Rightarrow> string option \<Rightarrow> bool" where
  "found_with names result = (case result of Some path \<Rightarrow> list_ex (\<lambda>name. contains_str name path) names | None \<Rightarrow> False)"

definition test_discover_battery_node_found :: bool where
  "test_discover_battery_node_found =
     found_with [''BAT0''] (discover_battery_node (temp_fs id (setup_mock_power_supply ''BAT0'' ''Battery'' @ empty_dir)) tmpdir)"

definition test_discover_battery_node_first :: "(string list \<Rightarrow> string list) \<Rightarrow> bool" where
  "test_discover_battery_node_first order =
     found_with [''BAT0'', ''BAT1''] (discover_battery_node (temp_fs order
       (setup_mock_power_supply ''BAT1'' ''Battery'' @ setup_mock_power_supply ''BAT0'' ''Battery'' @ empty_dir)) tmpdir)"

definition test_discover_battery_node_not_found :: bool where
  "test_discover_battery_node_not_found \<longleftrightarrow>
     discover_battery_node (temp_fs id (setup_mock_power_supply ''AC0'' ''AC'' @ empty_dir)) tmpdir = None"

definition test_discover_battery_node_missing_dir :: bool where
  "test_discover_battery_node_missing_dir \<longleftrightarrow> discover_battery_node (temp_fs id empty_dir) (join tmpdir ''nonexistent'') = None"

definition test_discover_ac_node_ac_type :: bool where
  "test_discover_ac_node_ac_type =
     found_with [''AC0''] (discover_ac_node (temp_fs id (setup_mock_power_supply ''AC0'' ''AC'' @ empty_dir)) tmpdir)"

definition test_discover_ac_node_mains_type :: bool where
  "test_discover_ac_node_mains_type =
     found_with [''Mains''] (discover_ac_node (temp_fs id (setup_mock_power_supply ''Mains'' ''Mains'' @ empty_dir)) tmpdir)"

definition test_discover_ac_node_not_found :: bool where
  "test_discover_ac_node_not_found \<longleftrightarrow>
     discover_ac_node (temp_fs id (setup_mock_power_supply ''BAT0'' ''Battery'' @ empty_dir)) tmpdir = None"

definition test_charging_state_from_battery_status :: bool where
  "test_charging_state_from_battery_status =
     (let bat_path = join tmpdir ''BAT0'';
          fs = temp_fs id (mock_file (join bat_path ''status'') ''Charging'' @ setup_mock_power_supply ''BAT0'' ''Battery'' @ empty_dir)
      in bs_status (read_battery_state fs bat_path) = Some ''Charging'')"

definition test_charging_state_from_ac_when_battery_discharging :: bool where
  "test_charging_state_from_ac_when_battery_discharging =
     (let ac_path = join tmpdir ''AC0'';
          fs = temp_fs id (mock_file (join ac_path ''online'') ''1'' @ setup_mock_power_supply ''AC0'' ''AC'' @ empty_dir)
      in read_ac_online fs ac_path = Inr True)"

definition test_charging_state_ac_offline :: bool where
  "test_charging_state_ac_offline =
     (let ac_path = join tmpdir ''AC0'';
          fs = temp_fs id (mock_file (join ac_path ''online'') ''0'' @ setup_mock_power_supply ''AC0'' ''AC'' @ empty_dir)
      in read_ac_online fs ac_path = Inr False)"

definition test_battery_state_default :: bool where
  "test_battery_state_default \<longleftrightarrow>
     bs_capacity BatteryState_default = None \<and> bs_current_ua BatteryState_default = None \<and>
     bs_voltage_uv BatteryState_default = None \<and> bs_status BatteryState_default = None"

section \<open>Values and energy\<close>

definition test_read_sysfs_value_valid_u32 :: bool where
  "test_read_sysfs_value_valid_u32 \<longleftrightarrow>
     read_sysfs_value parse_u32 (temp_fs id (mock_file (join tmpdir ''online'') ''1'' @ empty_dir)) (join tmpdir ''online'') = Inr 1"

definition test_read_sysfs_value_with_whitespace :: bool where
  "test_read_sysfs_value_with_whitespace \<longleftrightarrow>
     read_sysfs_value parse_f32 (temp_fs id (mock_file (join tmpdir ''capacity'') (''  75  '' @ [CHR 0x0A]) @ empty_dir)) (join tmpdir ''capacity'') =
       Inr (Num 75)"

definition test_read_sysfs_value_invalid_format :: bool where
  "test_read_sysfs_value_invalid_format =
     (case read_sysfs_value parse_f32 (temp_fs id (mock_file (join tmpdir ''capacity'') ''invalid'' @ empty_dir)) (join tmpdir ''capacity'') of
        Inl _ \<Rightarrow> True
      | Inr _ \<Rightarrow> False)"

definition energy_fs :: "string \<Rightarrow> file_sys" where
  "energy_fs energy = temp_fs id (mock_file (join tmpdir ''energy_uj'') energy @ empty_dir)"

definition test_rapl_power_first_read_returns_zero :: bool where
  "test_rapl_power_first_read_returns_zero \<longleftrightarrow>
     fst (read_rapl_power (energy_fs ''1000000'') (join tmpdir ''energy_uj'') None) = Inr fzero"

definition test_rapl_power_energy_decrease_saturates_to_zero :: bool where
  "test_rapl_power_energy_decrease_saturates_to_zero \<longleftrightarrow>
     fst (read_rapl_power (energy_fs ''1000000'') (join tmpdir ''energy_uj'') (Some 2000000)) = Inr fzero"

definition test_rapl_power_computation :: bool where
  "test_rapl_power_computation =
     (case read_rapl_power (energy_fs ''1000000'') (join tmpdir ''energy_uj'') None of
        (Inr watts1, prev_energy) \<Rightarrow>
          watts1 = fzero \<and> prev_energy = Some 1000000 \<and>
          (case fst (read_rapl_power (energy_fs ''1200000'') (join tmpdir ''energy_uj'') prev_energy) of
             Inr watts2 \<Rightarrow> near F32 (lit F32 0.00001) watts2 (fcast F32 (fdiv F64 (fdiv F64 (Num 200000) (Num 1000000)) (Num 30)))
           | Inl _ \<Rightarrow> False)
      | (Inl _, _) \<Rightarrow> False)"

section \<open>Averaged ratios\<close>

definition some_near :: "fl \<Rightarrow> fl \<Rightarrow> fl option \<Rightarrow> bool" where
  "some_near eps x result = (case result of Some y \<Rightarrow> near F32 eps y x | None \<Rightarrow> False)"

definition test_read_avg_cpu_freq_ratio_single_policy :: bool where
  "test_read_avg_cpu_freq_ratio_single_policy =
     some_near (lit F32 0.01) (lit F32 0.5)
       (read_avg_cpu_freq_ratio (temp_fs id (setup_mock_cpufreq_policy ''policy0'' 2500000 5000000 @ empty_dir)) tmpdir)"

definition test_read_avg_cpu_freq_ratio_multiple_policies :: "(string list \<Rightarrow> string list) \<Rightarrow> bool" where
  "test_read_avg_cpu_freq_ratio_multiple_policies order =
     some_near (lit F32 0.01) (lit F32 0.5)
       (read_avg_cpu_freq_ratio (temp_fs order (setup_mock_cpufreq_policy ''policy1'' 2000000 5000000 @
          setup_mock_cpufreq_policy ''policy0'' 3000000 5000000 @ empty_dir)) tmpdir)"

definition test_read_avg_cpu_freq_ratio_no_policies :: bool where
  "test_read_avg_cpu_freq_ratio_no_policies \<longleftrightarrow> read_avg_cpu_freq_ratio (temp_fs id empty_dir) tmpdir = None"

definition test_read_avg_cpu_freq_ratio_max_freq_zero :: bool where
  "test_read_avg_cpu_freq_ratio_max_freq_zero \<longleftrightarrow>
     read_avg_cpu_freq_ratio (temp_fs id (setup_mock_cpufreq_policy ''policy0'' 2500000 0 @ empty_dir)) tmpdir = None"

definition test_read_avg_cpu_freq_ratio_clamped :: bool where
  "test_read_avg_cpu_freq_ratio_clamped \<longleftrightarrow>
     read_avg_cpu_freq_ratio (temp_fs id (setup_mock_cpufreq_policy ''policy0'' 6000000 5000000 @ empty_dir)) tmpdir = Some (Num 1)"

definition test_read_display_brightness_single_device :: bool where
  "test_read_display_brightness_single_device =
     some_near (lit F32 0.01) (lit F32 0.5)
       (read_display_brightness (temp_fs id (setup_mock_backlight_device ''backlight0'' 3000 6000 @ empty_dir)) tmpdir)"

definition test_read_display_brightness_multiple_devices :: "(string list \<Rightarrow> string list) \<Rightarrow> bool" where
  "test_read_display_brightness_multiple_devices order =
     some_near (lit F32 0.01) (lit F32 0.5)
       (read_display_brightness (temp_fs order (setup_mock_backlight_device ''backlight1'' 2000 6000 @
          setup_mock_backlight_device ''backlight0'' 4000 6000 @ empty_dir)) tmpdir)"

definition test_read_display_brightness_no_devices :: bool where
  "test_read_display_brightness_no_devices \<longleftrightarrow> read_display_brightness (temp_fs id empty_dir) tmpdir = None"

definition test_read_display_brightness_max_zero :: bool where
  "test_read_display_brightness_max_zero \<longleftrightarrow>
     read_display_brightness (temp_fs id (setup_mock_backlight_device ''backlight0'' 3000 0 @ empty_dir)) tmpdir = None"

section \<open>The default route\<close>

definition detect_in :: "mock \<Rightarrow> bool option" where
  "detect_in m = detect_default_interface_is_wifi (temp_fs id (m @ [(join tmpdir ''net_class'', None)] @ empty_dir))
     (join tmpdir ''route'') (join tmpdir ''net_class'')"

definition test_detect_default_interface_wifi :: bool where
  "test_detect_default_interface_wifi \<longleftrightarrow>
     detect_in (setup_mock_net_interface_wifi ''wlp0s0'' @ setup_mock_route_file ''wlp0s0'' ''64'') = Some True"

definition test_detect_default_interface_ethernet :: bool where
  "test_detect_default_interface_ethernet \<longleftrightarrow>
     detect_in (setup_mock_net_interface_ethernet ''eth0'' @ setup_mock_route_file ''eth0'' ''64'') = Some False"

definition test_detect_default_interface_lowest_metric_wins :: bool where
  "test_detect_default_interface_lowest_metric_wins \<longleftrightarrow>
     detect_in (setup_mock_net_interface_ethernet ''eth0'' @ setup_mock_net_interface_wifi ''wlp0s0'' @
       mock_file (join tmpdir ''route'')
         (route_header @ route_row ''wlp0s0'' ''01010101'' ''258'' @ route_row ''eth0'' ''01010102'' ''64'')) = Some False"

definition test_detect_default_interface_no_routes :: bool where
  "test_detect_default_interface_no_routes \<longleftrightarrow> detect_in (mock_file (join tmpdir ''route'') route_header) = None"

section \<open>Running the tests\<close>

lemma device_tests:
  "test_discover_battery_node_found" "test_discover_battery_node_first id" "test_discover_battery_node_first rev"
  "test_discover_battery_node_not_found" "test_discover_battery_node_missing_dir" "test_discover_ac_node_ac_type"
  "test_discover_ac_node_mains_type" "test_discover_ac_node_not_found" "test_charging_state_from_battery_status"
  "test_charging_state_from_ac_when_battery_discharging" "test_charging_state_ac_offline" "test_battery_state_default"
  by code_simp+

lemma value_tests:
  "test_read_sysfs_value_valid_u32" "test_read_sysfs_value_with_whitespace" "test_read_sysfs_value_invalid_format"
  "test_rapl_power_first_read_returns_zero" "test_rapl_power_energy_decrease_saturates_to_zero"
  by code_simp+

lemma rapl_rnds [evals]:
  "rnd F32 neg (1 / 100000) = Num (2748779 / 274877906944)"
  "rnd F32 neg (7686143364045647 / 1152921504606846976) = Num (7158279 / 1073741824)"
  "rnd F64 neg (3602879701896397 / 540431955284459520) = Num (7686143364045647 / 1152921504606846976)"
  "rnd F64 neg (1 / 5) = Num (3602879701896397 / 18014398509481984)"
  subgoal by (rule rnd_F32(1) [of "-17" _ 10995116]) simp_all
  subgoal by (rule rnd_F32(1) [of "-8" _ 14316558]) simp_all
  subgoal by (rule rnd_F64(1) [of "-8" _ 7686143364045647]) simp_all
  subgoal by (rule rnd_F64(1) [of "-3" _ 7205759403792794]) simp_all
  done

lemma rapl_test: "test_rapl_power_computation"
proof -
  have energy: "read_sysfs_value parse_u64 (energy_fs ''1000000'') (join tmpdir ''energy_uj'') = Inr 1000000"
      "read_sysfs_value parse_u64 (energy_fs ''1200000'') (join tmpdir ''energy_uj'') = Inr 1200000" by code_simp+
  have "sat_sub 1200000 (1000000 :: u64) = 200000" by code_simp
  then show ?thesis
    by (simp add: test_rapl_power_computation_def read_rapl_power_def energy evals of_word_def lit_def near_def fcast_def)
qed

lemma ratio_tests:
  "test_read_avg_cpu_freq_ratio_single_policy" "test_read_avg_cpu_freq_ratio_no_policies" "test_read_avg_cpu_freq_ratio_max_freq_zero"
  "test_read_avg_cpu_freq_ratio_clamped" "test_read_display_brightness_single_device" "test_read_display_brightness_no_devices"
  "test_read_display_brightness_max_zero"
  by code_simp+

lemma several_device_tests:
  assumes "order = id \<or> order = rev"
  shows "test_read_avg_cpu_freq_ratio_multiple_policies order" and "test_read_display_brightness_multiple_devices order"
proof -
  have "test_read_avg_cpu_freq_ratio_multiple_policies id" "test_read_avg_cpu_freq_ratio_multiple_policies rev" by code_simp+
  then show "test_read_avg_cpu_freq_ratio_multiple_policies order" using assms by auto
  have "test_read_display_brightness_multiple_devices id" "test_read_display_brightness_multiple_devices rev" by code_simp+
  then show "test_read_display_brightness_multiple_devices order" using assms by auto
qed

lemma route_tests:
  "test_detect_default_interface_wifi" "test_detect_default_interface_ethernet" "test_detect_default_interface_lowest_metric_wins"
  "test_detect_default_interface_no_routes"
  by code_simp+

end
