(* ===== verification/Gpu_Tests.thy ===== *)
theory Gpu_Tests
  imports Power_Tests Gpu_Collector
begin

text \<open>
  The unit tests of the GPU collector (\<open>gpu/linux\<close>: \<open>generic.rs\<close>, \<open>amd.rs\<close>, \<open>intel.rs\<close>, \<open>detect.rs\<close>, \<open>fdinfo.rs\<close>, \<open>mod.rs\<close>) on the model.
  The tests of \<open>mod.rs\<close> that replace the backends by a mock are left out: the model has the backends of the program.
\<close>

section \<open>Mock devices\<close>

definition gpu_temp :: "(string list \<Rightarrow> string list) \<Rightarrow> (string \<times> string) list \<Rightarrow> mock \<Rightarrow> gpu_sys" where
  "gpu_temp order links m =
     \<lparr> gs_fs = temp_fs order m,
       gs_read_link = (\<lambda>p. case map_of links p of Some target \<Rightarrow> Inr target | None \<Rightarrow> Inl (Foreign ''not a link'')) \<rparr>"

definition create_mock_sysfs :: "string \<Rightarrow> string \<Rightarrow> mock" where
  "create_mock_sysfs filename content = mock_file (join tmpdir filename) content"

definition sysfs_with :: "mock \<Rightarrow> gpu_sys" where
  "sysfs_with m = gpu_temp id [] (m @ empty_dir)"

fun backend_name :: "'n GpuBackend \<Rightarrow> string" where
  "backend_name (AmdBackend b) = b_name b"
| "backend_name (IntelBackend b) = b_name b"
| "backend_name (GenericBackend b) = b_name b"
| "backend_name (NvidiaBackend b) = n_name b"

section \<open>Sysfs utilities and the generic backend\<close>

definition test_read_sysfs_u64_valid :: bool where
  "test_read_sysfs_u64_valid \<longleftrightarrow> read_sysfs_u64 (sysfs_with (create_mock_sysfs ''test.txt'' ''42'')) (join tmpdir ''test.txt'') = Some 42"

definition test_read_sysfs_u64_with_whitespace :: bool where
  "test_read_sysfs_u64_with_whitespace \<longleftrightarrow>
     read_sysfs_u64 (sysfs_with (create_mock_sysfs ''test.txt'' (''  100  '' @ [CHR 0x0A]))) (join tmpdir ''test.txt'') = Some 100"

definition test_read_sysfs_u64_invalid :: bool where
  "test_read_sysfs_u64_invalid \<longleftrightarrow>
     read_sysfs_u64 (sysfs_with (create_mock_sysfs ''test.txt'' ''not_a_number'')) (join tmpdir ''test.txt'') = None"

definition test_read_sysfs_u64_nonexistent :: bool where
  "test_read_sysfs_u64_nonexistent \<longleftrightarrow> read_sysfs_u64 (sysfs_with []) (join tmpdir ''nonexistent.txt'') = None"

definition test_read_sysfs_string_valid :: bool where
  "test_read_sysfs_string_valid \<longleftrightarrow>
     read_sysfs_string (sysfs_with (create_mock_sysfs ''test.txt'' ''AMD RX 7900'')) (join tmpdir ''test.txt'') = Some ''AMD RX 7900''"

definition test_read_sysfs_string_trims_whitespace :: bool where
  "test_read_sysfs_string_trims_whitespace \<longleftrightarrow>
     read_sysfs_string (sysfs_with (create_mock_sysfs ''test.txt'' (''  GPU NAME  '' @ [CHR 0x0A]))) (join tmpdir ''test.txt'') = Some ''GPU NAME''"

definition test_read_hwmon_temp_celsius :: bool where
  "test_read_hwmon_temp_celsius \<longleftrightarrow> read_hwmon_temp_celsius (sysfs_with (create_mock_sysfs ''temp1_input'' ''45000'')) tmpdir = Some (Num 45)"

definition test_read_hwmon_power_watts :: bool where
  "test_read_hwmon_power_watts \<longleftrightarrow> read_hwmon_power_watts (sysfs_with (create_mock_sysfs ''power1_average'' ''150000000'')) tmpdir = Some (Num 150)"

definition test_find_hwmon_path_exists :: bool where
  "test_find_hwmon_path_exists =
     (let hwmon_dir = join tmpdir ''hwmon'' in
      case find_hwmon_path (sysfs_with [(join hwmon_dir ''hwmon0'', None), (hwmon_dir, None)]) tmpdir of
        Some path \<Rightarrow> file_name path = Some ''hwmon0''
      | None \<Rightarrow> False)"

definition test_find_hwmon_path_nonexistent :: bool where
  "test_find_hwmon_path_nonexistent \<longleftrightarrow> find_hwmon_path (sysfs_with []) tmpdir = None"

definition test_generic_backend_new :: bool where
  "test_generic_backend_new =
     (let backend = generic_new (sysfs_with (create_mock_sysfs ''product_name'' ''Test GPU'')) 0 tmpdir :: unit GpuBackend in
      backend_index backend = 0 \<and> backend_name backend = ''Test GPU'')"

definition test_generic_backend_fallback_name :: bool where
  "test_generic_backend_fallback_name \<longleftrightarrow> backend_name (generic_new (sysfs_with []) 5 tmpdir :: unit GpuBackend) = ''GPU 5''"

definition test_generic_backend_collect :: bool where
  "test_generic_backend_collect =
     (let g = sysfs_with (create_mock_sysfs ''product_name'' ''Generic GPU'') in
      case backend_collect None g (generic_new g 1 tmpdir :: unit GpuBackend) of
        Inr data \<Rightarrow> gpu_index data = 1 \<and> vendor data = Unknown \<and> gpu_name data = ''Generic GPU'' \<and>
          temperature_celsius data = None \<and> power_draw_watts data = None
      | Inl _ \<Rightarrow> False)"

section \<open>AMD\<close>

definition sclk_lines :: "string list \<Rightarrow> gpu_sys" where
  "sclk_lines rows = sysfs_with (create_mock_sysfs ''pp_dpm_sclk'' (concat (map (\<lambda>row. row @ [CHR 0x0A]) rows)))"

definition test_parse_pp_dpm_clock_simple :: bool where
  "test_parse_pp_dpm_clock_simple \<longleftrightarrow>
     parse_pp_dpm_clock (sclk_lines [''0: 300Mhz'', ''1: 500Mhz *'']) tmpdir ''pp_dpm_sclk'' = Some 500"

definition test_parse_pp_dpm_clock_first_entry :: bool where
  "test_parse_pp_dpm_clock_first_entry \<longleftrightarrow>
     parse_pp_dpm_clock (sclk_lines [''0: 300Mhz *'', ''1: 500Mhz'']) tmpdir ''pp_dpm_sclk'' = Some 300"

definition test_parse_pp_dpm_clock_no_current :: bool where
  "test_parse_pp_dpm_clock_no_current \<longleftrightarrow>
     parse_pp_dpm_clock (sclk_lines [''0: 300Mhz'', ''1: 500Mhz'', ''2: 700Mhz'']) tmpdir ''pp_dpm_sclk'' = None"

definition test_parse_pp_dpm_clock_whitespace :: bool where
  "test_parse_pp_dpm_clock_whitespace \<longleftrightarrow>
     parse_pp_dpm_clock (sclk_lines [''  0: 300Mhz  '', ''  1: 500Mhz  *  '']) tmpdir ''pp_dpm_sclk'' = Some 500"

definition test_parse_pp_dpm_clock_nonexistent :: bool where
  "test_parse_pp_dpm_clock_nonexistent \<longleftrightarrow> parse_pp_dpm_clock (sysfs_with []) tmpdir ''nonexistent'' = None"

definition is_named :: "u32 \<Rightarrow> string \<Rightarrow> col_error + unit GpuBackend \<Rightarrow> bool" where
  "is_named idx name result = (case result of Inr b \<Rightarrow> backend_index b = idx \<and> backend_name b = name | Inl _ \<Rightarrow> False)"

definition test_amd_backend_new :: bool where
  "test_amd_backend_new = is_named 0 ''AMD RX 7900'' (amd_new (sysfs_with (create_mock_sysfs ''product_name'' ''AMD RX 7900'')) 0 tmpdir)"

section \<open>Intel\<close>

definition test_intel_backend_new :: bool where
  "test_intel_backend_new = is_named 0 ''Intel UHD 630'' (intel_new (sysfs_with (create_mock_sysfs ''product_name'' ''Intel UHD 630'')) 0 tmpdir)"

definition test_intel_backend_fallback_name :: bool where
  "test_intel_backend_fallback_name =
     (case intel_new (sysfs_with []) 2 tmpdir :: col_error + unit GpuBackend of Inr b \<Rightarrow> backend_name b = ''Intel GPU 2'' | Inl _ \<Rightarrow> False)"

definition intel_data :: "gpu_sys \<Rightarrow> u32 \<Rightarrow> col_error + GpuData" where
  "intel_data g idx = bindR (intel_new g idx tmpdir :: col_error + unit GpuBackend) (backend_collect None g)"

definition test_intel_backend_collect :: bool where
  "test_intel_backend_collect =
     (case intel_data (sysfs_with (create_mock_sysfs ''gt/gt0/rps_cur_freq_mhz'' ''2400'' @ [(join tmpdir ''gt/gt0'', None), (join tmpdir ''gt'', None)] @
          create_mock_sysfs ''product_name'' ''Intel Arc A770'')) 1 of
        Inr data \<Rightarrow> gpu_index data = 1 \<and> vendor data = Intel \<and> gpu_name data = ''Intel Arc A770'' \<and> core_clock_mhz data = Some 2400 \<and>
          vram_used_bytes data = None \<and> vram_total_bytes data = None \<and> usage_percent data = None
      | Inl _ \<Rightarrow> False)"

definition test_intel_backend_collect_no_clock :: bool where
  "test_intel_backend_collect_no_clock =
     (case intel_data (sysfs_with (create_mock_sysfs ''product_name'' ''Intel GPU'')) 0 of
        Inr data \<Rightarrow> vendor data = Intel \<and> core_clock_mhz data = None
      | Inl _ \<Rightarrow> False)"

section \<open>Detection\<close>

text \<open>The mock of a card and the link of its driver.\<close>

definition create_mock_gpu :: "string \<Rightarrow> string \<Rightarrow> string option \<Rightarrow> mock \<times> (string \<times> string) list" where
  "create_mock_gpu card_name vendor_id driver =
     (let card_path = join tmpdir card_name; device_path = join card_path ''device''; driver_path = join device_path ''driver'' in
      (mock_file (join device_path ''vendor'') vendor_id @
         (case driver of
            Some drv \<Rightarrow> [(join (join tmpdir ''modules'') drv, None), (join tmpdir ''modules'', None), (driver_path, None)]
          | None \<Rightarrow> []) @
         [(device_path, None), (card_path, None)],
       case driver of Some drv \<Rightarrow> [(join driver_path ''module'', join (join tmpdir ''modules'') drv)] | None \<Rightarrow> []))"

definition enumerate_gpus_from_path :: "'n nvml option \<Rightarrow> gpu_sys \<Rightarrow> string \<Rightarrow> col_error + 'n GpuBackend list" where
  "enumerate_gpus_from_path N g drm_path =
     (if \<not> fs_exists (gs_fs g) drm_path then Inl (Foreign ''drm path not found'')
      else bindR (fs_read_dir (gs_fs g) drm_path) (\<lambda>entries.
        let cards = sort_by (\<lambda>a b. fst a \<le> fst b) (List.map_filter (\<lambda>e. Option.bind (ok_opt e) (card_entry drm_path)) entries)
        in Inr (List.map_filter (\<lambda>(idx, path). case detect_and_create_backend N g idx path of Inr (Some b) \<Rightarrow> Some b | _ \<Rightarrow> None) cards)))"

definition gpus_found :: "gpu_sys \<Rightarrow> nat option" where
  "gpus_found g = map_option length (ok_opt (enumerate_gpus_from_path (None :: unit nvml option) g tmpdir))"

definition test_enumerate_gpus_empty_drm :: bool where
  "test_enumerate_gpus_empty_drm \<longleftrightarrow> gpus_found (sysfs_with []) = Some 0"

definition test_enumerate_gpus_filters_non_cards :: "(string list \<Rightarrow> string list) \<Rightarrow> bool" where
  "test_enumerate_gpus_filters_non_cards order =
     (let (card, links) = create_mock_gpu ''card0'' ''0x8086'' (Some ''i915'') in
      gpus_found (gpu_temp order links (card @ [(join tmpdir ''controlD64'', None), (join tmpdir ''renderD128'', None)] @ empty_dir)) = Some 1)"

definition test_detect_vendor_id_parsing :: bool where
  "test_detect_vendor_id_parsing =
     (let (card, links) = create_mock_gpu ''card0'' (''0x10de'' @ [CHR 0x0A]) (Some ''nvidia'') in
      case fs_read (temp_fs id (card @ empty_dir)) (join (join tmpdir ''card0'') ''device/vendor'') of
        Inr vendor_str \<Rightarrow> strip_prefix ''0x'' (trim vendor_str) \<noteq> None \<and> parse_hex_u32 (trim_start_matches ''0x'' (trim vendor_str)) = Inr 0x10de
      | Inl _ \<Rightarrow> False)"

definition test_resolve_driver_returns_none_when_missing :: bool where
  "test_resolve_driver_returns_none_when_missing \<longleftrightarrow>
     resolve_driver (sysfs_with [(join tmpdir ''device'', None)]) (join tmpdir ''device'') = None"

section \<open>Per-process use\<close>

definition fdinfo_text :: "string list \<Rightarrow> (string \<times> string) list \<Rightarrow> string" where
  "fdinfo_text rows kvs = concat (map (\<lambda>row. row @ [CHR 0x0A]) (rows @ map (\<lambda>(k, v). k @ '':'' @ [CHR 0x09] @ v) kvs))"

definition fd_header :: "string list" where
  "fd_header = [''pos:    0'', ''flags:  02000002'', ''mnt_id: 10'', ''ino:    1234'']"

definition test_parse_drm_fdinfo_amd :: bool where
  "test_parse_drm_fdinfo_amd =
     (case parse_drm_fdinfo (fdinfo_text fd_header
          [(''drm-pdev'', ''0000:03:00.0''), (''drm-engine-gfx'', ''5000000000 ns''), (''drm-memory-vram'', ''512 MiB'')]) of
        Some stats \<Rightarrow> fd_pdev stats = ''0000:03:00.0'' \<and> engine_gfx_ns stats = Some 5000000000 \<and>
          memory_vram_bytes stats = Some (512 * 1024 * 1024) \<and> cycles_gfx stats = None
      | None \<Rightarrow> False)"

definition test_parse_drm_fdinfo_intel :: bool where
  "test_parse_drm_fdinfo_intel =
     (case parse_drm_fdinfo (fdinfo_text fd_header
          [(''drm-pdev'', ''0000:00:02.0''), (''drm-cycles-gfx'', ''1000000''), (''drm-total-cycles-gfx'', ''2000000''), (''drm-memory-vram'', ''256 MiB'')]) of
        Some stats \<Rightarrow> fd_pdev stats = ''0000:00:02.0'' \<and> cycles_gfx stats = Some 1000000 \<and> total_cycles_gfx stats = Some 2000000 \<and>
          memory_vram_bytes stats = Some (256 * 1024 * 1024) \<and> engine_gfx_ns stats = None
      | None \<Rightarrow> False)"

definition test_parse_drm_fdinfo_no_pdev :: bool where
  "test_parse_drm_fdinfo_no_pdev \<longleftrightarrow> parse_drm_fdinfo (fdinfo_text fd_header []) = None"

definition test_parse_memory_size_kib :: bool where
  "test_parse_memory_size_kib \<longleftrightarrow> parse_memory_size ''512 KiB'' = Some (512 * 1024)"

definition test_parse_memory_size_mib :: bool where
  "test_parse_memory_size_mib \<longleftrightarrow> parse_memory_size ''2 MiB'' = Some (2 * 1024 * 1024)"

definition test_parse_memory_size_gib :: bool where
  "test_parse_memory_size_gib \<longleftrightarrow> parse_memory_size ''1 GiB'' = Some (1024 * 1024 * 1024)"

definition test_parse_memory_size_raw :: bool where
  "test_parse_memory_size_raw \<longleftrightarrow> parse_memory_size ''1048576'' = Some 1048576"

definition test_collect_gpus_empty :: "gpu_poll \<Rightarrow> bool" where
  "test_collect_gpus_empty q =
     (case fst (collect_gpus None 5000000000 (\<lparr> backends = [], prev_fdinfo = Map.empty \<rparr> :: unit GpuCollector) q) of
        Inr records \<Rightarrow> length records = 0
      | Inl _ \<Rightarrow> False)"

section \<open>Running the tests\<close>

lemma sysfs_tests:
  "test_read_sysfs_u64_valid" "test_read_sysfs_u64_with_whitespace" "test_read_sysfs_u64_invalid" "test_read_sysfs_u64_nonexistent"
  "test_read_sysfs_string_valid" "test_read_sysfs_string_trims_whitespace" "test_find_hwmon_path_exists" "test_find_hwmon_path_nonexistent"
  by code_simp+

lemma hwmon_tests: "test_read_hwmon_temp_celsius" "test_read_hwmon_power_watts" by code_simp+

lemma backend_tests:
  "test_generic_backend_new" "test_generic_backend_fallback_name" "test_generic_backend_collect"
  "test_amd_backend_new" "test_intel_backend_new" "test_intel_backend_fallback_name" "test_intel_backend_collect" "test_intel_backend_collect_no_clock"
  by code_simp+

lemma clock_tests:
  "test_parse_pp_dpm_clock_simple" "test_parse_pp_dpm_clock_first_entry" "test_parse_pp_dpm_clock_no_current"
  "test_parse_pp_dpm_clock_whitespace" "test_parse_pp_dpm_clock_nonexistent"
  by code_simp+

lemma detect_tests:
  "test_enumerate_gpus_empty_drm" "test_enumerate_gpus_filters_non_cards id" "test_enumerate_gpus_filters_non_cards rev"
  "test_detect_vendor_id_parsing" "test_resolve_driver_returns_none_when_missing"
  by code_simp+

lemma fdinfo_tests:
  "test_parse_drm_fdinfo_amd" "test_parse_drm_fdinfo_intel" "test_parse_drm_fdinfo_no_pdev"
  "test_parse_memory_size_kib" "test_parse_memory_size_mib" "test_parse_memory_size_gib" "test_parse_memory_size_raw"
  by code_simp+

lemma collector_test: "test_collect_gpus_empty q"
  by (simp add: test_collect_gpus_empty_def collect_gpus_def known_addrs_def map_filter_simps Let_def)

end
