(* ===== verification/Daemon_Tests.thy ===== *)
theory Daemon_Tests
  imports Snapshot Commands Focus Test_Support Platforms
begin

text \<open>
  The unit tests of the daemon crate (\<open>snapshot.rs\<close>, \<open>table.rs\<close>, \<open>config.rs\<close>, \<open>logging.rs\<close>, \<open>tests/retention_integration.rs\<close>),
  of \<open>focus/linux/mod.rs\<close> and of \<open>collector/src/util.rs\<close> on the model.  A test that only prints passes when the printer does
  not panic.  Left out are the tests that parse TOML, which is a parameter, those of the channels of \<open>tokio\<close>, and two of a printer that cannot panic.
\<close>

section \<open>Snapshot tables\<close>

definition test_fmt_bytes_ranges :: bool where
  "test_fmt_bytes_ranges \<longleftrightarrow>
     contains_str ''B'' (fmt_bytes 0) \<and> contains_str ''B'' (fmt_bytes 512) \<and> contains_str ''KB'' (fmt_bytes 1024) \<and>
     contains_str ''MB'' (fmt_bytes 1048576) \<and> contains_str ''GB'' (fmt_bytes 1073741824)"

definition test_fmt_duration_ms_ranges :: bool where
  "test_fmt_duration_ms_ranges \<longleftrightarrow>
     contains_str ''ms'' (fmt_duration_ms 0) \<and> contains_str ''ms'' (fmt_duration_ms 500) \<and> contains_str ''s'' (fmt_duration_ms 1000) \<and>
     contains_str ''m'' (fmt_duration_ms 60000) \<and> contains_str ''h'' (fmt_duration_ms 3600000)"

definition test_print_disk_table_empty :: "(string, u64) hash_iter \<Rightarrow> bool" where
  "test_print_disk_table_empty iter \<longleftrightarrow> print_snapshot_table iter [] 5 \<noteq> None"

definition disk_of :: "string \<Rightarrow> u64 \<Rightarrow> u64 \<Rightarrow> MetricRecord" where
  "disk_of app rd wr =
     \<lparr> app_name = app, timestamp = 1000, payload = DskP \<lparr> read_bytes = rd, write_bytes = wr, mount_point = [] \<rparr> \<rparr>"

definition test_print_disk_table_sorting :: "(string, u64) hash_iter \<Rightarrow> bool" where
  "test_print_disk_table_sorting iter \<longleftrightarrow>
     print_snapshot_table iter [disk_of ''app_low'' 100 100, disk_of ''app_high'' 1000 1000] 5 \<noteq> None"

definition test_print_network_table_empty :: "(string, u64) hash_iter \<Rightarrow> bool" where
  "test_print_network_table_empty iter \<longleftrightarrow> print_snapshot_table iter [] 5 \<noteq> None"

definition test_print_cpu_table_empty :: "(string, u64) hash_iter \<Rightarrow> bool" where
  "test_print_cpu_table_empty iter \<longleftrightarrow> print_snapshot_table iter [] 5 \<noteq> None"

definition test_print_focus_table_empty :: "(string, u64) hash_iter \<Rightarrow> bool" where
  "test_print_focus_table_empty iter \<longleftrightarrow> print_snapshot_table iter [] 5 \<noteq> None"

definition test_print_gpu_table_empty :: "(string, u64) hash_iter \<Rightarrow> bool" where
  "test_print_gpu_table_empty iter \<longleftrightarrow> print_snapshot_table iter [] 5 \<noteq> None"

definition test_print_gpu_table_with_data :: "(string, u64) hash_iter \<Rightarrow> bool" where
  "test_print_gpu_table_with_data iter =
     (let records =
       [\<lparr> app_name = ''gpu:0'', timestamp = 1000, payload = GpuP
           \<lparr> gpu_index = 0, vendor = Nvidia, gpu_name = ''NVIDIA GeForce RTX 3090'', usage_percent = Some (lit F32 75.5),
             vram_used_bytes = Some (8 * 1024 * 1024 * 1024), vram_total_bytes = Some (24 * 1024 * 1024 * 1024),
             temperature_celsius = Some (Num 65), power_draw_watts = Some (Num 350), core_clock_mhz = Some 2400,
             memory_clock_mhz = Some 9000 \<rparr> \<rparr>,
        \<lparr> app_name = ''gpu:1'', timestamp = 1000, payload = GpuP
           \<lparr> gpu_index = 1, vendor = Amd, gpu_name = ''AMD Radeon RX 6900 XT'', usage_percent = Some (Num 50),
             vram_used_bytes = Some (4 * 1024 * 1024 * 1024), vram_total_bytes = Some (16 * 1024 * 1024 * 1024),
             temperature_celsius = Some (Num 60), power_draw_watts = Some (Num 250), core_clock_mhz = Some 2100,
             memory_clock_mhz = Some 8000 \<rparr> \<rparr>]
      in print_snapshot_table iter records 5 \<noteq> None)"

definition test_print_power_section_empty :: bool where
  "test_print_power_section_empty \<longleftrightarrow> print_power_section ''Plugged In'' ''plugged in'' [] \<noteq> None"

definition test_print_power_section_with_data :: bool where
  "test_print_power_section_with_data =
     (let stats =
       [\<lparr> aps_app_name = ''Firefox'', power_pct = lit F32 35.2, power_score = lit F32 10.5, on_battery = False,
          cpu_contribution = lit F32 0.25, gpu_contribution = fzero, display_contribution = lit F32 0.10,
          disk_contribution = lit F32 0.08, net_contribution = lit F32 0.02, mem_contribution = lit F32 0.05 \<rparr>,
        \<lparr> aps_app_name = ''VS Code'', power_pct = lit F32 22.1, power_score = lit F32 6.6, on_battery = False,
          cpu_contribution = lit F32 0.18, gpu_contribution = fzero, display_contribution = fzero,
          disk_contribution = lit F32 0.03, net_contribution = lit F32 0.01, mem_contribution = fzero \<rparr>]
      in print_power_section ''Plugged In'' ''plugged in'' stats \<noteq> None)"

definition test_table_config :: bool where
  "test_table_config =
     (let config = \<lparr> tc_title = ''Test Table (5s window)'', tc_columns = [(''App'', 28), (''Value'', 10)],
                     tc_total_width = 50, tc_header_width = 40 \<rparr>
      in tc_title config = ''Test Table (5s window)'' \<and> length (tc_columns config) = 2)"

section \<open>Configuration and log level\<close>

text \<open>The path of a file that does not exist: reading it is the error \<open>not_found\<close>.\<close>

definition test_load_or_default_missing_file :: "any_error \<Rightarrow> (string \<Rightarrow> any_error + DaemonConfig) \<Rightarrow> bool" where
  "test_load_or_default_missing_file not_found toml_from_str =
     (let config = load_or_default (\<lambda>_. Inl not_found) toml_from_str
                     ''/tmp/nonexistent-heimwatch-config-12345.toml''
      in raw_hours (tiered_retention config) = 24 \<and> t_cleanup_interval_hours (tiered_retention config) = 24)"

definition test_default_config :: bool where
  "test_default_config =
     (let config = tiered_retention DaemonConfig_default
      in raw_hours config = 24 \<and> daily_keep_days config = 31 \<and> t_cleanup_interval_hours config = 24 \<and>
         \<not> t_export_before_delete config)"

definition test_daemon_config_defaults :: bool where
  "test_daemon_config_defaults =
     (let config = tiered_retention DaemonConfig_default
      in raw_hours config = 24 \<and> daily_keep_days config = 31 \<and> t_cleanup_interval_hours config = 24 \<and>
         \<not> t_export_before_delete config)"

definition test_retention_config_retention_days_for :: bool where
  "test_retention_config_retention_days_for =
     (let config = RetentionConfig_default\<lparr> cpu_days := 10, net_days := 20 \<rparr>
      in retention_days_for config Cpu = 10 \<and> retention_days_for config Net = 20 \<and> retention_days_for config Pwr = 7)"

text \<open>On ASCII text, \<open>to_lowercase\<close> changes the letters from A to Z.\<close>

definition ascii_lower :: "string \<Rightarrow> string" where
  "ascii_lower =
     map (\<lambda>c. let n = of_char c :: nat in if 65 \<le> n \<and> n \<le> 90 then char_of (n + 32) else c)"

definition test_parse_level :: "(string \<Rightarrow> string) \<Rightarrow> bool" where
  "test_parse_level lower \<longleftrightarrow>
     parse_level lower ''debug'' = Inr Debug \<and> parse_level lower ''INFO'' = Inr Info \<and> parse_level lower ''trace'' = Inr Trace \<and>
     isl (parse_level lower ''invalid'')"

definition test_log_config_default :: bool where
  "test_log_config_default \<longleftrightarrow> level LogConfig_default = Info \<and> \<not> json_format LogConfig_default"

definition test_log_config_with_json :: bool where
  "test_log_config_with_json \<longleftrightarrow> json_format (with_json LogConfig_default True)"

section \<open>Names and focus events\<close>

definition test_flatpak_prefix_stripped :: bool where
  "test_flatpak_prefix_stripped \<longleftrightarrow> normalize_app_id (Some ''org.flatpak.Firefox'') = ''Firefox''"

definition test_snap_prefix_stripped :: bool where
  "test_snap_prefix_stripped \<longleftrightarrow> normalize_app_id (Some ''snap.firefox.firefox'') = ''firefox''"

definition test_plain_id_unchanged :: bool where
  "test_plain_id_unchanged \<longleftrightarrow> normalize_app_id (Some ''code'') = ''code''"

definition test_empty_string_becomes_unknown :: bool where
  "test_empty_string_becomes_unknown \<longleftrightarrow> normalize_app_id (Some []) = ''Unknown''"

definition test_none_becomes_unknown :: bool where
  "test_none_becomes_unknown \<longleftrightarrow> normalize_app_id None = ''Unknown''"

definition test_org_gnome_not_stripped :: bool where
  "test_org_gnome_not_stripped \<longleftrightarrow> normalize_app_id (Some ''org.gnome.Nautilus'') = ''org.gnome.Nautilus''"

fun focus_payload :: "MetricPayload \<Rightarrow> (string \<times> u64) option" where
  "focus_payload (FocP d) = Some (app_id d, duration_ms d)"
| "focus_payload _ = None"

definition test_create_focus_event_structure :: bool where
  "test_create_focus_event_structure =
     (let event = create_focus_event ''firefox'' 5000 1234567890
      in ev_app_name event = ''firefox'' \<and> ev_timestamp event = 1234567890 \<and> focus_payload (ev_payload event) = Some (''firefox'', 5000))"

definition test_create_focus_event_consistency :: bool where
  "test_create_focus_event_consistency =
     (let event1 = create_focus_event ''chrome'' 3000 999; event2 = create_focus_event ''chrome'' 3000 999
      in ev_app_name event1 = ev_app_name event2 \<and> ev_timestamp event1 = ev_timestamp event2 \<and>
         focus_payload (ev_payload event1) \<noteq> None \<and> focus_payload (ev_payload event1) = focus_payload (ev_payload event2))"

definition test_create_focus_event_with_different_apps :: bool where
  "test_create_focus_event_with_different_apps =
     (let firefox_event = create_focus_event ''firefox'' 1000 100; chrome_event = create_focus_event ''chrome'' 2000 200
      in ev_app_name firefox_event \<noteq> ev_app_name chrome_event \<and>
         map_option snd (focus_payload (ev_payload firefox_event)) = Some 1000 \<and>
         map_option snd (focus_payload (ev_payload chrome_event)) = Some 2000)"

section \<open>Command names\<close>

text \<open>The sixteen bytes of a command name, padded with zeros.\<close>

definition comm_of :: "string \<Rightarrow> comm" where
  "comm_of name = name @ replicate (16 - length name) (CHR 0x00)"

definition test_comm_to_string_valid :: bool where
  "test_comm_to_string_valid \<longleftrightarrow> comm_to_string (comm_of ''firefox'') = Some ''firefox''"

definition test_comm_to_string_empty :: bool where
  "test_comm_to_string_empty \<longleftrightarrow> comm_to_string (comm_of []) = None"

definition test_comm_to_string_truncated :: bool where
  "test_comm_to_string_truncated \<longleftrightarrow> comm_to_string ((comm_of ''python3.11'')[6 := CHR 0x00]) = Some ''python''"

section \<open>Running the tests\<close>

text \<open>A printed value contains its unit, whatever the digits are.\<close>

lemma contains_self: "contains_str p (p @ ys)"
  by (subst contains_str.simps) simp

lemma contains_end: "contains_str p (xs @ p @ ys)"
proof (induction xs)
  case Nil
  show ?case using contains_self by simp
qed simp

lemma contains_unit [simp]: "contains_str p (xs @ CHR '' '' # p)"
  using contains_end [of p "xs @ '' ''" "[]"] by simp

lemma unit_tests: "test_fmt_bytes_ranges" "test_fmt_duration_ms_ranges"
  by (simp_all only: test_fmt_bytes_ranges_def test_fmt_duration_ms_ranges_def fmt_bytes_def fmt_duration_ms_def)
    (simp_all del: contains_str.simps)

lemma empty_table_tests:
  "test_print_disk_table_empty iter" "test_print_network_table_empty iter" "test_print_cpu_table_empty iter"
  "test_print_focus_table_empty iter" "test_print_gpu_table_empty iter"
  by (simp_all add: test_print_disk_table_empty_def test_print_network_table_empty_def test_print_cpu_table_empty_def
      test_print_focus_table_empty_def test_print_gpu_table_empty_def print_snapshot_table_def)

lemma format_short: "length s \<le> n \<Longrightarrow> format_app_name s n = Some s"
  by (simp add: format_app_name_def slice_to_def is_char_boundary_def min_def)

lemma table_tests: "test_print_disk_table_sorting iter" "test_print_gpu_table_with_data iter" "test_table_config"
  by (simp_all add: test_print_disk_table_sorting_def disk_of_def test_print_gpu_table_with_data_def test_table_config_def
      print_snapshot_table_def tables_None print_gpu_table_def with_rows_None gpu_row_def format_short opt_append_None
      panics_on_def shown_name_def cuttable_def Let_def
      del: not_None_eq)

lemma power_section_tests: "test_print_power_section_empty" "test_print_power_section_with_data"
  by (simp_all add: test_print_power_section_empty_def test_print_power_section_with_data_def print_power_section_def
      with_rows_None power_row_def format_short Let_def del: not_None_eq)

lemma config_default_tests:
  "test_load_or_default_missing_file not_found toml_from_str" "test_default_config" "test_daemon_config_defaults"
  "test_retention_config_retention_days_for" "test_log_config_default" "test_log_config_with_json"
  by (simp_all add: test_load_or_default_missing_file_def test_default_config_def test_daemon_config_defaults_def
      test_retention_config_retention_days_for_def test_log_config_default_def test_log_config_with_json_def
      load_or_default_def config_load_def DaemonConfig_default_def TieredRetentionConfig_default_def RetentionConfig_default_def
      LogConfig_default_def with_json_def)

lemma level_test: "test_parse_level ascii_lower"
  by code_simp

lemma focus_name_tests:
  "test_flatpak_prefix_stripped" "test_snap_prefix_stripped" "test_plain_id_unchanged" "test_empty_string_becomes_unknown"
  "test_none_becomes_unknown" "test_org_gnome_not_stripped"
  by code_simp+

lemma comm_tests: "test_comm_to_string_valid" "test_comm_to_string_empty" "test_comm_to_string_truncated"
  by code_simp+

lemma focus_event_tests:
  "test_create_focus_event_structure" "test_create_focus_event_consistency" "test_create_focus_event_with_different_apps"
  by (simp_all add: test_create_focus_event_structure_def test_create_focus_event_consistency_def
      test_create_focus_event_with_different_apps_def create_focus_event_def)

end
