(* ===== verification/Spec2Isabelle.thy ===== *)
theory Spec2Isabelle
  imports Keys Power_Stats Gregorian Aggregation Storage_Props Cleanup Tiered_Cleanup Collector_Props Memory_Collector End_To_End Power_Collector Focus Gpu_Collector Snapshot Tui_View Commands Platforms Cleanup_Query Gpu_Scan Db_Tests Integration_Tests Gpu_Tests Daemon_Tests
begin

text \<open>
  A verification of the heimwatch resource monitor (\<open>src/\<close>, Rust).

  THE PROGRAM.  Probes in the Linux kernel count bytes and processor time per process name.
  Collectors poll these counters, \<open>/proc\<close>, \<open>/sys\<close>, the graphics cards and the focused window, and send
  events through a channel to the daemon, which stores each event as a JSON record in an embedded
  ordered database under a key made of type, time and application.  A background task aggregates old
  records into daily, monthly and yearly trees and deletes what it aggregated.  Queries rank
  applications by traffic, focus time and an estimate of their share of power.  A terminal interface
  and one-shot commands load and print the answers.

  THE THEORIES, in the order in which they build on each other (paths under \<open>src/crates\<close>; the prefix
  \<open>heimwatch-\<close> of a crate is left out):

  \<^item> Shared vocabulary.  \<open>Prelude\<close>: machine integers as words, results as sums, byte strings, decimal
    numbers, UTF-8, stable sorting.  \<open>Floats\<close>: \<open>f32\<close> and \<open>f64\<close> as exact rationals rounded once per
    operation.  \<open>Rust_Text\<close> and \<open>Rust_Format\<close>: the parts of the standard library for parsing and printing.
  \<^item> Data.  \<open>Metrics\<close>: \<open>core/metrics.rs\<close>.  \<open>Keys\<close>: \<open>storage/keys.rs\<close> and \<open>error.rs\<close>; the order of keys is the
    order of time, a range of keys is an interval of time, decoding inverts encoding but for two cases.
  \<^item> Calendar and aggregation (\<open>storage/aggregation.rs\<close>).  \<open>Buckets\<close>: days, months and years over the
    locale \<open>calendar\<close>, the interface to chrono.  \<open>Gregorian\<close>: an instance of it, defined from scratch.
    \<open>Aggregation\<close>: \<open>aggregate_records\<close>, every type; sums are conserved, averages stay between the extremes.
  \<^item> Storage (\<open>storage/db.rs\<close>, \<open>retention.rs\<close>).  \<open>Sled\<close>: the libraries as a record of operations, and the
    locale \<open>store\<close> of what they promise.  \<open>Records\<close>: trees as sorted lists of records.  \<open>Storage\<close>: inserts and
    queries.  \<open>Ref_Store\<close>: an instance of \<open>store\<close>.  \<open>Ranking\<close>: hash maps, the locale \<open>hash_order\<close>, first
    entries by score.  \<open>Storage_Props\<close>: what inserts and queries do on every store that keeps the promises.
    \<open>Retention\<close> and \<open>Cleanup\<close>: deletion by age, export before deletion.  \<open>Tiers\<close> and \<open>Tiered_Cleanup\<close>: the
    tiered cleanup refines four steps on record lists and conserves every additive quantity.
    \<open>Cleanup_Query\<close>: what a query of whole days adds up to is the same before and after a cleanup.
  \<^item> Power (\<open>storage/power_calc.rs\<close>, \<open>db.rs\<close>).  \<open>Power_Calc\<close>: scores and their normalisation, with the bounds
    of shares in floating point.  \<open>Power_Stats\<close>: which samples enter a score, and the ranking.
  \<^item> Kernel (\<open>src/bpf\<close>).  \<open>Probes\<close>: four probes over three BPF hash maps; the locale \<open>bpf_hash\<close> states what the
    kernel promises of a full map.  Counters grow, and processor time is conserved on one core.
  \<^item> Collectors (\<open>collector\<close>).  \<open>Collectors\<close>: processor, network, disk, their loops and the factory.
    \<open>Collector_Props\<close>: the locale \<open>delta_collector\<close>, interpreted three times; records telescope to the
    counters.  \<open>Memory_Collector\<close> (with \<open>core/process.rs\<close>), \<open>Power_Collector\<close>, \<open>Gpu_Collector\<close> (\<open>Gpu_Scan\<close>: its processes and
    their use), \<open>Focus\<close>: the collectors that read files, libraries and window events, each with what its records add up to.
  \<^item> Daemon (\<open>daemon\<close>).  \<open>Daemon\<close>: configuration, start-up, event loop, drain, cleanup task; it refines
    operations on the record lists.  \<open>Snapshot_Tables\<close> and \<open>Snapshot\<close>: the one-shot commands and their tables.
    \<open>End_To_End\<close>: kernel, collector, channel, daemon, store and query composed: what a process sends
    is what the query reports.  \<open>Fault_Store\<close>: the store over libraries that may fail at any call, in the
    locale \<open>fault_store\<close>, and the typing of the store that survives.  \<open>Shutdown\<close>: daemon, channel and
    collector tasks as the step relation \<open>sys_step\<close>; every schedule after Ctrl+C ends.  \<open>Test_Data\<close>: the
    demo records of \<open>test_data.rs\<close> over the locale \<open>random_source\<close>.  \<open>Commands\<close>: \<open>main.rs\<close>, its commands and their
    dispatch.  \<open>Platforms\<close>: the stubs of macOS and Windows, \<open>core/process.rs\<close> on macOS, the \<open>web\<close> crate.
  \<^item> Terminal interface (\<open>tui\<close>).  \<open>Tui_Data\<close>: loading.  \<open>Tui\<close>: state, handlers, and the loop as the step
    relation \<open>tui_step\<close>.  \<open>Tui_View\<close>: the widgets that are drawn.
  \<^item> Conformance: the tests that the repository has, translated assertion by assertion; the model passes them.
    \<open>Storage_Tests\<close>: the unit tests of \<open>keys.rs\<close>, \<open>aggregation.rs\<close> and \<open>power_calc.rs\<close>.  \<open>Db_Tests\<close> and
    \<open>Integration_Tests\<close>: those of \<open>db.rs\<close> and \<open>storage/tests\<close>, on every store that keeps its promises.
    \<open>Power_Tests\<close> and \<open>Gpu_Tests\<close>: those of \<open>power/linux.rs\<close> and \<open>gpu/linux\<close>, on mock directories.
    \<open>Daemon_Tests\<close>: those of the daemon, of \<open>focus/linux/mod.rs\<close> and of \<open>collector/src/util.rs\<close>.
    \<open>Test_Support\<close>: rules that compute \<open>f32\<close> and \<open>f64\<close> results exactly.  Left out are tests of
    \<open>serde_json\<close>, TOML and \<open>tokio\<close>, of plain arithmetic, of the running system, of exported files, of mock GPU backends, and of
    the tiered cleanup, which \<open>Tiered_Cleanup\<close> treats for all databases.

  STATE AND EFFECTS.  A struct is a record with the source's fields, an enum a datatype.  A method that
  changes \<open>self\<close> returns the new state.  Storage functions have the type \<open>('w, 'a) io\<close>: they take the world
  of the libraries and return a result or an error, with the world after it.  A panic is \<open>None\<close> where
  the code can reach one.  A hash map is an association list in insertion order, and every place that
  visits one takes the order as an argument.  Clock reads, file contents, hash orders, the answers of
  other processes and the acceptance of channel messages are arguments, one per read where a function
  reads more than once.

  HYPOTHESES.  The locale \<open>store\<close> says of sled and \<open>serde_json\<close> that operations on healthy stores succeed and
  act on ordered maps; \<open>fault_store\<close>, which is weaker, says that an operation acts as documented or leaves the trees
  alone, whatever it returns; \<open>random_source\<close> that a drawn number lies in its range; \<open>calendar\<close> says of chrono that dates are numbered days; \<open>bpf_hash\<close> that a map
  takes a new key exactly while it has room; \<open>hash_order\<close> that visiting a map permutes its
  entries; \<open>log2_law\<close> that \<open>f32::log2\<close> is not negative from 1 on and positive from 2 on.  Each is satisfied by a
  definition of this development.  Theorems on stored records assume that the JSON encoding of these
  records decodes back (\<open>roundtrips\<close>), because it fails for some values, such as NaN.

  INTERLEAVING.  The daemon's tasks share the store; one storage operation is one step, and the order of
  steps is an arbitrary list.  A round of the cleanup is one step, too, although it is many operations in the code, which events and
  the drain can fall between.  \<open>Shutdown\<close> adds the channel and the senders: one step is a send, a
  receipt, a round of the cleanup, the signal or the end of the loop.  The terminal interface is interleaved at its awaits: one step is a draw,
  one branch of \<open>select!\<close>, or the end of a background load.

  BOUNDS.  Integers have the width of the source and wrap as in a release build; where the source
  saturates, so does the model.  Lengths of Rust collections are natural numbers; counts that the code
  casts to a word carry the bound as a hypothesis.  No definition needs fuel: every loop is
  recursion over finite data, and the search of \<open>Gregorian\<close> has a measure.  The loops that wait for events are step
  relations; \<open>shutdown_terminates\<close> bounds the steps that are left after the signal.

  WHAT THE MAIN LEMMAS SHOW.  Preservation: \<open>tiered_cleanup_conserves\<close>, \<open>cleanup_keeps_query_totals\<close>, \<open>aggregate_conserves\<close>,
  \<open>cpu_time_conserved\<close>, \<open>network_end_to_end\<close>.  Refinement: \<open>query_refines_spec\<close>, \<open>tiered_cleanup_refines\<close>,
  \<open>daemon_refines_db\<close>.  Exact results: the \<open>_exact\<close> theorems of queries, cleanups and collectors.
  Invariants: \<open>probe_counters_invariant\<close>, \<open>tui_invariant\<close>.  Bounds: \<open>power_stats_ranges\<close>,
  \<open>power_record_ranges\<close>.  Types: \<open>stored_types_sound\<close>.  Safety: \<open>export_before_delete_complete\<close>,
  \<open>commands_read_only\<close>, \<open>unsupported_platform_idle\<close>.  Errors and ends: \<open>daemon_store_error\<close>, \<open>shutdown_terminates\<close>,
  \<open>network_loop_stops_on_error\<close>, \<open>snapshot_table_panics\<close>; \<open>tui_can_block\<close> shows
  that the terminal interface can hang on its own full channel.

  NOT MODELLED.  Log messages and counters that are only logged.  The parsing of the command line (clap)
  and the logger behind \<open>log\<close> (\<open>env_logger\<close>): the arguments and whether the logger starts are arguments.  The
  connections to Wayland and D-Bus, the layout and the escape sequences of the terminal, NVML, \<open>ps\<close> and the random
  generator, which are libraries or other processes: their answers are arguments.  That \<open>sort_by\<close>
  may panic on floats that are NaN.  The trait \<open>ServiceManager\<close> has no implementation in the source.  The build scripts.
\<close>

end
